(* ===== verification/Prelude.thy ===== *)
theory Prelude
  imports Main "HOL-Library.Word" "HOL-Library.Multiset" "HOL-Library.Monad_Syntax"
    "HOL-Library.List_Lexorder" "HOL-Library.Char_ord"
begin

text \<open>
  What every theory of the development shares: results of fallible Go functions as sums,
  the two's-complement wrap-around of Go's 64-bit integers written on \<open>int\<close>, and the
  generic facts on lists, options and maps that the components use. Go's \<open>int\<close>,
  \<open>int64\<close> and \<open>time.Duration\<close> are 64-bit signed integers; the model keeps them as
  \<open>int\<close> and applies \<open>wrap64\<close> wherever the source adds or multiplies values that
  nothing has range-checked before. Money amounts are kept as \<open>64 word\<close> (theory Shared).
\<close>

named_theorems interval_simps \<open>unfolding rules of the half-open interval operations\<close>
named_theorems time_simps \<open>unfolding rules of instants, durations and calendar dates\<close>
named_theorems lifecycle_simps \<open>unfolding rules of the state-changing operations of aggregates\<close>
named_theorems store_simps \<open>unfolding rules of the transactional stores\<close>

section \<open>Results\<close>

text \<open>A Go function returning \<open>(T, error)\<close> returns \<open>Inl\<close> the error or \<open>Inr\<close> the value.\<close>

type_synonym ('e, 'a) result = "'e + 'a"

definition is_ok :: "('e, 'a) result \<Rightarrow> bool" where
  "is_ok r = (case r of Inl _ \<Rightarrow> False | Inr _ \<Rightarrow> True)"

lemma is_ok_simps [simp]: "is_ok (Inr x)" "\<not> is_ok (Inl e)"
  by (simp_all add: is_ok_def)

lemma is_ok_iff: "is_ok r \<longleftrightarrow> (\<exists>x. r = Inr x)"
  by (cases r) simp_all

text \<open>A transaction either fails, and the state stays, or answers with the state it leaves.\<close>

definition commit :: "'s \<Rightarrow> ('e, 'a \<times> 's) result \<Rightarrow> ('e, 'a) result \<times> 's" where
  "commit s r = (case r of Inl e \<Rightarrow> (Inl e, s) | Inr (x, s') \<Rightarrow> (Inr x, s'))"

section \<open>64-bit arithmetic on int\<close>

definition min_int64 :: int where "min_int64 = - 9223372036854775808"
definition max_int64 :: int where "max_int64 = 9223372036854775807"

definition in_int64 :: "int \<Rightarrow> bool" where
  "in_int64 x \<longleftrightarrow> min_int64 \<le> x \<and> x \<le> max_int64"

text \<open>The value a 64-bit signed addition or multiplication leaves for the exact result \<open>x\<close>.\<close>

definition wrap64 :: "int \<Rightarrow> int" where
  "wrap64 x = (x + 9223372036854775808) mod 18446744073709551616 - 9223372036854775808"

lemma wrap64_in_range [simp]: "in_int64 (wrap64 x)"
proof -
  have "0 \<le> (x + 9223372036854775808) mod 18446744073709551616"
    "(x + 9223372036854775808) mod 18446744073709551616 < 18446744073709551616"
    by (rule pos_mod_sign, simp) (rule pos_mod_bound, simp)
  then show ?thesis by (simp add: in_int64_def min_int64_def max_int64_def wrap64_def)
qed

lemma wrap64_id: "in_int64 x \<Longrightarrow> wrap64 x = x"
  by (simp add: in_int64_def min_int64_def max_int64_def wrap64_def mod_pos_pos_trivial)

lemma wrap64_small: "\<bar>x\<bar> \<le> 9223372036854775807 \<Longrightarrow> wrap64 x = x"
  by (rule wrap64_id) (auto simp: in_int64_def min_int64_def max_int64_def)

lemma wrap64_add_wrap [simp]: "wrap64 (wrap64 x + y) = wrap64 (x + y)"
proof -
  have "(wrap64 x + y + 9223372036854775808) mod 18446744073709551616
    = ((x + 9223372036854775808) mod 18446744073709551616 + y) mod 18446744073709551616"
    by (simp add: wrap64_def)
  also have "\<dots> = (x + y + 9223372036854775808) mod 18446744073709551616"
    by (subst mod_add_left_eq) (simp add: ac_simps)
  finally show ?thesis by (simp add: wrap64_def)
qed

text \<open>Go's \<open>/\<close> and \<open>%\<close> truncate towards zero.\<close>

definition go_div :: "int \<Rightarrow> int \<Rightarrow> int" where
  "go_div a b = sgn a * sgn b * (\<bar>a\<bar> div \<bar>b\<bar>)"

definition go_mod :: "int \<Rightarrow> int \<Rightarrow> int" where
  "go_mod a b = a - go_div a b * b"

lemma go_div_nonneg: "0 \<le> a \<Longrightarrow> 0 < b \<Longrightarrow> go_div a b = a div b"
  by (cases "a = 0") (simp_all add: go_div_def)

lemma go_mod_nonneg: "0 \<le> a \<Longrightarrow> 0 < b \<Longrightarrow> go_mod a b = a mod b"
  by (simp add: go_mod_def go_div_nonneg minus_div_mult_eq_mod)

lemma go_div_mult: "b \<noteq> 0 \<Longrightarrow> go_div (b * k) b = k"
proof -
  assume "b \<noteq> 0"
  then have "\<bar>b * k\<bar> div \<bar>b\<bar> = \<bar>k\<bar>" by (simp add: abs_mult)
  moreover have "sgn (b * k) * sgn b = sgn k"
    using \<open>b \<noteq> 0\<close> sgn_mult_self_eq [of b] by (simp only: sgn_mult ac_simps) simp
  ultimately show ?thesis by (simp add: go_div_def sgn_mult_abs)
qed

lemma go_mod_eq_0_iff: "b \<noteq> 0 \<Longrightarrow> go_mod a b = 0 \<longleftrightarrow> b dvd a"
  by (metis go_div_mult go_mod_def dvdE dvd_triv_right eq_iff_diff_eq_0 mult.commute)

lemma le_div_iff_int:
  fixes k :: int
  assumes "0 < k"
  shows "n \<le> x div k \<longleftrightarrow> n * k \<le> x"
proof
  assume "n \<le> x div k"
  then have "n * k \<le> x div k * k" using assms by simp
  also have "\<dots> \<le> x" using assms pos_mod_sign [of k x] minus_div_mult_eq_mod [of x k] by linarith
  finally show "n * k \<le> x" .
next
  assume "n * k \<le> x"
  then have "n * k div k \<le> x div k" using assms by (rule zdiv_mono1)
  then show "n \<le> x div k" using assms by simp
qed

section \<open>Lists, options and maps\<close>

text \<open>\<open>slices.IndexFunc\<close> used to fetch the first match, and \<open>slices.Contains\<close>.\<close>

fun find_first :: "('a \<Rightarrow> bool) \<Rightarrow> 'a list \<Rightarrow> 'a option" where
  "find_first p [] = None"
| "find_first p (x # xs) = (if p x then Some x else find_first p xs)"

lemma find_first_Some: "find_first p xs = Some x \<Longrightarrow> x \<in> set xs \<and> p x"
  by (induction xs) (auto split: if_splits)

lemma find_first_None_iff: "find_first p xs = None \<longleftrightarrow> (\<forall>x \<in> set xs. \<not> p x)"
  by (induction xs) auto

lemma find_first_append: "find_first P (xs @ ys) = (case find_first P xs of None \<Rightarrow> find_first P ys | Some x \<Rightarrow> Some x)"
  by (induction xs) simp_all

lemma find_first_is_Some: "x \<in> set xs \<Longrightarrow> p x \<Longrightarrow> \<exists>y. find_first p xs = Some y"
  by (induction xs) auto

text \<open>The loop over a slice that returns early: a fallible left fold.\<close>

fun fold_result :: "('s \<Rightarrow> 'a \<Rightarrow> ('e, 's) result) \<Rightarrow> 's \<Rightarrow> 'a list \<Rightarrow> ('e, 's) result" where
  "fold_result f s [] = Inr s"
| "fold_result f s (x # xs) = (case f s x of Inl e \<Rightarrow> Inl e | Inr s' \<Rightarrow> fold_result f s' xs)"

lemma fold_result_invariant:
  assumes keep: "\<And>s x s'. P s \<Longrightarrow> x \<in> set xs \<Longrightarrow> f s x = Inr s' \<Longrightarrow> P s'"
  shows "fold_result f s xs = Inr t \<Longrightarrow> P s \<Longrightarrow> P t"
  using keep
proof (induction xs arbitrary: s)
  case Nil
  then show ?case by simp
next
  case (Cons x xs)
  show ?case
  proof (cases "f s x")
    case (Inl e)
    then show ?thesis using Cons.prems(1) by simp
  next
    case (Inr s')
    show ?thesis
    proof (rule Cons.IH)
      show "fold_result f s' xs = Inr t" using Cons.prems(1) Inr by simp
      show "P s'" using Cons.prems(3) [OF Cons.prems(2) list.set_intros(1) Inr] .
      show "\<And>s y s'. P s \<Longrightarrow> y \<in> set xs \<Longrightarrow> f s y = Inr s' \<Longrightarrow> P s'"
        using Cons.prems(3) by (meson list.set_intros(2))
    qed
  qed
qed

text \<open>The loop that converts every element of a slice and stops at the first error.\<close>

fun each :: "('a \<Rightarrow> ('e, 'b) result) \<Rightarrow> 'a list \<Rightarrow> ('e, 'b list) result" where
  "each f [] = Inr []"
| "each f (x # xs) =
     (case f x of Inl e \<Rightarrow> Inl e
      | Inr y \<Rightarrow> (case each f xs of Inl e \<Rightarrow> Inl e | Inr ys \<Rightarrow> Inr (y # ys)))"

lemma each_Inr: "each f xs = Inr ys \<Longrightarrow> y \<in> set ys \<Longrightarrow> \<exists>x \<in> set xs. f x = Inr y"
  by (induction xs arbitrary: ys) (auto split: sum.splits)

lemma each_ok: "(\<And>x. x \<in> set xs \<Longrightarrow> \<exists>y. f x = Inr y) \<Longrightarrow> \<exists>ys. each f xs = Inr ys"
proof (induction xs)
  case (Cons x xs)
  then obtain y ys where "f x = Inr y" "each f xs = Inr ys" by (metis list.set_intros)
  then show ?case by simp
qed simp

lemma each_map: "(\<And>x. x \<in> set xs \<Longrightarrow> f x = Inr (g x)) \<Longrightarrow> each f xs = Inr (map g xs)"
  by (induction xs) simp_all

lemma each_list_all2: "each f xs = Inr ys \<Longrightarrow> list_all2 (\<lambda>x y. f x = Inr y) xs ys"
  by (induction xs arbitrary: ys) (auto split: sum.splits)

text \<open>A map built by assigning in a loop: later entries win.\<close>

definition map_of_last :: "('k \<times> 'v) list \<Rightarrow> 'k \<Rightarrow> 'v option" where
  "map_of_last xs = map_of (rev xs)"

lemma map_of_last_Some_in: "map_of_last xs k = Some v \<Longrightarrow> (k, v) \<in> set xs"
  by (auto simp: map_of_last_def dest: map_of_SomeD)

lemma map_of_last_None_iff: "map_of_last xs k = None \<longleftrightarrow> k \<notin> fst ` set xs"
  by (simp add: map_of_last_def map_of_eq_None_iff)

lemma map_of_last_distinct:
  "distinct (map fst xs) \<Longrightarrow> (k, v) \<in> set xs \<Longrightarrow> map_of_last xs k = Some v"
  by (simp add: map_of_last_def map_of_eq_Some_iff rev_map [symmetric])

text \<open>\<open>sorted_wrt\<close> of a list extended at its end, the shape an appending loop produces.\<close>

lemma sorted_wrt_snoc:
  "sorted_wrt P (xs @ [x]) \<longleftrightarrow> sorted_wrt P xs \<and> (\<forall>y \<in> set xs. P y x)"
  by (auto simp: sorted_wrt_append)

lemma snoc_cases_last: "xs \<noteq> [] \<Longrightarrow> \<exists>ys y. xs = ys @ [y]"
  by (metis append_butlast_last_id)

section \<open>Systems of steps\<close>

text \<open>
  What a component that only changes by steps promises its clients: an invariant that every step
  keeps, and a relation between an earlier and a later state that every step satisfies. Both then
  hold along every run.
\<close>

locale invariant_system =
  fixes step :: "'s \<Rightarrow> 's \<Rightarrow> bool"
    and inv :: "'s \<Rightarrow> bool"
  assumes step_inv: "step s t \<Longrightarrow> inv s \<Longrightarrow> inv t"
begin

lemma steps_inv: "step\<^sup>*\<^sup>* s t \<Longrightarrow> inv s \<Longrightarrow> inv t"
  by (induction rule: rtranclp_induct) (auto intro: step_inv)

end

locale monotone_system = invariant_system +
  fixes rel :: "'s \<Rightarrow> 's \<Rightarrow> bool"
  assumes rel_refl: "rel s s"
    and rel_trans: "rel s t \<Longrightarrow> rel t u \<Longrightarrow> rel s u"
    and step_rel: "step s t \<Longrightarrow> inv s \<Longrightarrow> rel s t"
begin

lemma steps_rel:
  assumes "step\<^sup>*\<^sup>* s t" "inv s"
  shows "rel s t"
  using assms
proof (induction rule: rtranclp_induct)
  case base
  then show ?case by (simp add: rel_refl)
next
  case (step t u)
  then show ?case using steps_inv [OF step(1)] step_rel rel_trans by blast
qed

end

end
