(* ===== verification/GoTime.thy ===== *)
theory GoTime
  imports Prelude
begin

text \<open>
  The part of Go's \<open>time\<close> package the program uses. An instant (\<open>time.Time\<close>) is the
  number of nanoseconds since the Unix epoch, whatever its location: the program compares,
  adds and stores instants and reads calendar fields only after \<open>In(loc)\<close>. A duration is
  a number of nanoseconds; \<open>Sub\<close> saturates at the 64-bit range as Go's does. A location is
  what the time-zone database answers for a Unix second: the offset in force and the range
  of seconds it holds for. \<open>go_date\<close> follows \<open>time.Date\<close>: month overflow moves the year,
  every other field is added on, and the zone offset is looked up once, or twice near a
  transition. The last section proves that calendar dates and day numbers convert both ways.
\<close>

section \<open>Instants and durations\<close>

type_synonym gotime = int
type_synonym duration = int

definition second :: duration where [time_simps]: "second = 1000000000"
definition minute :: duration where [time_simps]: "minute = 60000000000"
definition hour :: duration where [time_simps]: "hour = 3600000000000"
definition microsecond :: duration where [time_simps]: "microsecond = 1000"

text \<open>The zero \<open>time.Time\<close> is midnight on 1 January of the year 1, UTC.\<close>

definition zero_time :: gotime where [time_simps]: "zero_time = - 62135596800000000000"

definition time_add :: "gotime \<Rightarrow> duration \<Rightarrow> gotime" where [time_simps]: "time_add t d = t + d"

definition time_sub :: "gotime \<Rightarrow> gotime \<Rightarrow> duration" where
  "time_sub t u = max min_int64 (min max_int64 (t - u))"

definition time_truncate :: "gotime \<Rightarrow> duration \<Rightarrow> gotime" where
  "time_truncate t d = (if d \<le> 0 then t else t - t mod d)"

text \<open>An instant as PostgreSQL keeps it: to the microsecond.\<close>

definition db_time :: "gotime \<Rightarrow> gotime" where
  "db_time t = time_truncate t microsecond"

lemma time_sub_pos_iff: "0 < time_sub t u \<longleftrightarrow> u < t"
  by (auto simp: time_sub_def min_int64_def max_int64_def)

lemma time_sub_exact: "in_int64 (t - u) \<Longrightarrow> time_sub t u = t - u"
  by (simp add: time_sub_def in_int64_def)

lemma time_sub_gt_iff: "0 \<le> d \<Longrightarrow> d < max_int64 \<Longrightarrow> d < time_sub t u \<longleftrightarrow> d < t - u"
  by (auto simp: time_sub_def min_int64_def max_int64_def)

lemma db_time_le: "db_time t \<le> t"
  by (simp add: db_time_def time_truncate_def microsecond_def)

lemma db_time_gt: "t - 1000 < db_time t"
  by (simp add: db_time_def time_truncate_def microsecond_def)

lemma db_time_mono: "t \<le> u \<Longrightarrow> db_time t \<le> db_time u"
proof -
  assume "t \<le> u"
  then have "t div 1000 * 1000 \<le> u div 1000 * 1000" by (simp add: zdiv_mono1)
  then show ?thesis
    by (simp add: db_time_def time_truncate_def microsecond_def minus_mod_eq_div_mult)
qed

lemma db_time_shift: "d mod 1000 = 0 \<Longrightarrow> db_time (t + d) = db_time t + d"
proof -
  assume "d mod 1000 = 0"
  then have "(t + d) mod 1000 = t mod 1000" by (metis add.right_neutral mod_add_right_eq)
  then show ?thesis by (simp add: db_time_def time_truncate_def microsecond_def)
qed

lemma db_time_idem [simp]: "db_time (db_time t) = db_time t"
  by (simp add: db_time_def time_truncate_def microsecond_def minus_mod_eq_div_mult)

section \<open>The proleptic Gregorian calendar\<close>

definition leap_year :: "int \<Rightarrow> bool" where
  "leap_year y \<longleftrightarrow> y mod 4 = 0 \<and> (y mod 100 \<noteq> 0 \<or> y mod 400 = 0)"

text \<open>Days from 1 January of the year 1 to 1 January of the year \<open>y\<close>.\<close>

definition days_before_year :: "int \<Rightarrow> int" where
  "days_before_year y = 365 * (y - 1) + (y - 1) div 4 - (y - 1) div 100 + (y - 1) div 400"

definition days_before_month :: "bool \<Rightarrow> int \<Rightarrow> int" where
  "days_before_month leap m =
     [0, 31, 59, 90, 120, 151, 181, 212, 243, 273, 304, 334] ! nat (m - 1)
     + (if leap \<and> 2 < m then 1 else 0)"

definition days_in_month :: "bool \<Rightarrow> int \<Rightarrow> int" where
  "days_in_month leap m =
     (if m = 2 then (if leap then 29 else 28)
      else if m = 4 \<or> m = 6 \<or> m = 9 \<or> m = 11 then 30 else 31)"

text \<open>The day number, counted from 1 January 1970, of a date whose month is 1 to 12.\<close>

definition days_of_civil :: "int \<Rightarrow> int \<Rightarrow> int \<Rightarrow> int" where
  "days_of_civil y m d =
     days_before_year y + days_before_month (leap_year y) m + (d - 1) - 719162"

definition month_of_yday :: "bool \<Rightarrow> int \<Rightarrow> int" where
  "month_of_yday leap n =
     (let b = days_before_month leap in
      if n < b 2 then 1 else if n < b 3 then 2 else if n < b 4 then 3 else if n < b 5 then 4
      else if n < b 6 then 5 else if n < b 7 then 6 else if n < b 8 then 7 else if n < b 9 then 8
      else if n < b 10 then 9 else if n < b 11 then 10 else if n < b 12 then 11 else 12)"

text \<open>
  The year of day \<open>z\<close> counted from 1 January of the year 1: whole 400-year cycles, then
  centuries, four-year cycles and years; the last century of a cycle and the last year of
  four are a day longer, which the subtraction of a quarter accounts for.
\<close>

definition year_of_days :: "int \<Rightarrow> int" where
  "year_of_days z =
     (let n400 = z div 146097; r0 = z mod 146097;
          c = r0 div 36524; n100 = c - c div 4; r1 = r0 - 36524 * n100;
          n4 = r1 div 1461; r2 = r1 - 1461 * n4;
          y = r2 div 365; n1 = y - y div 4
      in 400 * n400 + 100 * n100 + 4 * n4 + n1 + 1)"

definition civil_of_days :: "int \<Rightarrow> int \<times> int \<times> int" where
  "civil_of_days n =
     (let z = n + 719162; y = year_of_days z; yday = z - days_before_year y;
          m = month_of_yday (leap_year y) yday
      in (y, m, yday - days_before_month (leap_year y) m + 1))"

definition valid_civil :: "int \<Rightarrow> int \<Rightarrow> int \<Rightarrow> bool" where
  "valid_civil y m d \<longleftrightarrow> 1 \<le> m \<and> m \<le> 12 \<and> 1 \<le> d \<and> d \<le> days_in_month (leap_year y) m"

section \<open>Locations, \<open>time.Date\<close> and calendar fields\<close>

record zone =
  z_offset :: int
  z_from :: int
  z_to :: int

type_synonym location = "int \<Rightarrow> zone"

definition fixed_zone :: "int \<Rightarrow> location" where
  "fixed_zone off s = \<lparr>z_offset = off, z_from = min_int64, z_to = max_int64\<rparr>"

definition utc :: location where "utc = fixed_zone 0"

text \<open>Asia/Riyadh has kept UTC+3 since 1947.\<close>

definition riyadh :: location where "riyadh = fixed_zone 10800"

definition unix_sec :: "gotime \<Rightarrow> int" where "unix_sec t = t div 1000000000"

definition local_sec :: "location \<Rightarrow> gotime \<Rightarrow> int" where
  "local_sec loc t = unix_sec t + z_offset (loc (unix_sec t))"

definition to_utc :: "location \<Rightarrow> int \<Rightarrow> int" where
  "to_utc loc u =
     (let z = loc u in
      if z_offset z = 0 then u
      else let t = u - z_offset z in
        if t < z_from z \<or> z_to z \<le> t then u - z_offset (loc t) else t)"

definition norm_month :: "int \<Rightarrow> int \<Rightarrow> int \<times> int" where
  "norm_month y m = (y + (m - 1) div 12, (m - 1) mod 12 + 1)"

text \<open>\<open>time.Date(y, m, d, h, mi, s, 0, loc)\<close>.\<close>

definition go_date :: "int \<Rightarrow> int \<Rightarrow> int \<Rightarrow> int \<Rightarrow> int \<Rightarrow> int \<Rightarrow> location \<Rightarrow> gotime" where
  "go_date y m d h mi s loc =
     (let (y', m') = norm_month y m;
          u = days_of_civil y' m' d * 86400 + h * 3600 + mi * 60 + s
      in to_utc loc u * 1000000000)"

definition local_days :: "location \<Rightarrow> gotime \<Rightarrow> int" where
  "local_days loc t = local_sec loc t div 86400"

text \<open>The calendar fields of \<open>t.In(loc)\<close>.\<close>

definition civil_date :: "location \<Rightarrow> gotime \<Rightarrow> int \<times> int \<times> int" where
  "civil_date loc t = civil_of_days (local_days loc t)"

definition clock_hour :: "location \<Rightarrow> gotime \<Rightarrow> int" where
  "clock_hour loc t = local_sec loc t mod 86400 div 3600"

definition clock_minute :: "location \<Rightarrow> gotime \<Rightarrow> int" where
  "clock_minute loc t = local_sec loc t mod 3600 div 60"

definition clock_second :: "location \<Rightarrow> gotime \<Rightarrow> int" where
  "clock_second loc t = local_sec loc t mod 60"

definition clock_nanosecond :: "gotime \<Rightarrow> int" where
  "clock_nanosecond t = t mod 1000000000"

text \<open>0 is Sunday; 1 January 1970 was a Thursday.\<close>

definition weekday_of_days :: "int \<Rightarrow> int" where
  "weekday_of_days n = (n + 4) mod 7"

lemma to_utc_fixed [simp]: "to_utc (fixed_zone off) u = u - off"
  by (simp add: to_utc_def fixed_zone_def Let_def)

lemma to_utc_utc [simp]: "to_utc utc u = u"
  by (simp add: utc_def)

lemma norm_month_id: "1 \<le> m \<Longrightarrow> m \<le> 12 \<Longrightarrow> norm_month y m = (y, m)"
  by (simp add: norm_month_def)

section \<open>Calendar dates and day numbers convert both ways\<close>

lemma div_pred_step:
  fixes k :: int assumes "0 < k"
  shows "x div k = (x - 1) div k + (if x mod k = 0 then 1 else 0)"
proof (cases "x mod k = 0")
  case True
  then obtain q where x: "x = k * q" by (metis mod_eq_0_iff_dvd dvd_def)
  have "(k * q - 1) div k = q - 1"
    by (rule int_div_pos_eq [of _ _ _ "k - 1"]) (use assms in \<open>simp_all add: algebra_simps\<close>)
  with True assms show ?thesis by (simp add: x)
next
  case False
  have "0 \<le> x mod k" "x mod k < k" using assms by simp_all
  then have "(x - 1) div k = x div k"
    using False by (intro int_div_pos_eq [of _ _ _ "x mod k - 1"]) (simp_all add: algebra_simps)
  with False show ?thesis by simp
qed

lemma leap_count:
  fixes y :: int
  assumes "p4 = q4 + (if A then 1 else 0)" "p100 = q100 + (if B then 1 else 0)"
    "p400 = q400 + (if C then 1 else 0)" "C \<Longrightarrow> B" "B \<Longrightarrow> A"
  shows "365 * y + p4 - p100 + p400
    = 365 * (y - 1) + q4 - q100 + q400 + (if A \<and> (\<not> B \<or> C) then 366 else 365)"
  using assms by (cases A; cases B; cases C) auto

lemma days_before_year_Suc:
  "days_before_year (y + 1) = days_before_year y + (if leap_year y then 366 else 365)"
proof -
  have "y mod 400 = 0 \<Longrightarrow> y mod 100 = 0" "y mod 100 = 0 \<Longrightarrow> y mod 4 = 0"
    by presburger+
  then show ?thesis
    unfolding days_before_year_def leap_year_def add_diff_cancel_right'
    by (intro leap_count div_pred_step) simp_all
qed

lemma days_before_year_cycles:
  assumes "0 \<le> b" "b \<le> 3" "0 \<le> c" "c \<le> 24" "0 \<le> d" "d \<le> 3"
  shows "days_before_year (400 * a + 100 * b + 4 * c + d + 1)
    = 146097 * a + 36524 * b + 1461 * c + 365 * d"
proof -
  have "(400 * a + 100 * b + 4 * c + d) div 4 = 100 * a + 25 * b + c"
    using assms by (intro int_div_pos_eq [of _ _ _ d]) auto
  moreover have "(400 * a + 100 * b + 4 * c + d) div 100 = 4 * a + b"
    using assms by (intro int_div_pos_eq [of _ _ _ "4 * c + d"]) auto
  moreover have "(400 * a + 100 * b + 4 * c + d) div 400 = a"
    using assms by (intro int_div_pos_eq [of _ _ _ "100 * b + 4 * c + d"]) auto
  ultimately show ?thesis by (simp add: days_before_year_def)
qed

lemma leap_year_cycles:
  assumes "0 \<le> b" "b \<le> 3" "0 \<le> c" "c \<le> 24" "d = 3" "c \<noteq> 24 \<or> b = (3::int)"
  shows "leap_year (400 * a + 100 * b + 4 * c + d + 1)"
proof -
  have "(400 * a + 100 * b + 4 * c + d + 1) mod 4 = 0" using assms by presburger
  moreover have "(400 * a + 100 * b + 4 * c + d + 1) mod 100 = 4 * c + 4 \<or> b = 3 \<and> c = 24"
    using assms by (intro disjCI int_mod_pos_eq [of _ _ "4 * a + b"]) auto
  moreover have "b = 3 \<and> c = 24 \<Longrightarrow> (400 * a + 100 * b + 4 * c + d + 1) mod 400 = 0"
    using assms by simp
  ultimately show ?thesis using assms by (auto simp: leap_year_def)
qed

lemma quarters:
  fixes k r :: int
  assumes "0 < k" "0 \<le> r" "r \<le> 4 * k"
  defines "n \<equiv> r div k - r div k div 4"
  shows "0 \<le> n" "n \<le> 3" "k * n \<le> r" "r < k * n + k \<or> n = 3 \<and> r = 4 * k"
proof -
  define q where "q = r div k"
  define m where "m = r mod k"
  have r: "r = k * q + m" "0 \<le> m" "m < k" using assms by (simp_all add: q_def m_def)
  have "0 \<le> q" "q \<le> 4"
    using assms zdiv_mono1 [of r "4 * k" k] by (simp_all add: q_def pos_imp_zdiv_nonneg_iff)
  then have "q = 0 \<or> q = 1 \<or> q = 2 \<or> q = 3 \<or> q = 4" by linarith
  then show "0 \<le> n" "n \<le> 3" "k * n \<le> r" "r < k * n + k \<or> n = 3 \<and> r = 4 * k"
    using r assms unfolding n_def q_def [symmetric] by auto
qed

lemma year_of_days_bounds:
  "days_before_year (year_of_days z) \<le> z \<and> z < days_before_year (year_of_days z + 1)"
proof -
  define a where "a = z div 146097"
  define r0 where "r0 = z mod 146097"
  define b where "b = r0 div 36524 - r0 div 36524 div 4"
  define r1 where "r1 = r0 - 36524 * b"
  define c where "c = r1 div 1461"
  define r2 where "r2 = r1 - 1461 * c"
  define d where "d = r2 div 365 - r2 div 365 div 4"
  define y where "y = 400 * a + 100 * b + 4 * c + d + 1"
  have y: "year_of_days z = y"
    by (simp add: year_of_days_def Let_def a_def r0_def b_def r1_def c_def r2_def d_def y_def)
  have z: "z = 146097 * a + r0" by (simp add: a_def r0_def)
  have r0: "0 \<le> r0" "r0 \<le> 146096" by (simp_all add: r0_def)
  have b: "0 \<le> b" "b \<le> 3" "0 \<le> r1" "r1 \<le> (if b = 3 then 36524 else 36523)"
    using quarters [of 36524 r0] r0 unfolding r1_def b_def by auto
  have c: "0 \<le> c" "c \<le> 24" "0 \<le> r2" "r2 \<le> 1460" "c = 24 \<Longrightarrow> b \<noteq> 3 \<Longrightarrow> r2 \<le> 1459"
    using b(3,4) unfolding r2_def c_def by (simp_all split: if_splits)
  have d: "0 \<le> d" "d \<le> 3" "365 * d \<le> r2" "r2 \<le> 365 * d + (if d = 3 \<and> r2 = 1460 then 365 else 364)"
    using quarters [of 365 r2] c(3,4) unfolding d_def by auto
  have dby: "days_before_year y = 146097 * a + 36524 * b + 1461 * c + 365 * d"
    unfolding y_def by (rule days_before_year_cycles) (use b c d in auto)
  have "leap_year y \<or> r2 \<noteq> 1460 \<or> d \<noteq> 3"
    using leap_year_cycles [of b c d a] b c unfolding y_def by linarith
  then show ?thesis
    using b c d z unfolding y days_before_year_Suc dby
    by (auto simp: r1_def r2_def split: if_splits)
qed

lemma days_before_year_mono: "y < y' \<Longrightarrow> days_before_year (y + 1) \<le> days_before_year y'"
proof -
  have "days_before_year (y + 1) \<le> days_before_year (y + 1 + int n)" for n
  proof (induction n)
    case (Suc n)
    show ?case
      using Suc.IH days_before_year_Suc [of "y + 1 + int n"] by (simp add: ac_simps split: if_splits)
  qed simp
  from this [of "nat (y' - y - 1)"] show "y < y' \<Longrightarrow> ?thesis" by simp
qed

lemma year_of_days_unique:
  assumes "days_before_year y \<le> z" "z < days_before_year (y + 1)"
  shows "year_of_days z = y"
  using assms year_of_days_bounds [of z] days_before_year_mono [of y "year_of_days z"]
    days_before_year_mono [of "year_of_days z" y]
  by (cases "year_of_days z" y rule: linorder_cases) auto

lemma month_of_yday_cases:
  fixes n :: int and leap :: bool
  defines "m \<equiv> month_of_yday leap n" and "b \<equiv> days_before_month leap"
  shows "m = 1 \<and> n < b 2 \<or> m = 2 \<and> b 2 \<le> n \<and> n < b 3 \<or> m = 3 \<and> b 3 \<le> n \<and> n < b 4
    \<or> m = 4 \<and> b 4 \<le> n \<and> n < b 5 \<or> m = 5 \<and> b 5 \<le> n \<and> n < b 6 \<or> m = 6 \<and> b 6 \<le> n \<and> n < b 7
    \<or> m = 7 \<and> b 7 \<le> n \<and> n < b 8 \<or> m = 8 \<and> b 8 \<le> n \<and> n < b 9 \<or> m = 9 \<and> b 9 \<le> n \<and> n < b 10
    \<or> m = 10 \<and> b 10 \<le> n \<and> n < b 11 \<or> m = 11 \<and> b 11 \<le> n \<and> n < b 12 \<or> m = 12 \<and> b 12 \<le> n"
  unfolding m_def b_def month_of_yday_def Let_def by auto

lemma month_of_yday_bounds:
  assumes "0 \<le> n" "n < (if leap then 366 else 365)"
  shows "1 \<le> month_of_yday leap n \<and> month_of_yday leap n \<le> 12
    \<and> days_before_month leap (month_of_yday leap n) \<le> n
    \<and> n < days_before_month leap (month_of_yday leap n) + days_in_month leap (month_of_yday leap n)"
  using month_of_yday_cases [of leap n] assms
  by (elim disjE) (auto simp: days_before_month_def days_in_month_def split: if_splits)

lemma month_cases:
  "1 \<le> m \<Longrightarrow> m \<le> 12 \<Longrightarrow>
    m \<in> {1, 2, 3, 4, 5, 6, 7, 8, 9, 10, 11, 12 :: int}"
  unfolding insert_iff empty_iff by presburger

lemma month_of_yday_unique:
  assumes "1 \<le> m" "m \<le> 12" "1 \<le> d" "d \<le> days_in_month leap m"
  shows "month_of_yday leap (days_before_month leap m + (d - 1)) = m"
  using month_cases [OF assms(1,2)] assms(3,4)
  by (cases leap) (auto simp: month_of_yday_def days_before_month_def days_in_month_def Let_def)

lemma yday_bounds:
  assumes "1 \<le> m" "m \<le> 12" "1 \<le> d" "d \<le> days_in_month leap m"
  shows "0 \<le> days_before_month leap m + (d - 1)
    \<and> days_before_month leap m + (d - 1) < (if leap then 366 else 365)"
  using month_cases [OF assms(1,2)] assms(3,4)
  by (cases leap) (auto simp: days_before_month_def days_in_month_def)

lemma civil_of_days_of_civil:
  assumes "valid_civil y m d"
  shows "civil_of_days (days_of_civil y m d) = (y, m, d)"
proof -
  let ?l = "leap_year y" and ?n = "days_before_month (leap_year y) m + (d - 1)"
  have n: "0 \<le> ?n \<and> ?n < (if ?l then 366 else 365)"
    using assms by (intro yday_bounds) (auto simp: valid_civil_def)
  have "year_of_days (days_of_civil y m d + 719162) = y"
    using n by (intro year_of_days_unique) (auto simp: days_of_civil_def days_before_year_Suc split: if_splits)
  moreover have "days_of_civil y m d + 719162 - days_before_year y = ?n"
    by (simp add: days_of_civil_def)
  moreover have "month_of_yday ?l ?n = m"
    using assms by (intro month_of_yday_unique) (auto simp: valid_civil_def)
  ultimately show ?thesis
    unfolding civil_of_days_def Let_def by (simp only:) simp
qed

lemma days_of_civil_of_days:
  "(case civil_of_days n of (y, m, d) \<Rightarrow> valid_civil y m d \<and> days_of_civil y m d = n)"
proof -
  let ?z = "n + 719162" and ?y = "year_of_days (n + 719162)"
  have "0 \<le> ?z - days_before_year ?y \<and> ?z - days_before_year ?y < (if leap_year ?y then 366 else 365)"
    using year_of_days_bounds [of ?z] by (auto simp: days_before_year_Suc split: if_splits)
  then have "let m = month_of_yday (leap_year ?y) (?z - days_before_year ?y) in
    1 \<le> m \<and> m \<le> 12 \<and> days_before_month (leap_year ?y) m \<le> ?z - days_before_year ?y
    \<and> ?z - days_before_year ?y < days_before_month (leap_year ?y) m + days_in_month (leap_year ?y) m"
    unfolding Let_def by (intro month_of_yday_bounds) auto
  then show ?thesis
    by (simp add: civil_of_days_def valid_civil_def days_of_civil_def Let_def)
qed

lemma civil_of_days_inj: "civil_of_days n = civil_of_days n' \<Longrightarrow> n = n'"
  using days_of_civil_of_days [of n] days_of_civil_of_days [of n'] by (auto split: prod.splits)

lemma days_of_civil_add: "days_of_civil y m (d + k) = days_of_civil y m d + k"
  by (simp add: days_of_civil_def)

lemma local_sec_fixed [simp]: "local_sec (fixed_zone off) t = unix_sec t + off"
  by (simp add: local_sec_def fixed_zone_def)

lemma go_date_fixed:
  assumes "1 \<le> m" "m \<le> 12"
  shows "go_date y m d h mi s (fixed_zone off)
    = (days_of_civil y m d * 86400 + h * 3600 + mi * 60 + s - off) * 1000000000"
  using assms by (simp add: go_date_def norm_month_id)

lemma go_date_utc:
  assumes "1 \<le> m" "m \<le> 12"
  shows "go_date y m d h mi s utc
    = (days_of_civil y m d * 86400 + h * 3600 + mi * 60 + s) * 1000000000"
  using go_date_fixed [OF assms, of y d h mi s 0] by (simp add: utc_def)

lemma local_days_midnight_utc [simp]: "local_days utc (n * 86400 * 1000000000) = n"
  by (simp add: local_days_def utc_def unix_sec_def)

end
