(* ===== verification/GoText.thy ===== *)
theory GoText
  imports Prelude
begin

text \<open>
  What the program uses of Go's text library. A Go string is a sequence of bytes, here a
  \<open>string\<close> (one \<open>char\<close> per byte); ranging over it decodes UTF-8, and a byte that does not
  start a well-formed sequence yields U+FFFD with width 1. \<open>runes\<close> lists the runes of a
  string with the bytes each was read from, \<open>trim_space\<close> is \<open>strings.TrimSpace\<close> and
  \<open>rune_count\<close> is \<open>utf8.RuneCountInString\<close>. \<open>fmt_d\<close> is the verb \<open>%d\<close> with zero padding.
\<close>

section \<open>UTF-8\<close>

abbreviation byte :: "char \<Rightarrow> int" where "byte c \<equiv> of_char c"

definition rune_error :: int where "rune_error = 65533"

text \<open>
  For a leading byte: how many continuation bytes follow, the range allowed for the first of
  them, and what to subtract from the leading byte.
\<close>

definition utf8_lead :: "int \<Rightarrow> (nat \<times> int \<times> int \<times> int) option" where
  "utf8_lead b =
     (if 194 \<le> b \<and> b \<le> 223 then Some (1, 128, 191, 192)
      else if b = 224 then Some (2, 160, 191, 224)
      else if b = 237 then Some (2, 128, 159, 224)
      else if 225 \<le> b \<and> b \<le> 239 then Some (2, 128, 191, 224)
      else if b = 240 then Some (3, 144, 191, 240)
      else if 241 \<le> b \<and> b \<le> 243 then Some (3, 128, 191, 240)
      else if b = 244 then Some (3, 128, 143, 240)
      else None)"

text \<open>The rune at the head of \<open>c # cs\<close> and how many bytes of \<open>cs\<close> belong to it.\<close>

definition decode_rune :: "char \<Rightarrow> string \<Rightarrow> int \<times> nat" where
  "decode_rune c cs =
     (if byte c < 128 then (byte c, 0)
      else case utf8_lead (byte c) of None \<Rightarrow> (rune_error, 0)
      | Some (n, lo, hi, base) \<Rightarrow>
          let more = map byte (take n cs) in
          if length more = n \<and> lo \<le> hd more \<and> hd more \<le> hi
             \<and> list_all (\<lambda>x. 128 \<le> x \<and> x \<le> 191) (tl more)
          then (foldl (\<lambda>a x. a * 64 + (x - 128)) (byte c - base) more, n)
          else (rune_error, 0))"

fun runes :: "string \<Rightarrow> (int \<times> string) list" where
  "runes [] = []"
| "runes (c # cs) =
     (case decode_rune c cs of (r, n) \<Rightarrow> (r, c # take n cs) # runes (drop n cs))"

definition rune_count :: "string \<Rightarrow> int" where
  "rune_count s = int (length (runes s))"

definition is_space :: "int \<Rightarrow> bool" where
  "is_space r \<longleftrightarrow> (9 \<le> r \<and> r \<le> 13) \<or> r = 32 \<or> r = 133 \<or> r = 160 \<or> r = 5760
     \<or> (8192 \<le> r \<and> r \<le> 8202) \<or> r = 8232 \<or> r = 8233 \<or> r = 8239 \<or> r = 8287 \<or> r = 12288"

definition trim_space :: "string \<Rightarrow> string" where
  "trim_space s =
     concat (map snd (rev (dropWhile (is_space \<circ> fst) (rev (dropWhile (is_space \<circ> fst) (runes s))))))"

lemma concat_runes [simp]: "concat (map snd (runes s)) = s"
  by (induction s rule: runes.induct) (auto split: prod.splits)

lemma runes_eq_Nil_iff [simp]: "runes s = [] \<longleftrightarrow> s = []"
  by (cases s) (auto split: prod.splits)

lemma rune_count_le_length: "rune_count s \<le> int (length s)"
proof -
  have "length (runes s) \<le> length s"
    by (induction s rule: runes.induct) (auto split: prod.splits simp: length_drop)
  then show ?thesis by (simp add: rune_count_def)
qed

lemma runes_ascii: "\<forall>c \<in> set s. byte c < 128 \<Longrightarrow> runes s = map (\<lambda>c. (byte c, [c])) s"
  by (induction s) (simp_all add: decode_rune_def)

lemma rune_count_ascii: "\<forall>c \<in> set s. byte c < 128 \<Longrightarrow> rune_count s = int (length s)"
  by (simp add: rune_count_def runes_ascii)

lemma dropWhile_id: "(xs \<noteq> [] \<Longrightarrow> \<not> P (hd xs)) \<Longrightarrow> dropWhile P xs = xs"
  by (cases xs) simp_all

lemma trim_space_no_space:
  assumes "\<forall>x \<in> set (runes s). \<not> is_space (fst x)"
  shows "trim_space s = s"
proof -
  have d: "dropWhile (is_space \<circ> fst) xs = xs" if "set xs \<subseteq> set (runes s)" for xs
    using that assms by (intro dropWhile_id) (metis comp_apply hd_in_set subsetD)
  show ?thesis by (simp add: trim_space_def d)
qed

text \<open>Cutting a text between two runes leaves the runes as they were, so trimming twice is trimming once.\<close>

lemma decode_rune_length: "decode_rune c cs = (r, n) \<Longrightarrow> n \<le> length cs"
  by (auto simp: decode_rune_def Let_def split: if_splits option.splits)

lemma decode_rune_prefix:
  assumes "decode_rune c (u @ w) = (r, n)" "n \<le> length u"
  shows "decode_rune c u = (r, n)"
proof (cases "utf8_lead (byte c)")
  case None
  then show ?thesis using assms by (simp add: decode_rune_def split: if_splits)
next
  case (Some x)
  obtain k lo hi base where x: "x = (k, lo, hi, base)" by (cases x)
  have "take k (u @ w) = take k u" if "k \<le> length u" using that by simp
  then show ?thesis using assms Some x by (cases "k \<le> length u") (auto simp: decode_rune_def Let_def split: if_splits)
qed

lemma runes_prefix: "runes s = xs @ ys \<Longrightarrow> runes (concat (map snd xs)) = xs"
proof (induction xs arbitrary: s)
  case (Cons x xs)
  obtain c cs where s: "s = c # cs" using Cons.prems by (cases s) auto
  obtain r n where d: "decode_rune c cs = (r, n)" by fastforce
  have x: "x = (r, c # take n cs)" and xs: "runes (drop n cs) = xs @ ys" using Cons.prems by (auto simp: s d)
  have "drop n cs = concat (map snd xs) @ concat (map snd ys)" using concat_runes [of "drop n cs"] by (simp add: xs)
  then have cs: "cs = (take n cs @ concat (map snd xs)) @ concat (map snd ys)" by (metis append_assoc append_take_drop_id)
  have n: "length (take n cs) = n" using decode_rune_length [OF d] by simp
  have "decode_rune c (take n cs @ concat (map snd xs)) = (r, n)"
    by (rule decode_rune_prefix [of _ _ "concat (map snd ys)"]) (use d cs n in simp_all)
  then show ?case using Cons.IH [OF xs] n by (simp add: x)
qed simp

lemma runes_suffix: "runes s = xs @ ys \<Longrightarrow> runes (concat (map snd ys)) = ys"
proof (induction xs arbitrary: s)
  case Nil
  then show ?case using concat_runes [of s] by simp
next
  case (Cons x xs)
  obtain c cs where s: "s = c # cs" using Cons.prems by (cases s) auto
  then show ?case using Cons by (auto split: prod.splits)
qed

lemma dropWhile_rev_split: "\<exists>zs. xs = rev (dropWhile P (rev xs)) @ zs"
  by (metis rev_append rev_rev_ident takeWhile_dropWhile_id)

lemma trim_space_idem [simp]: "trim_space (trim_space s) = trim_space s"
proof -
  let ?P = "is_space \<circ> fst"
  let ?l = "dropWhile ?P (runes s)" and ?m = "rev (dropWhile ?P (rev (dropWhile ?P (runes s))))"
  have "runes s = takeWhile ?P (runes s) @ ?l" by simp
  then have "runes (concat (map snd ?l)) = ?l" by (rule runes_suffix)
  moreover obtain zs where "?l = ?m @ zs" using dropWhile_rev_split by blast
  ultimately have "runes (concat (map snd ?m)) = ?m" by (metis runes_prefix)
  then have r: "runes (trim_space s) = ?m" by (simp add: trim_space_def)
  have "dropWhile ?P ?m = ?m"
  proof (rule dropWhile_id)
    assume "?m \<noteq> []"
    then have "hd ?m = hd ?l" using \<open>?l = ?m @ zs\<close> by (metis hd_append2)
    moreover have "?l \<noteq> []" using \<open>?m \<noteq> []\<close> by (metis dropWhile.simps(1) rev.simps(1))
    ultimately show "\<not> ?P (hd ?m)" using hd_dropWhile [of ?P "runes s"] by simp
  qed
  moreover have "dropWhile ?P (rev ?m) = rev ?m" by (simp add: dropWhile_idem)
  ultimately show ?thesis by (simp add: trim_space_def [of "trim_space s"] r) (simp add: trim_space_def)
qed

section \<open>Decimal printing\<close>

fun dec_digits :: "nat \<Rightarrow> string" where
  "dec_digits n =
     (if n < 10 then [char_of (48 + n)] else dec_digits (n div 10) @ [char_of (48 + n mod 10)])"

declare dec_digits.simps [simp del]

definition pad_left :: "nat \<Rightarrow> string \<Rightarrow> string" where
  "pad_left w s = replicate (w - length s) (CHR ''0'') @ s"

text \<open>\<open>%0wd\<close>: the sign counts towards the width.\<close>

definition fmt_d :: "nat \<Rightarrow> int \<Rightarrow> string" where
  "fmt_d w i =
     (if i < 0 then CHR ''-'' # pad_left (w - 1) (dec_digits (nat (- i)))
      else pad_left w (dec_digits (nat i)))"

definition dec_value :: "string \<Rightarrow> nat" where
  "dec_value s = foldl (\<lambda>a c. 10 * a + (of_char c - 48)) 0 s"

lemma dec_value_snoc: "dec_value (s @ [c]) = 10 * dec_value s + (of_char c - 48)"
  by (simp add: dec_value_def)

lemma dec_value_digits [simp]: "dec_value (dec_digits n) = n"
proof (induction n rule: dec_digits.induct)
  case (1 n)
  show ?case
  proof (cases "n < 10")
    case True
    then show ?thesis by (subst dec_digits.simps) (simp add: dec_value_def)
  next
    case False
    have m: "48 + n mod 10 < 256" using mod_less_divisor [of 10 n] by linarith
    have "dec_digits n = dec_digits (n div 10) @ [char_of (48 + n mod 10)]"
      using False by (subst dec_digits.simps) simp
    then show ?thesis using 1 [OF False] m by (simp add: dec_value_snoc)
  qed
qed

lemma dec_value_pad [simp]: "dec_value (pad_left w s) = dec_value s"
proof -
  have "foldl (\<lambda>a c. 10 * a + (of_char c - 48)) 0 (replicate k (CHR ''0'')) = (0::nat)" for k
    by (induction k) simp_all
  then show ?thesis by (simp add: dec_value_def pad_left_def)
qed

lemma dec_digits_ascii: "c \<in> set (dec_digits n) \<Longrightarrow> 48 \<le> (of_char c :: nat) \<and> of_char c \<le> (57 :: nat)"
proof (induction n arbitrary: c rule: dec_digits.induct)
  case (1 n)
  have m: "48 + n mod 10 < 256" "48 + n mod 10 \<le> 57" using mod_less_divisor [of 10 n] by linarith+
  show ?case
  proof (cases "n < 10")
    case True
    then show ?thesis using 1(2) by (subst (asm) dec_digits.simps) simp
  next
    case False
    have "c \<in> set (dec_digits (n div 10)) \<or> c = char_of (48 + n mod 10)"
      using 1(2) False by (subst (asm) dec_digits.simps) auto
    then show ?thesis using 1(1) [OF False] m by auto
  qed
qed

lemma pad_left_inject:
  assumes "pad_left w (dec_digits m) = pad_left w (dec_digits n)"
  shows "m = n"
  using arg_cong [OF assms, of dec_value] by simp

end
