(* ===== verification/Shared.thy ===== *)
theory Shared
  imports GoText Complex_Main
begin

text \<open>
  \<open>internal/shared\<close>, the value types every module uses: identifiers (\<open>id.go\<close>), money
  (\<open>money.go\<close>), Saudi phone numbers (\<open>phone.go\<close>, \<open>digits.go\<close>), localized text
  (\<open>localized.go\<close>), coordinates (\<open>geo.go\<close>) and the fixed lists of cities and service
  categories (\<open>city.go\<close>, \<open>category.go\<close>). Intervals are in theory Interval. UUIDs come from
  a third-party package: their text form is a parameter wherever it is used.
\<close>

datatype shared_error =
    ErrInvalidID | ErrUnsupportedCurrency | ErrCurrencyMismatch | ErrMoneyOverflow
  | ErrInvalidPhoneNumber | ErrArabicRequired | ErrInvalidCoordinates
  | ErrUnknownCity | ErrUnknownCategory

section \<open>Identifiers\<close>

type_synonym uuid = "128 word"

definition uuid_Nil :: uuid where "uuid_Nil = 0"

text \<open>The marker type only keeps identifiers of different things apart.\<close>

datatype 'tag id = ID (id_value: uuid)

datatype UserTag = UserTag
datatype BusinessTag = BusinessTag
datatype BranchTag = BranchTag
datatype StaffTag = StaffTag
datatype MediaTag = MediaTag
datatype ServiceTag = ServiceTag
datatype AppointmentTag = AppointmentTag

type_synonym UserID = "UserTag id"
type_synonym BusinessID = "BusinessTag id"
type_synonym BranchID = "BranchTag id"
type_synonym StaffID = "StaffTag id"
type_synonym MediaID = "MediaTag id"
type_synonym ServiceID = "ServiceTag id"
type_synonym AppointmentID = "AppointmentTag id"

definition ParseID :: "(string \<Rightarrow> uuid option) \<Rightarrow> string \<Rightarrow> (shared_error, 'tag id) result" where
  "ParseID uuid_Parse s =
     (case uuid_Parse s of None \<Rightarrow> Inl ErrInvalidID
      | Some u \<Rightarrow> if u = uuid_Nil then Inl ErrInvalidID else Inr (ID u))"

definition IDFromUUID :: "uuid \<Rightarrow> 'tag id" where "IDFromUUID u = ID u"

definition ID_IsZero :: "'tag id \<Rightarrow> bool" where "ID_IsZero i \<longleftrightarrow> id_value i = uuid_Nil"

definition UnmarshalText ::
  "(string \<Rightarrow> uuid option) \<Rightarrow> 'tag id \<Rightarrow> string \<Rightarrow> shared_error option \<times> 'tag id" where
  "UnmarshalText uuid_Parse i b =
     (case ParseID uuid_Parse b of Inl e \<Rightarrow> (Some e, i) | Inr parsed \<Rightarrow> (None, parsed))"

lemma id_value_inject [simp]: "id_value a = id_value b \<longleftrightarrow> a = b"
  by (cases a; cases b) simp

section \<open>Money\<close>

type_synonym int64 = "64 word"

definition MaxInt64 :: int64 where "MaxInt64 = 0x7FFFFFFFFFFFFFFF"
definition MinInt64 :: int64 where "MinInt64 = 0x8000000000000000"

definition int64_div :: "int64 \<Rightarrow> int64 \<Rightarrow> int64" where
  "int64_div a b = word_of_int (go_div (sint a) (sint b))"

definition int64_mod :: "int64 \<Rightarrow> int64 \<Rightarrow> int64" where
  "int64_mod a b = word_of_int (go_mod (sint a) (sint b))"

type_synonym Currency = string

definition SAR :: Currency where "SAR = ''SAR''"

definition minorPerMajor :: "Currency \<Rightarrow> int64 option" where
  "minorPerMajor = [SAR \<mapsto> 100]"

record Money =
  m_amount :: int64
  m_currency :: Currency

definition NewMoney :: "int64 \<Rightarrow> Currency \<Rightarrow> (shared_error, Money) result" where
  "NewMoney amount currency =
     (if minorPerMajor currency = None then Inl ErrUnsupportedCurrency
      else Inr \<lparr>m_amount = amount, m_currency = currency\<rparr>)"

definition Halalas :: "int64 \<Rightarrow> Money" where
  "Halalas amount = \<lparr>m_amount = amount, m_currency = SAR\<rparr>"

definition Money_IsNegative :: "Money \<Rightarrow> bool" where
  "Money_IsNegative m \<longleftrightarrow> sint (m_amount m) < 0"

definition Money_Add :: "Money \<Rightarrow> Money \<Rightarrow> (shared_error, Money) result" where
  "Money_Add m o' =
     (if m_currency m \<noteq> m_currency o' then Inl ErrCurrencyMismatch
      else if (0 < sint (m_amount o') \<and> sint (MaxInt64 - m_amount o') < sint (m_amount m))
           \<or> (sint (m_amount o') < 0 \<and> sint (m_amount m) < sint (MinInt64 - m_amount o'))
      then Inl ErrMoneyOverflow
      else Inr \<lparr>m_amount = m_amount m + m_amount o', m_currency = m_currency m\<rparr>)"

definition Money_Multiply :: "Money \<Rightarrow> int64 \<Rightarrow> (shared_error, Money) result" where
  "Money_Multiply m n =
     (let product = m_amount m * n in
      if m_amount m \<noteq> 0
         \<and> (int64_div product (m_amount m) \<noteq> n \<or> (m_amount m = - 1 \<and> n = MinInt64))
      then Inl ErrMoneyOverflow
      else Inr \<lparr>m_amount = product, m_currency = m_currency m\<rparr>)"

definition Money_String :: "Money \<Rightarrow> string" where
  "Money_String m =
     (case minorPerMajor (m_currency m) of
        None \<Rightarrow> fmt_d 0 (sint (m_amount m)) @ '' '' @ m_currency m
      | Some per \<Rightarrow>
          let whole = int64_div (m_amount m) per; frac = int64_mod (m_amount m) per;
              neg = sint (m_amount m) < 0
          in (if neg then ''-'' else []) @ fmt_d 0 (sint (if neg then - whole else whole))
             @ ''.'' @ fmt_d 2 (sint (if neg then - frac else frac)) @ '' '' @ m_currency m)"

section \<open>Digits and phone numbers\<close>

definition WesternDigit :: "int \<Rightarrow> int option" where
  "WesternDigit r =
     (if 48 \<le> r \<and> r \<le> 57 then Some r
      else if 1632 \<le> r \<and> r \<le> 1641 then Some (48 + (r - 1632))
      else if 1776 \<le> r \<and> r \<le> 1785 then Some (48 + (r - 1776))
      else None)"

definition maxPhoneInput :: nat where "maxPhoneInput = 64"

record PhoneNumber =
  e164 :: string

text \<open>The characters of the literal handed to \<open>strings.ContainsRune\<close>.\<close>

definition phone_separator :: "int \<Rightarrow> bool" where
  "phone_separator r \<longleftrightarrow> r \<in> {32, 45, 46, 40, 41, 160}"

text \<open>The loop over the runes; the flag says whether the byte index is 0.\<close>

fun phone_scan :: "bool \<Rightarrow> string \<Rightarrow> bool \<Rightarrow> (int \<times> string) list \<Rightarrow> (string \<times> bool) option" where
  "phone_scan at0 digits has_plus [] = Some (digits, has_plus)"
| "phone_scan at0 digits has_plus ((r, b) # rs) =
     (case WesternDigit r of
        Some d \<Rightarrow> phone_scan False (digits @ [char_of d]) has_plus rs
      | None \<Rightarrow>
          if r = 43 \<and> at0 then phone_scan False digits True rs
          else if phone_separator r then phone_scan False digits has_plus rs
          else None)"

definition saudiNational :: "string \<Rightarrow> bool \<Rightarrow> string option" where
  "saudiNational d has_plus =
     (let d' = (if has_plus then (if take 3 d = ''966'' then Some (drop 3 d) else None)
                else if take 5 d = ''00966'' then Some (drop 5 d)
                else if take 3 d = ''966'' \<and> 12 \<le> length d then Some (drop 3 d)
                else Some d)
      in case d' of None \<Rightarrow> None
         | Some d \<Rightarrow>
             let d = (if length d = 10 \<and> d ! 0 = CHR ''0'' then drop 1 d else d) in
             if length d \<noteq> 9 \<or> d ! 0 \<noteq> CHR ''5'' then None else Some d)"

definition NewPhoneNumber :: "string \<Rightarrow> (shared_error, PhoneNumber) result" where
  "NewPhoneNumber raw =
     (if maxPhoneInput < length raw then Inl ErrInvalidPhoneNumber
      else case phone_scan True [] False (runes (trim_space raw)) of
        None \<Rightarrow> Inl ErrInvalidPhoneNumber
      | Some (digits, has_plus) \<Rightarrow>
          (case saudiNational digits has_plus of
             None \<Rightarrow> Inl ErrInvalidPhoneNumber
           | Some national \<Rightarrow> Inr \<lparr>e164 = ''+966'' @ national\<rparr>))"

definition Phone_IsZero :: "PhoneNumber \<Rightarrow> bool" where "Phone_IsZero p \<longleftrightarrow> e164 p = []"

text \<open>A bullet is the three bytes E2 80 A2.\<close>

definition bullets :: string where
  "bullets = concat (replicate 5 [CHR 0xE2, CHR 0x80, CHR 0xA2])"

definition Masked :: "PhoneNumber \<Rightarrow> string" where
  "Masked p =
     (if Phone_IsZero p then []
      else take 5 (e164 p) @ bullets @ drop (length (e164 p) - 3) (e164 p))"

section \<open>Localized text\<close>

datatype Language = Arabic | English

text \<open>
  \<open>strings.ToLower\<close> as \<open>ParseLanguage\<close> observes it: no other rune has \<open>e\<close>, \<open>n\<close> or \<open>-\<close> as
  its lower case.
\<close>

definition to_lower_ascii :: "char \<Rightarrow> char" where
  "to_lower_ascii c = (if 65 \<le> byte c \<and> byte c \<le> 90 then char_of (byte c + 32) else c)"

definition ParseLanguage :: "string \<Rightarrow> Language" where
  "ParseLanguage tag =
     (let primary = takeWhile (\<lambda>c. c \<noteq> CHR ''-'') (map to_lower_ascii (trim_space tag)) in
      if primary = ''en'' then English else Arabic)"

record LocalizedText =
  lt_ar :: string
  lt_en :: string

definition NewLocalizedText :: "string \<Rightarrow> string \<Rightarrow> (shared_error, LocalizedText) result" where
  "NewLocalizedText ar en =
     (let ar = trim_space ar; en = trim_space en in
      if ar = [] then Inl ErrArabicRequired else Inr \<lparr>lt_ar = ar, lt_en = en\<rparr>)"

definition In_lang :: "LocalizedText \<Rightarrow> Language \<Rightarrow> string" where
  "In_lang t lang = (if lang = English \<and> lt_en t \<noteq> [] then lt_en t else lt_ar t)"

section \<open>Coordinates\<close>

text \<open>A double is NaN, an infinity or a rational.\<close>

datatype float64 = NaN | PosInf | NegInf | Fin rat

definition isFinite :: "float64 \<Rightarrow> bool" where
  "isFinite f = (case f of Fin _ \<Rightarrow> True | _ \<Rightarrow> False)"

fun float_less :: "float64 \<Rightarrow> float64 \<Rightarrow> bool" where
  "float_less NaN _ = False"
| "float_less _ NaN = False"
| "float_less (Fin a) (Fin b) = (a < b)"
| "float_less NegInf b = (b \<noteq> NegInf)"
| "float_less a PosInf = (a \<noteq> PosInf)"
| "float_less _ _ = False"

record GeoPoint =
  geo_lat :: float64
  geo_lng :: float64

definition NewGeoPoint :: "float64 \<Rightarrow> float64 \<Rightarrow> (shared_error, GeoPoint) result" where
  "NewGeoPoint lat lng =
     (if \<not> isFinite lat \<or> \<not> isFinite lng \<or> float_less lat (Fin (- 90)) \<or> float_less (Fin 90) lat
         \<or> float_less lng (Fin (- 180)) \<or> float_less (Fin 180) lng
      then Inl ErrInvalidCoordinates else Inr \<lparr>geo_lat = lat, geo_lng = lng\<rparr>)"

section \<open>Cities and categories\<close>

record City =
  city_code :: string
  city_name :: LocalizedText

definition city :: "string \<Rightarrow> string \<Rightarrow> string \<Rightarrow> City" where
  "city code ar en = \<lparr>city_code = code, city_name = \<lparr>lt_ar = ar, lt_en = en\<rparr>\<rparr>"

definition cities :: "City list" where
  "cities = [
    city ''riyadh'' [CHR 0xD8, CHR 0xA7, CHR 0xD9, CHR 0x84, CHR 0xD8, CHR 0xB1, CHR
      0xD9, CHR 0x8A, CHR 0xD8, CHR 0xA7, CHR 0xD8, CHR 0xB6] ''Riyadh'',
    city ''jeddah'' [CHR 0xD8, CHR 0xAC, CHR 0xD8, CHR 0xAF, CHR 0xD8, CHR 0xA9]
      ''Jeddah'',
    city ''makkah'' [CHR 0xD9, CHR 0x85, CHR 0xD9, CHR 0x83, CHR 0xD8, CHR 0xA9, CHR
      0x20, CHR 0xD8, CHR 0xA7, CHR 0xD9, CHR 0x84, CHR 0xD9, CHR 0x85, CHR 0xD9, CHR
      0x83, CHR 0xD8, CHR 0xB1, CHR 0xD9, CHR 0x85, CHR 0xD8, CHR 0xA9] ''Makkah'',
    city ''madinah'' [CHR 0xD8, CHR 0xA7, CHR 0xD9, CHR 0x84, CHR 0xD9, CHR 0x85, CHR
      0xD8, CHR 0xAF, CHR 0xD9, CHR 0x8A, CHR 0xD9, CHR 0x86, CHR 0xD8, CHR 0xA9, CHR
      0x20, CHR 0xD8, CHR 0xA7, CHR 0xD9, CHR 0x84, CHR 0xD9, CHR 0x85, CHR 0xD9, CHR
      0x86, CHR 0xD9, CHR 0x88, CHR 0xD8, CHR 0xB1, CHR 0xD8, CHR 0xA9] ''Madinah'',
    city ''dammam'' [CHR 0xD8, CHR 0xA7, CHR 0xD9, CHR 0x84, CHR 0xD8, CHR 0xAF, CHR
      0xD9, CHR 0x85, CHR 0xD8, CHR 0xA7, CHR 0xD9, CHR 0x85] ''Dammam'',
    city ''al_khobar'' [CHR 0xD8, CHR 0xA7, CHR 0xD9, CHR 0x84, CHR 0xD8, CHR 0xAE, CHR
      0xD8, CHR 0xA8, CHR 0xD8, CHR 0xB1] ''Al Khobar'',
    city ''dhahran'' [CHR 0xD8, CHR 0xA7, CHR 0xD9, CHR 0x84, CHR 0xD8, CHR 0xB8, CHR
      0xD9, CHR 0x87, CHR 0xD8, CHR 0xB1, CHR 0xD8, CHR 0xA7, CHR 0xD9, CHR 0x86]
      ''Dhahran'',
    city ''al_ahsa'' [CHR 0xD8, CHR 0xA7, CHR 0xD9, CHR 0x84, CHR 0xD8, CHR 0xA3, CHR
      0xD8, CHR 0xAD, CHR 0xD8, CHR 0xB3, CHR 0xD8, CHR 0xA7, CHR 0xD8, CHR 0xA1] ''Al
      Ahsa'',
    city ''qatif'' [CHR 0xD8, CHR 0xA7, CHR 0xD9, CHR 0x84, CHR 0xD9, CHR 0x82, CHR
      0xD8, CHR 0xB7, CHR 0xD9, CHR 0x8A, CHR 0xD9, CHR 0x81] ''Qatif'',
    city ''jubail'' [CHR 0xD8, CHR 0xA7, CHR 0xD9, CHR 0x84, CHR 0xD8, CHR 0xAC, CHR
      0xD8, CHR 0xA8, CHR 0xD9, CHR 0x8A, CHR 0xD9, CHR 0x84] ''Jubail'',
    city ''taif'' [CHR 0xD8, CHR 0xA7, CHR 0xD9, CHR 0x84, CHR 0xD8, CHR 0xB7, CHR
      0xD8, CHR 0xA7, CHR 0xD8, CHR 0xA6, CHR 0xD9, CHR 0x81] ''Taif'',
    city ''tabuk'' [CHR 0xD8, CHR 0xAA, CHR 0xD8, CHR 0xA8, CHR 0xD9, CHR 0x88, CHR
      0xD9, CHR 0x83] ''Tabuk'',
    city ''buraydah'' [CHR 0xD8, CHR 0xA8, CHR 0xD8, CHR 0xB1, CHR 0xD9, CHR 0x8A, CHR
      0xD8, CHR 0xAF, CHR 0xD8, CHR 0xA9] ''Buraydah'',
    city ''unaizah'' [CHR 0xD8, CHR 0xB9, CHR 0xD9, CHR 0x86, CHR 0xD9, CHR 0x8A, CHR
      0xD8, CHR 0xB2, CHR 0xD8, CHR 0xA9] ''Unaizah'',
    city ''hail'' [CHR 0xD8, CHR 0xAD, CHR 0xD8, CHR 0xA7, CHR 0xD8, CHR 0xA6, CHR
      0xD9, CHR 0x84] ''Hail'',
    city ''abha'' [CHR 0xD8, CHR 0xA3, CHR 0xD8, CHR 0xA8, CHR 0xD9, CHR 0x87, CHR
      0xD8, CHR 0xA7] ''Abha'',
    city ''khamis_mushait'' [CHR 0xD8, CHR 0xAE, CHR 0xD9, CHR 0x85, CHR 0xD9, CHR
      0x8A, CHR 0xD8, CHR 0xB3, CHR 0x20, CHR 0xD9, CHR 0x85, CHR 0xD8, CHR 0xB4, CHR
      0xD9, CHR 0x8A, CHR 0xD8, CHR 0xB7] ''Khamis Mushait'',
    city ''jazan'' [CHR 0xD8, CHR 0xAC, CHR 0xD8, CHR 0xA7, CHR 0xD8, CHR 0xB2, CHR
      0xD8, CHR 0xA7, CHR 0xD9, CHR 0x86] ''Jazan'',
    city ''najran'' [CHR 0xD9, CHR 0x86, CHR 0xD8, CHR 0xAC, CHR 0xD8, CHR 0xB1, CHR
      0xD8, CHR 0xA7, CHR 0xD9, CHR 0x86] ''Najran'',
    city ''al_baha'' [CHR 0xD8, CHR 0xA7, CHR 0xD9, CHR 0x84, CHR 0xD8, CHR 0xA8, CHR
      0xD8, CHR 0xA7, CHR 0xD8, CHR 0xAD, CHR 0xD8, CHR 0xA9] ''Al Baha'',
    city ''yanbu'' [CHR 0xD9, CHR 0x8A, CHR 0xD9, CHR 0x86, CHR 0xD8, CHR 0xA8, CHR
      0xD8, CHR 0xB9] ''Yanbu'',
    city ''al_kharj'' [CHR 0xD8, CHR 0xA7, CHR 0xD9, CHR 0x84, CHR 0xD8, CHR 0xAE, CHR
      0xD8, CHR 0xB1, CHR 0xD8, CHR 0xAC] ''Al Kharj'',
    city ''arar'' [CHR 0xD8, CHR 0xB9, CHR 0xD8, CHR 0xB1, CHR 0xD8, CHR 0xB9, CHR
      0xD8, CHR 0xB1] ''Arar'',
    city ''sakaka'' [CHR 0xD8, CHR 0xB3, CHR 0xD9, CHR 0x83, CHR 0xD8, CHR 0xA7, CHR
      0xD9, CHR 0x83, CHR 0xD8, CHR 0xA7] ''Sakaka'']"

definition ParseCity :: "string \<Rightarrow> (shared_error, City) result" where
  "ParseCity code =
     (case find_first (\<lambda>c. city_code c = code) cities of
        None \<Rightarrow> Inl ErrUnknownCity | Some c \<Rightarrow> Inr c)"

record Category =
  cat_code :: string
  cat_name :: LocalizedText
  cat_icon :: string

definition category :: "string \<Rightarrow> string \<Rightarrow> string \<Rightarrow> string \<Rightarrow> Category" where
  "category code ar en icon =
     \<lparr>cat_code = code, cat_name = \<lparr>lt_ar = ar, lt_en = en\<rparr>, cat_icon = icon\<rparr>"

definition categories :: "Category list" where
  "categories = [
    category ''haircut'' [CHR 0xD9, CHR 0x82, CHR 0xD8, CHR 0xB5, CHR 0x20, CHR 0xD8,
      CHR 0xA7, CHR 0xD9, CHR 0x84, CHR 0xD8, CHR 0xB4, CHR 0xD8, CHR 0xB9, CHR 0xD8,
      CHR 0xB1] ''Haircut'' ''scissors'',
    category ''beard'' [CHR 0xD8, CHR 0xA7, CHR 0xD9, CHR 0x84, CHR 0xD9, CHR 0x84, CHR
      0xD8, CHR 0xAD, CHR 0xD9, CHR 0x8A, CHR 0xD8, CHR 0xA9] ''Beard'' ''beard'',
    category ''shave'' [CHR 0xD8, CHR 0xA7, CHR 0xD9, CHR 0x84, CHR 0xD8, CHR 0xAD, CHR
      0xD9, CHR 0x84, CHR 0xD8, CHR 0xA7, CHR 0xD9, CHR 0x82, CHR 0xD8, CHR 0xA9]
      ''Shave'' ''razor'',
    category ''kids'' [CHR 0xD8, CHR 0xA7, CHR 0xD9, CHR 0x84, CHR 0xD8, CHR 0xA3, CHR
      0xD8, CHR 0xB7, CHR 0xD9, CHR 0x81, CHR 0xD8, CHR 0xA7, CHR 0xD9, CHR 0x84]
      ''Kids'' ''child'',
    category ''skincare'' [CHR 0xD8, CHR 0xA7, CHR 0xD9, CHR 0x84, CHR 0xD8, CHR 0xB9,
      CHR 0xD9, CHR 0x86, CHR 0xD8, CHR 0xA7, CHR 0xD9, CHR 0x8A, CHR 0xD8, CHR 0xA9,
      CHR 0x20, CHR 0xD8, CHR 0xA8, CHR 0xD8, CHR 0xA7, CHR 0xD9, CHR 0x84, CHR 0xD8,
      CHR 0xA8, CHR 0xD8, CHR 0xB4, CHR 0xD8, CHR 0xB1, CHR 0xD8, CHR 0xA9] ''Skin
      care'' ''face'',
    category ''colour'' [CHR 0xD8, CHR 0xA7, CHR 0xD9, CHR 0x84, CHR 0xD8, CHR 0xB5,
      CHR 0xD8, CHR 0xA8, CHR 0xD8, CHR 0xBA, CHR 0xD8, CHR 0xA9] ''Colour''
      ''palette'',
    category ''packages'' [CHR 0xD8, CHR 0xA7, CHR 0xD9, CHR 0x84, CHR 0xD8, CHR 0xA8,
      CHR 0xD8, CHR 0xA7, CHR 0xD9, CHR 0x82, CHR 0xD8, CHR 0xA7, CHR 0xD8, CHR 0xAA]
      ''Packages'' ''package'']"

definition ParseCategory :: "string \<Rightarrow> (shared_error, Category) result" where
  "ParseCategory code =
     (case find_first (\<lambda>c. cat_code c = code) categories of
        None \<Rightarrow> Inl ErrUnknownCategory | Some c \<Rightarrow> Inr c)"

section \<open>Identifiers are never nil once parsed\<close>

lemma ParseID_not_zero: "ParseID p s = Inr i \<Longrightarrow> \<not> ID_IsZero i"
  by (auto simp: ParseID_def ID_IsZero_def split: option.splits if_splits)

lemma NewLocalizedText_reread: "NewLocalizedText a e = Inr n \<Longrightarrow> NewLocalizedText (lt_ar n) (lt_en n) = Inr n"
  by (auto simp: NewLocalizedText_def Let_def split: if_splits)

section \<open>Money arithmetic is exact or an error\<close>

lemma wrap64_signed: "signed_take_bit 63 x = wrap64 x"
  by (simp add: wrap64_def signed_take_bit_eq_take_bit_shift take_bit_eq_mod ac_simps)

lemma sint_word_of_int64: "sint (word_of_int x :: int64) = wrap64 x"
  by (simp add: sint_sbintrunc' wrap64_signed)

lemma sint_range64 [simp]: "in_int64 (sint (w :: int64))"
  using sint_ge [of w] sint_lt [of w] by (simp add: in_int64_def min_int64_def max_int64_def)

lemma sint_add64: "sint (a + b :: int64) = wrap64 (sint a + sint b)"
  by (simp add: sint_word_add wrap64_signed)

lemma sint_sub64: "sint (a - b :: int64) = wrap64 (sint a - sint b)"
  by (simp add: sint_word_diff wrap64_signed)

lemma sint_mult64: "sint (a * b :: int64) = wrap64 (sint a * sint b)"
  by (simp add: sint_word_mult wrap64_signed)

lemma sint_Max_Min64: "sint MaxInt64 = max_int64" "sint MinInt64 = min_int64"
  by (simp_all add: MaxInt64_def MinInt64_def max_int64_def min_int64_def)

lemma sint_div64: "sint (int64_div a b) = wrap64 (go_div (sint a) (sint b))"
  by (simp add: int64_div_def sint_word_of_int64)

lemma sint_eq_iff64: "(a :: int64) = b \<longleftrightarrow> sint a = sint b"
  by (auto intro: signed_word_eqI)

lemma Money_Add_exact:
  "Money_Add a b =
     (if m_currency a \<noteq> m_currency b then Inl ErrCurrencyMismatch
      else if in_int64 (sint (m_amount a) + sint (m_amount b))
      then Inr \<lparr>m_amount = word_of_int (sint (m_amount a) + sint (m_amount b)), m_currency = m_currency a\<rparr>
      else Inl ErrMoneyOverflow)"
proof -
  let ?x = "sint (m_amount a)" and ?y = "sint (m_amount b)"
  have r: "in_int64 ?x" "in_int64 ?y" by simp_all
  have hi: "0 < ?y \<Longrightarrow> sint (MaxInt64 - m_amount b) = max_int64 - ?y"
    using r(2) by (auto simp: sint_sub64 sint_Max_Min64 in_int64_def min_int64_def max_int64_def intro!: wrap64_id)
  have lo: "?y < 0 \<Longrightarrow> sint (MinInt64 - m_amount b) = min_int64 - ?y"
    using r(2) by (auto simp: sint_sub64 sint_Max_Min64 in_int64_def min_int64_def max_int64_def intro!: wrap64_id)
  have "(0 < ?y \<and> sint (MaxInt64 - m_amount b) < ?x \<or> ?y < 0 \<and> ?x < sint (MinInt64 - m_amount b))
      \<longleftrightarrow> \<not> in_int64 (?x + ?y)"
    using r hi lo by (auto simp: in_int64_def)
  moreover have "in_int64 (?x + ?y) \<Longrightarrow> m_amount a + m_amount b = word_of_int (?x + ?y)"
    by (simp add: sint_eq_iff64 sint_add64 sint_word_of_int64)
  ultimately show ?thesis unfolding Money_Add_def by (simp del: wrap64_id)
qed

lemma go_div_bound: "b \<noteq> 0 \<Longrightarrow> \<bar>a - go_div a b * b\<bar> < \<bar>b\<bar>"
proof -
  assume b: "b \<noteq> 0"
  have "a - go_div a b * b = sgn a * (\<bar>a\<bar> mod \<bar>b\<bar>)"
    using b minus_div_mult_eq_mod [of "\<bar>a\<bar>" "\<bar>b\<bar>"]
    by (simp add: go_div_def sgn_if abs_if mult.assoc split: if_splits)
  then show ?thesis using b pos_mod_bound [of "\<bar>b\<bar>" "\<bar>a\<bar>"] pos_mod_sign [of "\<bar>b\<bar>" "\<bar>a\<bar>"]
    by (auto simp: sgn_if)
qed

lemma go_div_in_range:
  assumes "in_int64 a" "in_int64 b" "b \<noteq> 0"
  shows "in_int64 (go_div a b) \<or> a = min_int64 \<and> b = - 1"
proof -
  have a: "\<bar>a\<bar> \<le> 9223372036854775808" using assms(1) by (auto simp: in_int64_def min_int64_def max_int64_def)
  have q: "\<bar>go_div a b\<bar> \<le> \<bar>a\<bar> div \<bar>b\<bar>" 
    using pos_imp_zdiv_nonneg_iff [of "\<bar>b\<bar>" "\<bar>a\<bar>"] assms(3)
    by (cases a "0 :: int" rule: linorder_cases; cases b "0 :: int" rule: linorder_cases)
      (simp_all add: go_div_def)
  show ?thesis
  proof (cases "\<bar>b\<bar> = 1")
    case True
    then have "go_div a b = a * b" by (auto simp: go_div_def abs_if sgn_if split: if_splits)
    then show ?thesis using True assms(1) by (auto simp: in_int64_def min_int64_def max_int64_def abs_if split: if_splits)
  next
    case False
    then have "\<bar>a\<bar> div \<bar>b\<bar> \<le> \<bar>a\<bar> div 2" using assms(3) by (intro zdiv_mono2) auto
    then have "\<bar>go_div a b\<bar> < 9223372036854775808" using q a by linarith
    then show ?thesis by (auto simp: in_int64_def min_int64_def max_int64_def)
  qed
qed

lemma wrap64_cong: "\<exists>k. wrap64 x = x + k * 18446744073709551616"
  by (rule exI [of _ "- ((x + 9223372036854775808) div 18446744073709551616)"])
    (simp add: wrap64_def minus_div_mult_eq_mod [symmetric])

lemma multiply_check:
  assumes "in_int64 a" "in_int64 n" "a \<noteq> 0"
  shows "(wrap64 (go_div (wrap64 (a * n)) a) \<noteq> n \<or> a = - 1 \<and> n = min_int64) \<longleftrightarrow> \<not> in_int64 (a * n)"
    (is "?L \<longleftrightarrow> \<not> ?R")
proof (cases ?R)
  case True
  have "\<not> (a = - 1 \<and> n = min_int64)" using True by (auto simp: in_int64_def min_int64_def max_int64_def)
  then show ?thesis using True assms by (simp add: wrap64_id go_div_mult)
next
  case False
  obtain k where k: "wrap64 (a * n) = a * n + k * 18446744073709551616" using wrap64_cong by blast
  then have "k \<noteq> 0" using False wrap64_in_range [of "a * n"] by auto
  then have far: "18446744073709551616 \<le> \<bar>wrap64 (a * n) - n * a\<bar>" using k by (auto simp: abs_if algebra_simps)
  let ?q = "go_div (wrap64 (a * n)) a"
  have near: "\<bar>wrap64 (a * n) - ?q * a\<bar> < 18446744073709551616"
    using go_div_bound [OF assms(3), of "wrap64 (a * n)"] assms(1)
    by (auto simp: in_int64_def min_int64_def max_int64_def)
  have "?L"
  proof (cases "in_int64 ?q")
    case True
    then show ?thesis using near far by (auto simp: wrap64_id)
  next
    case False
    then have "wrap64 (a * n) = min_int64" "a = - 1"
      using go_div_in_range [OF wrap64_in_range assms(1,3)] by blast+
    then show ?thesis by (simp add: go_div_def min_int64_def wrap64_def)
  qed
  then show ?thesis using False by simp
qed

lemma Money_Multiply_exact:
  "Money_Multiply m n =
     (if in_int64 (sint (m_amount m) * sint n)
      then Inr \<lparr>m_amount = word_of_int (sint (m_amount m) * sint n), m_currency = m_currency m\<rparr>
      else Inl ErrMoneyOverflow)"
proof -
  let ?a = "sint (m_amount m)" and ?n = "sint n"
  have p: "m_amount m * n = word_of_int (?a * ?n)"
    by (simp add: sint_eq_iff64 sint_mult64 sint_word_of_int64)
  have "m_amount m = - 1 \<longleftrightarrow> ?a = - 1" by (simp add: sint_eq_iff64)
  then have "m_amount m \<noteq> 0 \<Longrightarrow>
      (int64_div (m_amount m * n) (m_amount m) \<noteq> n \<or> m_amount m = - 1 \<and> n = MinInt64)
      \<longleftrightarrow> \<not> in_int64 (?a * ?n)"
    using multiply_check [of ?a ?n] signed_eq_0_iff [of "m_amount m"]
    by (simp add: sint_eq_iff64 [of _ n] sint_eq_iff64 [of n] sint_div64 sint_mult64 sint_Max_Min64)
  moreover have "m_amount m = 0 \<Longrightarrow> in_int64 (?a * ?n)"
    by (simp add: in_int64_def min_int64_def max_int64_def)
  ultimately show ?thesis unfolding Money_Multiply_def Let_def p [symmetric]
    by (cases "m_amount m = 0") simp_all
qed

section \<open>Phone numbers\<close>

definition is_digit :: "char \<Rightarrow> bool" where
  "is_digit c \<longleftrightarrow> 48 \<le> byte c \<and> byte c \<le> 57"

definition saudi_mobile :: "string \<Rightarrow> bool" where
  "saudi_mobile d \<longleftrightarrow> length d = 9 \<and> hd d = CHR ''5'' \<and> list_all is_digit d"

text \<open>What the loop collects: the digits, in order, if every other rune is a separator.\<close>

definition rune_digits :: "(int \<times> string) list \<Rightarrow> string" where
  "rune_digits rs = map char_of (List.map_filter (WesternDigit \<circ> fst) rs)"

definition phone_text :: "(int \<times> string) list \<Rightarrow> bool" where
  "phone_text rs \<longleftrightarrow> list_all (\<lambda>(r, _). WesternDigit r \<noteq> None \<or> phone_separator r) rs"

lemma phone_scan_tail:
  "phone_scan False ds p rs = (if phone_text rs then Some (ds @ rune_digits rs, p) else None)"
  by (induction rs arbitrary: ds)
    (auto simp: phone_text_def rune_digits_def map_filter_simps split: option.splits)

lemma phone_scan_head:
  "phone_scan True [] False rs =
     (case rs of
        (r, b) # rs' \<Rightarrow> if r = 43 then phone_scan False [] True rs' else phone_scan False [] False rs
      | [] \<Rightarrow> Some ([], False))"
  by (cases rs) (auto simp: WesternDigit_def split: option.splits)

declare phone_scan.simps(2) [simp del]

lemma WesternDigit_is_digit: "WesternDigit r = Some d \<Longrightarrow> is_digit (char_of d)"
  by (auto simp: WesternDigit_def is_digit_def split: if_splits)

lemma rune_digits_digits: "list_all is_digit (rune_digits rs)"
  by (induction rs)
    (auto simp: rune_digits_def map_filter_simps WesternDigit_is_digit split: option.splits)

lemma phone_scan_digits: "phone_scan True [] False rs = Some (d, p) \<Longrightarrow> list_all is_digit d"
  by (auto simp: phone_scan_head phone_scan_tail rune_digits_digits split: list.splits if_splits)

lemma saudiNational_mobile:
  assumes "list_all is_digit d" "saudiNational d p = Some n"
  shows "saudi_mobile n"
proof -
  have "\<exists>k. n = drop k d \<and> length n = 9 \<and> n ! 0 = CHR ''5''"
    using assms(2) unfolding saudiNational_def Let_def
    by (auto split: option.splits if_splits simp: drop_drop) (metis drop_0)
  then obtain k where "n = drop k d" "length n = 9" "n ! 0 = CHR ''5''" by blast
  moreover from this have "hd n = n ! 0" by (intro hd_conv_nth) auto
  moreover have "list_all is_digit (drop k d)"
    using assms(1) by (auto simp: list_all_iff dest: in_set_dropD)
  ultimately show ?thesis by (simp add: saudi_mobile_def)
qed

lemma NewPhoneNumber_e164:
  assumes "NewPhoneNumber raw = Inr p"
  shows "\<exists>d. saudi_mobile d \<and> e164 p = ''+966'' @ d"
  using assms phone_scan_digits saudiNational_mobile
  by (fastforce simp: NewPhoneNumber_def split: if_splits option.splits prod.splits)

lemma is_digit_ascii: "is_digit c \<Longrightarrow> byte c < 128"
  by (simp add: is_digit_def)

lemma byte_digit: "is_digit c \<Longrightarrow> WesternDigit (byte c) = Some (byte c) \<and> \<not> is_space (byte c) \<and> byte c \<noteq> 43"
  by (auto simp: is_digit_def WesternDigit_def is_space_def)

lemma runes_digits:
  assumes "list_all is_digit d"
  shows "runes d = map (\<lambda>c. (byte c, [c])) d"
  using assms is_digit_ascii by (intro runes_ascii) (auto simp: list_all_iff)

lemma scan_digits:
  assumes "list_all is_digit d"
  shows "phone_text (map (\<lambda>c. (byte c, [c])) d)" "rune_digits (map (\<lambda>c. (byte c, [c])) d) = d"
  using assms
  by (induction d) (auto simp: phone_text_def rune_digits_def map_filter_simps byte_digit)

lemma trim_digits:
  assumes "list_all is_digit d"
  shows "trim_space d = d" "trim_space (CHR ''+'' # d) = CHR ''+'' # d"
  using assms byte_digit
  by (auto intro!: trim_space_no_space simp: runes_digits decode_rune_def list_all_iff is_space_def)

lemma NewPhoneNumber_digits:
  assumes "list_all is_digit d" "length d < 64"
  shows "NewPhoneNumber d = (case saudiNational d False of None \<Rightarrow> Inl ErrInvalidPhoneNumber
      | Some n \<Rightarrow> Inr \<lparr>e164 = ''+966'' @ n\<rparr>)"
    and "NewPhoneNumber (CHR ''+'' # d) = (case saudiNational d True of None \<Rightarrow> Inl ErrInvalidPhoneNumber
      | Some n \<Rightarrow> Inr \<lparr>e164 = ''+966'' @ n\<rparr>)"
proof -
  have "phone_scan True [] False (runes d) = Some (d, False)"
  proof (cases d)
    case (Cons c cs)
    then have "byte c \<noteq> 43" using assms(1) byte_digit by simp
    then show ?thesis
      unfolding runes_digits [OF assms(1)] phone_scan_head
      using scan_digits [OF assms(1)] Cons by (simp add: phone_scan_tail)
  qed simp
  then show "NewPhoneNumber d = (case saudiNational d False of None \<Rightarrow> Inl ErrInvalidPhoneNumber
      | Some n \<Rightarrow> Inr \<lparr>e164 = ''+966'' @ n\<rparr>)"
    using assms by (simp add: NewPhoneNumber_def maxPhoneInput_def trim_digits)
  have "runes (CHR ''+'' # d) = (43, ''+'') # runes d" by (simp add: decode_rune_def)
  then have "phone_scan True [] False (runes (CHR ''+'' # d)) = Some (d, True)"
    using assms scan_digits [OF assms(1)]
    by (simp add: phone_scan_head phone_scan_tail runes_digits del: runes.simps)
  then show "NewPhoneNumber (CHR ''+'' # d) = (case saudiNational d True of None \<Rightarrow> Inl ErrInvalidPhoneNumber
      | Some n \<Rightarrow> Inr \<lparr>e164 = ''+966'' @ n\<rparr>)"
    using assms by (simp add: NewPhoneNumber_def maxPhoneInput_def trim_digits del: runes.simps phone_scan.simps)
qed

lemma saudi_mobile_Cons: "saudi_mobile d \<longleftrightarrow> (\<exists>d'. d = CHR ''5'' # d' \<and> length d' = 8 \<and> list_all is_digit d')"
  by (cases d) (auto simp: saudi_mobile_def is_digit_def)

lemma saudiNational_forms:
  assumes "saudi_mobile d"
  shows "saudiNational d False = Some d" "saudiNational (''0'' @ d) False = Some d"
    "saudiNational (''966'' @ d) False = Some d" "saudiNational (''00966'' @ d) False = Some d"
    "saudiNational (''966'' @ d) True = Some d" "saudiNational (''9660'' @ d) True = Some d"
proof -
  obtain d' where d: "d = CHR ''5'' # d'" "length d' = 8" using assms by (auto simp: saudi_mobile_Cons)
  show "saudiNational d False = Some d" "saudiNational (''0'' @ d) False = Some d"
    "saudiNational (''966'' @ d) False = Some d" "saudiNational (''00966'' @ d) False = Some d"
    "saudiNational (''966'' @ d) True = Some d" "saudiNational (''9660'' @ d) True = Some d"
    unfolding d(1) saudiNational_def Let_def using d(2) by simp_all
qed

lemma NewPhoneNumber_forms:
  assumes "saudi_mobile d" "pre \<in> {[], ''0'', ''966'', ''00966'', ''+966'', ''+9660''}"
  shows "NewPhoneNumber (pre @ d) = Inr \<lparr>e164 = ''+966'' @ d\<rparr>"
proof -
  have d: "list_all is_digit d" "length d = 9" using assms(1) by (auto simp: saudi_mobile_def)
  have z: "is_digit (CHR ''0'')" "is_digit (CHR ''9'')" "is_digit (CHR ''6'')"
    by (simp_all add: is_digit_def)
  note f = saudiNational_forms [OF assms(1)]
  have "NewPhoneNumber d = Inr \<lparr>e164 = ''+966'' @ d\<rparr>"
    using NewPhoneNumber_digits(1) [of d] d f(1) by simp
  moreover have "NewPhoneNumber (''0'' @ d) = Inr \<lparr>e164 = ''+966'' @ d\<rparr>"
    using NewPhoneNumber_digits(1) [of "''0'' @ d"] d z f(2) by simp
  moreover have "NewPhoneNumber (''966'' @ d) = Inr \<lparr>e164 = ''+966'' @ d\<rparr>"
    using NewPhoneNumber_digits(1) [of "''966'' @ d"] d z f(3) by simp
  moreover have "NewPhoneNumber (''00966'' @ d) = Inr \<lparr>e164 = ''+966'' @ d\<rparr>"
    using NewPhoneNumber_digits(1) [of "''00966'' @ d"] d z f(4) by simp
  moreover have "NewPhoneNumber (''+966'' @ d) = Inr \<lparr>e164 = ''+966'' @ d\<rparr>"
    using NewPhoneNumber_digits(2) [of "''966'' @ d"] d z f(5) by simp
  moreover have "NewPhoneNumber (''+9660'' @ d) = Inr \<lparr>e164 = ''+966'' @ d\<rparr>"
    using NewPhoneNumber_digits(2) [of "''9660'' @ d"] d z f(6) by simp
  ultimately show ?thesis using assms(2) by (elim insertE emptyE) (simp_all only: append_Nil)
qed

section \<open>Cities and categories\<close>

lemma cities_distinct: "distinct (map city_code cities)"
  by (simp add: cities_def city_def)

lemma categories_distinct: "distinct (map cat_code categories)"
  by (simp add: categories_def category_def)

lemma find_first_distinct:
  "distinct (map f xs) \<Longrightarrow> x \<in> set xs \<Longrightarrow> find_first (\<lambda>y. f y = f x) xs = Some x"
  by (induction xs) (auto simp: image_iff)

lemma ParseCity_roundtrip: "c \<in> set cities \<Longrightarrow> ParseCity (city_code c) = Inr c"
  by (simp add: ParseCity_def find_first_distinct [OF cities_distinct])

lemma ParseCity_Inr: "ParseCity s = Inr c \<Longrightarrow> c \<in> set cities \<and> city_code c = s"
  by (auto simp: ParseCity_def split: option.splits dest: find_first_Some)

lemma ParseCategory_roundtrip: "c \<in> set categories \<Longrightarrow> ParseCategory (cat_code c) = Inr c"
  by (simp add: ParseCategory_def find_first_distinct [OF categories_distinct])

lemma ParseCategory_Inr: "ParseCategory s = Inr c \<Longrightarrow> c \<in> set categories \<and> cat_code c = s"
  by (auto simp: ParseCategory_def split: option.splits dest: find_first_Some)

section \<open>Properties\<close>

text \<open>\<open>Add\<close> and \<open>Multiply\<close> of money are exact on 64-bit amounts: the integer sum or product
  when it fits, an overflow error when it does not (a minimum times minus one included), and amounts of
  different currencies are never added.\<close>

theorem money_arithmetic_exact:
  "Money_Add a b =
     (if m_currency a \<noteq> m_currency b then Inl ErrCurrencyMismatch
      else if in_int64 (sint (m_amount a) + sint (m_amount b))
      then Inr \<lparr>m_amount = word_of_int (sint (m_amount a) + sint (m_amount b)), m_currency = m_currency a\<rparr>
      else Inl ErrMoneyOverflow)
   \<and> Money_Multiply a n =
     (if in_int64 (sint (m_amount a) * sint n)
      then Inr \<lparr>m_amount = word_of_int (sint (m_amount a) * sint n), m_currency = m_currency a\<rparr>
      else Inl ErrMoneyOverflow)"
  by (simp only: Money_Add_exact Money_Multiply_exact simp_thms)

text \<open>Every phone number that is accepted is stored as +966 followed by nine digits, the first
  of them 5, and each way of writing such a number (national, with the trunk 0, with 966, 00966 or
  +966 before it, or +966 and the 0) is read as that number.\<close>

theorem phone_number_canonical:
  "(NewPhoneNumber raw = Inr p \<longrightarrow> (\<exists>d. saudi_mobile d \<and> e164 p = ''+966'' @ d))
   \<and> (\<forall>d. saudi_mobile d \<longrightarrow>
        list_all (\<lambda>pre. NewPhoneNumber (pre @ d) = Inr \<lparr>e164 = ''+966'' @ d\<rparr>)
          [[], ''0'', ''966'', ''00966'', ''+966'', ''+9660''])"
  using NewPhoneNumber_e164 [of raw p] NewPhoneNumber_forms by (simp add: list_all_iff)

theorem phone_number_canonical_witness:
  "NewPhoneNumber ''0551234567'' = Inr \<lparr>e164 = ''+966551234567''\<rparr>"
proof -
  have "saudi_mobile ''551234567''" by code_simp
  then show ?thesis using phone_number_canonical [of "[]" undefined] by (simp add: list_all_iff)
qed

end
