(* ===== verification/Otp.thy ===== *)
theory Otp
  imports GoTime Shared
begin

text \<open>
  \<open>internal/iam/domain\<close>: one-time login codes (\<open>otp.go\<close>), the guard that counts wrong guesses
  across codes (\<open>otp_guard.go\<close>), users (\<open>user.go\<close>) and the module's errors (\<open>errors.go\<close>). A
  method that changes its receiver returns the changed receiver. Hashes are byte strings, and
  the constant-time comparison of \<open>crypto/subtle\<close> is equality of the two strings.
\<close>

section \<open>Errors\<close>

text \<open>
  The sentinels of \<open>errors.go\<close>, the error that carries a waiting time, the error of a phone number
  that does not parse, and \<open>Fault\<close> for every error without a name.
\<close>

datatype iam_error =
    ErrOTPLocked | ErrNotFound | ErrInvalidOTPCode | ErrOTPInvalid | ErrOTPExpired
  | ErrOTPTooManyAttempts | ErrOTPCooldown | ErrOTPRateLimited | ErrUserBlocked
  | ErrUnauthenticated | ErrRefreshTokenInvalid | ErrRefreshTokenReused
  | RetryLater iam_error duration
  | BadPhone shared_error
  | Fault

section \<open>Codes\<close>

record OTPPolicy =
  op_ttl :: duration
  op_resendCooldown :: duration
  op_maxAttempts :: int
  op_maxFailures :: int
  op_failureWindow :: duration
  op_lockout :: duration
  op_maxPerHour :: int

definition DefaultOTPPolicy :: OTPPolicy where
  "DefaultOTPPolicy = \<lparr>op_ttl = 5 * minute, op_resendCooldown = minute, op_maxAttempts = 5,
     op_maxFailures = 10, op_failureWindow = 15 * minute, op_lockout = 15 * minute, op_maxPerHour = 5\<rparr>"

record OTPCode =
  digits :: string

fun otp_scan :: "string \<Rightarrow> (int \<times> string) list \<Rightarrow> string option" where
  "otp_scan b [] = Some b"
| "otp_scan b ((r, _) # rs) =
     (case WesternDigit r of None \<Rightarrow> None | Some d \<Rightarrow> otp_scan (b @ [char_of d]) rs)"

definition ParseOTPCode :: "string \<Rightarrow> (iam_error, OTPCode) result" where
  "ParseOTPCode raw =
     (case otp_scan [] (runes (trim_space raw)) of None \<Rightarrow> Inl ErrInvalidOTPCode
      | Some b \<Rightarrow> if length b \<noteq> 6 then Inl ErrInvalidOTPCode else Inr \<lparr>digits = b\<rparr>)"

section \<open>Challenges\<close>

datatype OTPChallengeTag = OTPChallengeTag

type_synonym OTPChallengeID = "OTPChallengeTag id"

record OTPChallenge =
  oc_id :: OTPChallengeID
  oc_phone :: PhoneNumber
  oc_codeHash :: string
  oc_attempts :: int
  oc_createdAt :: gotime
  oc_expiresAt :: gotime
  oc_consumedAt :: "gotime option"

definition NewOTPChallenge ::
  "OTPChallengeID \<Rightarrow> PhoneNumber \<Rightarrow> string \<Rightarrow> gotime \<Rightarrow> duration \<Rightarrow> (iam_error, OTPChallenge) result" where
  "NewOTPChallenge i phone codeHash now ttl =
     (if ID_IsZero i \<or> Phone_IsZero phone then Inl Fault
      else if codeHash = [] then Inl Fault
      else if ttl \<le> 0 then Inl Fault
      else Inr \<lparr>oc_id = i, oc_phone = phone, oc_codeHash = codeHash, oc_attempts = 0, oc_createdAt = now,
             oc_expiresAt = time_add now ttl, oc_consumedAt = None\<rparr>)"

definition RehydrateOTPChallenge ::
  "OTPChallengeID \<Rightarrow> PhoneNumber \<Rightarrow> string \<Rightarrow> int \<Rightarrow> gotime \<Rightarrow> gotime \<Rightarrow> gotime option \<Rightarrow> OTPChallenge" where
  "RehydrateOTPChallenge i phone codeHash attempts createdAt expiresAt consumedAt =
     \<lparr>oc_id = i, oc_phone = phone, oc_codeHash = codeHash, oc_attempts = attempts, oc_createdAt = createdAt,
      oc_expiresAt = expiresAt, oc_consumedAt = consumedAt\<rparr>"

text \<open>
  The error, if any, and the challenge after the guess. The counter cannot wrap: it is below
  \<open>maxAttempts\<close> when it grows.
\<close>

definition Verify :: "OTPChallenge \<Rightarrow> string \<Rightarrow> gotime \<Rightarrow> int \<Rightarrow> iam_error option \<times> OTPChallenge" where
  "Verify c guessHash now maxAttempts =
     (if oc_consumedAt c \<noteq> None then (Some ErrOTPInvalid, c)
      else if \<not> now < oc_expiresAt c then (Some ErrOTPExpired, c)
      else if maxAttempts \<le> oc_attempts c then (Some ErrOTPTooManyAttempts, c)
      else
        let c = c\<lparr>oc_attempts := oc_attempts c + 1\<rparr> in
        if oc_codeHash c \<noteq> guessHash then
          (if maxAttempts \<le> oc_attempts c then (Some ErrOTPTooManyAttempts, c) else (Some ErrOTPInvalid, c))
        else (None, c\<lparr>oc_consumedAt := Some now\<rparr>))"

section \<open>The guard\<close>

record OTPGuard =
  g_failures :: int
  g_windowStart :: gotime
  g_lockedUntil :: gotime

definition zero_guard :: OTPGuard where
  "zero_guard = \<lparr>g_failures = 0, g_windowStart = zero_time, g_lockedUntil = zero_time\<rparr>"

definition RehydrateOTPGuard :: "int \<Rightarrow> gotime \<Rightarrow> gotime \<Rightarrow> OTPGuard" where
  "RehydrateOTPGuard failures windowStart lockedUntil =
     \<lparr>g_failures = failures, g_windowStart = windowStart, g_lockedUntil = lockedUntil\<rparr>"

definition Check :: "OTPGuard \<Rightarrow> gotime \<Rightarrow> iam_error option" where
  "Check g now =
     (if now < g_lockedUntil g then Some (RetryLater ErrOTPLocked (time_sub (g_lockedUntil g) now)) else None)"

definition Reset :: "OTPGuard \<Rightarrow> OTPGuard" where
  "Reset g = zero_guard"

definition Fail :: "OTPGuard \<Rightarrow> gotime \<Rightarrow> OTPPolicy \<Rightarrow> iam_error option \<times> OTPGuard" where
  "Fail g now policy =
     (case Check g now of Some e \<Rightarrow> (Some e, g)
      | None \<Rightarrow>
          let g = (if \<not> now < time_add (g_windowStart g) (op_failureWindow policy)
                      \<or> g_lockedUntil g \<noteq> zero_time \<and> \<not> now < g_lockedUntil g then Reset g else g);
              g = (if g_failures g = 0 then g\<lparr>g_windowStart := now\<rparr> else g);
              g = g\<lparr>g_failures := wrap64 (g_failures g + 1)\<rparr>;
              g = (if op_maxFailures policy \<le> g_failures g then g\<lparr>g_lockedUntil := time_add now (op_lockout policy)\<rparr> else g)
          in (Check g now, g))"

section \<open>Users\<close>

datatype UserStatus = UserActive | UserBlocked

datatype PlatformRole = PlatformRoleNone | PlatformRoleAdmin

record User =
  u_id :: UserID
  u_phone :: PhoneNumber
  u_name :: string
  u_locale :: Language
  u_status :: UserStatus
  u_role :: PlatformRole
  u_createdAt :: gotime

definition NewUser :: "UserID \<Rightarrow> PhoneNumber \<Rightarrow> Language \<Rightarrow> gotime \<Rightarrow> User" where
  "NewUser i phone locale now = \<lparr>u_id = i, u_phone = phone, u_name = [], u_locale = locale,
     u_status = UserActive, u_role = PlatformRoleNone, u_createdAt = now\<rparr>"

definition RehydrateUser ::
  "UserID \<Rightarrow> PhoneNumber \<Rightarrow> string \<Rightarrow> Language \<Rightarrow> UserStatus \<Rightarrow> PlatformRole \<Rightarrow> gotime \<Rightarrow> User" where
  "RehydrateUser i phone name locale status role createdAt = \<lparr>u_id = i, u_phone = phone, u_name = name,
     u_locale = locale, u_status = status, u_role = role, u_createdAt = createdAt\<rparr>"

definition IsBlocked :: "User \<Rightarrow> bool" where
  "IsBlocked u \<longleftrightarrow> u_status u = UserBlocked"

section \<open>Random codes and their hashes\<close>

text \<open>
  \<open>internal/iam/adapters/otpcode/otpcode.go\<close>: the number \<open>crypto/rand\<close> drew below a million, or no
  number, is an argument; \<open>hmac_sha256\<close> stands for \<open>crypto/hmac\<close> over \<open>crypto/sha256\<close>.
\<close>

definition NewCode :: "int option \<Rightarrow> (iam_error, OTPCode) result" where
  "NewCode n = (case n of None \<Rightarrow> Inl Fault | Some n \<Rightarrow> ParseOTPCode (fmt_d 6 n))"

definition MinSecretLen :: nat where "MinSecretLen = 32"

record HMACHasher =
  hh_secret :: string

definition NewHMACHasher :: "string \<Rightarrow> (iam_error, HMACHasher) result" where
  "NewHMACHasher secret = (if length secret < MinSecretLen then Inl Fault else Inr \<lparr>hh_secret = secret\<rparr>)"

definition HMACHasher_Hash :: "(string \<Rightarrow> string \<Rightarrow> string) \<Rightarrow> HMACHasher \<Rightarrow> OTPCode \<Rightarrow> string" where
  "HMACHasher_Hash hmac_sha256 h code = hmac_sha256 (hh_secret h) (digits code)"

section \<open>What \<open>ParseOTPCode\<close> accepts\<close>

lemma otp_scan_iff:
  "otp_scan b rs = (if list_all (\<lambda>(r, _). WesternDigit r \<noteq> None) rs then Some (b @ rune_digits rs) else None)"
  by (induction b rs rule: otp_scan.induct) (auto simp: rune_digits_def map_filter_simps split: option.splits)

lemma ParseOTPCode_Inr_iff:
  "ParseOTPCode raw = Inr c \<longleftrightarrow>
     list_all (\<lambda>(r, _). WesternDigit r \<noteq> None) (runes (trim_space raw))
     \<and> length (runes (trim_space raw)) = 6 \<and> digits c = rune_digits (runes (trim_space raw))"
proof -
  have l: "length (rune_digits rs) = length rs" if "list_all (\<lambda>(r, _). WesternDigit r \<noteq> None) rs" for rs
    using that by (induction rs) (auto simp: rune_digits_def map_filter_simps)
  show ?thesis
    by (cases c) (auto simp: ParseOTPCode_def otp_scan_iff l)
qed

lemma ParseOTPCode_six_digits:
  assumes "list_all is_digit d" "length d = 6"
  shows "ParseOTPCode d = Inr \<lparr>digits = d\<rparr>"
proof -
  have "runes (trim_space d) = map (\<lambda>c. (byte c, [c])) d" using assms(1) by (simp add: trim_digits runes_digits)
  moreover have "list_all (\<lambda>(r, _). WesternDigit r \<noteq> None) (map (\<lambda>c. (byte c, [c])) d)"
    using assms(1) by (auto simp: list_all_iff byte_digit)
  ultimately show ?thesis using assms scan_digits(2) [OF assms(1)] by (simp add: ParseOTPCode_Inr_iff)
qed

lemma dec_digits_length: "0 < k \<Longrightarrow> n < 10 ^ k \<Longrightarrow> length (dec_digits n) \<le> k"
proof (induction k arbitrary: n)
  case 0
  then show ?case by simp
next
  case (Suc k)
  show ?case
  proof (cases "n < 10")
    case True
    then show ?thesis by (subst dec_digits.simps) simp
  next
    case False
    then have "0 < k" using Suc.prems(2) by (cases k) simp_all
    moreover have "n div 10 < 10 ^ k" using Suc.prems(2) by (simp add: less_mult_imp_div_less mult.commute)
    ultimately have "length (dec_digits (n div 10)) \<le> k" by (rule Suc.IH)
    then show ?thesis using False by (subst dec_digits.simps) simp
  qed
qed

lemma fmt_d_six_digits:
  assumes "0 \<le> n" "n < 1000000"
  shows "length (fmt_d 6 n) = 6" "list_all is_digit (fmt_d 6 n)"
proof -
  have "length (dec_digits (nat n)) \<le> 6" using dec_digits_length [of 6 "nat n"] assms by simp
  then show "length (fmt_d 6 n) = 6" using assms(1) by (simp add: fmt_d_def pad_left_def)
  have "is_digit c" if "c \<in> set (dec_digits (nat n))" for c
  proof -
    have "48 \<le> (of_char c :: nat)" "of_char c \<le> (57 :: nat)" using dec_digits_ascii [OF that] by auto
    then show ?thesis using of_nat_of_char [of c, where 'a = int] by (simp add: is_digit_def)
  qed
  then show "list_all is_digit (fmt_d 6 n)"
    using assms(1) by (auto simp: fmt_d_def pad_left_def list_all_iff is_digit_def)
qed

lemma fmt_d_inject_nonneg:
  assumes "0 \<le> m" "0 \<le> n" "fmt_d w m = fmt_d w n"
  shows "m = n"
  using assms pad_left_inject [of w "nat m" "nat n"] by (simp add: fmt_d_def)

lemma rune_digits_nth:
  assumes "list_all (\<lambda>(r, _). WesternDigit r \<noteq> None) rs"
  shows "length (rune_digits rs) = length rs
    \<and> (\<forall>i < length rs. WesternDigit (fst (rs ! i)) = Some (byte (rune_digits rs ! i)))"
  using assms
proof (induction rs)
  case Nil
  then show ?case by (simp add: rune_digits_def map_filter_simps)
next
  case (Cons x rs)
  obtain r b d where x: "x = (r, b)" "WesternDigit r = Some d" using Cons.prems by (cases x) auto
  then have "0 \<le> d" "d < 256" by (auto simp: WesternDigit_def split: if_splits)
  moreover have "rune_digits (x # rs) = char_of d # rune_digits rs"
    using x by (simp add: rune_digits_def map_filter_simps)
  ultimately show ?case using Cons x by (auto simp: nth_Cons split: nat.splits)
qed

lemma ParseOTPCode_digitwise:
  "ParseOTPCode raw = Inr c \<longleftrightarrow>
     length (runes (trim_space raw)) = 6 \<and> length (digits c) = 6
     \<and> (\<forall>i < 6. WesternDigit (fst (runes (trim_space raw) ! i)) = Some (byte (digits c ! i)))"
  (is "_ \<longleftrightarrow> ?digits")
proof
  assume "ParseOTPCode raw = Inr c"
  then show ?digits using rune_digits_nth [of "runes (trim_space raw)"] by (simp add: ParseOTPCode_Inr_iff)
next
  assume r: ?digits
  then have l: "list_all (\<lambda>(r, _). WesternDigit r \<noteq> None) (runes (trim_space raw))"
    by (auto simp: list_all_length split_beta)
  moreover have "rune_digits (runes (trim_space raw)) = digits c"
    using r rune_digits_nth [OF l] by (intro nth_equalityI) (auto simp: of_char_eq_iff)
  ultimately show "ParseOTPCode raw = Inr c" using r by (simp add: ParseOTPCode_Inr_iff)
qed

text \<open>Every number a login code is drawn from is sent as six digits that \<open>ParseOTPCode\<close> reads back, no two
  numbers give the same code, and a guess is read as this code however its digits are written, Western
  or Arabic-Indic, with blanks around them; a text that is not six digits is refused.\<close>

theorem otp_codes_exact:
  "(\<forall>n. 0 \<le> n \<and> n < 1000000 \<longrightarrow> NewCode (Some n) = Inr \<lparr>digits = fmt_d 6 n\<rparr> \<and> length (fmt_d 6 n) = 6)
   \<and> (\<forall>m n. 0 \<le> m \<and> m < 1000000 \<and> 0 \<le> n \<and> n < 1000000 \<and> NewCode (Some m) = NewCode (Some n) \<longrightarrow> m = n)
   \<and> (\<forall>raw c. ParseOTPCode raw = Inr c \<longleftrightarrow>
        length (runes (trim_space raw)) = 6 \<and> length (digits c) = 6
        \<and> (\<forall>i < 6. WesternDigit (fst (runes (trim_space raw) ! i)) = Some (byte (digits c ! i))))"
proof (intro conjI allI impI)
  fix n :: int
  assume "0 \<le> n \<and> n < 1000000"
  then show "NewCode (Some n) = Inr \<lparr>digits = fmt_d 6 n\<rparr>" "length (fmt_d 6 n) = 6"
    using fmt_d_six_digits [of n] ParseOTPCode_six_digits [of "fmt_d 6 n"] by (simp_all add: NewCode_def)
next
  fix m n :: int
  assume a: "0 \<le> m \<and> m < 1000000 \<and> 0 \<le> n \<and> n < 1000000 \<and> NewCode (Some m) = NewCode (Some n)"
  then have "fmt_d 6 m = fmt_d 6 n"
    using fmt_d_six_digits [of m] fmt_d_six_digits [of n] by (simp add: NewCode_def ParseOTPCode_six_digits)
  then show "m = n" using a fmt_d_inject_nonneg by blast
qed (rule ParseOTPCode_digitwise)

theorem otp_codes_exact_witness:
  "NewCode (Some 42) = Inr \<lparr>digits = fmt_d 6 42\<rparr>"
  using otp_codes_exact by simp

end
