(* ===== verification/Session.thy ===== *)
theory Session
  imports Otp
begin

text \<open>
  \<open>internal/iam/domain/session.go\<close>: signed-in devices and their chains of refresh tokens. \<open>Rotate\<close>
  changes both the session and the presented token: it returns what becomes of the two with its
  result.
\<close>

record TokenPolicy =
  tp_accessTTL :: duration
  tp_refreshTTL :: duration

definition DefaultTokenPolicy :: TokenPolicy where
  "DefaultTokenPolicy = \<lparr>tp_accessTTL = 15 * minute, tp_refreshTTL = 30 * (24 * hour)\<rparr>"

datatype SessionTag = SessionTag

type_synonym SessionID = "SessionTag id"

text \<open>\<open>NoReason\<close> is the empty string of a session that has not ended.\<close>

datatype RevokeReason = NoReason | RevokedLogout | RevokedReuse | RevokedBlocked

record Session =
  ss_id :: SessionID
  ss_user :: UserID
  ss_createdAt :: gotime
  ss_lastRefreshedAt :: gotime
  ss_revokedAt :: "gotime option"
  ss_revokeReason :: RevokeReason

record RefreshToken =
  rt_hash :: string
  rt_session :: SessionID
  rt_createdAt :: gotime
  rt_expiresAt :: gotime
  rt_usedAt :: "gotime option"

definition NewSession :: "SessionID \<Rightarrow> UserID \<Rightarrow> gotime \<Rightarrow> (iam_error, Session) result" where
  "NewSession i user now =
     (if ID_IsZero i \<or> ID_IsZero user then Inl Fault
      else Inr \<lparr>ss_id = i, ss_user = user, ss_createdAt = now, ss_lastRefreshedAt = now, ss_revokedAt = None,
             ss_revokeReason = NoReason\<rparr>)"

definition RehydrateSession ::
  "SessionID \<Rightarrow> UserID \<Rightarrow> gotime \<Rightarrow> gotime \<Rightarrow> gotime option \<Rightarrow> RevokeReason \<Rightarrow> Session" where
  "RehydrateSession i user createdAt lastRefreshedAt revokedAt reason =
     \<lparr>ss_id = i, ss_user = user, ss_createdAt = createdAt, ss_lastRefreshedAt = lastRefreshedAt,
      ss_revokedAt = revokedAt, ss_revokeReason = reason\<rparr>"

definition NewRefreshToken ::
  "string \<Rightarrow> SessionID \<Rightarrow> gotime \<Rightarrow> duration \<Rightarrow> (iam_error, RefreshToken) result" where
  "NewRefreshToken hash session now ttl =
     (if hash = [] then Inl Fault
      else if ID_IsZero session then Inl Fault
      else if ttl \<le> 0 then Inl Fault
      else Inr \<lparr>rt_hash = hash, rt_session = session, rt_createdAt = now, rt_expiresAt = time_add now ttl,
             rt_usedAt = None\<rparr>)"

definition RehydrateRefreshToken ::
  "string \<Rightarrow> SessionID \<Rightarrow> gotime \<Rightarrow> gotime \<Rightarrow> gotime option \<Rightarrow> RefreshToken" where
  "RehydrateRefreshToken hash session createdAt expiresAt usedAt =
     \<lparr>rt_hash = hash, rt_session = session, rt_createdAt = createdAt, rt_expiresAt = expiresAt, rt_usedAt = usedAt\<rparr>"

definition IsRevoked :: "Session \<Rightarrow> bool" where
  "IsRevoked s \<longleftrightarrow> ss_revokedAt s \<noteq> None"

definition Revoke :: "Session \<Rightarrow> gotime \<Rightarrow> RevokeReason \<Rightarrow> Session" where
  "Revoke s now reason =
     (if IsRevoked s then s else s\<lparr>ss_revokedAt := Some now, ss_revokeReason := reason\<rparr>)"

definition Rotate ::
  "Session \<Rightarrow> RefreshToken \<Rightarrow> string \<Rightarrow> gotime \<Rightarrow> TokenPolicy
   \<Rightarrow> (iam_error, RefreshToken) result \<times> Session \<times> RefreshToken" where
  "Rotate s t nextHash now p =
     (if rt_session t \<noteq> ss_id s then (Inl Fault, s, t)
      else if IsRevoked s then (Inl ErrRefreshTokenInvalid, s, t)
      else if rt_usedAt t \<noteq> None then (Inl ErrRefreshTokenReused, Revoke s now RevokedReuse, t)
      else if \<not> now < rt_expiresAt t then (Inl ErrRefreshTokenInvalid, s, t)
      else case NewRefreshToken nextHash (ss_id s) now (tp_refreshTTL p) of Inl e \<Rightarrow> (Inl e, s, t)
      | Inr next \<Rightarrow> (Inr next, s\<lparr>ss_lastRefreshedAt := now\<rparr>, t\<lparr>rt_usedAt := Some now\<rparr>))"

section \<open>Facts about one session\<close>

lemma Revoke_simps [simp]:
  "IsRevoked (Revoke s now r)" "ss_id (Revoke s now r) = ss_id s" "ss_user (Revoke s now r) = ss_user s"
  "ss_createdAt (Revoke s now r) = ss_createdAt s" "ss_lastRefreshedAt (Revoke s now r) = ss_lastRefreshedAt s"
  by (simp_all add: Revoke_def IsRevoked_def)

lemma Revoke_revoked: "IsRevoked s \<Longrightarrow> Revoke s now r = s"
  by (simp add: Revoke_def)

text \<open>What each outcome of \<open>Rotate\<close> means, and what it leaves.\<close>

lemma Rotate_Inr:
  assumes "Rotate s t nextHash now p = (Inr next, s', t')"
  shows "rt_session t = ss_id s" "\<not> IsRevoked s" "rt_usedAt t = None" "now < rt_expiresAt t"
    "next = \<lparr>rt_hash = nextHash, rt_session = ss_id s, rt_createdAt = now,
       rt_expiresAt = time_add now (tp_refreshTTL p), rt_usedAt = None\<rparr>"
    "0 < tp_refreshTTL p" "s' = s\<lparr>ss_lastRefreshedAt := now\<rparr>" "t' = t\<lparr>rt_usedAt := Some now\<rparr>"
  using assms by (auto simp: Rotate_def NewRefreshToken_def split: if_splits)

lemma Rotate_Inl:
  assumes "Rotate s t nextHash now p = (Inl e, s', t')"
  shows "t' = t" "s' = s \<or> \<not> IsRevoked s \<and> rt_usedAt t \<noteq> None \<and> e = ErrRefreshTokenReused \<and> s' = Revoke s now RevokedReuse"
  using assms by (auto simp: Rotate_def split: if_splits sum.splits)

lemma Rotate_identity:
  assumes "Rotate s t nextHash now p = (r, s', t')"
  shows "ss_id s' = ss_id s" "ss_user s' = ss_user s" "ss_createdAt s' = ss_createdAt s"
    "rt_hash t' = rt_hash t" "rt_session t' = rt_session t" "IsRevoked s \<longrightarrow> s' = s"
    "rt_usedAt t \<noteq> None \<longrightarrow> rt_usedAt t' = rt_usedAt t"
  using assms by (auto simp: Rotate_def split: if_splits sum.splits)

end
