(* ===== verification/IamStore.thy ===== *)
theory IamStore
  imports Session
begin

text \<open>
  \<open>internal/iam/adapters/postgres\<close>: codes, guards, users, sessions and refresh tokens in the
  database and the transactions over them (\<open>repository.go\<close>, \<open>sessions.go\<close>). The tables and their
  constraints are those of the migrations 00002 to 00004, the statements those of \<open>queries.sql\<close>. A
  transaction that fails leaves the database as it was. The advisory lock of a phone number and the
  row locks make transactions that touch the same rows take turns, so transactions run one after the
  other. Of several codes with the newest creation time the first row is the latest; two codes of one
  number never have the same time (theory IamApp).
\<close>

section \<open>Tables\<close>

record challenge_row =
  cr_id :: uuid
  cr_phone :: string
  cr_code_hash :: string
  cr_attempts :: int
  cr_created_at :: gotime
  cr_expires_at :: gotime
  cr_consumed_at :: "gotime option"

record guard_row =
  gr_failures :: int
  gr_window_start :: gotime
  gr_locked_until :: gotime

record user_row =
  ur_id :: uuid
  ur_phone :: string
  ur_name :: "string option"
  ur_locale :: string
  ur_status :: UserStatus
  ur_role :: PlatformRole
  ur_created_at :: gotime

record session_row =
  sr_user :: uuid
  sr_created_at :: gotime
  sr_last_refreshed_at :: gotime
  sr_revoked_at :: "gotime option"
  sr_revoke_reason :: "RevokeReason option"

record token_row =
  kr_session :: uuid
  kr_created_at :: gotime
  kr_expires_at :: gotime
  kr_used_at :: "gotime option"

record iam_db =
  im_challenges :: "challenge_row list"
  im_guards :: "string \<rightharpoonup> guard_row"
  im_users :: "user_row list"
  im_sessions :: "uuid \<rightharpoonup> session_row"
  im_tokens :: "string \<rightharpoonup> token_row"

definition empty_iam :: iam_db where
  "empty_iam = \<lparr>im_challenges = [], im_guards = Map.empty, im_users = [], im_sessions = Map.empty, im_tokens = Map.empty\<rparr>"

section \<open>Codes and guards\<close>

definition iam_toInt16 :: "int \<Rightarrow> (iam_error, int) result" where
  "iam_toInt16 n = (if n < - 32768 \<or> 32767 < n then Inl Fault else Inr n)"

definition toOTPChallenge :: "challenge_row \<Rightarrow> (iam_error, OTPChallenge) result" where
  "toOTPChallenge row =
     (case NewPhoneNumber (cr_phone row) of Inl _ \<Rightarrow> Inl Fault
      | Inr phone \<Rightarrow>
          Inr (RehydrateOTPChallenge (IDFromUUID (cr_id row)) phone (cr_code_hash row) (cr_attempts row)
                 (cr_created_at row) (cr_expires_at row) (cr_consumed_at row)))"

definition OTP_Add :: "iam_db \<Rightarrow> OTPChallenge \<Rightarrow> (iam_error, iam_db) result" where
  "OTP_Add db c =
     (case iam_toInt16 (oc_attempts c) of Inl e \<Rightarrow> Inl e
      | Inr attempts \<Rightarrow>
          let row = \<lparr>cr_id = id_value (oc_id c), cr_phone = e164 (oc_phone c), cr_code_hash = oc_codeHash c,
                cr_attempts = attempts, cr_created_at = db_time (oc_createdAt c), cr_expires_at = db_time (oc_expiresAt c),
                cr_consumed_at = map_option db_time (oc_consumedAt c)\<rparr>
          in if 0 \<le> attempts \<and> cr_created_at row < cr_expires_at row
                \<and> \<not> list_ex (\<lambda>r. cr_id r = cr_id row) (im_challenges db)
             then Inr (db\<lparr>im_challenges := im_challenges db @ [row]\<rparr>) else Inl Fault)"

text \<open>\<open>WHERE phone = $1 ORDER BY created_at DESC LIMIT 1\<close>.\<close>

fun newest :: "challenge_row list \<Rightarrow> challenge_row option" where
  "newest [] = None"
| "newest (r # rs) =
     (case newest rs of None \<Rightarrow> Some r
      | Some q \<Rightarrow> if cr_created_at r < cr_created_at q then Some q else Some r)"

definition phone_rows :: "iam_db \<Rightarrow> PhoneNumber \<Rightarrow> challenge_row list" where
  "phone_rows db phone = filter (\<lambda>r. cr_phone r = e164 phone) (im_challenges db)"

definition OTP_Latest :: "iam_db \<Rightarrow> PhoneNumber \<Rightarrow> (iam_error, OTPChallenge) result" where
  "OTP_Latest db phone =
     (case newest (phone_rows db phone) of None \<Rightarrow> Inl ErrNotFound | Some row \<Rightarrow> toOTPChallenge row)"

definition OTP_CountSince :: "iam_db \<Rightarrow> PhoneNumber \<Rightarrow> gotime \<Rightarrow> int" where
  "OTP_CountSince db phone since =
     int (length (filter (\<lambda>r. db_time since \<le> cr_created_at r) (phone_rows db phone)))"

text \<open>\<open>fn\<close> returns what the callback leaves behind beside the changed challenge.\<close>

definition UpdateLatest ::
  "iam_db \<Rightarrow> PhoneNumber \<Rightarrow> (OTPChallenge \<Rightarrow> (iam_error, 'a) result \<times> OTPChallenge)
   \<Rightarrow> (iam_error, 'a \<times> iam_db) result" where
  "UpdateLatest db phone fn =
     (case newest (phone_rows db phone) of None \<Rightarrow> Inl ErrNotFound
      | Some row \<Rightarrow>
      (case toOTPChallenge row of Inl e \<Rightarrow> Inl e
      | Inr c \<Rightarrow>
      (case fn c of (Inl e, _) \<Rightarrow> Inl e
      | (Inr x, c') \<Rightarrow>
      (case iam_toInt16 (oc_attempts c') of Inl e \<Rightarrow> Inl e
      | Inr attempts \<Rightarrow>
          if attempts < 0 then Inl Fault
          else Inr (x, db\<lparr>im_challenges := map (\<lambda>r. if cr_id r = id_value (oc_id c')
                  then r\<lparr>cr_attempts := attempts, cr_consumed_at := map_option db_time (oc_consumedAt c')\<rparr> else r)
                (im_challenges db)\<rparr>)))))"

definition LoadGuard :: "iam_db \<Rightarrow> PhoneNumber \<Rightarrow> OTPGuard" where
  "LoadGuard db phone =
     (case im_guards db (e164 phone) of None \<Rightarrow> zero_guard
      | Some row \<Rightarrow> RehydrateOTPGuard (gr_failures row) (gr_window_start row) (gr_locked_until row))"

definition SaveGuard :: "iam_db \<Rightarrow> PhoneNumber \<Rightarrow> OTPGuard \<Rightarrow> (iam_error, iam_db) result" where
  "SaveGuard db phone g =
     (case iam_toInt16 (g_failures g) of Inl e \<Rightarrow> Inl e
      | Inr failures \<Rightarrow>
          if failures < 0 then Inl Fault
          else Inr (db\<lparr>im_guards := (im_guards db)(e164 phone \<mapsto>
            \<lparr>gr_failures = failures, gr_window_start = db_time (g_windowStart g), gr_locked_until = db_time (g_lockedUntil g)\<rparr>)\<rparr>))"

section \<open>Users\<close>

fun Language_text :: "Language \<Rightarrow> string" where
  "Language_text Arabic = ''ar''"
| "Language_text English = ''en''"

definition toUser :: "user_row \<Rightarrow> (iam_error, User) result" where
  "toUser row =
     (case NewPhoneNumber (ur_phone row) of Inl _ \<Rightarrow> Inl Fault
      | Inr phone \<Rightarrow>
          Inr (RehydrateUser (IDFromUUID (ur_id row)) phone (case ur_name row of None \<Rightarrow> [] | Some n \<Rightarrow> n)
                 (ParseLanguage (ur_locale row)) (ur_status row) (ur_role row) (ur_created_at row)))"

text \<open>
  The insert and the read are two statements. The first leaves the table as it is when the number is
  taken, and fails when the id is.
\<close>

definition InsertUserIfNew :: "iam_db \<Rightarrow> User \<Rightarrow> (iam_error, bool \<times> iam_db) result" where
  "InsertUserIfNew db u =
     (if list_ex (\<lambda>r. ur_phone r = e164 (u_phone u)) (im_users db) then Inr (False, db)
      else if list_ex (\<lambda>r. ur_id r = id_value (u_id u)) (im_users db) then Inl Fault
      else Inr (True, db\<lparr>im_users := im_users db @ [\<lparr>ur_id = id_value (u_id u), ur_phone = e164 (u_phone u),
             ur_name = None, ur_locale = Language_text (u_locale u), ur_status = UserActive,
             ur_role = PlatformRoleNone, ur_created_at = db_time (u_createdAt u)\<rparr>]\<rparr>))"

definition Register :: "iam_db \<Rightarrow> User \<Rightarrow> (iam_error, User \<times> bool) result \<times> iam_db" where
  "Register db u =
     (case InsertUserIfNew db u of Inl e \<Rightarrow> (Inl e, db)
      | Inr (created, db') \<Rightarrow>
          (case find_first (\<lambda>r. ur_phone r = e164 (u_phone u)) (im_users db') of None \<Rightarrow> (Inl Fault, db')
           | Some row \<Rightarrow>
               (case toUser row of Inl e \<Rightarrow> (Inl e, db') | Inr stored \<Rightarrow> (Inr (stored, created), db'))))"

definition ByID :: "iam_db \<Rightarrow> UserID \<Rightarrow> (iam_error, User) result" where
  "ByID db i =
     (case find_first (\<lambda>r. ur_id r = id_value i) (im_users db) of None \<Rightarrow> Inl ErrNotFound
      | Some row \<Rightarrow> toUser row)"

section \<open>Sessions and refresh tokens\<close>

definition revokeReason :: "Session \<Rightarrow> RevokeReason option" where
  "revokeReason s = (if \<not> IsRevoked s then None else Some (ss_revokeReason s))"

definition toRevokeReason :: "RevokeReason option \<Rightarrow> RevokeReason" where
  "toRevokeReason stored = (case stored of None \<Rightarrow> NoReason | Some r \<Rightarrow> r)"

text \<open>The two CHECK constraints on a session's end.\<close>

definition session_ok :: "Session \<Rightarrow> bool" where
  "session_ok s \<longleftrightarrow> revokeReason s \<noteq> Some NoReason \<and> (ss_revokedAt s = None) = (revokeReason s = None)"

definition insertRefreshToken :: "iam_db \<Rightarrow> RefreshToken \<Rightarrow> (iam_error, iam_db) result" where
  "insertRefreshToken db t =
     (if length (rt_hash t) = 32 \<and> im_tokens db (rt_hash t) = None \<and> im_sessions db (id_value (rt_session t)) \<noteq> None
         \<and> db_time (rt_createdAt t) < db_time (rt_expiresAt t)
      then Inr (db\<lparr>im_tokens := (im_tokens db)(rt_hash t \<mapsto> \<lparr>kr_session = id_value (rt_session t),
             kr_created_at = db_time (rt_createdAt t), kr_expires_at = db_time (rt_expiresAt t),
             kr_used_at = map_option db_time (rt_usedAt t)\<rparr>)\<rparr>)
      else Inl Fault)"

definition Sessions_Start :: "iam_db \<Rightarrow> Session \<Rightarrow> RefreshToken \<Rightarrow> (iam_error, unit) result \<times> iam_db" where
  "Sessions_Start db s first =
     commit db
      (if im_sessions db (id_value (ss_id s)) \<noteq> None \<or> \<not> session_ok s
          \<or> \<not> list_ex (\<lambda>r. ur_id r = id_value (ss_user s)) (im_users db) then Inl Fault
       else
         let db' = db\<lparr>im_sessions := (im_sessions db)(id_value (ss_id s) \<mapsto>
               \<lparr>sr_user = id_value (ss_user s), sr_created_at = db_time (ss_createdAt s),
                sr_last_refreshed_at = db_time (ss_lastRefreshedAt s),
                sr_revoked_at = map_option db_time (ss_revokedAt s), sr_revoke_reason = revokeReason s\<rparr>)\<rparr>
         in case insertRefreshToken db' first of Inl e \<Rightarrow> Inl e | Inr db'' \<Rightarrow> Inr ((), db''))"

definition session_of :: "uuid \<Rightarrow> session_row \<Rightarrow> Session" where
  "session_of i row =
     RehydrateSession (IDFromUUID i) (IDFromUUID (sr_user row)) (sr_created_at row) (sr_last_refreshed_at row)
       (sr_revoked_at row) (toRevokeReason (sr_revoke_reason row))"

definition saveSession :: "iam_db \<Rightarrow> Session \<Rightarrow> (iam_error, iam_db) result" where
  "saveSession db s =
     (if \<not> session_ok s then Inl Fault
      else Inr (db\<lparr>im_sessions := (im_sessions db)(id_value (ss_id s) := map_option (\<lambda>row.
             row\<lparr>sr_last_refreshed_at := db_time (ss_lastRefreshedAt s),
                 sr_revoked_at := map_option db_time (ss_revokedAt s), sr_revoke_reason := revokeReason s\<rparr>)
             (im_sessions db (id_value (ss_id s))))\<rparr>))"

definition MarkRefreshTokenUsed :: "iam_db \<Rightarrow> string \<Rightarrow> gotime \<Rightarrow> iam_db" where
  "MarkRefreshTokenUsed db hash used =
     db\<lparr>im_tokens := (im_tokens db)(hash := map_option (\<lambda>t. t\<lparr>kr_used_at := Some (db_time used)\<rparr>) (im_tokens db hash))\<rparr>"

text \<open>
  \<open>fn\<close> returns the next token or nil, what the callback leaves behind in variables of its caller, and
  the session and token as it leaves them.
\<close>

definition Sessions_Rotate ::
  "iam_db \<Rightarrow> string \<Rightarrow> (Session \<Rightarrow> RefreshToken
     \<Rightarrow> (iam_error, RefreshToken option \<times> 'a) result \<times> Session \<times> RefreshToken)
   \<Rightarrow> (iam_error, 'a) result \<times> iam_db" where
  "Sessions_Rotate db tokenHash fn =
     commit db
      (case im_tokens db tokenHash of None \<Rightarrow> Inl ErrNotFound
       | Some row \<Rightarrow>
       (case im_sessions db (kr_session row) of None \<Rightarrow> Inl ErrNotFound
       | Some srow \<Rightarrow>
           let session = session_of (kr_session row) srow;
               token = RehydrateRefreshToken tokenHash (IDFromUUID (kr_session row)) (kr_created_at row)
                         (kr_expires_at row) (kr_used_at row)
           in case fn session token of (Inl e, _, _) \<Rightarrow> Inl e
           | (Inr (next, x), session', token') \<Rightarrow>
               (case saveSession db session' of Inl e \<Rightarrow> Inl e
                | Inr db1 \<Rightarrow>
                    let db2 = (case rt_usedAt token' of None \<Rightarrow> db1
                        | Some used \<Rightarrow> if kr_used_at row = None then MarkRefreshTokenUsed db1 (rt_hash token') used else db1)
                    in case next of None \<Rightarrow> Inr (x, db2)
                       | Some t \<Rightarrow> (case insertRefreshToken db2 t of Inl e \<Rightarrow> Inl e | Inr db3 \<Rightarrow> Inr (x, db3)))))"

definition Sessions_Update ::
  "iam_db \<Rightarrow> SessionID \<Rightarrow> (Session \<Rightarrow> (iam_error, Session) result) \<Rightarrow> (iam_error, unit) result \<times> iam_db" where
  "Sessions_Update db i fn =
     commit db
      (case im_sessions db (id_value i) of None \<Rightarrow> Inl ErrNotFound
       | Some row \<Rightarrow>
           (case fn (RehydrateSession i (IDFromUUID (sr_user row)) (sr_created_at row) (sr_last_refreshed_at row)
                  (sr_revoked_at row) (toRevokeReason (sr_revoke_reason row))) of
              Inl e \<Rightarrow> Inl e
            | Inr s \<Rightarrow> (case saveSession db s of Inl e \<Rightarrow> Inl e | Inr db' \<Rightarrow> Inr ((), db'))))"

end
