(* ===== verification/IamApp.thy ===== *)
theory IamApp
  imports IamStore
begin

text \<open>
  \<open>internal/iam/app\<close>: the use cases of signing in. \<open>RequestOTPHandler\<close> (\<open>request_otp.go\<close>),
  \<open>VerifyOTPHandler\<close> (\<open>verify_otp.go\<close>), \<open>SessionIssuer\<close>, \<open>RefreshHandler\<close>, \<open>LogoutHandler\<close> and
  \<open>GetMeHandler\<close> (\<open>sessions.go\<close>), and \<open>PhoneOf\<close> of \<open>module.go\<close>. What a handler asks of the outside
  is an argument: the hash of a code, the signing of access tokens, the hash of a presented refresh
  token and the delivery of a code (\<open>iam_ports\<close>); the code, ids and refresh token drawn for this call;
  the instants the clock shows. A handler that runs several transactions takes what other requests do
  to the database between them as functions on the database.
\<close>

section \<open>Ports\<close>

record AccessClaims =
  ac_user :: UserID
  ac_session :: SessionID
  ac_role :: PlatformRole
  ac_issuedAt :: gotime
  ac_expiresAt :: gotime

record iam_ports =
  ip_hashCode :: "OTPCode \<Rightarrow> string"
  ip_send :: "PhoneNumber \<Rightarrow> OTPCode \<Rightarrow> iam_error option"
  ip_issue :: "AccessClaims \<Rightarrow> (iam_error, string) result"
  ip_hashToken :: "string \<Rightarrow> string option"

section \<open>Requesting a code\<close>

record OTPRequested =
  or_expiresIn :: duration
  or_resendAfter :: duration

text \<open>The callback that runs under the lock of the phone number.\<close>

definition request_tx ::
  "iam_ports \<Rightarrow> OTPPolicy \<Rightarrow> (iam_error, OTPCode) result \<Rightarrow> OTPChallengeID \<Rightarrow> gotime \<Rightarrow> PhoneNumber \<Rightarrow> iam_db
   \<Rightarrow> (iam_error, OTPCode \<times> iam_db) result" where
  "request_tx ports policy newCode i now phone db =
     (case Check (LoadGuard db phone) now of Some e \<Rightarrow> Inl e
      | None \<Rightarrow>
      (case (case OTP_Latest db phone of
               Inl e \<Rightarrow> if e = ErrNotFound then None else Some e
             | Inr latest \<Rightarrow>
                 let wait = time_sub (time_add (oc_createdAt latest) (op_resendCooldown policy)) now
                 in if 0 < wait then Some (RetryLater ErrOTPCooldown wait) else None) of Some e \<Rightarrow> Inl e
      | None \<Rightarrow>
          if op_maxPerHour policy \<le> OTP_CountSince db phone (time_add now (- hour))
          then Inl (RetryLater ErrOTPRateLimited hour)
          else
          (case newCode of Inl e \<Rightarrow> Inl e
           | Inr code \<Rightarrow>
           (case NewOTPChallenge i phone (ip_hashCode ports code) now (op_ttl policy) of Inl e \<Rightarrow> Inl e
            | Inr challenge \<Rightarrow>
            (case OTP_Add db challenge of Inl e \<Rightarrow> Inl e | Inr db' \<Rightarrow> Inr (code, db'))))))"

text \<open>The last component lists what was handed to the sender.\<close>

definition RequestOTP_Handle ::
  "iam_ports \<Rightarrow> OTPPolicy \<Rightarrow> (iam_error, OTPCode) result \<Rightarrow> OTPChallengeID \<Rightarrow> gotime \<Rightarrow> iam_db \<Rightarrow> string
   \<Rightarrow> (iam_error, OTPRequested) result \<times> iam_db \<times> (PhoneNumber \<times> OTPCode) list" where
  "RequestOTP_Handle ports policy newCode i now db raw =
     (case NewPhoneNumber raw of Inl e \<Rightarrow> (Inl (BadPhone e), db, [])
      | Inr phone \<Rightarrow>
      (case request_tx ports policy newCode i now phone db of Inl e \<Rightarrow> (Inl e, db, [])
      | Inr (code, db') \<Rightarrow>
      (case ip_send ports phone code of Some e \<Rightarrow> (Inl e, db', [(phone, code)])
      | None \<Rightarrow> (Inr \<lparr>or_expiresIn = op_ttl policy, or_resendAfter = op_resendCooldown policy\<rparr>, db', [(phone, code)]))))"

section \<open>Sessions and tokens\<close>

record Tokens =
  tk_access :: string
  tk_accessExpiresIn :: duration
  tk_refresh :: string
  tk_refreshExpiresIn :: duration

definition issuer_tokens ::
  "iam_ports \<Rightarrow> TokenPolicy \<Rightarrow> User \<Rightarrow> SessionID \<Rightarrow> string \<Rightarrow> gotime \<Rightarrow> (iam_error, Tokens) result" where
  "issuer_tokens ports tp user session refresh now =
     (case ip_issue ports \<lparr>ac_user = u_id user, ac_session = session, ac_role = u_role user, ac_issuedAt = now,
            ac_expiresAt = time_add now (tp_accessTTL tp)\<rparr> of Inl e \<Rightarrow> Inl e
      | Inr access \<Rightarrow> Inr \<lparr>tk_access = access, tk_accessExpiresIn = tp_accessTTL tp, tk_refresh = refresh,
            tk_refreshExpiresIn = tp_refreshTTL tp\<rparr>)"

text \<open>\<open>newToken\<close> is what \<open>secrets.New\<close> returned: the token for the client and the hash to store.\<close>

definition SessionIssuer_Start ::
  "iam_ports \<Rightarrow> TokenPolicy \<Rightarrow> SessionID \<Rightarrow> (iam_error, string \<times> string) result \<Rightarrow> gotime \<Rightarrow> iam_db \<Rightarrow> User
   \<Rightarrow> (iam_error, Tokens) result \<times> iam_db" where
  "SessionIssuer_Start ports tp i newToken now db user =
     (case NewSession i (u_id user) now of Inl e \<Rightarrow> (Inl e, db)
      | Inr session \<Rightarrow>
      (case newToken of Inl e \<Rightarrow> (Inl e, db)
      | Inr (refresh, hash) \<Rightarrow>
      (case NewRefreshToken hash (ss_id session) now (tp_refreshTTL tp) of Inl e \<Rightarrow> (Inl e, db)
      | Inr first \<Rightarrow>
      (case Sessions_Start db session first of (Inl e, db') \<Rightarrow> (Inl e, db')
      | (Inr _, db') \<Rightarrow> (issuer_tokens ports tp user (ss_id session) refresh now, db')))))"

section \<open>Verifying a code\<close>

record VerifyOTP_cmd =
  vo_phone :: string
  vo_code :: string
  vo_locale :: "Language option"

record Login =
  lg_user :: User
  lg_isNewUser :: bool
  lg_tokens :: Tokens

text \<open>The callback under the lock: \<open>Inr\<close> commits, with the verdict on the guess.\<close>

definition verify_tx ::
  "iam_ports \<Rightarrow> OTPPolicy \<Rightarrow> gotime \<Rightarrow> PhoneNumber \<Rightarrow> OTPCode \<Rightarrow> iam_db \<Rightarrow> (iam_error, iam_error option \<times> iam_db) result" where
  "verify_tx ports policy now phone code db =
     (let guard = LoadGuard db phone in
      case Check guard now of Some e \<Rightarrow> Inl e
      | None \<Rightarrow>
      (case (case UpdateLatest db phone (\<lambda>c. case Verify c (ip_hashCode ports code) now (op_maxAttempts policy) of
                 (err, c') \<Rightarrow> (Inr err, c')) of
               Inl e \<Rightarrow> if e = ErrNotFound then Inr (Some ErrOTPInvalid, db) else Inl e
             | Inr r \<Rightarrow> Inr r) of Inl e \<Rightarrow> Inl e
      | Inr (verifyErr, db1) \<Rightarrow>
          let (verifyErr, guard) =
                (case verifyErr of None \<Rightarrow> (None, Reset guard)
                 | Some _ \<Rightarrow>
                     (case Fail guard now policy of (Some lockErr, g) \<Rightarrow> (Some lockErr, g)
                      | (None, g) \<Rightarrow> (verifyErr, g)))
          in case SaveGuard db1 phone guard of Inl e \<Rightarrow> Inl e | Inr db2 \<Rightarrow> Inr (verifyErr, db2)))"

definition VerifyOTP_Handle ::
  "iam_ports \<Rightarrow> OTPPolicy \<Rightarrow> TokenPolicy \<Rightarrow> UserID \<Rightarrow> SessionID \<Rightarrow> (iam_error, string \<times> string) result
   \<Rightarrow> gotime \<Rightarrow> gotime \<Rightarrow> gotime \<Rightarrow> (iam_db \<Rightarrow> iam_db) \<Rightarrow> (iam_db \<Rightarrow> iam_db) \<Rightarrow> iam_db \<Rightarrow> VerifyOTP_cmd
   \<Rightarrow> (iam_error, Login) result \<times> iam_db" where
  "VerifyOTP_Handle ports policy tp ui si newToken now now' now'' others others' db cmd =
     (case NewPhoneNumber (vo_phone cmd) of Inl e \<Rightarrow> (Inl (BadPhone e), db)
      | Inr phone \<Rightarrow>
      (case ParseOTPCode (vo_code cmd) of Inl e \<Rightarrow> (Inl e, db)
      | Inr code \<Rightarrow>
      (case verify_tx ports policy now phone code db of Inl e \<Rightarrow> (Inl e, db)
      | Inr (Some e, db1) \<Rightarrow> (Inl e, db1)
      | Inr (None, db1) \<Rightarrow>
          let locale = (case vo_locale cmd of None \<Rightarrow> Arabic | Some l \<Rightarrow> l)
          in case Register (others db1) (NewUser ui phone locale now') of (Inl e, db2) \<Rightarrow> (Inl e, db2)
          | (Inr (user, created), db2) \<Rightarrow>
              if IsBlocked user then (Inl ErrUserBlocked, db2)
              else case SessionIssuer_Start ports tp si newToken now'' (others' db2) user of (Inl e, db3) \<Rightarrow> (Inl e, db3)
              | (Inr tokens, db3) \<Rightarrow> (Inr \<lparr>lg_user = user, lg_isNewUser = created, lg_tokens = tokens\<rparr>, db3))))"

section \<open>Refreshing, signing out, asking who one is\<close>

text \<open>The callback of the refresh: it never fails, and leaves the session and the refusal behind.\<close>

definition rotate_callback ::
  "string \<Rightarrow> gotime \<Rightarrow> TokenPolicy \<Rightarrow> Session \<Rightarrow> RefreshToken
   \<Rightarrow> (iam_error, RefreshToken option \<times> (Session \<times> iam_error option)) result \<times> Session \<times> RefreshToken" where
  "rotate_callback nextHash now tp sess presented =
     (case Rotate sess presented nextHash now tp of
        (Inl e, s, t) \<Rightarrow> (Inr (None, (s, Some e)), s, t)
      | (Inr next, s, t) \<Rightarrow> (Inr (Some next, (s, None)), s, t))"

definition RefreshHandler_Handle ::
  "iam_ports \<Rightarrow> TokenPolicy \<Rightarrow> (iam_error, string \<times> string) result \<Rightarrow> gotime
   \<Rightarrow> (iam_db \<Rightarrow> iam_db) \<Rightarrow> (iam_db \<Rightarrow> iam_db) \<Rightarrow> iam_db \<Rightarrow> string
   \<Rightarrow> (iam_error, Tokens) result \<times> iam_db" where
  "RefreshHandler_Handle ports tp newToken now others others' db refreshToken =
     (case ip_hashToken ports refreshToken of None \<Rightarrow> (Inl ErrRefreshTokenInvalid, db)
      | Some hash \<Rightarrow>
      (case newToken of Inl e \<Rightarrow> (Inl e, db)
      | Inr (nextRefresh, nextHash) \<Rightarrow>
      (case Sessions_Rotate db hash (rotate_callback nextHash now tp) of
         (Inl e, db1) \<Rightarrow> (Inl (if e = ErrNotFound then ErrRefreshTokenInvalid else e), db1)
       | (Inr (session, Some refused), db1) \<Rightarrow> (Inl refused, db1)
       | (Inr (session, None), db1) \<Rightarrow>
           let db2 = others db1
           in case ByID db2 (ss_user session) of
                Inl e \<Rightarrow> (Inl (if e = ErrNotFound then ErrRefreshTokenInvalid else e), db2)
              | Inr user \<Rightarrow>
                  if IsBlocked user then
                    (case Sessions_Update (others' db2) (ss_id session) (\<lambda>s. Inr (Revoke s now RevokedBlocked)) of
                       (Inl e, db3) \<Rightarrow> (Inl e, db3) | (Inr _, db3) \<Rightarrow> (Inl ErrUserBlocked, db3))
                  else (issuer_tokens ports tp user (ss_id session) nextRefresh now, db2))))"

definition logout_callback :: "UserID \<Rightarrow> gotime \<Rightarrow> Session \<Rightarrow> (iam_error, Session) result" where
  "logout_callback user now s = (if ss_user s \<noteq> user then Inl ErrNotFound else Inr (Revoke s now RevokedLogout))"

definition LogoutHandler_Handle ::
  "gotime \<Rightarrow> iam_db \<Rightarrow> UserID \<Rightarrow> SessionID \<Rightarrow> iam_error option \<times> iam_db" where
  "LogoutHandler_Handle now db user session =
     (case Sessions_Update db session (logout_callback user now) of
        (Inl e, db') \<Rightarrow> (if e \<noteq> ErrNotFound then Some e else None, db')
      | (Inr _, db') \<Rightarrow> (None, db'))"

definition GetMeHandler_Handle :: "iam_db \<Rightarrow> UserID \<Rightarrow> (iam_error, User) result" where
  "GetMeHandler_Handle db user =
     (case ByID db user of Inl e \<Rightarrow> Inl (if e = ErrNotFound then ErrUnauthenticated else e)
      | Inr u \<Rightarrow> if IsBlocked u then Inl ErrUserBlocked else Inr u)"

text \<open>\<open>None\<close> is \<open>ErrUnknownUser\<close>.\<close>

definition PhoneOf :: "iam_db \<Rightarrow> UserID \<Rightarrow> (iam_error option, PhoneNumber) result" where
  "PhoneOf db user =
     (case ByID db user of Inl e \<Rightarrow> Inl (if e = ErrNotFound then None else Some e) | Inr u \<Rightarrow> Inr (u_phone u))"

section \<open>Runs\<close>

text \<open>
  One committed transaction of any request: a run of steps is any interleaving of requests, at
  instants that need not grow (guesses are made after the zero time). The policies are those \<open>module.go\<close> wires.
\<close>

inductive iam_step :: "iam_ports \<Rightarrow> iam_db \<Rightarrow> iam_db \<Rightarrow> bool" for ports where
  request: "NewPhoneNumber raw = Inr phone \<Longrightarrow> request_tx ports DefaultOTPPolicy code i now phone db = Inr (c, db')
    \<Longrightarrow> iam_step ports db db'"
| verify: "NewPhoneNumber raw = Inr phone \<Longrightarrow> zero_time \<le> now \<Longrightarrow> verify_tx ports DefaultOTPPolicy now phone code db = Inr (r, db')
    \<Longrightarrow> iam_step ports db db'"
| register: "NewPhoneNumber raw = Inr phone \<Longrightarrow> iam_step ports db (snd (Register db (NewUser ui phone locale now)))"
| start: "iam_step ports db (snd (SessionIssuer_Start ports DefaultTokenPolicy si newToken now db user))"
| refresh: "iam_step ports db (snd (Sessions_Rotate db hash (rotate_callback nextHash now DefaultTokenPolicy)))"
| revoke_blocked: "iam_step ports db (snd (Sessions_Update db s (\<lambda>s. Inr (Revoke s now RevokedBlocked))))"
| logout: "iam_step ports db (snd (LogoutHandler_Handle now db user s))"

inductive_cases iam_stepE: "iam_step ports db db'"

end
