(* ===== verification/LoginCodes.thy ===== *)
theory LoginCodes
  imports IamApp
begin

text \<open>
  What the login codes promise, over every interleaving of requests: how often a number is sent a
  code, how often a code and a number can be guessed, that a code signs in once, and that a number
  always signs in to the same account.
\<close>

section \<open>Stored instants\<close>

lemma db_time_minutes [simp]: "db_time (t + minute) = db_time t + minute" "db_time (t - hour) = db_time t - hour"
  "db_time (t + 15 * minute) = db_time t + 15 * minute"
  using db_time_shift [of minute t] db_time_shift [of "- hour" t] db_time_shift [of "15 * minute" t]
  by (simp_all add: minute_def hour_def)

lemma db_time_zero [simp]: "db_time zero_time = zero_time"
  by (simp add: db_time_def time_truncate_def microsecond_def zero_time_def)

section \<open>Steps\<close>

lemma request_tx_Inr:
  assumes "request_tx ports policy newCode i now phone db = Inr (code, db')"
  shows "Check (LoadGuard db phone) now = None" "newCode = Inr code"
    "\<forall>latest. OTP_Latest db phone = Inr latest \<longrightarrow> oc_createdAt latest + op_resendCooldown policy \<le> now"
    "OTP_Latest db phone = Inl e \<longrightarrow> e = ErrNotFound"
    "OTP_CountSince db phone (now - hour) < op_maxPerHour policy"
    "cr_id r \<noteq> id_value i \<or> r \<notin> set (im_challenges db)"
    "db' = db\<lparr>im_challenges := im_challenges db @ [\<lparr>cr_id = id_value i, cr_phone = e164 phone,
       cr_code_hash = ip_hashCode ports code, cr_attempts = 0, cr_created_at = db_time now,
       cr_expires_at = db_time (now + op_ttl policy), cr_consumed_at = None\<rparr>]\<rparr>"
  using assms
  by (auto simp: request_tx_def NewOTPChallenge_def OTP_Add_def iam_toInt16_def Let_def time_add_def time_sub_pos_iff
      list_ex_iff split: option.splits sum.splits if_splits)

text \<open>The guard as the table keeps it.\<close>

definition kept :: "OTPGuard \<Rightarrow> OTPGuard" where
  "kept g = g\<lparr>g_windowStart := db_time (g_windowStart g), g_lockedUntil := db_time (g_lockedUntil g)\<rparr>"

lemma kept_zero [simp]: "kept zero_guard = zero_guard"
  by (simp add: kept_def zero_guard_def)

lemma SaveGuard_Inr:
  assumes "SaveGuard db phone g = Inr db'"
  shows "LoadGuard db' phone = kept g" "0 \<le> g_failures g"
    "\<exists>row. db' = db\<lparr>im_guards := (im_guards db)(e164 phone \<mapsto> row)\<rparr>"
  using assms
  by (auto simp: SaveGuard_def LoadGuard_def RehydrateOTPGuard_def kept_def iam_toInt16_def split: sum.splits if_splits)

definition guessed :: "challenge_row \<Rightarrow> int \<Rightarrow> gotime option \<Rightarrow> challenge_row list \<Rightarrow> challenge_row list" where
  "guessed row attempts consumed rows =
     map (\<lambda>r. if cr_id r = cr_id row then r\<lparr>cr_attempts := attempts, cr_consumed_at := map_option db_time consumed\<rparr> else r) rows"

lemma Verify_keeps:
  assumes "Verify c h now m = (v, c')"
  shows "oc_id c' = oc_id c" "oc_phone c' = oc_phone c" "oc_codeHash c' = oc_codeHash c"
    "oc_createdAt c' = oc_createdAt c" "oc_expiresAt c' = oc_expiresAt c"
    "oc_consumedAt c' \<noteq> oc_consumedAt c \<longrightarrow> v = None"
    "oc_attempts c' = oc_attempts c \<or> oc_attempts c < m \<and> oc_attempts c' = oc_attempts c + 1"
  using assms by (auto simp: Verify_def Let_def split: if_splits)

lemma Verify_None:
  assumes "Verify c h now m = (None, c')"
  shows "oc_consumedAt c = None" "now < oc_expiresAt c" "oc_attempts c < m" "oc_codeHash c = h"
    "oc_consumedAt c' = Some now"
  using assms by (auto simp: Verify_def Let_def split: if_splits)

lemma toOTPChallenge_Inr:
  assumes "toOTPChallenge row = Inr c"
  shows "id_value (oc_id c) = cr_id row" "oc_codeHash c = cr_code_hash row" "oc_attempts c = cr_attempts row"
    "oc_createdAt c = cr_created_at row" "oc_expiresAt c = cr_expires_at row" "oc_consumedAt c = cr_consumed_at row"
  using assms by (auto simp: toOTPChallenge_def RehydrateOTPChallenge_def IDFromUUID_def split: sum.splits)

lemma UpdateLatest_Verify:
  assumes "UpdateLatest db phone (\<lambda>c. case Verify c h now m of (err, c') \<Rightarrow> (Inr err, c')) = Inr (v, db1)"
  shows "\<exists>row c c'. newest (phone_rows db phone) = Some row \<and> toOTPChallenge row = Inr c \<and> Verify c h now m = (v, c')
    \<and> 0 \<le> oc_attempts c' \<and> db1 = db\<lparr>im_challenges := guessed row (oc_attempts c') (oc_consumedAt c') (im_challenges db)\<rparr>"
proof -
  obtain row c c' where "newest (phone_rows db phone) = Some row" and c: "toOTPChallenge row = Inr c"
    and v: "Verify c h now m = (v, c')" and "0 \<le> oc_attempts c'"
    "db1 = db\<lparr>im_challenges := map (\<lambda>r. if cr_id r = id_value (oc_id c')
       then r\<lparr>cr_attempts := oc_attempts c', cr_consumed_at := map_option db_time (oc_consumedAt c')\<rparr> else r) (im_challenges db)\<rparr>"
    using assms by (auto simp: UpdateLatest_def iam_toInt16_def split: option.splits sum.splits prod.splits if_splits)
  moreover have "id_value (oc_id c') = cr_id row" using Verify_keeps(1) [OF v] toOTPChallenge_Inr(1) [OF c] by simp
  ultimately show ?thesis unfolding guessed_def by auto
qed

lemma UpdateLatest_ErrNotFound:
  assumes "UpdateLatest db phone (\<lambda>c. case Verify c h now m of (err, c') \<Rightarrow> (Inr err, c')) = Inl ErrNotFound"
  shows "newest (phone_rows db phone) = None"
  using assms
  by (auto simp: UpdateLatest_def iam_toInt16_def toOTPChallenge_def split: option.splits sum.splits prod.splits if_splits)

text \<open>What a guess under the lock amounts to: the verdict of the latest code, if there is one.\<close>

definition guess ::
  "iam_ports \<Rightarrow> OTPPolicy \<Rightarrow> gotime \<Rightarrow> PhoneNumber \<Rightarrow> OTPCode \<Rightarrow> iam_db \<Rightarrow> bool \<Rightarrow> iam_db \<Rightarrow> bool" where
  "guess ports policy now phone code db right db1 \<longleftrightarrow>
     (db1 = db \<and> newest (phone_rows db phone) = None \<and> \<not> right)
     \<or> (\<exists>row c v c'. newest (phone_rows db phone) = Some row \<and> toOTPChallenge row = Inr c
          \<and> Verify c (ip_hashCode ports code) now (op_maxAttempts policy) = (v, c') \<and> right = (v = None)
          \<and> 0 \<le> oc_attempts c'
          \<and> db1 = db\<lparr>im_challenges := guessed row (oc_attempts c') (oc_consumedAt c') (im_challenges db)\<rparr>)"

text \<open>A guess that commits passed the guard; the guard is reset by a right guess and counts a wrong one.\<close>

lemma verify_tx_Inr:
  assumes "verify_tx ports policy now phone code db = Inr (r, db')"
  obtains db1 where "Check (LoadGuard db phone) now = None"
    "guess ports policy now phone code db (r = None) db1"
    "SaveGuard db1 phone (if r = None then zero_guard else snd (Fail (LoadGuard db phone) now policy)) = Inr db'"
proof -
  let ?u = "UpdateLatest db phone (\<lambda>c. case Verify c (ip_hashCode ports code) now (op_maxAttempts policy) of (err, c') \<Rightarrow> (Inr err, c'))"
  have c: "Check (LoadGuard db phone) now = None" using assms by (auto simp: verify_tx_def Let_def split: option.splits)
  obtain v db1 where v: "?u = Inr (v, db1) \<or> ?u = Inl ErrNotFound \<and> v = Some ErrOTPInvalid \<and> db1 = db"
    "SaveGuard db1 phone (if r = None then zero_guard else snd (Fail (LoadGuard db phone) now policy)) = Inr db'"
    "(r = None) = (v = None)"
  proof (cases ?u)
    case (Inl e)
    then show ?thesis
      using that [of "Some ErrOTPInvalid" db] assms c
      by (auto simp: verify_tx_def Let_def Reset_def split: option.splits sum.splits prod.splits if_splits)
  next
    case (Inr w)
    then show ?thesis
      using that [of "fst w" "snd w"] assms c
      by (cases "fst w") (auto simp: verify_tx_def Let_def Reset_def split: option.splits sum.splits prod.splits if_splits)
  qed
  have "guess ports policy now phone code db (r = None) db1"
    using v(1,3) UpdateLatest_Verify UpdateLatest_ErrNotFound unfolding guess_def by blast
  then show ?thesis using that c v(2) by blast
qed

section \<open>The table of codes\<close>

definition stored_phone :: "string \<Rightarrow> bool" where
  "stored_phone p \<longleftrightarrow> NewPhoneNumber p = Inr \<lparr>e164 = p\<rparr>"

definition wf_codes :: "challenge_row list \<Rightarrow> bool" where
  "wf_codes rows \<longleftrightarrow> distinct (map cr_id rows)
     \<and> (\<forall>r \<in> set rows. 0 \<le> cr_attempts r \<and> cr_attempts r \<le> 5 \<and> db_time (cr_created_at r) = cr_created_at r
          \<and> stored_phone (cr_phone r))
     \<and> sorted_wrt (\<lambda>r q. cr_phone r = cr_phone q \<longrightarrow> cr_created_at r + minute \<le> cr_created_at q) rows
     \<and> (\<forall>phone t. length (filter (\<lambda>r. cr_phone r = phone \<and> t \<le> cr_created_at r \<and> cr_created_at r \<le> t + hour) rows) \<le> 5)"

lemma wf_codes_Nil [simp]: "wf_codes []"
  by (simp add: wf_codes_def)

lemma NewPhoneNumber_stored: "NewPhoneNumber raw = Inr p \<Longrightarrow> stored_phone (e164 p)"
  using NewPhoneNumber_e164 [of raw p] NewPhoneNumber_forms by (fastforce simp: stored_phone_def)

lemma newest_None [simp]: "newest rows = None \<longleftrightarrow> rows = []"
  by (cases rows) (auto split: option.splits)

lemma newest_Some:
  "newest rows = Some r \<Longrightarrow> r \<in> set rows \<and> (\<forall>q \<in> set rows. cr_created_at q \<le> cr_created_at r)"
proof (induction rows arbitrary: r)
  case (Cons a rows)
  show ?case
  proof (cases "newest rows")
    case None
    then show ?thesis using Cons.prems by simp
  next
    case (Some q)
    then show ?thesis using Cons.IH [OF Some] Cons.prems by (auto split: if_splits)
  qed
qed simp

lemma length_filter_weaker:
  "(\<And>x. x \<in> set xs \<Longrightarrow> P x \<Longrightarrow> Q x) \<Longrightarrow> length (filter P xs) \<le> length (filter Q xs)"
  by (induction xs) (auto simp: le_SucI)

lemma wf_codes_request:
  assumes wf: "wf_codes (im_challenges db)" and "NewPhoneNumber raw = Inr phone"
    and tx: "request_tx ports DefaultOTPPolicy newCode i now phone db = Inr (code, db')"
  shows "wf_codes (im_challenges db')"
proof -
  note r = request_tx_Inr [OF tx]
  let ?row = "\<lparr>cr_id = id_value i, cr_phone = e164 phone, cr_code_hash = ip_hashCode ports code, cr_attempts = 0,
       cr_created_at = db_time now, cr_expires_at = db_time (now + 5 * minute), cr_consumed_at = None\<rparr>"
  have rows: "im_challenges db' = im_challenges db @ [?row]" using r(7) by (simp add: DefaultOTPPolicy_def)
  have spaced: "cr_created_at q + minute \<le> db_time now" if q: "q \<in> set (im_challenges db)" "cr_phone q = e164 phone" for q
  proof -
    obtain l where l: "newest (phone_rows db phone) = Some l"
      using q newest_None [of "phone_rows db phone"] by (cases "newest (phone_rows db phone)") (auto simp: phone_rows_def filter_empty_conv)
    then have m: "l \<in> set (im_challenges db)" "cr_created_at q \<le> cr_created_at l" "cr_phone l = e164 phone"
      using newest_Some [OF l] q by (auto simp: phone_rows_def)
    then obtain c where c: "OTP_Latest db phone = Inr c" "oc_createdAt c = cr_created_at l"
      using wf l toOTPChallenge_Inr(4) by (fastforce simp: OTP_Latest_def wf_codes_def stored_phone_def toOTPChallenge_def)
    then have "cr_created_at l + minute \<le> now" using r(3) by (auto simp: DefaultOTPPolicy_def)
    then have "db_time (cr_created_at l + minute) \<le> db_time now" by (rule db_time_mono)
    moreover have "db_time (cr_created_at l) = cr_created_at l" using wf m(1) by (simp add: wf_codes_def)
    ultimately show ?thesis using m(2) by simp
  qed
  have hourly: "length (filter (\<lambda>r. cr_phone r = p \<and> t \<le> cr_created_at r \<and> cr_created_at r \<le> t + hour) (im_challenges db @ [?row])) \<le> 5" for p t
  proof (cases "p = e164 phone \<and> t \<le> db_time now \<and> db_time now \<le> t + hour")
    case True
    have "length (filter (\<lambda>r. cr_phone r = p \<and> t \<le> cr_created_at r \<and> cr_created_at r \<le> t + hour) (im_challenges db))
      \<le> length (filter (\<lambda>r. cr_phone r = p \<and> db_time now - hour \<le> cr_created_at r) (im_challenges db))"
      using True by (intro length_filter_weaker) auto
    also have "\<dots> < 5"
      using r(5) True by (simp add: OTP_CountSince_def phone_rows_def DefaultOTPPolicy_def conj_commute)
    finally show ?thesis using True by simp
  next
    case False
    then show ?thesis using wf by (auto simp: wf_codes_def)
  qed
  have "\<forall>q \<in> set (im_challenges db). cr_id q \<noteq> id_value i" using r(6) by blast
  then show ?thesis
    using wf spaced hourly NewPhoneNumber_stored [OF assms(2)]
    unfolding wf_codes_def rows by (auto simp: sorted_wrt_append)
qed

lemma wf_codes_guessed:
  assumes "wf_codes rows" "0 \<le> attempts" "attempts \<le> 5"
  shows "wf_codes (guessed row attempts consumed rows)"
proof -
  have m: "cr_id ((\<lambda>r. if cr_id r = cr_id row then r\<lparr>cr_attempts := attempts, cr_consumed_at := map_option db_time consumed\<rparr> else r) r) = cr_id r"
    "cr_phone ((\<lambda>r. if cr_id r = cr_id row then r\<lparr>cr_attempts := attempts, cr_consumed_at := map_option db_time consumed\<rparr> else r) r) = cr_phone r"
    "cr_created_at ((\<lambda>r. if cr_id r = cr_id row then r\<lparr>cr_attempts := attempts, cr_consumed_at := map_option db_time consumed\<rparr> else r) r) = cr_created_at r"
    for r by simp_all
  show ?thesis using assms unfolding wf_codes_def guessed_def
    by (auto simp: map_map comp_def m sorted_wrt_map filter_map)
qed

lemma wf_codes_guess:
  assumes "wf_codes (im_challenges db)" "guess ports DefaultOTPPolicy now phone code db right db1"
  shows "wf_codes (im_challenges db1)"
  using assms(2) unfolding guess_def
proof (elim disjE exE conjE)
  fix row c v c'
  assume g: "newest (phone_rows db phone) = Some row" "toOTPChallenge row = Inr c"
    "Verify c (ip_hashCode ports code) now (op_maxAttempts DefaultOTPPolicy) = (v, c')" "0 \<le> oc_attempts c'"
    "db1 = db\<lparr>im_challenges := guessed row (oc_attempts c') (oc_consumedAt c') (im_challenges db)\<rparr>"
  have "row \<in> set (im_challenges db)" using newest_Some [OF g(1)] by (simp add: phone_rows_def)
  then have "oc_attempts c' \<le> 5"
    using assms(1) Verify_keeps(7) [OF g(3)] toOTPChallenge_Inr(3) [OF g(2)] by (auto simp: wf_codes_def DefaultOTPPolicy_def)
  then show ?thesis using g(4,5) assms(1) by (simp add: wf_codes_guessed)
qed (use assms(1) in simp)

section \<open>What each transaction leaves alone\<close>

lemma Register_frame [simp]:
  "im_challenges (snd (Register db u)) = im_challenges db" "im_guards (snd (Register db u)) = im_guards db"
  "im_sessions (snd (Register db u)) = im_sessions db" "im_tokens (snd (Register db u)) = im_tokens db"
  by (auto simp: Register_def InsertUserIfNew_def split: sum.splits option.splits prod.splits if_splits)

lemma insertRefreshToken_frame:
  assumes "insertRefreshToken db t = Inr db'"
  shows "im_challenges db' = im_challenges db" "im_guards db' = im_guards db" "im_users db' = im_users db"
    "im_sessions db' = im_sessions db"
  using assms by (auto simp: insertRefreshToken_def split: if_splits)

lemma saveSession_frame:
  assumes "saveSession db s = Inr db'"
  shows "im_challenges db' = im_challenges db" "im_guards db' = im_guards db" "im_users db' = im_users db"
    "im_tokens db' = im_tokens db"
  using assms by (auto simp: saveSession_def split: if_splits)

lemma Sessions_frame [simp]:
  "im_challenges (snd (Sessions_Start db s t)) = im_challenges db" "im_guards (snd (Sessions_Start db s t)) = im_guards db"
  "im_users (snd (Sessions_Start db s t)) = im_users db"
  "im_challenges (snd (Sessions_Rotate db h fn)) = im_challenges db" "im_guards (snd (Sessions_Rotate db h fn)) = im_guards db"
  "im_users (snd (Sessions_Rotate db h fn)) = im_users db"
  "im_challenges (snd (Sessions_Update db i f)) = im_challenges db" "im_guards (snd (Sessions_Update db i f)) = im_guards db"
  "im_users (snd (Sessions_Update db i f)) = im_users db" "im_tokens (snd (Sessions_Update db i f)) = im_tokens db"
  by (auto simp: Sessions_Start_def Sessions_Rotate_def Sessions_Update_def MarkRefreshTokenUsed_def commit_def Let_def
      insertRefreshToken_frame saveSession_frame split: sum.splits option.splits prod.splits if_splits)

lemma SessionIssuer_Start_db:
  "\<exists>s t. snd (SessionIssuer_Start ports tp i newToken now db user) = snd (Sessions_Start db s t)
     \<or> snd (SessionIssuer_Start ports tp i newToken now db user) = db"
  by (auto simp: SessionIssuer_Start_def split: sum.splits prod.splits) (metis snd_conv)+

lemma SessionIssuer_Start_frame [simp]:
  "im_challenges (snd (SessionIssuer_Start ports tp i newToken now db user)) = im_challenges db"
  "im_guards (snd (SessionIssuer_Start ports tp i newToken now db user)) = im_guards db"
  "im_users (snd (SessionIssuer_Start ports tp i newToken now db user)) = im_users db"
  using SessionIssuer_Start_db [of ports tp i newToken now db user] by (metis Sessions_frame(1-3))+

lemma LogoutHandler_db [simp]: "snd (LogoutHandler_Handle now db user s) = snd (Sessions_Update db s (logout_callback user now))"
  by (auto simp: LogoutHandler_Handle_def split: sum.splits prod.splits)

lemma verify_tx_frame:
  assumes "verify_tx ports policy now phone code db = Inr (r, db')"
  shows "im_users db' = im_users db" "im_sessions db' = im_sessions db" "im_tokens db' = im_tokens db"
    "\<And>p. p \<noteq> e164 phone \<Longrightarrow> im_guards db' p = im_guards db p"
  using assms by (elim verify_tx_Inr; auto simp: guess_def dest!: SaveGuard_Inr(3))+

lemma request_tx_frame:
  assumes "request_tx ports policy newCode i now phone db = Inr (code, db')"
  shows "im_users db' = im_users db" "im_sessions db' = im_sessions db" "im_tokens db' = im_tokens db"
    "im_guards db' = im_guards db"
  using request_tx_Inr(7) [OF assms] by simp_all

lemma verify_tx_challenges:
  assumes "verify_tx ports policy now phone code db = Inr (r, db')"
  obtains db1 where "guess ports policy now phone code db (r = None) db1" "im_challenges db' = im_challenges db1"
  using assms by (elim verify_tx_Inr; auto dest!: SaveGuard_Inr(3))

lemma iam_step_wf_codes:
  "iam_step ports db db' \<Longrightarrow> wf_codes (im_challenges db) \<Longrightarrow> wf_codes (im_challenges db')"
proof (induction rule: iam_step.induct)
  case (request raw phone code i now db c db')
  then show ?case using wf_codes_request by blast
next
  case (verify raw phone now code db r db')
  then show ?case by (metis verify_tx_challenges wf_codes_guess)
qed simp_all

interpretation codes_kept: invariant_system "iam_step ports" "\<lambda>db. wf_codes (im_challenges db)"
  by unfold_locales (rule iam_step_wf_codes)

section \<open>The guard\<close>

text \<open>
  The guard counts up to \<open>op_maxFailures\<close> and is locked exactly when it has counted so far. The
  bound on guesses is shown for any policy whose window and lockout are whole microseconds.
\<close>

definition wf_guard :: "OTPPolicy \<Rightarrow> OTPGuard \<Rightarrow> bool" where
  "wf_guard p g \<longleftrightarrow> 0 \<le> g_failures g \<and> g_failures g \<le> op_maxFailures p
     \<and> (g_failures g < op_maxFailures p \<longleftrightarrow> g_lockedUntil g = zero_time)"

definition sane_policy :: "OTPPolicy \<Rightarrow> bool" where
  "sane_policy p \<longleftrightarrow> 1 \<le> op_maxFailures p \<and> op_maxFailures p \<le> 32767 \<and> 1000 \<le> op_lockout p"

lemma sane_DefaultOTPPolicy [simp]: "sane_policy DefaultOTPPolicy"
  by (simp add: sane_policy_def DefaultOTPPolicy_def minute_def)

lemma wf_zero_guard: "sane_policy p \<Longrightarrow> wf_guard p zero_guard"
  by (simp add: wf_guard_def sane_policy_def zero_guard_def)

text \<open>A failure that the guard lets pass: what is kept afterwards.\<close>

definition fresh_window :: "OTPPolicy \<Rightarrow> OTPGuard \<Rightarrow> gotime \<Rightarrow> bool" where
  "fresh_window p g now \<longleftrightarrow>
     g_failures g = 0 \<or> g_windowStart g + op_failureWindow p \<le> now \<or> g_failures g = op_maxFailures p"

definition locked_at :: "OTPPolicy \<Rightarrow> gotime \<Rightarrow> gotime" where
  "locked_at p now = db_time (now + op_lockout p)"

lemma Fail_kept:
  assumes p: "sane_policy p" and g: "wf_guard p g" and c: "Check g now = None"
  shows "kept (snd (Fail g now p)) =
    (let n = (if fresh_window p g now then 1 else g_failures g + 1) in
     \<lparr>g_failures = n, g_windowStart = db_time (if fresh_window p g now then now else g_windowStart g),
      g_lockedUntil = (if n = op_maxFailures p then locked_at p now else zero_time)\<rparr>)"
proof -
  have l: "\<not> now < g_lockedUntil g" using c by (simp add: Check_def split: if_splits)
  have w: "wrap64 (g_failures g + 1) = g_failures g + 1" "wrap64 1 = 1" "wrap64 (op_maxFailures p) = op_maxFailures p"
    using p g by (auto intro!: wrap64_small simp: sane_policy_def wf_guard_def)
  show ?thesis
  proof (cases "g_failures g < op_maxFailures p")
    case True
    then have z: "g_lockedUntil g = zero_time" using g by (simp add: wf_guard_def)
    show ?thesis
      using True z l w p
      by (auto simp: Fail_def Check_def Let_def kept_def fresh_window_def Reset_def zero_guard_def time_add_def locked_at_def
          sane_policy_def w)
  next
    case False
    then have f: "g_failures g = op_maxFailures p" "g_lockedUntil g \<noteq> zero_time" using g by (simp_all add: wf_guard_def)
    then show ?thesis
      using l w p
      by (auto simp: Fail_def Check_def Let_def kept_def fresh_window_def Reset_def zero_guard_def time_add_def locked_at_def
          sane_policy_def w)
  qed
qed

lemma locked_at_late:
  assumes "sane_policy p" "zero_time \<le> now"
  shows "locked_at p now \<noteq> zero_time" "now + op_lockout p - 1000 < locked_at p now"
proof -
  show "now + op_lockout p - 1000 < locked_at p now" using db_time_gt [of "now + op_lockout p"] by (simp add: locked_at_def)
  moreover have "1000 \<le> op_lockout p" using assms(1) by (simp add: sane_policy_def)
  ultimately show "locked_at p now \<noteq> zero_time" using assms(2) by linarith
qed

lemma Fail_wf:
  assumes "sane_policy p" "wf_guard p g" "Check g now = None" "zero_time \<le> now"
  shows "wf_guard p (kept (snd (Fail g now p)))"
proof (cases "fresh_window p g now")
  case True
  then show ?thesis
    using assms locked_at_late(1) [OF assms(1,4)] by (simp add: Fail_kept wf_guard_def Let_def sane_policy_def)
next
  case False
  then have "g_failures g + 1 \<le> op_maxFailures p" using assms(2) by (auto simp: fresh_window_def wf_guard_def)
  then show ?thesis
    using False assms locked_at_late(1) [OF assms(1,4)] by (auto simp: Fail_kept wf_guard_def Let_def)
qed

text \<open>Failures one after the other, each let pass by the guard.\<close>

fun passes :: "OTPPolicy \<Rightarrow> OTPGuard \<Rightarrow> gotime list \<Rightarrow> bool" where
  "passes p g [] \<longleftrightarrow> True"
| "passes p g (t # ts) \<longleftrightarrow> Check g t = None \<and> passes p (kept (snd (Fail g t p))) ts"

lemma passes_locked:
  assumes "passes p g ts" "\<forall>t \<in> set ts. t < e" "e \<le> g_lockedUntil g"
  shows "ts = []"
  using assms by (cases ts) (auto simp: Check_def split: if_splits)

text \<open>
  Within an interval that is shorter than the window and the lockout: at most \<open>op_maxFailures\<close>
  guesses from a window that began inside it, and before that less than \<open>op_maxFailures\<close> from one
  that began earlier.
\<close>

definition short_span :: "OTPPolicy \<Rightarrow> gotime \<Rightarrow> gotime \<Rightarrow> bool" where
  "short_span p a e \<longleftrightarrow> e + 1000 \<le> a + op_failureWindow p \<and> e + 1000 \<le> a + op_lockout p \<and> zero_time \<le> a"

lemma passes_one_window:
  assumes p: "sane_policy p" and w: "short_span p a e"
  shows "wf_guard p g \<Longrightarrow> 1 \<le> g_failures g \<Longrightarrow> a - 1000 < g_windowStart g \<Longrightarrow> db_time (g_windowStart g) = g_windowStart g
    \<Longrightarrow> (g_failures g = op_maxFailures p \<longrightarrow> e \<le> g_lockedUntil g)
    \<Longrightarrow> passes p g ts \<Longrightarrow> \<forall>t \<in> set ts. a \<le> t \<and> t < e
    \<Longrightarrow> int (length ts) \<le> op_maxFailures p - g_failures g"
proof (induction ts arbitrary: g)
  case Nil
  then show ?case by (simp add: wf_guard_def)
next
  case (Cons t ts)
  have c: "Check g t = None" "passes p (kept (snd (Fail g t p))) ts" and t: "a \<le> t" "t < e" "zero_time \<le> t"
    using Cons.prems(6,7) w by (auto simp: short_span_def)
  have f: "g_failures g < op_maxFailures p"
    using Cons.prems(1,5) c(1) t(2) by (force simp: Check_def wf_guard_def split: if_splits)
  have nf: "\<not> fresh_window p g t" using f Cons.prems(2,3) w t(2) by (simp add: fresh_window_def short_span_def)
  let ?g = "kept (snd (Fail g t p))"
  have k: "g_failures ?g = g_failures g + 1" "g_windowStart ?g = g_windowStart g"
    "g_failures ?g = op_maxFailures p \<longrightarrow> g_lockedUntil ?g = locked_at p t"
    using nf Cons.prems(4) by (simp_all add: Fail_kept [OF p Cons.prems(1) c(1)] Let_def)
  moreover have "e \<le> locked_at p t" using locked_at_late(2) [OF p t(3)] t(1) w by (simp add: short_span_def)
  ultimately have "int (length ts) \<le> op_maxFailures p - g_failures ?g"
    using Cons.IH [OF Fail_wf [OF p Cons.prems(1) c(1) t(3)]] Cons.prems(2,3,4,7) c(2) by simp
  then show ?case using k(1) by simp
qed

lemma passes_bound:
  assumes p: "sane_policy p" and w: "short_span p a e"
  shows "wf_guard p g \<Longrightarrow> db_time (g_windowStart g) = g_windowStart g \<Longrightarrow> passes p g ts
    \<Longrightarrow> \<forall>t \<in> set ts. a \<le> t \<and> t < e
    \<Longrightarrow> int (length ts) \<le> (if g_failures g = op_maxFailures p then op_maxFailures p else 2 * op_maxFailures p - 1 - g_failures g)"
proof (induction ts arbitrary: g)
  case Nil
  then show ?case using p by (auto simp: wf_guard_def sane_policy_def)
next
  case (Cons t ts)
  have c: "Check g t = None" "passes p (kept (snd (Fail g t p))) ts" and t: "a \<le> t" "t < e" "zero_time \<le> t"
    and f: "g_failures g \<le> op_maxFailures p" "1 \<le> op_maxFailures p" "0 \<le> g_failures g"
    using Cons.prems(1,3,4) w p by (auto simp: short_span_def wf_guard_def sane_policy_def)
  let ?g = "kept (snd (Fail g t p))"
  note k = Fail_kept [OF p Cons.prems(1) c(1)]
  note wf = Fail_wf [OF p Cons.prems(1) c(1) t(3)]
  have l: "e \<le> locked_at p t" using locked_at_late(2) [OF p t(3)] t(1) w by (simp add: short_span_def)
  have ws: "db_time (g_windowStart ?g) = g_windowStart ?g" by (simp add: k Let_def)
  consider "fresh_window p g t" | "\<not> fresh_window p g t" "g_failures g + 1 = op_maxFailures p"
    | "\<not> fresh_window p g t" "g_failures g + 1 < op_maxFailures p"
    using f by (cases "fresh_window p g t") (fastforce simp: fresh_window_def)+
  then show ?case
  proof cases
    case 1
    have "a - 1000 < db_time t" using db_time_gt [of t] t(1) by linarith
    then have "int (length ts) \<le> op_maxFailures p - 1"
      using passes_one_window [OF p w wf _ _ ws _ c(2)] 1 l Cons.prems(4) by (simp add: k Let_def)
    then show ?thesis using f by auto
  next
    case 2
    then have "ts = []" using passes_locked [OF c(2), of e] l Cons.prems(4) by (simp add: k Let_def)
    then show ?thesis using f 2 by simp
  next
    case 3
    then have "int (length ts) \<le> 2 * op_maxFailures p - 1 - (g_failures g + 1)"
      using Cons.IH [OF wf ws c(2)] Cons.prems(4) by (simp add: k Let_def)
    then show ?thesis using 3 f by auto
  qed
qed

definition wf_guards :: "iam_db \<Rightarrow> bool" where
  "wf_guards db \<longleftrightarrow> (\<forall>phone. wf_guard DefaultOTPPolicy (LoadGuard db phone)
     \<and> db_time (g_windowStart (LoadGuard db phone)) = g_windowStart (LoadGuard db phone))"

lemma LoadGuard_cong: "im_guards db' (e164 phone) = im_guards db (e164 phone) \<Longrightarrow> LoadGuard db' phone = LoadGuard db phone"
  by (simp add: LoadGuard_def)

lemma wf_guards_empty: "wf_guards empty_iam"
  by (simp add: wf_guards_def LoadGuard_def empty_iam_def wf_zero_guard) (simp add: zero_guard_def)

lemma verify_tx_guard:
  assumes "verify_tx ports policy now phone code db = Inr (r, db')"
  shows "Check (LoadGuard db phone) now = None"
    "LoadGuard db' phone = (if r = None then zero_guard else kept (snd (Fail (LoadGuard db phone) now policy)))"
  using assms by (elim verify_tx_Inr; simp add: SaveGuard_Inr(1))+

lemma kept_windowStart: "db_time (g_windowStart (kept g)) = g_windowStart (kept g)"
  by (simp add: kept_def)

lemma verify_tx_wf_guards:
  assumes "wf_guards db" "zero_time \<le> now" "verify_tx ports DefaultOTPPolicy now phone code db = Inr (r, db')"
  shows "wf_guards db'"
  unfolding wf_guards_def
proof
  fix q
  show "wf_guard DefaultOTPPolicy (LoadGuard db' q) \<and> db_time (g_windowStart (LoadGuard db' q)) = g_windowStart (LoadGuard db' q)"
  proof (cases "e164 q = e164 phone")
    case True
    then have q: "LoadGuard db' q = LoadGuard db' phone" by (simp add: LoadGuard_def)
    have "wf_guard DefaultOTPPolicy (LoadGuard db phone)" using assms(1) by (simp add: wf_guards_def)
    then show ?thesis
      unfolding q verify_tx_guard(2) [OF assms(3)]
      using Fail_wf [OF _ _ verify_tx_guard(1) [OF assms(3)] assms(2)] kept_windowStart
        kept_windowStart [of zero_guard] by (simp add: wf_zero_guard)
  next
    case False
    then have "LoadGuard db' q = LoadGuard db q" by (intro LoadGuard_cong verify_tx_frame(4) [OF assms(3)])
    then show ?thesis using assms(1) by (simp add: wf_guards_def)
  qed
qed

lemma iam_step_wf_guards: "iam_step ports db db' \<Longrightarrow> wf_guards db \<Longrightarrow> wf_guards db'"
proof (induction rule: iam_step.induct)
  case (request raw phone code i now db c db')
  then show ?case using request_tx_frame(4) [OF request(2)] by (simp add: wf_guards_def LoadGuard_def)
next
  case (verify raw phone now code db r db')
  then show ?case using verify_tx_wf_guards by blast
qed (simp_all add: wf_guards_def LoadGuard_def)

interpretation guards_kept: invariant_system "iam_step ports" wf_guards
  by unfold_locales (rule iam_step_wf_guards)

text \<open>
  A run in which nobody signs in with \<open>phone\<close>: the instants are those of the wrong guesses that were
  compared with a code, and between them other requests do what they like as long as the guard of the
  number stays as it is.
\<close>

inductive guessing :: "iam_ports \<Rightarrow> PhoneNumber \<Rightarrow> iam_db \<Rightarrow> gotime list \<Rightarrow> iam_db \<Rightarrow> bool" for ports phone where
  nothing: "guessing ports phone db [] db"
| other: "iam_step ports db db1 \<Longrightarrow> im_guards db1 (e164 phone) = im_guards db (e164 phone)
    \<Longrightarrow> guessing ports phone db1 ts db2 \<Longrightarrow> guessing ports phone db ts db2"
| wrong: "verify_tx ports DefaultOTPPolicy now phone code db = Inr (Some e, db1)
    \<Longrightarrow> guessing ports phone db1 ts db2 \<Longrightarrow> guessing ports phone db (now # ts) db2"

lemma guessing_passes: "guessing ports phone db ts db' \<Longrightarrow> passes DefaultOTPPolicy (LoadGuard db phone) ts"
proof (induction rule: guessing.induct)
  case (other db db1 ts db2)
  then show ?case using LoadGuard_cong by metis
next
  case (wrong now code db e db1 ts db2)
  then show ?case using verify_tx_guard [OF wrong(1)] by simp
qed simp

section \<open>Codes are used once\<close>

text \<open>Codes are never removed, used codes stay used, and the guesses on a code only grow.\<close>

definition keeps_codes :: "challenge_row list \<Rightarrow> challenge_row list \<Rightarrow> bool" where
  "keeps_codes rows rows' \<longleftrightarrow> (\<forall>r \<in> set rows. \<exists>r' \<in> set rows'. cr_id r' = cr_id r \<and> cr_phone r' = cr_phone r
     \<and> cr_code_hash r' = cr_code_hash r \<and> cr_created_at r' = cr_created_at r \<and> cr_expires_at r' = cr_expires_at r
     \<and> cr_attempts r \<le> cr_attempts r' \<and> (cr_consumed_at r \<noteq> None \<longrightarrow> cr_consumed_at r' \<noteq> None))"

lemma keeps_codes_refl [simp]: "keeps_codes rows rows"
  by (auto simp: keeps_codes_def)

lemma keeps_codes_trans: "keeps_codes a b \<Longrightarrow> keeps_codes b c \<Longrightarrow> keeps_codes a c"
  unfolding keeps_codes_def by (smt (verit) order.trans)

lemma keeps_codes_guess:
  assumes "distinct (map cr_id (im_challenges db))" "guess ports policy now phone code db right db1"
  shows "keeps_codes (im_challenges db) (im_challenges db1)"
  using assms(2) unfolding guess_def
proof (elim disjE exE conjE)
  fix row c v c'
  assume g: "newest (phone_rows db phone) = Some row" "toOTPChallenge row = Inr c"
    "Verify c (ip_hashCode ports code) now (op_maxAttempts policy) = (v, c')"
    "db1 = db\<lparr>im_challenges := guessed row (oc_attempts c') (oc_consumedAt c') (im_challenges db)\<rparr>"
  have row: "row \<in> set (im_challenges db)" using newest_Some [OF g(1)] by (simp add: phone_rows_def)
  have a: "cr_attempts row \<le> oc_attempts c'" "cr_consumed_at row \<noteq> None \<longrightarrow> oc_consumedAt c' = cr_consumed_at row"
    using Verify_keeps(7) [OF g(3)] toOTPChallenge_Inr(3,6) [OF g(2)] g(3) by (auto simp: Verify_def split: if_splits)
  show ?thesis unfolding keeps_codes_def
  proof
    fix r
    assume r: "r \<in> set (im_challenges db)"
    show "\<exists>r' \<in> set (im_challenges db1). cr_id r' = cr_id r \<and> cr_phone r' = cr_phone r
     \<and> cr_code_hash r' = cr_code_hash r \<and> cr_created_at r' = cr_created_at r \<and> cr_expires_at r' = cr_expires_at r
     \<and> cr_attempts r \<le> cr_attempts r' \<and> (cr_consumed_at r \<noteq> None \<longrightarrow> cr_consumed_at r' \<noteq> None)"
    proof (cases "cr_id r = cr_id row")
      case True
      then have "r = row" using assms(1) r row by (auto simp: distinct_map inj_on_def)
      then show ?thesis using r a g(4) by (auto simp: guessed_def intro!: bexI [of _ "row\<lparr>cr_attempts := oc_attempts c', cr_consumed_at := map_option db_time (oc_consumedAt c')\<rparr>"])
    next
      case False
      then show ?thesis using r g(4) by (auto simp: guessed_def intro!: bexI [of _ r] image_eqI [of _ _ r])
    qed
  qed
qed (simp)

lemma iam_step_keeps_codes:
  "iam_step ports db db' \<Longrightarrow> wf_codes (im_challenges db) \<Longrightarrow> keeps_codes (im_challenges db) (im_challenges db')"
proof (induction rule: iam_step.induct)
  case (request raw phone code i now db c db')
  then show ?case using request_tx_Inr(7) [OF request(2)] by (fastforce simp: keeps_codes_def)
next
  case (verify raw phone now code db r db')
  then show ?case by (metis verify_tx_challenges keeps_codes_guess wf_codes_def)
qed simp_all

interpretation codes_grow: monotone_system "iam_step ports" "\<lambda>db. wf_codes (im_challenges db)"
  "\<lambda>db db'. keeps_codes (im_challenges db) (im_challenges db')"
  by unfold_locales (auto intro: keeps_codes_trans iam_step_keeps_codes)

text \<open>A right guess is the code of the latest challenge, unused, in time and within its attempts, and uses it up.\<close>

lemma verify_tx_right:
  assumes "verify_tx ports policy now phone code db = Inr (None, db')"
  obtains row where "newest (phone_rows db phone) = Some row" "cr_consumed_at row = None" "now < cr_expires_at row"
    "cr_attempts row < op_maxAttempts policy" "cr_code_hash row = ip_hashCode ports code"
    "\<exists>r \<in> set (im_challenges db'). cr_id r = cr_id row \<and> cr_consumed_at r \<noteq> None"
proof -
  obtain db1 where g: "guess ports policy now phone code db True db1" "im_challenges db' = im_challenges db1"
    using verify_tx_challenges [OF assms] by auto
  then obtain row c c' where r: "newest (phone_rows db phone) = Some row" "toOTPChallenge row = Inr c"
    "Verify c (ip_hashCode ports code) now (op_maxAttempts policy) = (None, c')"
    "im_challenges db' = guessed row (oc_attempts c') (oc_consumedAt c') (im_challenges db)"
    unfolding guess_def by auto
  have "row \<in> set (im_challenges db)" using newest_Some [OF r(1)] by (simp add: phone_rows_def)
  then have "\<exists>q \<in> set (im_challenges db'). cr_id q = cr_id row \<and> cr_consumed_at q \<noteq> None"
    unfolding r(4) guessed_def using Verify_None(5) [OF r(3)]
    by (intro bexI [of _ "row\<lparr>cr_attempts := oc_attempts c', cr_consumed_at := map_option db_time (oc_consumedAt c')\<rparr>"])
      (auto simp: image_iff intro!: bexI [of _ row])
  then show ?thesis using that r(1) Verify_None [OF r(3)] toOTPChallenge_Inr [OF r(2)] by metis
qed

section \<open>Accounts\<close>

definition wf_users :: "user_row list \<Rightarrow> bool" where
  "wf_users rows \<longleftrightarrow> distinct (map ur_phone rows) \<and> distinct (map ur_id rows) \<and> (\<forall>r \<in> set rows. stored_phone (ur_phone r))"

lemma Register_users:
  assumes "wf_users (im_users db)" "stored_phone (e164 (u_phone u))"
  shows "wf_users (im_users (snd (Register db u))) \<and> (\<exists>new. im_users (snd (Register db u)) = im_users db @ new)"
  using assms
  by (auto simp: Register_def InsertUserIfNew_def wf_users_def list_ex_iff split: sum.splits option.splits prod.splits if_splits)

lemma iam_step_users:
  "iam_step ports db db' \<Longrightarrow> wf_users (im_users db) \<Longrightarrow> wf_users (im_users db') \<and> (\<exists>new. im_users db' = im_users db @ new)"
proof (induction rule: iam_step.induct)
  case (register raw phone db ui lang now)
  then show ?case using NewPhoneNumber_stored by (intro Register_users) (auto simp: NewUser_def)
next
  case (request raw phone code i now db c db')
  then show ?case using request_tx_frame(1) by simp
next
  case (verify raw phone now code db r db')
  then show ?case using verify_tx_frame(1) by simp
qed simp_all

interpretation accounts: monotone_system "iam_step ports" "\<lambda>db. wf_users (im_users db)"
  "\<lambda>db db'. \<exists>new. im_users db' = im_users db @ new"
  using iam_step_users by unfold_locales auto

lemma iam_steps_users:
  "(iam_step ports)\<^sup>*\<^sup>* db db' \<Longrightarrow> wf_users (im_users db) \<Longrightarrow> wf_users (im_users db') \<and> (\<exists>new. im_users db' = im_users db @ new)"
  using accounts.steps_inv accounts.steps_rel by blast

lemma toUser_Inr:
  assumes "toUser row = Inr u"
  shows "u_id u = ID (ur_id row)" "u_status u = ur_status row" "u_role u = ur_role row"
    "NewPhoneNumber (ur_phone row) = Inr (u_phone u)"
  using assms by (auto simp: toUser_def RehydrateUser_def IDFromUUID_def split: sum.splits)

lemma Register_Inr:
  assumes "Register db u = (Inr (stored, created), db')"
  shows "\<exists>row. find_first (\<lambda>r. ur_phone r = e164 (u_phone u)) (im_users db') = Some row \<and> toUser row = Inr stored"
  using assms by (auto simp: Register_def split: sum.splits option.splits prod.splits)

lemma Register_phone:
  assumes "Register db u = (Inr (stored, created), db')"
  shows "NewPhoneNumber (e164 (u_phone u)) = Inr (u_phone stored)"
proof -
  obtain row where "find_first (\<lambda>r. ur_phone r = e164 (u_phone u)) (im_users db') = Some row" "toUser row = Inr stored"
    using Register_Inr [OF assms] by blast
  then show ?thesis using find_first_Some [of _ "im_users db'" row] toUser_Inr(4) [of row stored] by metis
qed

lemma Register_known:
  assumes "find_first (\<lambda>r. ur_phone r = e164 (u_phone u)) (im_users db) = Some row" "toUser row = Inr stored"
  shows "Register db u = (Inr (stored, False), db)"
proof -
  have "list_ex (\<lambda>r. ur_phone r = e164 (u_phone u)) (im_users db)"
    using find_first_Some [OF assms(1)] by (auto simp: list_ex_iff)
  then show ?thesis using assms by (simp add: Register_def InsertUserIfNew_def)
qed

lemma VerifyOTP_Inr:
  assumes "VerifyOTP_Handle ports policy tp ui si newToken now now' now'' others others' db cmd = (Inr login, db')"
  obtains phone code db1 db2 where "NewPhoneNumber (vo_phone cmd) = Inr phone" "ParseOTPCode (vo_code cmd) = Inr code"
    "verify_tx ports policy now phone code db = Inr (None, db1)"
    "Register (others db1) (NewUser ui phone (case vo_locale cmd of None \<Rightarrow> Arabic | Some l \<Rightarrow> l) now') = (Inr (lg_user login, lg_isNewUser login), db2)"
    "\<not> IsBlocked (lg_user login)"
    "SessionIssuer_Start ports tp si newToken now'' (others' db2) (lg_user login) = (Inr (lg_tokens login), db')"
  using assms
  by (auto simp: VerifyOTP_Handle_def Let_def split: sum.splits option.splits prod.splits if_splits)

section \<open>Properties\<close>

lemma codes_apart:
  assumes "wf_codes rows" "r \<in> set rows" "q \<in> set rows" "cr_phone r = cr_phone q" "cr_id r \<noteq> cr_id q"
  shows "cr_created_at r + minute \<le> cr_created_at q \<or> cr_created_at q + minute \<le> cr_created_at r"
proof -
  obtain i j where ij: "i < length rows" "j < length rows" "r = rows ! i" "q = rows ! j" using assms(2,3) by (metis in_set_conv_nth)
  then have "i < j \<or> j < i" using assms(5) by (metis linorder_neqE_nat)
  then show ?thesis
    using assms(1,4) ij unfolding wf_codes_def sorted_wrt_iff_nth_less by metis
qed

text \<open>C24: The codes sent to a number are bounded: over every interleaving of requests, and whatever the clock
  does, any hour holds at most five codes of a number, two codes of a number are created at least a
  minute apart, and no code has counted more than five guesses.\<close>

theorem codes_sent_bounded:
  assumes "(iam_step ports)\<^sup>*\<^sup>* empty_iam db"
  shows "(\<forall>phone t. length (filter (\<lambda>r. cr_phone r = phone \<and> t \<le> cr_created_at r \<and> cr_created_at r \<le> t + hour) (im_challenges db)) \<le> 5)
    \<and> (\<forall>r \<in> set (im_challenges db). \<forall>q \<in> set (im_challenges db). cr_phone r = cr_phone q \<and> cr_id r \<noteq> cr_id q
         \<longrightarrow> minute \<le> \<bar>cr_created_at r - cr_created_at q\<bar>)
    \<and> (\<forall>r \<in> set (im_challenges db). 0 \<le> cr_attempts r \<and> cr_attempts r \<le> 5)"
proof -
  have wf: "wf_codes (im_challenges db)" using codes_kept.steps_inv [OF assms] by (simp add: empty_iam_def)
  have "minute \<le> \<bar>cr_created_at r - cr_created_at q\<bar>"
    if "r \<in> set (im_challenges db)" "q \<in> set (im_challenges db)" "cr_phone r = cr_phone q" "cr_id r \<noteq> cr_id q" for r q
    using codes_apart [OF wf that] by linarith
  then show ?thesis using wf by (auto simp: wf_codes_def)
qed

text \<open>C14: A number cannot be guessed for long: in any stretch of time shorter than a quarter of an hour at most
  nineteen wrong guesses for a number are compared with a code, however many codes are requested in
  between and whatever other requests run, as long as nobody signs in with the number; every further
  guess is refused without being looked at.\<close>

theorem guesses_bounded:
  assumes "(iam_step ports)\<^sup>*\<^sup>* empty_iam db" "guessing ports phone db ts db'"
    "\<forall>t \<in> set ts. a \<le> t \<and> t < a + 15 * minute - microsecond" "zero_time \<le> a"
  shows "length ts \<le> 19"
proof -
  have wf: "wf_guards db" by (rule guards_kept.steps_inv [OF assms(1) wf_guards_empty])
  have "short_span DefaultOTPPolicy a (a + 15 * minute - microsecond)"
    using assms(4) by (simp add: short_span_def DefaultOTPPolicy_def microsecond_def)
  moreover have "op_maxFailures DefaultOTPPolicy = 10" by (simp add: DefaultOTPPolicy_def)
  ultimately have "int (length ts) \<le> (if g_failures (LoadGuard db phone) = 10 then 10 else 19 - g_failures (LoadGuard db phone))"
    using passes_bound [OF sane_DefaultOTPPolicy _ _ _ guessing_passes [OF assms(2)] assms(3)] wf by (auto simp: wf_guards_def split: if_splits)
  moreover have "0 \<le> g_failures (LoadGuard db phone)" using wf by (simp add: wf_guards_def wf_guard_def)
  ultimately show ?thesis by (simp split: if_splits)
qed

text \<open>C25: Nobody signs in without the code: a login succeeds only when the number is not locked and the guess is
  the code last sent to it, unused, not expired and with attempts left; the login is of the account
  of exactly this number, and that account is not blocked.\<close>

theorem login_needs_the_code:
  assumes "VerifyOTP_Handle ports DefaultOTPPolicy tp ui si newToken now now' now'' others others' db cmd = (Inr login, db')"
  shows "\<exists>phone code row. NewPhoneNumber (vo_phone cmd) = Inr phone \<and> ParseOTPCode (vo_code cmd) = Inr code
    \<and> Check (LoadGuard db phone) now = None \<and> newest (phone_rows db phone) = Some row
    \<and> cr_code_hash row = ip_hashCode ports code \<and> cr_consumed_at row = None \<and> now < cr_expires_at row \<and> cr_attempts row < 5
    \<and> u_phone (lg_user login) = phone \<and> u_status (lg_user login) = UserActive"
proof -
  obtain phone code db1 db2 where v: "NewPhoneNumber (vo_phone cmd) = Inr phone" "ParseOTPCode (vo_code cmd) = Inr code"
    "verify_tx ports DefaultOTPPolicy now phone code db = Inr (None, db1)"
    "Register (others db1) (NewUser ui phone (case vo_locale cmd of None \<Rightarrow> Arabic | Some l \<Rightarrow> l) now') = (Inr (lg_user login, lg_isNewUser login), db2)"
    "\<not> IsBlocked (lg_user login)"
    by (rule VerifyOTP_Inr [OF assms])
  obtain row where "newest (phone_rows db phone) = Some row" "cr_consumed_at row = None" "now < cr_expires_at row"
    "cr_attempts row < 5" "cr_code_hash row = ip_hashCode ports code"
    using verify_tx_right [OF v(3)] by (metis DefaultOTPPolicy_def OTPPolicy.select_convs(3))
  moreover have "u_phone (lg_user login) = phone"
    using Register_phone [OF v(4)] NewPhoneNumber_stored [OF v(1)] by (simp add: NewUser_def stored_phone_def)
  moreover have "u_status (lg_user login) = UserActive"
    using v(5) by (cases "u_status (lg_user login)") (simp_all add: IsBlocked_def)
  ultimately show ?thesis using v(1,2) verify_tx_guard(1) [OF v(3)] by blast
qed

text \<open>A code signs in once: if a number signs in twice, at whatever instants and with any requests in
  between, the second time it is with another code, one created at least a minute after the first.\<close>

theorem login_code_once:
  assumes "(iam_step ports)\<^sup>*\<^sup>* empty_iam db"
    "verify_tx ports DefaultOTPPolicy now phone code db = Inr (None, db1)" "NewPhoneNumber raw = Inr phone" "zero_time \<le> now"
    "(iam_step ports)\<^sup>*\<^sup>* db1 db2"
    "verify_tx ports DefaultOTPPolicy now' phone code' db2 = Inr (None, db3)"
  shows "\<exists>r q. newest (phone_rows db phone) = Some r \<and> newest (phone_rows db2 phone) = Some q
    \<and> cr_id q \<noteq> cr_id r \<and> cr_created_at r + minute \<le> cr_created_at q"
proof -
  have wf: "wf_codes (im_challenges db)" using codes_kept.steps_inv [OF assms(1)] by (simp add: empty_iam_def)
  have step: "iam_step ports db db1" by (rule iam_step.verify [OF assms(3,4,2)])
  have wf1: "wf_codes (im_challenges db1)" by (rule iam_step_wf_codes [OF step wf])
  have wf2: "wf_codes (im_challenges db2)" by (rule codes_kept.steps_inv [OF assms(5) wf1])
  obtain r r1 where r: "newest (phone_rows db phone) = Some r" "r1 \<in> set (im_challenges db1)" "cr_id r1 = cr_id r"
    "cr_consumed_at r1 \<noteq> None"
    using verify_tx_right [OF assms(2)] by metis
  obtain q where q: "newest (phone_rows db2 phone) = Some q" "cr_consumed_at q = None"
    using verify_tx_right [OF assms(6)] by metis
  have rin: "r \<in> set (im_challenges db)" "cr_phone r = e164 phone" and qin: "q \<in> set (im_challenges db2)" "cr_phone q = e164 phone"
    using newest_Some [OF r(1)] newest_Some [OF q(1)] by (simp_all add: phone_rows_def)
  obtain r2 where r2: "r2 \<in> set (im_challenges db2)" "cr_id r2 = cr_id r" "cr_consumed_at r2 \<noteq> None"
    using codes_grow.steps_rel [OF assms(5) wf1] r(2-4) unfolding keeps_codes_def by metis
  have same: "x = y" if "x \<in> set rows" "y \<in> set rows" "cr_id x = cr_id y" "wf_codes rows" for x y rows
    using that by (auto simp: wf_codes_def distinct_map inj_on_def)
  have "cr_id q \<noteq> cr_id r" using same [OF qin(1) r2(1) _ wf2] r2(2,3) q(2) by metis
  moreover have k: "cr_created_at r2 = cr_created_at r \<and> cr_phone r2 = cr_phone r"
    using keeps_codes_trans [OF iam_step_keeps_codes [OF step wf] codes_grow.steps_rel [OF assms(5) wf1]] rin(1)
      same [OF _ r2(1) _ wf2] r2(2) unfolding keeps_codes_def by metis
  moreover have "cr_created_at r2 \<le> cr_created_at q"
    using newest_Some [OF q(1)] r2(1) k rin(2) by (auto simp: phone_rows_def)
  ultimately have "cr_created_at r + minute \<le> cr_created_at q"
    using codes_apart [OF wf2 r2(1) qin(1)] r2(2) rin(2) qin(2) by (simp add: minute_def)
  then show ?thesis using r(1) q(1) \<open>cr_id q \<noteq> cr_id r\<close> by blast
qed

lemma VerifyOTP_account:
  assumes login: "VerifyOTP_Handle ports DefaultOTPPolicy tp ui si newToken now now' now'' others others' db cmd = (Inr login, db')"
    and others: "\<And>d. (iam_step ports)\<^sup>*\<^sup>* d (others d)" "\<And>d. (iam_step ports)\<^sup>*\<^sup>* d (others' d)"
    and wf: "wf_users (im_users db)" and phone: "NewPhoneNumber (vo_phone cmd) = Inr phone"
  shows "wf_users (im_users db') \<and> (\<exists>new. im_users db' = im_users db @ new)
    \<and> (\<exists>row \<in> set (im_users db'). ur_phone row = e164 phone \<and> u_id (lg_user login) = ID (ur_id row))
    \<and> ((\<exists>row \<in> set (im_users db). ur_phone row = e164 phone) \<longrightarrow> \<not> lg_isNewUser login)"
proof -
  let ?u = "NewUser ui phone (case vo_locale cmd of None \<Rightarrow> Arabic | Some l \<Rightarrow> l) now'"
  obtain code db1 db2 where v: "verify_tx ports DefaultOTPPolicy now phone code db = Inr (None, db1)"
    "Register (others db1) ?u = (Inr (lg_user login, lg_isNewUser login), db2)"
    "SessionIssuer_Start ports tp si newToken now'' (others' db2) (lg_user login) = (Inr (lg_tokens login), db')"
    by (rule VerifyOTP_Inr [OF login]) (use phone in auto)
  have "im_users db1 = im_users db" by (rule verify_tx_frame(1) [OF v(1)])
  then obtain n1 where o: "wf_users (im_users (others db1))" "im_users (others db1) = im_users db @ n1"
    using iam_steps_users [OF others(1) [of db1]] wf by auto
  moreover have r: "db2 = snd (Register (others db1) ?u)" using v(2) by simp
  ultimately obtain n2 where u: "wf_users (im_users db2)" "im_users db2 = im_users (others db1) @ n2"
    using Register_users [of "others db1" ?u] NewPhoneNumber_stored [OF phone] by (auto simp: NewUser_def)
  obtain n3 where w: "wf_users (im_users (others' db2))" "im_users (others' db2) = im_users db2 @ n3"
    using iam_steps_users [OF others(2) [of db2]] u(1) by auto
  have d: "im_users db' = im_users (others' db2)"
    using SessionIssuer_Start_frame(3) [of ports tp si newToken now'' "others' db2" "lg_user login"] v(3) by simp
  obtain row where row: "find_first (\<lambda>r. ur_phone r = e164 phone) (im_users db2) = Some row" "toUser row = Inr (lg_user login)"
    using Register_Inr [OF v(2)] by (auto simp: NewUser_def)
  then have "row \<in> set (im_users db')" "ur_phone row = e164 phone" "u_id (lg_user login) = ID (ur_id row)"
    using find_first_Some [OF row(1)] toUser_Inr(1) w(2) d by auto
  moreover have "\<not> lg_isNewUser login" if "\<exists>row \<in> set (im_users db). ur_phone row = e164 phone"
  proof -
    have "list_ex (\<lambda>r. ur_phone r = e164 (u_phone ?u)) (im_users (others db1))"
      using that o(2) by (auto simp: list_ex_iff NewUser_def)
    then show ?thesis using v(2) by (auto simp: Register_def InsertUserIfNew_def split: sum.splits option.splits)
  qed
  ultimately show ?thesis using w d u(2) o(2) by auto
qed

text \<open>A number is one account: two logins, with any requests before, in between and while they run, are of
  the same account exactly when they were made with the same number (however it was written), and
  only the first login with a number can create an account.\<close>

theorem one_account_per_number:
  assumes "(iam_step ports)\<^sup>*\<^sup>* empty_iam db"
    "VerifyOTP_Handle ports DefaultOTPPolicy tp ui si newToken t1 t2 t3 o1 o2 db cmd = (Inr login, db1)"
    "(iam_step ports)\<^sup>*\<^sup>* db1 db2"
    "VerifyOTP_Handle ports DefaultOTPPolicy tp ui' si' newToken' t4 t5 t6 o3 o4 db2 cmd' = (Inr login', db3)"
    "\<And>d. (iam_step ports)\<^sup>*\<^sup>* d (o1 d)" "\<And>d. (iam_step ports)\<^sup>*\<^sup>* d (o2 d)"
    "\<And>d. (iam_step ports)\<^sup>*\<^sup>* d (o3 d)" "\<And>d. (iam_step ports)\<^sup>*\<^sup>* d (o4 d)"
  shows "(u_id (lg_user login') = u_id (lg_user login) \<longleftrightarrow> NewPhoneNumber (vo_phone cmd') = NewPhoneNumber (vo_phone cmd))
    \<and> (NewPhoneNumber (vo_phone cmd') = NewPhoneNumber (vo_phone cmd) \<longrightarrow> \<not> lg_isNewUser login')"
proof -
  obtain phone phone' where p: "NewPhoneNumber (vo_phone cmd) = Inr phone" "NewPhoneNumber (vo_phone cmd') = Inr phone'"
    by (rule VerifyOTP_Inr [OF assms(2)], rule VerifyOTP_Inr [OF assms(4)]) blast
  have "wf_users (im_users db)" using iam_steps_users [OF assms(1)] by (simp add: empty_iam_def wf_users_def)
  note a = VerifyOTP_account [OF assms(2,5,6) this p(1)]
  obtain row where row: "row \<in> set (im_users db1)" "ur_phone row = e164 phone" "u_id (lg_user login) = ID (ur_id row)" using a by blast
  have b: "wf_users (im_users db2)" "row \<in> set (im_users db2)"
    using iam_steps_users [OF assms(3)] a row(1) by auto
  note c = VerifyOTP_account [OF assms(4,7,8) b(1) p(2)]
  obtain row' where row': "row' \<in> set (im_users db3)" "ur_phone row' = e164 phone'" "u_id (lg_user login') = ID (ur_id row')"
    using c by blast
  have "row \<in> set (im_users db3)" "wf_users (im_users db3)" using c b(2) by auto
  then have "ur_id row' = ur_id row \<longleftrightarrow> ur_phone row' = ur_phone row"
    using row'(1) by (auto simp: wf_users_def distinct_map inj_on_def)
  then have "u_id (lg_user login') = u_id (lg_user login) \<longleftrightarrow> phone' = phone" using row row' by (cases phone; cases phone') auto
  moreover have "\<not> lg_isNewUser login'" if "phone' = phone" using c b(2) row(2) that by blast
  ultimately show ?thesis using p by simp
qed

section \<open>Witnesses\<close>

definition sample_iam :: iam_ports where
  "sample_iam = \<lparr>ip_hashCode = (\<lambda>c. digits c), ip_send = (\<lambda>_ _. None), ip_issue = (\<lambda>_. Inr ''jwt''),
     ip_hashToken = (\<lambda>t. if length t = 32 then Some t else None)\<rparr>"

definition sample_number :: string where "sample_number = ''0551234567''"

definition sample_phone :: PhoneNumber where "sample_phone = \<lparr>e164 = ''+966551234567''\<rparr>"

definition sample_secret :: "char \<Rightarrow> (iam_error, string \<times> string) result" where
  "sample_secret c = Inr (replicate 32 c, replicate 32 c)"

lemma sample_number_phone: "NewPhoneNumber sample_number = Inr sample_phone"
  by code_simp

definition sent_iam :: iam_db where
  "sent_iam = \<lparr>im_challenges = [\<lparr>cr_id = 1, cr_phone = ''+966551234567'', cr_code_hash = ''123456'', cr_attempts = 0,
     cr_created_at = 0, cr_expires_at = 5 * minute, cr_consumed_at = None\<rparr>], im_guards = Map.empty, im_users = [],
     im_sessions = Map.empty, im_tokens = Map.empty\<rparr>"

lemma sent_iam_step:
  "request_tx sample_iam DefaultOTPPolicy (Inr \<lparr>digits = ''123456''\<rparr>) (ID 1) 0 sample_phone empty_iam = Inr (\<lparr>digits = ''123456''\<rparr>, sent_iam)"
  by (simp add: request_tx_def empty_iam_def LoadGuard_def zero_guard_def Check_def zero_time_def OTP_Latest_def phone_rows_def
      OTP_CountSince_def DefaultOTPPolicy_def NewOTPChallenge_def ID_IsZero_def uuid_Nil_def Phone_IsZero_def sample_phone_def
      sample_iam_def OTP_Add_def iam_toInt16_def time_add_def sent_iam_def db_time_def time_truncate_def microsecond_def minute_def)

lemma sent_iam_reachable: "(iam_step sample_iam)\<^sup>*\<^sup>* empty_iam sent_iam"
  using iam_step.request [OF sample_number_phone sent_iam_step] by blast

theorem codes_sent_bounded_witness:
  "length (filter (\<lambda>r. cr_phone r = ''+966551234567'' \<and> 0 \<le> cr_created_at r \<and> cr_created_at r \<le> 0 + hour) (im_challenges sent_iam)) \<le> 5
   \<and> im_challenges sent_iam \<noteq> []"
  using codes_sent_bounded [OF sent_iam_reachable] by (auto simp: sent_iam_def)

definition requested :: "uuid \<Rightarrow> gotime \<Rightarrow> string \<Rightarrow> iam_db \<Rightarrow> iam_db" where
  "requested i now code db =
     (case request_tx sample_iam DefaultOTPPolicy (Inr \<lparr>digits = code\<rparr>) (ID i) now sample_phone db of Inl _ \<Rightarrow> db | Inr (_, d) \<Rightarrow> d)"

definition guessed_at :: "gotime \<Rightarrow> string \<Rightarrow> iam_db \<Rightarrow> iam_db" where
  "guessed_at now code db =
     (case verify_tx sample_iam DefaultOTPPolicy now sample_phone \<lparr>digits = code\<rparr> db of Inl _ \<Rightarrow> db | Inr (_, d) \<Rightarrow> d)"

lemma requested_reachable: "(iam_step sample_iam)\<^sup>*\<^sup>* db (requested i now code db)"
  using iam_step.request [OF sample_number_phone]
  by (cases "request_tx sample_iam DefaultOTPPolicy (Inr \<lparr>digits = code\<rparr>) (ID i) now sample_phone db")
    (auto simp: requested_def split: prod.splits intro!: r_into_rtranclp)

lemma guessed_at_reachable: "zero_time \<le> now \<Longrightarrow> (iam_step sample_iam)\<^sup>*\<^sup>* db (guessed_at now code db)"
  using iam_step.verify [OF sample_number_phone]
  by (cases "verify_tx sample_iam DefaultOTPPolicy now sample_phone \<lparr>digits = code\<rparr> db")
    (auto simp: guessed_at_def split: prod.splits intro!: r_into_rtranclp)

definition right_guess :: "gotime \<Rightarrow> string \<Rightarrow> iam_db \<Rightarrow> bool" where
  "right_guess now code db =
     (case verify_tx sample_iam DefaultOTPPolicy now sample_phone \<lparr>digits = code\<rparr> db of Inr (None, _) \<Rightarrow> True | _ \<Rightarrow> False)"

lemma right_guess_Inr:
  "right_guess now code db \<Longrightarrow> verify_tx sample_iam DefaultOTPPolicy now sample_phone \<lparr>digits = code\<rparr> db = Inr (None, guessed_at now code db)"
  by (auto simp: right_guess_def guessed_at_def split: sum.splits prod.splits option.splits)

theorem guesses_bounded_witness:
  "\<exists>db'. guessing sample_iam sample_phone sent_iam [1] db' \<and> length [1 :: int] \<le> 19"
proof -
  have "(case verify_tx sample_iam DefaultOTPPolicy 1 sample_phone \<lparr>digits = ''999999''\<rparr> sent_iam of Inr (Some _, _) \<Rightarrow> True | _ \<Rightarrow> False)"
    by code_simp
  then obtain e db1 where "verify_tx sample_iam DefaultOTPPolicy 1 sample_phone \<lparr>digits = ''999999''\<rparr> sent_iam = Inr (Some e, db1)"
    by (auto split: sum.splits prod.splits option.splits)
  then have g: "guessing sample_iam sample_phone sent_iam [1] db1" by (rule guessing.wrong [OF _ guessing.nothing])
  moreover have "length [1 :: int] \<le> 19"
    using guesses_bounded [OF sent_iam_reachable g, of 0] by (simp add: minute_def microsecond_def zero_time_def)
  ultimately show ?thesis by blast
qed

theorem login_code_once_witness:
  "\<exists>r q. newest (phone_rows sent_iam sample_phone) = Some r
     \<and> newest (phone_rows (requested 2 minute ''654321'' (guessed_at 1 ''123456'' sent_iam)) sample_phone) = Some q
     \<and> cr_id q \<noteq> cr_id r \<and> cr_created_at r + minute \<le> cr_created_at q"
proof -
  have z: "zero_time \<le> 1" by (simp add: zero_time_def)
  have "right_guess 1 ''123456'' sent_iam" by code_simp
  moreover have "right_guess minute ''654321'' (requested 2 minute ''654321'' (guessed_at 1 ''123456'' sent_iam))" by code_simp
  ultimately show ?thesis
    using login_code_once [OF sent_iam_reachable right_guess_Inr sample_number_phone z requested_reachable right_guess_Inr] by blast
qed

definition sample_login :: "iam_db \<Rightarrow> gotime \<Rightarrow> string \<Rightarrow> uuid \<Rightarrow> (iam_error, Login) result \<times> iam_db" where
  "sample_login db now code i =
     VerifyOTP_Handle sample_iam DefaultOTPPolicy DefaultTokenPolicy (ID i) (ID (i + 1))
       (sample_secret (if i = 7 then CHR ''a'' else CHR ''b'')) now now now (\<lambda>d. d) (\<lambda>d. d) db
       \<lparr>vo_phone = sample_number, vo_code = code, vo_locale = None\<rparr>"

lemma sample_login_ok: "is_ok (fst (sample_login sent_iam 1 ''123456'' 7))"
  by code_simp

theorem login_needs_the_code_witness:
  "\<exists>row. newest (phone_rows sent_iam sample_phone) = Some row \<and> cr_attempts row < 5"
proof -
  obtain l db' where "sample_login sent_iam 1 ''123456'' 7 = (Inr l, db')"
    using sample_login_ok by (metis is_ok_iff prod.collapse)
  then have "VerifyOTP_Handle sample_iam DefaultOTPPolicy DefaultTokenPolicy (ID 7) (ID (7 + 1)) (sample_secret (CHR ''a'')) 1 1 1
      (\<lambda>d. d) (\<lambda>d. d) sent_iam \<lparr>vo_phone = sample_number, vo_code = ''123456'', vo_locale = None\<rparr> = (Inr l, db')"
    by (simp add: sample_login_def)
  from login_needs_the_code [OF this] show ?thesis using sample_number_phone by auto
qed

theorem one_account_per_number_witness:
  "\<exists>l l'. fst (sample_login sent_iam 1 ''123456'' 7) = Inr l
     \<and> fst (sample_login (requested 2 minute ''654321'' (snd (sample_login sent_iam 1 ''123456'' 7))) minute ''654321'' 9) = Inr l'
     \<and> u_id (lg_user l') = u_id (lg_user l) \<and> \<not> lg_isNewUser l'"
proof -
  let ?d = "snd (sample_login sent_iam 1 ''123456'' 7)"
  have "is_ok (fst (sample_login (requested 2 minute ''654321'' ?d) minute ''654321'' 9))" by code_simp
  then obtain l l' db' where l: "sample_login sent_iam 1 ''123456'' 7 = (Inr l, ?d)"
    "sample_login (requested 2 minute ''654321'' ?d) minute ''654321'' 9 = (Inr l', db')"
    using sample_login_ok by (metis is_ok_iff prod.collapse)
  have r: "\<And>d. (iam_step sample_iam)\<^sup>*\<^sup>* d d" by simp
  have "fst (sample_login sent_iam 1 ''123456'' 7) = Inr l" using l(1) by (metis fst_conv)
  then show ?thesis
    using one_account_per_number [OF sent_iam_reachable l(1) [unfolded sample_login_def] requested_reachable l(2) [unfolded sample_login_def] r r r r]
      l(2) by auto
qed

end
