(* ===== verification/TokenChain.thy ===== *)
theory TokenChain
  imports LoginCodes
begin

text \<open>
  What sessions and refresh tokens promise, over every interleaving of requests: a session has one
  usable token, a token is exchanged once, a copy that comes back ends the session, and a session
  that ended never issues tokens again.
\<close>

section \<open>One transaction\<close>

definition stored_session :: "Session \<Rightarrow> session_row \<Rightarrow> session_row" where
  "stored_session s row = row\<lparr>sr_last_refreshed_at := db_time (ss_lastRefreshedAt s),
     sr_revoked_at := map_option db_time (ss_revokedAt s), sr_revoke_reason := revokeReason s\<rparr>"

lemma saveSession_Inr:
  assumes "saveSession db s = Inr db'"
  shows "session_ok s"
    "db' = db\<lparr>im_sessions := (im_sessions db)(id_value (ss_id s) := map_option (stored_session s) (im_sessions db (id_value (ss_id s))))\<rparr>"
  using assms by (auto simp: saveSession_def stored_session_def [abs_def] split: if_splits)

lemma session_of_simps [simp]:
  "ss_id (session_of i row) = ID i" "ss_user (session_of i row) = ID (sr_user row)"
  "ss_revokedAt (session_of i row) = sr_revoked_at row" "ss_revokeReason (session_of i row) = toRevokeReason (sr_revoke_reason row)"
  "IsRevoked (session_of i row) \<longleftrightarrow> sr_revoked_at row \<noteq> None"
  by (simp_all add: session_of_def RehydrateSession_def IDFromUUID_def IsRevoked_def)

definition token_of :: "string \<Rightarrow> token_row \<Rightarrow> RefreshToken" where
  "token_of hash row = RehydrateRefreshToken hash (IDFromUUID (kr_session row)) (kr_created_at row) (kr_expires_at row) (kr_used_at row)"

lemma token_of_simps [simp]:
  "rt_hash (token_of h row) = h" "rt_session (token_of h row) = ID (kr_session row)"
  "rt_usedAt (token_of h row) = kr_used_at row" "rt_expiresAt (token_of h row) = kr_expires_at row"
  by (simp_all add: token_of_def RehydrateRefreshToken_def IDFromUUID_def)

text \<open>The token that replaces a spent one, and the table after the exchange.\<close>

definition next_row :: "uuid \<Rightarrow> gotime \<Rightarrow> TokenPolicy \<Rightarrow> token_row" where
  "next_row i now tp = \<lparr>kr_session = i, kr_created_at = db_time now, kr_expires_at = db_time (now + tp_refreshTTL tp), kr_used_at = None\<rparr>"

definition exchanged :: "iam_db \<Rightarrow> string \<Rightarrow> token_row \<Rightarrow> string \<Rightarrow> gotime \<Rightarrow> TokenPolicy \<Rightarrow> iam_db" where
  "exchanged db hash row nextHash now tp =
     db\<lparr>im_sessions := (im_sessions db)(kr_session row := map_option (\<lambda>srow.
           stored_session (session_of (kr_session row) srow\<lparr>ss_lastRefreshedAt := now\<rparr>) srow) (im_sessions db (kr_session row))),
        im_tokens := (im_tokens db)(hash \<mapsto> row\<lparr>kr_used_at := Some (db_time now)\<rparr>, nextHash \<mapsto> next_row (kr_session row) now tp)\<rparr>"

lemma rotate_cases:
  assumes "Sessions_Rotate db hash (rotate_callback nextHash now tp) = (r, db')"
  obtains (fails) e where "r = Inl e" "db' = db"
  | (refused) row srow s e where "im_tokens db hash = Some row" "im_sessions db (kr_session row) = Some srow"
      "Rotate (session_of (kr_session row) srow) (token_of hash row) nextHash now tp = (Inl e, s, token_of hash row)"
      "r = Inr (s, Some e)" "saveSession db s = Inr db'"
  | (exchange) row srow s where "im_tokens db hash = Some row" "im_sessions db (kr_session row) = Some srow"
      "sr_revoked_at srow = None" "kr_used_at row = None" "now < kr_expires_at row" "r = Inr (s, None)"
      "ss_id s = ID (kr_session row)" "ss_user s = ID (sr_user srow)" "im_tokens db nextHash = None" "length nextHash = 32"
      "db' = exchanged db hash row nextHash now tp"
proof (cases r)
  case (Inl e)
  then show ?thesis using fails assms by (auto simp: Sessions_Rotate_def commit_def split: sum.splits prod.splits)
next
  case (Inr x)
  then obtain row srow where row: "im_tokens db hash = Some row" "im_sessions db (kr_session row) = Some srow"
    using assms by (auto simp: Sessions_Rotate_def commit_def split: sum.splits option.splits)
  let ?s = "session_of (kr_session row) srow" and ?t = "token_of hash row"
  obtain q s t where rot: "Rotate ?s ?t nextHash now tp = (q, s, t)" by (metis prod_cases3)
  show ?thesis
  proof (cases q)
    case (Inl e)
    then have t: "t = ?t" using Rotate_Inl(1) rot by blast
    then have "saveSession db s = Inr db'" "r = Inr (s, Some e)"
      using assms Inr row rot Inl
      by (auto simp: Sessions_Rotate_def commit_def rotate_callback_def Let_def token_of_def [symmetric]
          split: sum.splits option.splits if_splits)
    then show ?thesis using refused row rot t Inl by blast
  next
    case (Inr nx)
    note o = Rotate_Inr [OF rot [unfolded Inr]]
    obtain db1 where db1: "saveSession db s = Inr db1" "insertRefreshToken (MarkRefreshTokenUsed db1 hash now) nx = Inr db'"
      "r = Inr (s, None)"
      using assms row rot o(3,8) \<open>r = Inr x\<close> Inr
      by (auto simp: Sessions_Rotate_def commit_def rotate_callback_def Let_def token_of_def [symmetric]
          split: sum.splits option.splits if_splits)
    have d1: "db1 = db\<lparr>im_sessions := (im_sessions db)(kr_session row := map_option (stored_session s) (im_sessions db (kr_session row)))\<rparr>"
      using saveSession_Inr(2) [OF db1(1)] o(7) by simp
    have m: "MarkRefreshTokenUsed db1 hash now = db1\<lparr>im_tokens := (im_tokens db)(hash \<mapsto> row\<lparr>kr_used_at := Some (db_time now)\<rparr>)\<rparr>"
      using row(1) by (simp add: MarkRefreshTokenUsed_def d1)
    note ins = db1(2) [unfolded m]
    have ne: "nextHash \<noteq> hash" using ins o(5) by (auto simp: insertRefreshToken_def split: if_splits)
    have "im_tokens db nextHash = None" "length nextHash = 32" using ins ne o(5) by (auto simp: insertRefreshToken_def split: if_splits)
    moreover have "db' = exchanged db hash row nextHash now tp"
      using ins o(5,7) row by (auto simp: insertRefreshToken_def d1 exchanged_def next_row_def time_add_def split: if_splits)
    ultimately show ?thesis using exchange row o(2,3,4,7) db1(3) by simp
  qed
qed

section \<open>Every session has one usable token\<close>

definition live :: "iam_db \<Rightarrow> uuid \<Rightarrow> string set" where
  "live db i = {h. \<exists>t. im_tokens db h = Some t \<and> kr_session t = i \<and> kr_used_at t = None}"

definition wf_chain :: "iam_db \<Rightarrow> bool" where
  "wf_chain db \<longleftrightarrow> (\<forall>h t. im_tokens db h = Some t \<longrightarrow> im_sessions db (kr_session t) \<noteq> None)
     \<and> (\<forall>i. im_sessions db i \<noteq> None \<longrightarrow> (\<exists>h. live db i = {h})) \<and> im_sessions db 0 = None"

text \<open>Sessions and tokens are never removed or handed on; an ended session stays ended, a spent token spent.\<close>

definition carries_on :: "iam_db \<Rightarrow> iam_db \<Rightarrow> bool" where
  "carries_on db db' \<longleftrightarrow>
     (\<forall>i r. im_sessions db i = Some r \<longrightarrow> (\<exists>r'. im_sessions db' i = Some r' \<and> sr_user r' = sr_user r
        \<and> (sr_revoked_at r \<noteq> None \<longrightarrow> sr_revoked_at r' \<noteq> None)))
     \<and> (\<forall>h t. im_tokens db h = Some t \<longrightarrow> (\<exists>t'. im_tokens db' h = Some t' \<and> kr_session t' = kr_session t
        \<and> (kr_used_at t \<noteq> None \<longrightarrow> kr_used_at t' \<noteq> None)))"

lemma carries_on_refl [simp]: "carries_on db db"
  by (simp add: carries_on_def)

lemma carries_on_sessionE:
  assumes "carries_on db db'" "im_sessions db i = Some r"
  obtains r' where "im_sessions db' i = Some r'" "sr_user r' = sr_user r" "sr_revoked_at r \<noteq> None \<longrightarrow> sr_revoked_at r' \<noteq> None"
  using assms unfolding carries_on_def by blast

lemma carries_on_tokenE:
  assumes "carries_on db db'" "im_tokens db h = Some t"
  obtains t' where "im_tokens db' h = Some t'" "kr_session t' = kr_session t" "kr_used_at t \<noteq> None \<longrightarrow> kr_used_at t' \<noteq> None"
  using assms unfolding carries_on_def by blast

lemma carries_on_trans:
  assumes "carries_on a b" "carries_on b c"
  shows "carries_on a c"
  unfolding carries_on_def
proof (intro conjI allI impI)
  fix i r
  assume "im_sessions a i = Some r"
  then obtain r' where r': "im_sessions b i = Some r'" "sr_user r' = sr_user r" "sr_revoked_at r \<noteq> None \<longrightarrow> sr_revoked_at r' \<noteq> None"
    by (rule carries_on_sessionE [OF assms(1)])
  from assms(2) r'(1) obtain r'' where "im_sessions c i = Some r''" "sr_user r'' = sr_user r'" "sr_revoked_at r' \<noteq> None \<longrightarrow> sr_revoked_at r'' \<noteq> None"
    by (rule carries_on_sessionE)
  then show "\<exists>r'. im_sessions c i = Some r' \<and> sr_user r' = sr_user r \<and> (sr_revoked_at r \<noteq> None \<longrightarrow> sr_revoked_at r' \<noteq> None)"
    using r' by simp
next
  fix h t
  assume "im_tokens a h = Some t"
  then obtain t' where t': "im_tokens b h = Some t'" "kr_session t' = kr_session t" "kr_used_at t \<noteq> None \<longrightarrow> kr_used_at t' \<noteq> None"
    by (rule carries_on_tokenE [OF assms(1)])
  from assms(2) t'(1) obtain t'' where "im_tokens c h = Some t''" "kr_session t'' = kr_session t'" "kr_used_at t' \<noteq> None \<longrightarrow> kr_used_at t'' \<noteq> None"
    by (rule carries_on_tokenE)
  then show "\<exists>t'. im_tokens c h = Some t' \<and> kr_session t' = kr_session t \<and> (kr_used_at t \<noteq> None \<longrightarrow> kr_used_at t' \<noteq> None)"
    using t' by simp
qed

lemma carries_on_same:
  "im_sessions db' = im_sessions db \<Longrightarrow> im_tokens db' = im_tokens db \<Longrightarrow> carries_on db db' \<and> (wf_chain db \<longrightarrow> wf_chain db')"
  by (simp add: carries_on_def wf_chain_def live_def)

lemma saveSession_chain:
  assumes "saveSession db s = Inr db'" "im_sessions db (id_value (ss_id s)) = Some row"
    "sr_revoked_at row \<noteq> None \<longrightarrow> IsRevoked s"
  shows "carries_on db db' \<and> (wf_chain db \<longrightarrow> wf_chain db')"
proof -
  note d = saveSession_Inr(2) [OF assms(1)]
  have dom: "im_sessions db' i = None \<longleftrightarrow> im_sessions db i = None" for i using assms(2) by (simp add: d)
  have "carries_on db db'" using assms(2,3) by (auto simp: carries_on_def d stored_session_def IsRevoked_def)
  moreover have "live db' = live db" "im_tokens db' = im_tokens db" by (simp_all add: live_def d fun_eq_iff)
  ultimately show ?thesis using dom by (simp add: wf_chain_def)
qed

lemma exchanged_chain:
  assumes "im_tokens db hash = Some row" "im_sessions db (kr_session row) = Some srow" "sr_revoked_at srow = None"
    "kr_used_at row = None" "im_tokens db nextHash = None" "db' = exchanged db hash row nextHash now tp"
  shows "carries_on db db'" "wf_chain db \<Longrightarrow> wf_chain db'" "wf_chain db \<Longrightarrow> live db' (kr_session row) = {nextHash}"
proof -
  have ne: "nextHash \<noteq> hash" using assms(1,5) by auto
  show c: "carries_on db db'"
    using assms(1-5) ne by (auto simp: carries_on_def assms(6) exchanged_def stored_session_def next_row_def)
  have dom: "im_sessions db' i = None \<longleftrightarrow> im_sessions db i = None" for i using assms(2) by (simp add: assms(6) exchanged_def)
  have other: "live db' i = live db i" if "i \<noteq> kr_session row" for i
    using that assms(1,5) ne by (auto simp: live_def assms(6) exchanged_def next_row_def)
  have own: "live db' (kr_session row) = {nextHash}" if "wf_chain db"
  proof -
    have "hash \<in> live db (kr_session row)" using assms(1,4) by (simp add: live_def)
    then have "live db (kr_session row) = {hash}" using that assms(2) by (auto simp: wf_chain_def)
    then have "\<forall>h t. im_tokens db h = Some t \<and> kr_session t = kr_session row \<and> kr_used_at t = None \<longrightarrow> h = hash"
      by (auto simp: live_def)
    then show ?thesis using ne by (auto simp: live_def assms(6) exchanged_def next_row_def split: if_splits)
  qed
  then show "wf_chain db \<Longrightarrow> live db' (kr_session row) = {nextHash}" .
  show "wf_chain db'" if "wf_chain db"
  proof -
    have "im_sessions db' (kr_session t) \<noteq> None" if "im_tokens db' h = Some t" for h t
      using that \<open>wf_chain db\<close> assms(1,2) unfolding dom
      by (auto simp: wf_chain_def assms(6) exchanged_def next_row_def split: if_splits)
    moreover have "\<exists>h. live db' i = {h}" if "im_sessions db' i \<noteq> None" for i
      using that \<open>wf_chain db\<close> own other by (cases "i = kr_session row") (auto simp: dom wf_chain_def)
    moreover have "im_sessions db' 0 = None" using \<open>wf_chain db\<close> by (simp add: dom wf_chain_def)
    ultimately show ?thesis by (auto simp: wf_chain_def)
  qed
qed

lemma rotate_chain:
  assumes "Sessions_Rotate db hash (rotate_callback nextHash now tp) = (r, db')"
  shows "carries_on db db' \<and> (wf_chain db \<longrightarrow> wf_chain db')"
  using assms
proof (cases rule: rotate_cases)
  case (refused row srow s e)
  have s: "ss_id s = ID (kr_session row)" using Rotate_identity(1) [OF refused(3)] by simp
  have "sr_revoked_at srow \<noteq> None \<longrightarrow> IsRevoked s" using Rotate_identity(6) [OF refused(3)] by auto
  then show ?thesis using saveSession_chain [OF refused(5)] refused(2) s by simp
next
  case (exchange row srow s)
  then show ?thesis using exchanged_chain(1,2) [OF exchange(1-4,9,11)] by simp
qed simp

lemma update_chain:
  assumes "Sessions_Update db i fn = (r, db')"
    "\<And>s s'. fn s = Inr s' \<Longrightarrow> ss_id s' = ss_id s \<and> (IsRevoked s \<longrightarrow> IsRevoked s')"
  shows "carries_on db db' \<and> (wf_chain db \<longrightarrow> wf_chain db')"
proof (cases "db' = db")
  case False
  then obtain row s where u: "im_sessions db (id_value i) = Some row"
    "fn (RehydrateSession i (IDFromUUID (sr_user row)) (sr_created_at row) (sr_last_refreshed_at row)
           (sr_revoked_at row) (toRevokeReason (sr_revoke_reason row))) = Inr s" "saveSession db s = Inr db'"
    using assms(1) by (auto simp: Sessions_Update_def commit_def split: option.splits sum.splits)
  have "ss_id s = i" "sr_revoked_at row \<noteq> None \<longrightarrow> IsRevoked s"
    using assms(2) [OF u(2)] by (auto simp: RehydrateSession_def IsRevoked_def)
  then show ?thesis using saveSession_chain [OF u(3)] u(1) by simp
qed simp

lemma start_chain:
  assumes "SessionIssuer_Start ports tp i newToken now db user = (r, db')"
  shows "carries_on db db' \<and> (wf_chain db \<longrightarrow> wf_chain db')"
proof (cases "db' = db")
  case False
  then obtain hash srow where s: "im_sessions db (id_value i) = None" "im_tokens db hash = None"
    "db' = db\<lparr>im_sessions := (im_sessions db)(id_value i \<mapsto> srow), im_tokens := (im_tokens db)(hash \<mapsto> next_row (id_value i) now tp)\<rparr>"
    "id_value i \<noteq> 0"
    using assms
    by (auto simp: ID_IsZero_def uuid_Nil_def SessionIssuer_Start_def NewSession_def NewRefreshToken_def Sessions_Start_def insertRefreshToken_def commit_def
        next_row_def time_add_def Let_def split: sum.splits prod.splits if_splits)
  have c: "carries_on db db'" using s by (auto simp: carries_on_def)
  have "wf_chain db'" if wf: "wf_chain db"
  proof -
    have none: "kr_session t \<noteq> id_value i" if "im_tokens db h = Some t" for h t
      using that wf s(1) unfolding wf_chain_def by metis
    have "live db' j = (if j = id_value i then {hash} else live db j)" for j
      using none s(2) by (auto simp: live_def s(3) next_row_def)
    then show ?thesis using wf s(4) by (auto simp: wf_chain_def s(3) next_row_def)
  qed
  then show ?thesis using c by blast
qed simp

lemma iam_step_chain: "iam_step ports db db' \<Longrightarrow> carries_on db db' \<and> (wf_chain db \<longrightarrow> wf_chain db')"
proof (induction rule: iam_step.induct)
  case (request raw phone code i now db c db')
  then show ?case using request_tx_frame [OF request(2)] by (intro carries_on_same) simp_all
next
  case (verify raw phone now code db r db')
  then show ?case using verify_tx_frame [OF verify(3)] by (intro carries_on_same) simp_all
next
  case (register raw phone db ui lang now)
  then show ?case by (intro carries_on_same) simp_all
next
  case (start db si newToken now user)
  then show ?case by (metis prod.collapse start_chain)
next
  case (refresh db hash nextHash now)
  then show ?case by (metis prod.collapse rotate_chain)
next
  case (revoke_blocked db s now)
  then show ?case by (intro update_chain [OF surjective_pairing]) auto
next
  case (logout db now user s)
  then show ?case unfolding LogoutHandler_db
    by (intro update_chain [OF surjective_pairing]) (auto simp: logout_callback_def split: if_splits)
qed

interpretation chain_kept: invariant_system "iam_step ports" wf_chain
  using iam_step_chain by unfold_locales blast

interpretation chain_grows: monotone_system "iam_step ports" "\<lambda>_. True" carries_on
  using iam_step_chain by unfold_locales (auto intro: carries_on_trans)

lemma iam_steps_chain: "(iam_step ports)\<^sup>*\<^sup>* db db' \<Longrightarrow> carries_on db db' \<and> (wf_chain db \<longrightarrow> wf_chain db')"
  using chain_kept.steps_inv chain_grows.steps_rel by blast

lemma wf_chain_empty: "wf_chain empty_iam"
  by (simp add: wf_chain_def empty_iam_def)

section \<open>What a refresh does\<close>

lemma Refresh_Inr:
  assumes "RefreshHandler_Handle ports tp newToken now others others' db tok = (Inr tk, db')"
  obtains h row srow nextRefresh nextHash u where "ip_hashToken ports tok = Some h" "newToken = Inr (nextRefresh, nextHash)"
    "im_tokens db h = Some row" "im_sessions db (kr_session row) = Some srow" "sr_revoked_at srow = None"
    "kr_used_at row = None" "now < kr_expires_at row" "im_tokens db nextHash = None"
    "db' = others (exchanged db h row nextHash now tp)" "ByID db' (ID (sr_user srow)) = Inr u" "\<not> IsBlocked u"
    "issuer_tokens ports tp u (ID (kr_session row)) nextRefresh now = Inr tk"
proof -
  obtain h nextRefresh nextHash where h: "ip_hashToken ports tok = Some h" "newToken = Inr (nextRefresh, nextHash)"
    using assms by (auto simp: RefreshHandler_Handle_def split: option.splits sum.splits)
  obtain r db1 where rot: "Sessions_Rotate db h (rotate_callback nextHash now tp) = (r, db1)" by force
  from rot show ?thesis
  proof (cases rule: rotate_cases)
    case (fails e)
    then show ?thesis using assms h rot by (simp add: RefreshHandler_Handle_def)
  next
    case (refused row srow s e)
    then show ?thesis using assms h rot by (simp add: RefreshHandler_Handle_def)
  next
    case (exchange row srow s)
    then obtain u where "ByID (others db1) (ID (sr_user srow)) = Inr u" "\<not> IsBlocked u" "db' = others db1"
      "issuer_tokens ports tp u (ID (kr_session row)) nextRefresh now = Inr tk"
      using assms h rot by (auto simp: RefreshHandler_Handle_def Let_def split: sum.splits if_splits prod.splits)
    then show ?thesis using that [of h nextRefresh nextHash row srow u] h exchange by simp
  qed
qed

lemma Refresh_ended:
  assumes "ip_hashToken ports tok = Some h" "im_tokens db h = Some row" "im_sessions db (kr_session row) = Some srow"
    "sr_revoked_at srow \<noteq> None \<or> kr_used_at row \<noteq> None"
  shows "\<exists>e. fst (RefreshHandler_Handle ports tp newToken now others others' db tok) = Inl e"
proof (cases "fst (RefreshHandler_Handle ports tp newToken now others others' db tok)")
  case (Inr tk)
  then have "RefreshHandler_Handle ports tp newToken now others others' db tok
      = (Inr tk, snd (RefreshHandler_Handle ports tp newToken now others others' db tok))" by (metis prod.collapse)
  then show ?thesis by (rule Refresh_Inr) (use assms in auto)
qed simp

lemma Refresh_ended_db:
  assumes "ip_hashToken ports tok = Some h" "im_tokens db h = Some row" "im_sessions db (kr_session row) = Some srow"
    "sr_revoked_at srow \<noteq> None \<or> kr_used_at row \<noteq> None"
  shows "snd (RefreshHandler_Handle ports tp (Inr (n, nh)) now others others' db tok) = snd (Sessions_Rotate db h (rotate_callback nh now tp))"
proof -
  obtain r db1 where rot: "Sessions_Rotate db h (rotate_callback nh now tp) = (r, db1)" by force
  from rot show ?thesis
    by (cases rule: rotate_cases) (use assms rot in \<open>auto simp: RefreshHandler_Handle_def\<close>)
qed

text \<open>A spent token that comes back while its session runs.\<close>

lemma Refresh_reused:
  assumes "ip_hashToken ports tok = Some h" "im_tokens db h = Some row" "im_sessions db (kr_session row) = Some srow"
    "sr_revoked_at srow = None" "kr_used_at row \<noteq> None" "newToken = Inr (nextRefresh, nextHash)"
  obtains db' r where "RefreshHandler_Handle ports tp newToken now others others' db tok = (Inl ErrRefreshTokenReused, db')"
    "im_sessions db' (kr_session row) = Some r" "sr_revoked_at r \<noteq> None" "sr_revoke_reason r = Some RevokedReuse"
    "db' = snd (Sessions_Rotate db h (rotate_callback nextHash now tp))"
proof -
  let ?s = "session_of (kr_session row) srow" and ?t = "token_of h row"
  let ?s' = "Revoke ?s now RevokedReuse"
  have rot: "Rotate ?s ?t nextHash now tp = (Inl ErrRefreshTokenReused, ?s', ?t)"
    using assms(4,5) by (simp add: Rotate_def)
  have ok: "session_ok ?s'" "revokeReason ?s' = Some RevokedReuse" "ss_revokedAt ?s' = Some now"
    using assms(4) by (simp_all add: session_ok_def revokeReason_def Revoke_def IsRevoked_def)
  then obtain db' where sv: "saveSession db ?s' = Inr db'" by (auto simp: saveSession_def)
  have S: "Sessions_Rotate db h (rotate_callback nextHash now tp) = (Inr (?s', Some ErrRefreshTokenReused), db')"
    using assms(2,3,5) rot sv
    by (auto simp: Sessions_Rotate_def rotate_callback_def commit_def Let_def token_of_def [symmetric] split: option.splits)
  have "im_sessions db' (kr_session row) = Some (stored_session ?s' srow)"
    using saveSession_Inr(2) [OF sv] assms(3) by simp
  moreover have "RefreshHandler_Handle ports tp newToken now others others' db tok = (Inl ErrRefreshTokenReused, db')"
    using assms(1,6) S by (simp add: RefreshHandler_Handle_def)
  ultimately show ?thesis using that ok S by (simp add: stored_session_def)
qed

lemma Refresh_works:
  assumes "ip_hashToken ports tok = Some h" "im_tokens db h = Some row" "im_sessions db (kr_session row) = Some srow"
    "sr_revoked_at srow = None" "kr_used_at row = None" "now < kr_expires_at row"
    "length nextHash = 32" "im_tokens db nextHash = None" "\<And>c. \<exists>a. ip_issue ports c = Inr a"
    "\<And>d. im_users (others d) = im_users d" "ByID db (ID (sr_user srow)) = Inr u" "\<not> IsBlocked u" "kr_session row \<noteq> 0"
  shows "\<exists>tk db'. RefreshHandler_Handle ports DefaultTokenPolicy (Inr (nextRefresh, nextHash)) now others others' db tok = (Inr tk, db')
    \<and> tk_refresh tk = nextRefresh"
proof -
  let ?s = "session_of (kr_session row) srow" and ?t = "token_of h row" and ?tp = DefaultTokenPolicy
  let ?nx = "\<lparr>rt_hash = nextHash, rt_session = ID (kr_session row), rt_createdAt = now, rt_expiresAt = time_add now (tp_refreshTTL ?tp), rt_usedAt = None\<rparr>"
  have ttl: "tp_refreshTTL ?tp = 2592000000000000" by (simp add: DefaultTokenPolicy_def hour_def)
  have "db_time (now + 2592000000000000) = db_time now + 2592000000000000" by (rule db_time_shift) simp
  then have exp: "db_time now < db_time (now + 2592000000000000)" by simp
  have rot: "Rotate ?s ?t nextHash now ?tp = (Inr ?nx, ?s\<lparr>ss_lastRefreshedAt := now\<rparr>, ?t\<lparr>rt_usedAt := Some now\<rparr>)"
    using assms(4-7,13) ttl by (auto simp: Rotate_def NewRefreshToken_def ID_IsZero_def uuid_Nil_def)
  have "session_ok (?s\<lparr>ss_lastRefreshedAt := now\<rparr>)"
    using assms(4) by (simp add: session_ok_def revokeReason_def IsRevoked_def)
  then obtain db1 where sv: "saveSession db (?s\<lparr>ss_lastRefreshedAt := now\<rparr>) = Inr db1" by (auto simp: saveSession_def)
  have d1: "im_tokens db1 = im_tokens db" "im_sessions db1 (kr_session row) \<noteq> None" "im_users db1 = im_users db"
    using saveSession_Inr(2) [OF sv] assms(3) by simp_all
  have "nextHash \<noteq> h" using assms(2,8) by auto
  then obtain db2 where ins: "insertRefreshToken (MarkRefreshTokenUsed db1 h now) ?nx = Inr db2"
    using assms(7,8) d1 exp ttl by (simp add: insertRefreshToken_def MarkRefreshTokenUsed_def time_add_def)
  have tok: "RehydrateRefreshToken h (IDFromUUID (kr_session row)) (kr_created_at row) (kr_expires_at row) None = ?t"
    using assms(5) by (simp add: token_of_def)
  have "Sessions_Rotate db h (rotate_callback nextHash now ?tp) = (Inr (?s\<lparr>ss_lastRefreshedAt := now\<rparr>, None), db2)"
    using assms(2,3,5) rot sv ins tok by (simp add: Sessions_Rotate_def rotate_callback_def commit_def Let_def)
  moreover have "im_users db2 = im_users db"
    using insertRefreshToken_frame(3) [OF ins] d1(3) by (simp add: MarkRefreshTokenUsed_def)
  then have "ByID (others db2) (ID (sr_user srow)) = Inr u" using assms(10,11) by (simp add: ByID_def)
  moreover obtain a where "ip_issue ports \<lparr>ac_user = u_id u, ac_session = ID (kr_session row), ac_role = u_role u, ac_issuedAt = now,
            ac_expiresAt = time_add now (tp_accessTTL ?tp)\<rparr> = Inr a" using assms(9) by blast
  ultimately show ?thesis using assms(1,12) by (simp add: RefreshHandler_Handle_def issuer_tokens_def Let_def)
qed

section \<open>Properties\<close>

text \<open>A session never has two usable refresh tokens: after any interleaving of requests every session has exactly
  one token that was not spent yet, and every token belongs to a session.\<close>

theorem one_usable_token:
  assumes "(iam_step ports)\<^sup>*\<^sup>* empty_iam db"
  shows "(\<forall>i. im_sessions db i \<noteq> None \<longrightarrow> (\<exists>!h. \<exists>t. im_tokens db h = Some t \<and> kr_session t = i \<and> kr_used_at t = None))
    \<and> (\<forall>h t. im_tokens db h = Some t \<longrightarrow> im_sessions db (kr_session t) \<noteq> None)"
proof -
  have wf: "wf_chain db" using iam_steps_chain [OF assms] wf_chain_empty by blast
  have "\<exists>!h. \<exists>t. im_tokens db h = Some t \<and> kr_session t = i \<and> kr_used_at t = None" if i: "im_sessions db i \<noteq> None" for i
  proof -
    obtain h where "live db i = {h}" using wf i unfolding wf_chain_def by blast
    then have "(\<exists>t. im_tokens db g = Some t \<and> kr_session t = i \<and> kr_used_at t = None) \<longleftrightarrow> g = h" for g
      by (auto simp: live_def set_eq_iff)
    then show ?thesis by simp
  qed
  then show ?thesis using wf unfolding wf_chain_def by blast
qed

text \<open>C13: A refresh token is exchanged once: when a refresh succeeded, then after any further requests the same token
  is refused, and if its session was still running, the refusal ends it for good: from then on no
  token of that session is ever exchanged again, whoever presents it.\<close>

theorem token_exchanged_once:
  assumes "RefreshHandler_Handle ports tp newToken now o1 o2 db tok = (Inr tk, db1)" "\<And>d. (iam_step ports)\<^sup>*\<^sup>* d (o1 d)"
    "(iam_step ports)\<^sup>*\<^sup>* db1 db2" "ip_hashToken ports tok = Some h" "im_tokens db h = Some row"
    "RefreshHandler_Handle ports DefaultTokenPolicy (Inr (n, nh)) now' o3 o4 db2 tok = (r, db3)"
    "(iam_step ports)\<^sup>*\<^sup>* db3 db4" "ip_hashToken ports tok' = Some h'" "im_tokens db4 h' = Some row'"
    "kr_session row' = kr_session row"
  shows "(\<exists>e. r = Inl e) \<and> (\<exists>e. fst (RefreshHandler_Handle ports tp' newToken' now'' o5 o6 db4 tok') = Inl e)"
proof -
  obtain srow nextHash where x: "im_sessions db (kr_session row) = Some srow" "db1 = o1 (exchanged db h row nextHash now tp)"
    "sr_revoked_at srow = None" "kr_used_at row = None" "im_tokens db nextHash = None"
    by (rule Refresh_Inr [OF assms(1)]) (use assms(4,5) in auto)
  let ?x = "exchanged db h row nextHash now tp"
  have ne: "nextHash \<noteq> h" using assms(5) x(5) by auto
  have "im_tokens ?x h = Some (row\<lparr>kr_used_at := Some (db_time now)\<rparr>)" "im_sessions ?x (kr_session row) \<noteq> None"
    using ne x(1) by (simp_all add: exchanged_def)
  moreover have "carries_on ?x db2"
    using iam_steps_chain [OF assms(2)] iam_steps_chain [OF assms(3)] carries_on_trans x(2) by blast
  ultimately obtain t2 where t2: "im_tokens db2 h = Some t2" "kr_session t2 = kr_session row" "kr_used_at t2 \<noteq> None"
    by (auto elim: carries_on_tokenE)
  obtain s2 where s2: "im_sessions db2 (kr_session t2) = Some s2"
    using \<open>carries_on ?x db2\<close> \<open>im_sessions ?x (kr_session row) \<noteq> None\<close> t2(2) by (auto elim: carries_on_sessionE)
  have r: "\<exists>e. r = Inl e" using Refresh_ended [OF assms(4) t2(1) s2] t2(3) assms(6) by (metis fst_conv)
  obtain s3 where s3: "im_sessions db3 (kr_session row) = Some s3" "sr_revoked_at s3 \<noteq> None"
  proof (cases "sr_revoked_at s2 = None")
    case True
    show ?thesis
      by (rule Refresh_reused [OF assms(4) t2(1) s2 True t2(3) refl, where tp = DefaultTokenPolicy and now = now'
            and others = o3 and others' = o4 and nextHash = nh and nextRefresh = n])
        (use assms(6) t2(2) that in auto)
  next
    case False
    have "carries_on db2 db3"
      using rotate_chain [OF surjective_pairing] Refresh_ended_db [OF assms(4) t2(1) s2, of DefaultTokenPolicy n nh now' o3 o4] t2(3) assms(6)
      by (metis snd_conv)
    then show ?thesis using that s2 False t2(2) by (auto elim: carries_on_sessionE)
  qed
  obtain s4 where "im_sessions db4 (kr_session row) = Some s4" "sr_revoked_at s4 \<noteq> None"
    using iam_steps_chain [OF assms(7)] s3 by (metis carries_on_sessionE)
  then show ?thesis using Refresh_ended [OF assms(8,9)] assms(10) r by metis
qed

text \<open>Signing out is final and touches nobody else: after a logout by the session's own user no token of the
  session is ever exchanged again, whatever happens next; a logout for somebody else's session
  changes nothing; and signing out always answers the same way, without an error.\<close>

theorem logout_is_final:
  assumes "LogoutHandler_Handle now db user (ID i) = (err, db1)" "im_sessions db i = Some srow"
    "(sr_revoked_at srow = None) = (sr_revoke_reason srow = None)" "sr_revoke_reason srow \<noteq> Some NoReason"
  shows "err = None
    \<and> (sr_user srow \<noteq> id_value user \<longrightarrow> db1 = db)
    \<and> (sr_user srow = id_value user \<longrightarrow> (\<forall>db2 tok h row tp newToken now' o1 o2. (iam_step ports)\<^sup>*\<^sup>* db1 db2
         \<and> ip_hashToken ports tok = Some h \<and> im_tokens db2 h = Some row \<and> kr_session row = i
         \<longrightarrow> (\<exists>e. fst (RefreshHandler_Handle ports tp newToken now' o1 o2 db2 tok) = Inl e)))"
proof (cases "sr_user srow = id_value user")
  case False
  then have "ID (sr_user srow) \<noteq> user" by auto
  then show ?thesis
    using assms(1,2) False
    by (auto simp: LogoutHandler_Handle_def Sessions_Update_def logout_callback_def commit_def RehydrateSession_def IDFromUUID_def)
next
  case True
  let ?s = "RehydrateSession (ID i) (IDFromUUID (sr_user srow)) (sr_created_at srow) (sr_last_refreshed_at srow)
     (sr_revoked_at srow) (toRevokeReason (sr_revoke_reason srow))"
  let ?s' = "Revoke ?s now RevokedLogout"
  have "session_ok ?s'"
    using assms(3,4) by (auto simp: session_ok_def revokeReason_def Revoke_def IsRevoked_def RehydrateSession_def toRevokeReason_def)
  then obtain d where d: "saveSession db ?s' = Inr d" by (auto simp: saveSession_def)
  have "LogoutHandler_Handle now db user (ID i) = (None, d)"
    using assms(2) True d
    by (auto simp: LogoutHandler_Handle_def Sessions_Update_def logout_callback_def commit_def RehydrateSession_def IDFromUUID_def)
  then have e: "err = None" "db1 = d" using assms(1) by auto
  have ended: "\<exists>r. im_sessions db1 i = Some r \<and> sr_revoked_at r \<noteq> None"
    using saveSession_Inr(2) [OF d] assms(2) Revoke_simps(1) [of ?s now RevokedLogout]
    by (auto simp: e(2) stored_session_def IsRevoked_def RehydrateSession_def)
  have "\<exists>e. fst (RefreshHandler_Handle ports tp newToken now' o1 o2 db2 tok) = Inl e"
    if a: "(iam_step ports)\<^sup>*\<^sup>* db1 db2" "ip_hashToken ports tok = Some h" "im_tokens db2 h = Some row" "kr_session row = i"
    for db2 tok h row tp newToken now' o1 o2
  proof -
    obtain r where "im_sessions db2 i = Some r" "sr_revoked_at r \<noteq> None"
      using iam_steps_chain [OF a(1)] ended by (auto elim: carries_on_sessionE)
    then show ?thesis using Refresh_ended [OF a(2,3)] a(4) by blast
  qed
  then show ?thesis using e(1) True by blast
qed

text \<open>C26: A signed-in device can always go on: when signing access tokens works, the token drawn for the answer is new
  and no account changes meanwhile, a refresh succeeds exactly when the presented token is stored,
  unspent and not expired, its session has not ended, and the account exists and is not blocked.\<close>

theorem refresh_succeeds_iff:
  assumes "(iam_step ports)\<^sup>*\<^sup>* empty_iam db" "ip_hashToken ports tok = Some h" "length nh = 32" "im_tokens db nh = None"
    "\<And>c. \<exists>a. ip_issue ports c = Inr a" "\<And>d. im_users (others d) = im_users d"
  shows "(\<exists>tk db'. RefreshHandler_Handle ports DefaultTokenPolicy (Inr (n, nh)) now others others' db tok = (Inr tk, db') \<and> tk_refresh tk = n)
    \<longleftrightarrow> (\<exists>row srow u. im_tokens db h = Some row \<and> kr_used_at row = None \<and> now < kr_expires_at row
          \<and> im_sessions db (kr_session row) = Some srow \<and> sr_revoked_at srow = None
          \<and> ByID db (ID (sr_user srow)) = Inr u \<and> \<not> IsBlocked u)"
    (is "?l \<longleftrightarrow> ?r")
proof
  assume ?l
  then obtain tk db' where "RefreshHandler_Handle ports DefaultTokenPolicy (Inr (n, nh)) now others others' db tok = (Inr tk, db')" by blast
  then show ?r
  proof (rule Refresh_Inr)
    fix g row srow nr nxt u
    assume a: "ip_hashToken ports tok = Some g" "im_tokens db g = Some row" "im_sessions db (kr_session row) = Some srow"
      "sr_revoked_at srow = None" "kr_used_at row = None" "now < kr_expires_at row"
      "db' = others (exchanged db g row nxt now DefaultTokenPolicy)" "ByID db' (ID (sr_user srow)) = Inr u" "\<not> IsBlocked u"
    then have "ByID db (ID (sr_user srow)) = Inr u" using assms(6) by (simp add: ByID_def exchanged_def)
    then show ?r using a assms(2) by auto
  qed
next
  assume ?r
  then obtain row srow u where a: "im_tokens db h = Some row" "kr_used_at row = None" "now < kr_expires_at row"
    "im_sessions db (kr_session row) = Some srow" "sr_revoked_at srow = None" "ByID db (ID (sr_user srow)) = Inr u" "\<not> IsBlocked u"
    by blast
  have "wf_chain db" using iam_steps_chain [OF assms(1)] wf_chain_empty by blast
  then have "kr_session row \<noteq> 0" using a(4) unfolding wf_chain_def by (metis option.distinct(1))
  then show ?l using Refresh_works [OF assms(2) a(1,4,5,2,3) assms(3,4,5,6) a(6,7)] by blast
qed

section \<open>Handlers are runs\<close>

lemma VerifyOTP_steps:
  assumes "\<And>d. (iam_step ports)\<^sup>*\<^sup>* d (others d)" "\<And>d. (iam_step ports)\<^sup>*\<^sup>* d (others' d)" "zero_time \<le> now"
  shows "(iam_step ports)\<^sup>*\<^sup>* db (snd (VerifyOTP_Handle ports DefaultOTPPolicy DefaultTokenPolicy ui si newToken now now' now'' others others' db cmd))"
proof (cases "\<exists>phone code db1 r. NewPhoneNumber (vo_phone cmd) = Inr phone \<and> ParseOTPCode (vo_code cmd) = Inr code
    \<and> verify_tx ports DefaultOTPPolicy now phone code db = Inr (r, db1)")
  case False
  then show ?thesis by (auto simp: VerifyOTP_Handle_def split: sum.splits option.splits prod.splits)
next
  case True
  then obtain phone code db1 r where v: "NewPhoneNumber (vo_phone cmd) = Inr phone" "ParseOTPCode (vo_code cmd) = Inr code"
    "verify_tx ports DefaultOTPPolicy now phone code db = Inr (r, db1)" by blast
  let ?u = "NewUser ui phone (case vo_locale cmd of None \<Rightarrow> Arabic | Some l \<Rightarrow> l) now'"
  have s1: "(iam_step ports)\<^sup>*\<^sup>* db db1" using iam_step.verify [OF v(1) assms(3) v(3)] by blast
  have "(iam_step ports)\<^sup>*\<^sup>* db (others db1)" using s1 assms(1) by (rule rtranclp_trans)
  then have s2: "(iam_step ports)\<^sup>*\<^sup>* db (snd (Register (others db1) ?u))"
    using iam_step.register [OF v(1)] by (rule rtranclp.rtrancl_into_rtrancl)
  have s3: "(iam_step ports)\<^sup>*\<^sup>* db (others' (snd (Register (others db1) ?u)))" using s2 assms(2) by (rule rtranclp_trans)
  have s4: "(iam_step ports)\<^sup>*\<^sup>* db (snd (SessionIssuer_Start ports DefaultTokenPolicy si newToken now'' (others' (snd (Register (others db1) ?u))) u))" for u
    using s3 iam_step.start by (rule rtranclp.rtrancl_into_rtrancl)
  obtain q db2 where reg: "Register (others db1) ?u = (q, db2)" by force
  show ?thesis
  proof (cases r)
    case (Some e)
    then show ?thesis using s1 v by (simp add: VerifyOTP_Handle_def)
  next
    case None
    show ?thesis
    proof (cases q)
      case (Inl e)
      then show ?thesis using s2 v None reg by (simp add: VerifyOTP_Handle_def Let_def)
    next
      case (Inr w)
      obtain q3 db3 where st: "SessionIssuer_Start ports DefaultTokenPolicy si newToken now'' (others' db2) (fst w) = (q3, db3)" by force
      show ?thesis
        using s2 s4 [of "fst w"] v None reg Inr st
        by (cases w; cases q3) (simp_all add: VerifyOTP_Handle_def Let_def)
    qed
  qed
qed

section \<open>Witnesses\<close>

definition signed_in :: iam_db where "signed_in = snd (sample_login sent_iam 1 ''123456'' 7)"

lemma signed_in_reachable: "(iam_step sample_iam)\<^sup>*\<^sup>* empty_iam signed_in"
proof -
  have "(iam_step sample_iam)\<^sup>*\<^sup>* sent_iam signed_in"
    unfolding signed_in_def sample_login_def by (rule VerifyOTP_steps) (simp_all add: zero_time_def)
  then show ?thesis using sent_iam_reachable by (rule rtranclp_trans [rotated])
qed

theorem one_usable_token_witness:
  "\<exists>!h. \<exists>t. im_tokens signed_in h = Some t \<and> kr_session t = 8 \<and> kr_used_at t = None"
proof -
  have "im_sessions signed_in 8 \<noteq> None" by code_simp
  then show ?thesis using one_usable_token [OF signed_in_reachable] by blast
qed

definition sample_refresh :: "iam_db \<Rightarrow> char \<Rightarrow> char \<Rightarrow> (iam_error, Tokens) result \<times> iam_db" where
  "sample_refresh db old new =
     RefreshHandler_Handle sample_iam DefaultTokenPolicy (Inr (replicate 32 new, replicate 32 new)) minute (\<lambda>d. d) (\<lambda>d. d) db (replicate 32 old)"

lemma sample_hashToken: "ip_hashToken sample_iam (replicate 32 c) = Some (replicate 32 c)"
  by (simp add: sample_iam_def)

definition refreshed :: iam_db where "refreshed = snd (sample_refresh signed_in CHR ''a'' CHR ''c'')"

definition replayed :: iam_db where "replayed = snd (sample_refresh refreshed CHR ''a'' CHR ''d'')"

theorem token_exchanged_once_witness:
  "(\<exists>e. fst (sample_refresh refreshed CHR ''a'' CHR ''d'') = Inl e) \<and> (\<exists>e. fst (sample_refresh replayed CHR ''c'' CHR ''e'') = Inl e)"
proof -
  have "is_ok (fst (sample_refresh signed_in CHR ''a'' CHR ''c''))" by code_simp
  then obtain tk where "sample_refresh signed_in CHR ''a'' CHR ''c'' = (Inr tk, refreshed)"
    by (metis is_ok_iff prod.collapse refreshed_def)
  note tk = this [unfolded sample_refresh_def]
  have "sample_refresh refreshed CHR ''a'' CHR ''d'' = (fst (sample_refresh refreshed CHR ''a'' CHR ''d''), replayed)"
    by (simp add: replayed_def)
  note r = this [unfolded sample_refresh_def]
  have "map_option kr_session (im_tokens signed_in (replicate 32 CHR ''a'')) = Some 8"
    "map_option kr_session (im_tokens replayed (replicate 32 CHR ''c'')) = Some 8"
    by code_simp+
  then obtain row row' where row: "im_tokens signed_in (replicate 32 CHR ''a'') = Some row"
    "im_tokens replayed (replicate 32 CHR ''c'') = Some row'" "kr_session row' = kr_session row" by auto
  have refl: "\<And>d. (iam_step sample_iam)\<^sup>*\<^sup>* d d" by simp
  show ?thesis
    using token_exchanged_once [OF tk refl refl sample_hashToken row(1) r refl sample_hashToken row(2,3)]
    by (simp add: sample_refresh_def)
qed

theorem logout_is_final_witness:
  "\<exists>db1. LogoutHandler_Handle minute signed_in (ID 7) (ID 8) = (None, db1)"
proof -
  have "(case im_sessions signed_in 8 of None \<Rightarrow> True | Some s \<Rightarrow> sr_revoked_at s \<noteq> None \<or> sr_revoke_reason s \<noteq> None) = False" by code_simp
  then obtain s where s: "im_sessions signed_in 8 = Some s" "(sr_revoked_at s = None) = (sr_revoke_reason s = None)"
    "sr_revoke_reason s \<noteq> Some NoReason" by (auto split: option.splits)
  obtain err db1 where l: "LogoutHandler_Handle minute signed_in (ID 7) (ID 8) = (err, db1)" by force
  show ?thesis using logout_is_final [OF l s, of sample_iam] l by auto
qed

theorem refresh_succeeds_iff_witness:
  "\<exists>tk db'. sample_refresh signed_in CHR ''a'' CHR ''c'' = (Inr tk, db')"
proof -
  have "(case im_tokens signed_in (replicate 32 CHR ''a'') of None \<Rightarrow> False | Some row \<Rightarrow> kr_used_at row = None \<and> minute < kr_expires_at row
     \<and> (case im_sessions signed_in (kr_session row) of None \<Rightarrow> False | Some s \<Rightarrow> sr_revoked_at s = None
        \<and> (case ByID signed_in (ID (sr_user s)) of Inl _ \<Rightarrow> False | Inr u \<Rightarrow> \<not> IsBlocked u)))"
    by code_simp
  then have a: "\<exists>row srow u. im_tokens signed_in (replicate 32 CHR ''a'') = Some row \<and> kr_used_at row = None \<and> minute < kr_expires_at row
          \<and> im_sessions signed_in (kr_session row) = Some srow \<and> sr_revoked_at srow = None
          \<and> ByID signed_in (ID (sr_user srow)) = Inr u \<and> \<not> IsBlocked u"
    by (auto split: option.splits sum.splits)
  have n: "length (replicate 32 CHR ''c'') = 32" "im_tokens signed_in (replicate 32 CHR ''c'') = None" by (simp, code_simp)
  have i: "\<And>c. \<exists>a. ip_issue sample_iam c = Inr a" by (simp add: sample_iam_def)
  have "\<exists>tk db'. RefreshHandler_Handle sample_iam DefaultTokenPolicy (Inr (replicate 32 CHR ''c'', replicate 32 CHR ''c'')) minute
      (\<lambda>d. d) (\<lambda>d. d) signed_in (replicate 32 CHR ''a'') = (Inr tk, db') \<and> tk_refresh tk = replicate 32 CHR ''c''"
    using refresh_succeeds_iff [OF signed_in_reachable sample_hashToken n i, of "\<lambda>d. d", OF refl] a by blast
  then show ?thesis unfolding sample_refresh_def by blast
qed

end
