(* ===== verification/Business.thy ===== *)
theory Business
  imports GoTime Shared
begin

text \<open>
  \<open>internal/business/domain\<close>, first half: errors (\<open>errors.go\<close>), registration numbers
  (\<open>cr_number.go\<close>), businesses and their review (\<open>business.go\<close>, \<open>review.go\<close>), plan limits
  (\<open>limits.go\<close>), verification documents (\<open>verification.go\<close>) and staff with their roles
  (\<open>staff.go\<close>). A method that changes its receiver returns the changed receiver.
\<close>

section \<open>Errors\<close>

text \<open>
  The sentinels of \<open>errors.go\<close>, the typed errors of policies, of branches that are not ready and of
  invitations sent too often, the errors of the shared values, and \<open>Fault\<close> for every error without a
  name.
\<close>

datatype business_error =
    ErrNotFound | ErrForbidden | ErrInvalidCRNumber | ErrLegalNameRequired | ErrTextTooLong
  | ErrAlreadyRegistered | ErrOwnerRequired | ErrUnknownRole | ErrUnknownStatus
  | ErrInvalidStateTransition | ErrVersionConflict
  | ErrInvalidCityCode | ErrAddressRequired | ErrInvalidTimezone | ErrBusinessNotActive
  | ErrUnknownDocumentKind | ErrDocumentLimitReached | ErrEmptyFile | ErrFileTooLarge | ErrUnsupportedFile
  | ErrCRDocumentRequired | ErrBranchRequired | ErrRejectionReasonRequired | ErrCRNumberClaimed
  | ErrNotPlatformAdmin | ErrSelfReview
  | ErrInvalidInviteRole | ErrStaffNameRequired | ErrStaffBranchRequired | ErrUnknownBranch
  | ErrInvitationInvalid | ErrAlreadyStaff | ErrInvitationClosed
  | ErrBranchLimitReached | ErrStaffLimitReached | ErrTooManyRegistrations
  | InviteRateError duration
  | PolicyError string
  | NotReadyError "string list"
  | Invalid shared_error
  | Fault

section \<open>Registration numbers\<close>

record CRNumber =
  cr_digits :: string

fun cr_scan :: "string \<Rightarrow> (int \<times> string) list \<Rightarrow> string option" where
  "cr_scan b [] = Some b"
| "cr_scan b ((r, _) # rs) =
     (if r = of_char (CHR '' '') \<or> r = of_char (CHR ''-'') then cr_scan b rs
      else case WesternDigit r of None \<Rightarrow> None | Some d \<Rightarrow> cr_scan (b @ [char_of d]) rs)"

definition NewCRNumber :: "string \<Rightarrow> (business_error, CRNumber) result" where
  "NewCRNumber s =
     (case cr_scan [] (runes s) of None \<Rightarrow> Inl ErrInvalidCRNumber
      | Some b \<Rightarrow> if length b \<noteq> 10 then Inl ErrInvalidCRNumber else Inr \<lparr>cr_digits = b\<rparr>)"

section \<open>Plan limits\<close>

record Limits =
  lm_maxBranches :: int
  lm_maxStaff :: int

definition AllowBranch :: "Limits \<Rightarrow> int \<Rightarrow> business_error option" where
  "AllowBranch l existing = (if lm_maxBranches l \<le> existing then Some ErrBranchLimitReached else None)"

definition AllowStaff :: "Limits \<Rightarrow> int \<Rightarrow> business_error option" where
  "AllowStaff l seats = (if lm_maxStaff l \<le> seats then Some ErrStaffLimitReached else None)"

section \<open>Staff\<close>

datatype Role = RoleOwner | RoleManager | RoleBarber

fun role_text :: "Role \<Rightarrow> string" where
  "role_text RoleOwner = ''owner''"
| "role_text RoleManager = ''manager''"
| "role_text RoleBarber = ''barber''"

fun rank :: "Role \<Rightarrow> int" where
  "rank RoleOwner = 3"
| "rank RoleManager = 2"
| "rank RoleBarber = 1"

definition ParseRole :: "string \<Rightarrow> (business_error, Role) result" where
  "ParseRole s =
     (case find_first (\<lambda>r. role_text r = s) [RoleOwner, RoleManager, RoleBarber] of
        None \<Rightarrow> Inl ErrUnknownRole | Some r \<Rightarrow> Inr r)"

record StaffMember =
  st_id :: StaffID
  st_business :: BusinessID
  st_user :: UserID
  st_role :: Role
  st_active :: bool
  st_createdAt :: gotime
  st_displayName :: string
  st_branches :: "BranchID list"

definition Authorize :: "StaffMember \<Rightarrow> Role \<Rightarrow> business_error option" where
  "Authorize m need = (if \<not> st_active m \<or> rank (st_role m) < rank need then Some ErrForbidden else None)"

definition WorksAt :: "StaffMember \<Rightarrow> BranchID \<Rightarrow> bool" where
  "WorksAt m branch \<longleftrightarrow> st_role m = RoleOwner \<or> branch \<in> set (st_branches m)"

definition AuthorizeBranch :: "StaffMember \<Rightarrow> Role \<Rightarrow> BranchID \<Rightarrow> business_error option" where
  "AuthorizeBranch m need branch =
     (case Authorize m need of Some e \<Rightarrow> Some e
      | None \<Rightarrow> if \<not> WorksAt m branch then Some ErrForbidden else None)"

section \<open>Businesses\<close>

datatype Status = StatusDraft | StatusPendingReview | StatusActive | StatusRejected | StatusSuspended

fun status_text :: "Status \<Rightarrow> string" where
  "status_text StatusDraft = ''draft''"
| "status_text StatusPendingReview = ''pending_review''"
| "status_text StatusActive = ''active''"
| "status_text StatusRejected = ''rejected''"
| "status_text StatusSuspended = ''suspended''"

definition ParseStatus :: "string \<Rightarrow> (business_error, Status) result" where
  "ParseStatus s =
     (case find_first (\<lambda>st. status_text st = s)
        [StatusDraft, StatusPendingReview, StatusActive, StatusRejected, StatusSuspended] of
        None \<Rightarrow> Inl ErrUnknownStatus | Some st \<Rightarrow> Inr st)"

definition MaxDisplayNameLen :: int where "MaxDisplayNameLen = 100"
definition MaxLegalNameLen :: int where "MaxLegalNameLen = 200"
definition MaxOpenRegistrations :: int where "MaxOpenRegistrations = 3"
definition MaxRejectionReasonLen :: int where "MaxRejectionReasonLen = 500"

record Review =
  rv_submittedAt :: "gotime option"
  rv_reviewedAt :: "gotime option"
  rv_reviewedBy :: UserID
  rv_rejectionReason :: string

definition zero_review :: Review where
  "zero_review = \<lparr>rv_submittedAt = None, rv_reviewedAt = None, rv_reviewedBy = ID uuid_Nil, rv_rejectionReason = []\<rparr>"

datatype BusinessEvent = BusinessApproved (ev_business: BusinessID) (ev_owner: UserID) (ev_at: gotime)

record Business =
  bz_id :: BusinessID
  bz_owner :: UserID
  bz_displayName :: LocalizedText
  bz_legalName :: string
  bz_cr :: CRNumber
  bz_status :: Status
  bz_version :: int
  bz_createdAt :: gotime
  bz_updatedAt :: gotime
  bz_review :: Review
  bz_events :: "BusinessEvent list"

record Registration =
  rg_displayName :: LocalizedText
  rg_legalName :: string
  rg_cr :: CRNumber

definition validateNames :: "LocalizedText \<Rightarrow> string \<Rightarrow> (business_error, string) result" where
  "validateNames displayName legalName =
     (if lt_ar displayName = [] then Inl (Invalid ErrArabicRequired)
      else if MaxDisplayNameLen < rune_count (lt_ar displayName) \<or> MaxDisplayNameLen < rune_count (lt_en displayName)
      then Inl ErrTextTooLong
      else
        let legal = trim_space legalName in
        if legal = [] then Inl ErrLegalNameRequired
        else if MaxLegalNameLen < rune_count legal then Inl ErrTextTooLong
        else Inr legal)"

definition RegisterBusiness ::
  "BusinessID \<Rightarrow> StaffID \<Rightarrow> UserID \<Rightarrow> Registration \<Rightarrow> gotime \<Rightarrow> (business_error, Business \<times> StaffMember) result" where
  "RegisterBusiness i ownerStaff owner r now =
     (if ID_IsZero owner then Inl ErrOwnerRequired
      else if rg_cr r = \<lparr>cr_digits = []\<rparr> then Inl ErrInvalidCRNumber
      else case validateNames (rg_displayName r) (rg_legalName r) of Inl e \<Rightarrow> Inl e
      | Inr legal \<Rightarrow>
          let now = db_time now in
          Inr (\<lparr>bz_id = i, bz_owner = owner, bz_displayName = rg_displayName r, bz_legalName = legal, bz_cr = rg_cr r,
                 bz_status = StatusDraft, bz_version = 1, bz_createdAt = now, bz_updatedAt = now,
                 bz_review = zero_review, bz_events = []\<rparr>,
               \<lparr>st_id = ownerStaff, st_business = i, st_user = owner, st_role = RoleOwner, st_active = True,
                 st_createdAt = now, st_displayName = [], st_branches = []\<rparr>))"

definition RehydrateBusiness ::
  "BusinessID \<Rightarrow> UserID \<Rightarrow> LocalizedText \<Rightarrow> string \<Rightarrow> CRNumber \<Rightarrow> Status \<Rightarrow> int \<Rightarrow> gotime \<Rightarrow> gotime \<Rightarrow> Review \<Rightarrow> Business" where
  "RehydrateBusiness i owner displayName legalName cr status version createdAt updatedAt review =
     \<lparr>bz_id = i, bz_owner = owner, bz_displayName = displayName, bz_legalName = legalName, bz_cr = cr,
       bz_status = status, bz_version = version, bz_createdAt = createdAt, bz_updatedAt = updatedAt,
       bz_review = review, bz_events = []\<rparr>"

definition touch :: "Business \<Rightarrow> gotime \<Rightarrow> Business" where
  "touch b t = b\<lparr>bz_version := bz_version b + 1, bz_updatedAt := t\<rparr>"

definition editable :: "Business \<Rightarrow> bool" where
  "editable b \<longleftrightarrow> bz_status b = StatusDraft \<or> bz_status b = StatusRejected"

definition Rename :: "Business \<Rightarrow> LocalizedText \<Rightarrow> string \<Rightarrow> gotime \<Rightarrow> (business_error, Business) result" where
  "Rename b displayName legalName now =
     (if \<not> editable b then Inl ErrInvalidStateTransition
      else case validateNames displayName legalName of Inl e \<Rightarrow> Inl e
      | Inr legal \<Rightarrow> Inr (touch (b\<lparr>bz_displayName := displayName, bz_legalName := legal\<rparr>) (db_time now)))"

section \<open>Review\<close>

record Readiness =
  rd_documents :: int
  rd_branches :: int

definition Submit :: "Business \<Rightarrow> Readiness \<Rightarrow> gotime \<Rightarrow> (business_error, Business) result" where
  "Submit b r now =
     (if \<not> editable b then Inl ErrInvalidStateTransition
      else if rd_documents r < 1 then Inl ErrCRDocumentRequired
      else if rd_branches r < 1 then Inl ErrBranchRequired
      else let t = db_time now in
        Inr (touch (b\<lparr>bz_status := StatusPendingReview, bz_review := (bz_review b)\<lparr>rv_submittedAt := Some t\<rparr>\<rparr>) t))"

definition canReview :: "Business \<Rightarrow> UserID \<Rightarrow> business_error option" where
  "canReview b reviewer =
     (if reviewer = bz_owner b then Some ErrSelfReview
      else if bz_status b \<noteq> StatusPendingReview then Some ErrInvalidStateTransition
      else None)"

definition Approve :: "Business \<Rightarrow> UserID \<Rightarrow> gotime \<Rightarrow> (business_error, Business) result" where
  "Approve b reviewer now =
     (case canReview b reviewer of Some e \<Rightarrow> Inl e
      | None \<Rightarrow>
          let t = db_time now;
              b' = touch (b\<lparr>bz_status := StatusActive, bz_review := (bz_review b)\<lparr>rv_reviewedAt := Some t,
                      rv_reviewedBy := reviewer, rv_rejectionReason := []\<rparr>\<rparr>) t
          in Inr (b'\<lparr>bz_events := bz_events b' @ [BusinessApproved (bz_id b') (bz_owner b') t]\<rparr>))"

definition Reject :: "Business \<Rightarrow> UserID \<Rightarrow> string \<Rightarrow> gotime \<Rightarrow> (business_error, Business) result" where
  "Reject b reviewer reason now =
     (case canReview b reviewer of Some e \<Rightarrow> Inl e
      | None \<Rightarrow>
          let reason = trim_space reason in
          if reason = [] then Inl ErrRejectionReasonRequired
          else if MaxRejectionReasonLen < rune_count reason then Inl ErrTextTooLong
          else let t = db_time now in
            Inr (touch (b\<lparr>bz_status := StatusRejected, bz_review := (bz_review b)\<lparr>rv_reviewedAt := Some t,
                   rv_reviewedBy := reviewer, rv_rejectionReason := reason\<rparr>\<rparr>) t))"

section \<open>Verification documents\<close>

definition DocumentCRCertificate :: string where "DocumentCRCertificate = ''cr_certificate''"

definition ParseDocumentKind :: "string \<Rightarrow> (business_error, string) result" where
  "ParseDocumentKind s = (if s \<noteq> DocumentCRCertificate then Inl ErrUnknownDocumentKind else Inr s)"

definition MaxVerificationDocuments :: int where "MaxVerificationDocuments = 5"

record VerificationDocument =
  vd_file :: MediaID
  vd_business :: BusinessID
  vd_kind :: string
  vd_contentType :: string
  vd_size :: int
  vd_uploadedBy :: UserID
  vd_uploadedAt :: gotime

definition NewVerificationDocument ::
  "MediaID \<Rightarrow> BusinessID \<Rightarrow> string \<Rightarrow> string \<Rightarrow> int \<Rightarrow> UserID \<Rightarrow> gotime \<Rightarrow> VerificationDocument" where
  "NewVerificationDocument f b kind contentType size' by' t =
     \<lparr>vd_file = f, vd_business = b, vd_kind = kind, vd_contentType = contentType, vd_size = size',
       vd_uploadedBy = by', vd_uploadedAt = db_time t\<rparr>"

definition CanAttachDocument :: "Business \<Rightarrow> int \<Rightarrow> business_error option" where
  "CanAttachDocument b existing =
     (if \<not> editable b then Some ErrInvalidStateTransition
      else if MaxVerificationDocuments \<le> existing then Some ErrDocumentLimitReached
      else None)"

end
