(* ===== verification/Branch.thy ===== *)
theory Branch
  imports Business
begin

text \<open>
  \<open>internal/business/domain\<close>, second half: booking policies (\<open>booking_policy.go\<close>), branches
  (\<open>branch.go\<close>), their events (\<open>events.go\<close>) and staff invitations (\<open>invitation.go\<close>). The time-zone
  database behind \<open>time.LoadLocation\<close> and the text of a UUID are parameters.
\<close>

section \<open>Booking policies\<close>

record PolicyRules =
  pr_minLead :: duration
  pr_horizonDays :: int
  pr_slotInterval :: duration
  pr_buffer :: duration
  pr_cancellationWindow :: duration
  pr_autoConfirm :: bool
  pr_pendingExpiry :: duration
  pr_maxActiveBookings :: int

definition wholeMinutes :: "duration \<Rightarrow> bool" where
  "wholeMinutes d \<longleftrightarrow> go_mod d minute = 0"

definition slotIntervals :: "duration list" where
  "slotIntervals = [5 * minute, 10 * minute, 15 * minute, 20 * minute, 30 * minute, hour]"

definition policy_checks :: "PolicyRules \<Rightarrow> (bool \<times> string) list" where
  "policy_checks r =
     [(wholeMinutes (pr_minLead r) \<and> 0 \<le> pr_minLead r \<and> pr_minLead r \<le> 7 * 24 * hour,
       ''minimum lead time must be 0 to 7 days, in whole minutes''),
      (1 \<le> pr_horizonDays r \<and> pr_horizonDays r \<le> 180, ''booking horizon must be 1 to 180 days''),
      (pr_slotInterval r \<in> set slotIntervals, ''slot interval must be 5, 10, 15, 20, 30 or 60 minutes''),
      (wholeMinutes (pr_buffer r) \<and> 0 \<le> pr_buffer r \<and> pr_buffer r \<le> hour,
       ''buffer must be 0 to 60 minutes, in whole minutes''),
      (wholeMinutes (pr_cancellationWindow r) \<and> 0 \<le> pr_cancellationWindow r \<and> pr_cancellationWindow r \<le> 48 * hour,
       ''cancellation window must be 0 to 48 hours, in whole minutes''),
      (wholeMinutes (pr_pendingExpiry r) \<and> 5 * minute \<le> pr_pendingExpiry r \<and> pr_pendingExpiry r \<le> 2 * hour,
       ''pending expiry must be 5 to 120 minutes, in whole minutes''),
      (1 \<le> pr_maxActiveBookings r \<and> pr_maxActiveBookings r \<le> 10,
       ''active bookings per customer must be 1 to 10'')]"

text \<open>A policy is its rules; the zero policy is one with all fields zero.\<close>

type_synonym BookingPolicy = PolicyRules

definition zero_policy :: BookingPolicy where
  "zero_policy = \<lparr>pr_minLead = 0, pr_horizonDays = 0, pr_slotInterval = 0, pr_buffer = 0,
     pr_cancellationWindow = 0, pr_autoConfirm = False, pr_pendingExpiry = 0, pr_maxActiveBookings = 0\<rparr>"

definition NewBookingPolicy :: "PolicyRules \<Rightarrow> (business_error, BookingPolicy) result" where
  "NewBookingPolicy r =
     (case find_first (\<lambda>c. \<not> fst c) (policy_checks r) of Some c \<Rightarrow> Inl (PolicyError (snd c)) | None \<Rightarrow> Inr r)"

definition DefaultBookingPolicy :: BookingPolicy where
  "DefaultBookingPolicy = \<lparr>pr_minLead = 30 * minute, pr_horizonDays = 30, pr_slotInterval = 15 * minute, pr_buffer = 0,
     pr_cancellationWindow = 2 * hour, pr_autoConfirm = True, pr_pendingExpiry = 15 * minute, pr_maxActiveBookings = 2\<rparr>"

section \<open>Branches\<close>

datatype BranchStatus = BranchDraft | BranchPublished | BranchUnpublished

fun branch_status_text :: "BranchStatus \<Rightarrow> string" where
  "branch_status_text BranchDraft = ''draft''"
| "branch_status_text BranchPublished = ''published''"
| "branch_status_text BranchUnpublished = ''unpublished''"

definition ParseBranchStatus :: "string \<Rightarrow> (business_error, BranchStatus) result" where
  "ParseBranchStatus s =
     (case find_first (\<lambda>st. branch_status_text st = s) [BranchDraft, BranchPublished, BranchUnpublished] of
        None \<Rightarrow> Inl ErrUnknownStatus | Some st \<Rightarrow> Inr st)"

definition ParseCityCode :: "string \<Rightarrow> (business_error, string) result" where
  "ParseCityCode s = (case ParseCity s of Inl _ \<Rightarrow> Inl ErrInvalidCityCode | Inr _ \<Rightarrow> Inr s)"

definition MaxDistrictLen :: int where "MaxDistrictLen = 80"
definition MaxAddressLen :: int where "MaxAddressLen = 200"
definition DefaultTimezone :: string where "DefaultTimezone = ''Asia/Riyadh''"

record BranchProfile =
  bp_name :: LocalizedText
  bp_city :: string
  bp_district :: string
  bp_address :: string
  bp_location :: GeoPoint
  bp_phone :: PhoneNumber
  bp_timezone :: string

type_synonym zones = "string \<Rightarrow> location option"

definition checkTimezone :: "zones \<Rightarrow> string \<Rightarrow> business_error option" where
  "checkTimezone load name =
     (if name = [] \<or> name = ''Local'' then Some ErrInvalidTimezone
      else case load name of None \<Rightarrow> Some ErrInvalidTimezone | Some _ \<Rightarrow> None)"

definition zero_point :: GeoPoint where "zero_point = \<lparr>geo_lat = Fin 0, geo_lng = Fin 0\<rparr>"

definition validate :: "zones \<Rightarrow> BranchProfile \<Rightarrow> (business_error, BranchProfile) result" where
  "validate load p =
     (if lt_ar (bp_name p) = [] then Inl (Invalid ErrArabicRequired)
      else if MaxDisplayNameLen < rune_count (lt_ar (bp_name p)) \<or> MaxDisplayNameLen < rune_count (lt_en (bp_name p))
      then Inl ErrTextTooLong
      else case ParseCityCode (bp_city p) of Inl e \<Rightarrow> Inl e
      | Inr _ \<Rightarrow>
          let p = p\<lparr>bp_district := trim_space (bp_district p), bp_address := trim_space (bp_address p)\<rparr> in
          if bp_address p = [] then Inl ErrAddressRequired
          else if MaxDistrictLen < rune_count (bp_district p) \<or> MaxAddressLen < rune_count (bp_address p)
          then Inl ErrTextTooLong
          else if \<not> is_ok (NewGeoPoint (geo_lat (bp_location p)) (geo_lng (bp_location p))) \<or> bp_location p = zero_point
          then Inl (Invalid ErrInvalidCoordinates)
          else case checkTimezone load (bp_timezone p) of Some e \<Rightarrow> Inl e | None \<Rightarrow> Inr p)"

record BranchSnapshot =
  bs_version :: int
  bs_status :: BranchStatus
  bs_profile :: BranchProfile

datatype BranchEvent =
    BranchPublishedEvent BusinessID BranchID gotime BranchSnapshot
  | BranchUnpublishedEvent BusinessID BranchID gotime BranchSnapshot
  | BranchUpdatedEvent BusinessID BranchID gotime BranchSnapshot

record Branch =
  bn_id :: BranchID
  bn_business :: BusinessID
  bn_profile :: BranchProfile
  bn_policy :: BookingPolicy
  bn_status :: BranchStatus
  bn_version :: int
  bn_createdAt :: gotime
  bn_updatedAt :: gotime
  bn_events :: "BranchEvent list"

definition NewBranch ::
  "zones \<Rightarrow> BranchID \<Rightarrow> BusinessID \<Rightarrow> BranchProfile \<Rightarrow> BookingPolicy \<Rightarrow> gotime \<Rightarrow> (business_error, Branch) result" where
  "NewBranch load i business p policy now =
     (case validate load p of Inl e \<Rightarrow> Inl e
      | Inr p \<Rightarrow>
          let policy = (if policy = zero_policy then DefaultBookingPolicy else policy); now = db_time now in
          Inr \<lparr>bn_id = i, bn_business = business, bn_profile = p, bn_policy = policy, bn_status = BranchDraft,
            bn_version = 1, bn_createdAt = now, bn_updatedAt = now, bn_events = []\<rparr>)"

definition branch_touch :: "Branch \<Rightarrow> gotime \<Rightarrow> Branch" where
  "branch_touch b now = b\<lparr>bn_version := bn_version b + 1, bn_updatedAt := db_time now\<rparr>"

definition branch_snapshot :: "Branch \<Rightarrow> BranchSnapshot" where
  "branch_snapshot b = \<lparr>bs_version = bn_version b, bs_status = bn_status b, bs_profile = bn_profile b\<rparr>"

definition record_event ::
  "(BusinessID \<Rightarrow> BranchID \<Rightarrow> gotime \<Rightarrow> BranchSnapshot \<Rightarrow> BranchEvent) \<Rightarrow> Branch \<Rightarrow> Branch" where
  "record_event ev b = b\<lparr>bn_events := bn_events b @ [ev (bn_business b) (bn_id b) (bn_updatedAt b) (branch_snapshot b)]\<rparr>"

definition Edit :: "zones \<Rightarrow> Branch \<Rightarrow> BranchProfile \<Rightarrow> BookingPolicy \<Rightarrow> gotime \<Rightarrow> (business_error, Branch) result" where
  "Edit load b p policy now =
     (case validate load p of Inl e \<Rightarrow> Inl e
      | Inr p \<Rightarrow>
          if policy = zero_policy then Inl (PolicyError ''a booking policy is required'')
          else Inr (record_event BranchUpdatedEvent (branch_touch (b\<lparr>bn_profile := p, bn_policy := policy\<rparr>) now)))"

record BranchReadiness =
  bd_openingHours :: bool
  bd_offeredService :: bool
  bd_bookableBarber :: bool

definition missing :: "BranchReadiness \<Rightarrow> string list" where
  "missing r =
     (if \<not> bd_openingHours r then [''set the branch's opening hours''] else [])
     @ (if \<not> bd_offeredService r then [''add a service and choose who performs it'']
        else if \<not> bd_bookableBarber r then [''give a barber who performs a service a weekly schedule'']
        else [])"

definition Publish :: "Branch \<Rightarrow> Status \<Rightarrow> BranchReadiness \<Rightarrow> gotime \<Rightarrow> (business_error, Branch) result" where
  "Publish b business r now =
     (if business \<noteq> StatusActive then Inl ErrBusinessNotActive
      else if bn_status b = BranchPublished then Inl ErrInvalidStateTransition
      else if missing r \<noteq> [] then Inl (NotReadyError (missing r))
      else Inr (record_event BranchPublishedEvent (branch_touch (b\<lparr>bn_status := BranchPublished\<rparr>) now)))"

definition Unpublish :: "Branch \<Rightarrow> gotime \<Rightarrow> (business_error, Branch) result" where
  "Unpublish b now =
     (if bn_status b \<noteq> BranchPublished then Inl ErrInvalidStateTransition
      else Inr (record_event BranchUnpublishedEvent (branch_touch (b\<lparr>bn_status := BranchUnpublished\<rparr>) now)))"

definition RehydrateBranch ::
  "BranchID \<Rightarrow> BusinessID \<Rightarrow> BranchProfile \<Rightarrow> BookingPolicy \<Rightarrow> BranchStatus \<Rightarrow> int \<Rightarrow> gotime \<Rightarrow> gotime \<Rightarrow> Branch" where
  "RehydrateBranch i business p policy status version createdAt updatedAt =
     \<lparr>bn_id = i, bn_business = business, bn_profile = p, bn_policy = policy, bn_status = status,
       bn_version = version, bn_createdAt = createdAt, bn_updatedAt = updatedAt, bn_events = []\<rparr>"

section \<open>Invitations\<close>

datatype InvitationTag = InvitationTag

type_synonym InvitationID = "InvitationTag id"

definition InvitationTTL :: duration where "InvitationTTL = 7 * 24 * hour"
definition MaxStaffNameLen :: int where "MaxStaffNameLen = 80"
definition MaxStaffBranches :: nat where "MaxStaffBranches = 50"

datatype InvitationStatus = InvitationPending | InvitationAccepted | InvitationRevoked

record Invitation =
  in_id :: InvitationID
  in_business :: BusinessID
  in_phone :: PhoneNumber
  in_name :: string
  in_role :: Role
  in_branches :: "BranchID list"
  in_tokenHash :: string
  in_status :: InvitationStatus
  in_invitedBy :: UserID
  in_createdAt :: gotime
  in_expiresAt :: gotime
  in_acceptedAt :: "gotime option"
  in_acceptedBy :: UserID

record StaffInvite =
  si_phone :: PhoneNumber
  si_name :: string
  si_role :: Role
  si_branches :: "BranchID list"

definition NewInvitation ::
  "(uuid \<Rightarrow> string) \<Rightarrow> InvitationID \<Rightarrow> BusinessID \<Rightarrow> StaffInvite \<Rightarrow> string \<Rightarrow> UserID \<Rightarrow> gotime
   \<Rightarrow> (business_error, Invitation) result" where
  "NewInvitation id_text i business inp tokenHash by' now =
     (if si_role inp \<noteq> RoleManager \<and> si_role inp \<noteq> RoleBarber then Inl ErrInvalidInviteRole
      else if Phone_IsZero (si_phone inp) then Inl (Invalid ErrInvalidPhoneNumber)
      else
        let name = trim_space (si_name inp) in
        if name = [] then Inl ErrStaffNameRequired
        else if MaxStaffNameLen < rune_count name then Inl ErrTextTooLong
        else
          let branches = remdups_adj (sort_key (\<lambda>b. id_text (id_value b)) (si_branches inp)) in
          if branches = [] \<or> MaxStaffBranches < length branches then Inl ErrStaffBranchRequired
          else
            let now = db_time now in
            Inr \<lparr>in_id = i, in_business = business, in_phone = si_phone inp, in_name = name, in_role = si_role inp,
              in_branches = branches, in_tokenHash = tokenHash, in_status = InvitationPending, in_invitedBy = by',
              in_createdAt = now, in_expiresAt = time_add now InvitationTTL, in_acceptedAt = None,
              in_acceptedBy = ID uuid_Nil\<rparr>)"

definition IsOpen :: "Invitation \<Rightarrow> gotime \<Rightarrow> bool" where
  "IsOpen i now \<longleftrightarrow> in_status i = InvitationPending \<and> now < in_expiresAt i"

definition Accept ::
  "Invitation \<Rightarrow> StaffID \<Rightarrow> UserID \<Rightarrow> gotime \<Rightarrow> (business_error, StaffMember \<times> Invitation) result" where
  "Accept i staffID user now =
     (if \<not> IsOpen i now then Inl ErrInvitationInvalid
      else let t = db_time now in
        Inr (\<lparr>st_id = staffID, st_business = in_business i, st_user = user, st_role = in_role i, st_active = True,
               st_createdAt = t, st_displayName = in_name i, st_branches = in_branches i\<rparr>,
             i\<lparr>in_status := InvitationAccepted, in_acceptedAt := Some t, in_acceptedBy := user\<rparr>))"

definition Revoke :: "Invitation \<Rightarrow> (business_error, Invitation) result" where
  "Revoke i =
     (if in_status i \<noteq> InvitationPending then Inl ErrInvitationClosed
      else Inr (i\<lparr>in_status := InvitationRevoked\<rparr>))"

definition RehydrateInvitation ::
  "InvitationID \<Rightarrow> BusinessID \<Rightarrow> StaffInvite \<Rightarrow> string \<Rightarrow> InvitationStatus \<Rightarrow> UserID \<Rightarrow> gotime \<Rightarrow> gotime
   \<Rightarrow> gotime option \<Rightarrow> UserID \<Rightarrow> Invitation" where
  "RehydrateInvitation i business inp tokenHash status by' createdAt expiresAt acceptedAt acceptedBy =
     \<lparr>in_id = i, in_business = business, in_phone = si_phone inp, in_name = si_name inp, in_role = si_role inp,
       in_branches = si_branches inp, in_tokenHash = tokenHash, in_status = status, in_invitedBy = by',
       in_createdAt = createdAt, in_expiresAt = expiresAt, in_acceptedAt = acceptedAt, in_acceptedBy = acceptedBy\<rparr>"

section \<open>How often invitations are sent\<close>

definition InviteCooldown :: duration where "InviteCooldown = minute"
definition MaxInvitesPerPhone :: int where "MaxInvitesPerPhone = 5"
definition MaxInvitesPerBusiness :: int where "MaxInvitesPerBusiness = 50"
definition InviteWindow :: duration where "InviteWindow = 24 * hour"

record InviteHistory =
  ih_lastToPhone :: gotime
  ih_toPhone :: int
  ih_oldestToPhone :: gotime
  ih_byBusiness :: int
  ih_oldestBusiness :: gotime

definition AllowInvite :: "InviteHistory \<Rightarrow> gotime \<Rightarrow> business_error option" where
  "AllowInvite h now =
     (let wait = time_sub (time_add (ih_lastToPhone h) InviteCooldown) now;
          wait = (if MaxInvitesPerPhone \<le> ih_toPhone h
                  then max wait (time_sub (time_add (ih_oldestToPhone h) InviteWindow) now) else wait);
          wait = (if MaxInvitesPerBusiness \<le> ih_byBusiness h
                  then max wait (time_sub (time_add (ih_oldestBusiness h) InviteWindow) now) else wait)
      in if 0 < wait then Some (InviteRateError wait) else None)"

section \<open>Properties of the domain\<close>

text \<open>A policy that was accepted is within the ranges of the database checks.\<close>

lemma NewBookingPolicy_Inr_iff:
  "NewBookingPolicy r = Inr p \<longleftrightarrow> p = r \<and> list_all fst (policy_checks r)"
  by (auto simp: NewBookingPolicy_def find_first_None_iff list_all_iff split: option.splits
      dest!: find_first_Some)

lemma DefaultBookingPolicy_valid: "NewBookingPolicy DefaultBookingPolicy = Inr DefaultBookingPolicy"
  by (simp add: NewBookingPolicy_Inr_iff policy_checks_def DefaultBookingPolicy_def wholeMinutes_def
      slotIntervals_def minute_def hour_def go_mod_def go_div_def)

lemma zero_policy_invalid: "NewBookingPolicy zero_policy \<noteq> Inr p"
  by (auto simp: NewBookingPolicy_Inr_iff policy_checks_def zero_policy_def)

text \<open>An invitation may be sent exactly when the three waiting times are over.\<close>

lemma AllowInvite_None_iff:
  "AllowInvite h now = None \<longleftrightarrow>
     ih_lastToPhone h + InviteCooldown \<le> now
     \<and> (MaxInvitesPerPhone \<le> ih_toPhone h \<longrightarrow> ih_oldestToPhone h + InviteWindow \<le> now)
     \<and> (MaxInvitesPerBusiness \<le> ih_byBusiness h \<longrightarrow> ih_oldestBusiness h + InviteWindow \<le> now)"
  by (simp add: AllowInvite_def Let_def time_add_def less_max_iff_disj time_sub_pos_iff)

lemma AllowInvite_error: "AllowInvite h now = Some e \<Longrightarrow> \<exists>w. e = InviteRateError w \<and> 0 < w"
  by (auto simp: AllowInvite_def Let_def split: if_splits)

end
