(* ===== verification/BusinessStore.thy ===== *)
theory BusinessStore
  imports Branch "HOL-Library.Product_Lexorder"
begin

text \<open>
  \<open>internal/business/adapters/postgres\<close>: businesses, staff, branches, invitations and verification
  documents in the database and the transactions over them (\<open>repository.go\<close>, \<open>branches.go\<close>,
  \<open>invitations.go\<close>, \<open>documents.go\<close>). The tables and their constraints are those of the migrations
  00005, 00006, 00008, 00009, 00010 and 00016, the statements those of \<open>queries.sql\<close>. A transaction
  that fails leaves the database as it was; the row locks and advisory locks make transactions on the
  same business, phone or owner take turns, so transactions run one after the other. The outbox is the
  list of the events handed to it.
\<close>

section \<open>Tables\<close>

record business_row =
  w_id :: uuid
  w_owner :: uuid
  w_name_ar :: string
  w_name_en :: string
  w_legal_name :: string
  w_cr :: string
  w_status :: string
  w_version :: int
  w_created_at :: gotime
  w_updated_at :: gotime
  w_submitted_at :: "gotime option"
  w_reviewed_at :: "gotime option"
  w_reviewed_by :: "uuid option"
  w_reason :: string

record staff_row =
  f_id :: uuid
  f_business :: uuid
  f_user :: "uuid option"
  f_role :: string
  f_active :: bool
  f_created_at :: gotime
  f_name :: string

record staff_branch_row =
  g_staff :: uuid
  g_branch :: uuid
  g_business :: uuid

record branch_row =
  h_id :: uuid
  h_business :: uuid
  h_name_ar :: string
  h_name_en :: string
  h_city :: string
  h_district :: string
  h_address :: string
  h_lat :: float64
  h_lng :: float64
  h_phone :: "string option"
  h_timezone :: string
  h_status :: string
  h_min_lead :: int
  h_horizon :: int
  h_slot :: int
  h_buffer :: int
  h_cancellation :: int
  h_auto_confirm :: bool
  h_pending_expiry :: int
  h_max_active :: int
  h_version :: int
  h_created_at :: gotime
  h_updated_at :: gotime

record invitation_row =
  v_id :: uuid
  v_business :: uuid
  v_phone :: string
  v_name :: string
  v_role :: string
  v_branches :: "uuid list"
  v_hash :: string
  v_status :: InvitationStatus
  v_by :: uuid
  v_created_at :: gotime
  v_expires_at :: gotime
  v_accepted_at :: "gotime option"
  v_accepted_by :: "uuid option"

record document_row =
  d_object :: uuid
  d_business :: uuid
  d_kind :: string
  d_content_type :: string
  d_size :: int
  d_by :: uuid
  d_at :: gotime

datatype published_event = FromBusiness BusinessEvent | FromBranch BranchEvent

record business_db =
  bd_businesses :: "business_row list"
  bd_staff :: "staff_row list"
  bd_staff_branches :: "staff_branch_row list"
  bd_branches :: "branch_row list"
  bd_invitations :: "invitation_row list"
  bd_documents :: "document_row list"
  bd_outbox :: "published_event list"

definition empty_business_db :: business_db where
  "empty_business_db = \<lparr>bd_businesses = [], bd_staff = [], bd_staff_branches = [], bd_branches = [],
     bd_invitations = [], bd_documents = [], bd_outbox = []\<rparr>"

section \<open>Constraints\<close>

definition business_ok :: "business_row \<Rightarrow> bool" where
  "business_ok r \<longleftrightarrow> w_name_ar r \<noteq> [] \<and> w_legal_name r \<noteq> []
     \<and> length (w_cr r) = 10 \<and> list_all (\<lambda>c. c \<in> set ''0123456789'') (w_cr r)
     \<and> w_status r \<in> set (map status_text [StatusDraft, StatusPendingReview, StatusActive, StatusRejected, StatusSuspended])
     \<and> 0 < w_version r \<and> rune_count (w_reason r) \<le> 500
     \<and> (w_status r = ''draft'' \<or> w_submitted_at r \<noteq> None)
     \<and> (w_reviewed_at r = None \<longleftrightarrow> w_reviewed_by r = None)"

definition claimed :: "business_row \<Rightarrow> bool" where
  "claimed r \<longleftrightarrow> w_status r \<in> {''pending_review'', ''active'', ''suspended''}"

definition staff_ok :: "staff_row \<Rightarrow> bool" where
  "staff_ok r \<longleftrightarrow> f_role r \<in> set (map role_text [RoleOwner, RoleManager, RoleBarber]) \<and> rune_count (f_name r) \<le> 80"

definition branch_ok :: "branch_row \<Rightarrow> bool" where
  "branch_ok r \<longleftrightarrow> h_name_ar r \<noteq> []
     \<and> 2 \<le> length (h_city r) \<and> length (h_city r) \<le> 40 \<and> hd (h_city r) \<in> set ''abcdefghijklmnopqrstuvwxyz''
     \<and> list_all (\<lambda>c. c \<in> set ''abcdefghijklmnopqrstuvwxyz_'') (h_city r)
     \<and> h_address r \<noteq> []
     \<and> is_ok (NewGeoPoint (h_lat r) (h_lng r))
     \<and> h_status r \<in> set (map branch_status_text [BranchDraft, BranchPublished, BranchUnpublished])
     \<and> 0 \<le> h_min_lead r \<and> h_min_lead r \<le> 10080 \<and> 1 \<le> h_horizon r \<and> h_horizon r \<le> 180
     \<and> h_slot r \<in> {5, 10, 15, 20, 30, 60} \<and> 0 \<le> h_buffer r \<and> h_buffer r \<le> 60
     \<and> 0 \<le> h_cancellation r \<and> h_cancellation r \<le> 2880 \<and> 5 \<le> h_pending_expiry r \<and> h_pending_expiry r \<le> 120
     \<and> 1 \<le> h_max_active r \<and> h_max_active r \<le> 10 \<and> 0 < h_version r"

definition e164_ok :: "string \<Rightarrow> bool" where
  "e164_ok p \<longleftrightarrow> 9 \<le> length p \<and> length p \<le> 16 \<and> hd p = CHR ''+'' \<and> p ! 1 \<in> set ''123456789''
     \<and> list_all (\<lambda>c. c \<in> set ''0123456789'') (tl p)"

definition invitation_ok :: "invitation_row \<Rightarrow> bool" where
  "invitation_ok r \<longleftrightarrow> e164_ok (v_phone r) \<and> v_name r \<noteq> [] \<and> rune_count (v_name r) \<le> 80
     \<and> v_role r \<in> {''manager'', ''barber''} \<and> 1 \<le> length (v_branches r) \<and> length (v_branches r) \<le> 50
     \<and> length (v_hash r) = 32 \<and> v_created_at r < v_expires_at r
     \<and> (v_status r = InvitationAccepted \<longleftrightarrow> v_accepted_at r \<noteq> None \<and> v_accepted_by r \<noteq> None)"

text \<open>What a statement reports when it breaks a constraint: the name of a unique index, or something else.\<close>

datatype pg_error = UniqueViolation string | Refused

section \<open>Conversions\<close>

definition int32 :: "int \<Rightarrow> (business_error, int) result" where
  "int32 n = (if n < 0 \<or> 2147483647 < n then Inl Fault else Inr n)"

definition int16 :: "int \<Rightarrow> (business_error, int) result" where
  "int16 n = (if n < - 32768 \<or> 32767 < n then Inl Fault else Inr n)"

definition optional_id :: "'t id \<Rightarrow> uuid option" where
  "optional_id i = (if ID_IsZero i then None else Some (id_value i))"

definition id_or_zero :: "uuid option \<Rightarrow> 't id" where
  "id_or_zero u = (case u of None \<Rightarrow> ID uuid_Nil | Some u \<Rightarrow> IDFromUUID u)"

definition toBusiness :: "business_row \<Rightarrow> (business_error, Business) result" where
  "toBusiness row =
     (case NewLocalizedText (w_name_ar row) (w_name_en row) of Inl _ \<Rightarrow> Inl Fault
      | Inr name \<Rightarrow>
      (case NewCRNumber (w_cr row) of Inl _ \<Rightarrow> Inl Fault
      | Inr cr \<Rightarrow>
      (case ParseStatus (w_status row) of Inl e \<Rightarrow> Inl e
      | Inr status \<Rightarrow>
          Inr (RehydrateBusiness (IDFromUUID (w_id row)) (IDFromUUID (w_owner row)) name (w_legal_name row) cr status
                 (w_version row) (w_created_at row) (w_updated_at row)
                 \<lparr>rv_submittedAt = w_submitted_at row, rv_reviewedAt = w_reviewed_at row,
                   rv_reviewedBy = id_or_zero (w_reviewed_by row), rv_rejectionReason = w_reason row\<rparr>))))"

definition toStaffMember :: "staff_row \<Rightarrow> uuid list \<Rightarrow> (business_error, StaffMember) result" where
  "toStaffMember row branch_ids =
     (case ParseRole (f_role row) of Inl e \<Rightarrow> Inl e
      | Inr role \<Rightarrow>
          Inr \<lparr>st_id = IDFromUUID (f_id row), st_business = IDFromUUID (f_business row), st_user = id_or_zero (f_user row),
            st_role = role, st_active = f_active row, st_createdAt = f_created_at row, st_displayName = f_name row,
            st_branches = map IDFromUUID branch_ids\<rparr>)"

definition toBranchRow :: "Branch \<Rightarrow> (business_error, branch_row) result" where
  "toBranchRow b =
     (let p = bn_profile b; rules = bn_policy b;
          minutes = (\<lambda>d. go_div d minute)
      in case int32 (bn_version b) of Inl e \<Rightarrow> Inl e
      | Inr version \<Rightarrow>
          if is_ok (int32 (minutes (pr_minLead rules))) \<and> is_ok (int32 (minutes (pr_cancellationWindow rules)))
             \<and> is_ok (int16 (pr_horizonDays rules)) \<and> is_ok (int16 (minutes (pr_slotInterval rules)))
             \<and> is_ok (int16 (minutes (pr_buffer rules))) \<and> is_ok (int16 (minutes (pr_pendingExpiry rules)))
             \<and> is_ok (int16 (pr_maxActiveBookings rules))
          then Inr \<lparr>h_id = id_value (bn_id b), h_business = id_value (bn_business b),
            h_name_ar = lt_ar (bp_name p), h_name_en = lt_en (bp_name p), h_city = bp_city p,
            h_district = bp_district p, h_address = bp_address p,
            h_lat = geo_lat (bp_location p), h_lng = geo_lng (bp_location p),
            h_phone = (if Phone_IsZero (bp_phone p) then None else Some (e164 (bp_phone p))),
            h_timezone = bp_timezone p, h_status = branch_status_text (bn_status b),
            h_min_lead = minutes (pr_minLead rules), h_horizon = pr_horizonDays rules,
            h_slot = minutes (pr_slotInterval rules), h_buffer = minutes (pr_buffer rules),
            h_cancellation = minutes (pr_cancellationWindow rules), h_auto_confirm = pr_autoConfirm rules,
            h_pending_expiry = minutes (pr_pendingExpiry rules), h_max_active = pr_maxActiveBookings rules,
            h_version = version, h_created_at = db_time (bn_createdAt b), h_updated_at = db_time (bn_updatedAt b)\<rparr>
          else Inl Fault)"

definition row_policy :: "branch_row \<Rightarrow> PolicyRules" where
  "row_policy row = \<lparr>pr_minLead = h_min_lead row * minute, pr_horizonDays = h_horizon row,
     pr_slotInterval = h_slot row * minute, pr_buffer = h_buffer row * minute,
     pr_cancellationWindow = h_cancellation row * minute, pr_autoConfirm = h_auto_confirm row,
     pr_pendingExpiry = h_pending_expiry row * minute, pr_maxActiveBookings = h_max_active row\<rparr>"

definition stored_phone :: "string option \<Rightarrow> (business_error, PhoneNumber) result" where
  "stored_phone p =
     (case p of None \<Rightarrow> Inr \<lparr>e164 = []\<rparr>
      | Some s \<Rightarrow> (case NewPhoneNumber s of Inl _ \<Rightarrow> Inl Fault | Inr phone \<Rightarrow> Inr phone))"

definition toBranch :: "branch_row \<Rightarrow> (business_error, Branch) result" where
  "toBranch row =
     (case NewLocalizedText (h_name_ar row) (h_name_en row) of Inl _ \<Rightarrow> Inl Fault
      | Inr name \<Rightarrow>
      (case ParseCityCode (h_city row) of Inl e \<Rightarrow> Inl e
      | Inr code \<Rightarrow>
      (case NewGeoPoint (h_lat row) (h_lng row) of Inl _ \<Rightarrow> Inl Fault
      | Inr loc \<Rightarrow>
      (case stored_phone (h_phone row) of Inl e \<Rightarrow> Inl e
      | Inr phone \<Rightarrow>
      (case NewBookingPolicy (row_policy row) of Inl _ \<Rightarrow> Inl Fault
      | Inr policy \<Rightarrow>
      (case ParseBranchStatus (h_status row) of Inl e \<Rightarrow> Inl e
      | Inr status \<Rightarrow>
          Inr (RehydrateBranch (IDFromUUID (h_id row)) (IDFromUUID (h_business row))
                 \<lparr>bp_name = name, bp_city = code, bp_district = h_district row, bp_address = h_address row,
                   bp_location = loc, bp_phone = phone, bp_timezone = h_timezone row\<rparr>
                 policy status (h_version row) (h_created_at row) (h_updated_at row))))))))"

definition toInvitation :: "invitation_row \<Rightarrow> (business_error, Invitation) result" where
  "toInvitation row =
     (case NewPhoneNumber (v_phone row) of Inl _ \<Rightarrow> Inl Fault
      | Inr phone \<Rightarrow>
      (case ParseRole (v_role row) of Inl e \<Rightarrow> Inl e
      | Inr role \<Rightarrow>
          Inr (RehydrateInvitation (IDFromUUID (v_id row)) (IDFromUUID (v_business row))
                 \<lparr>si_phone = phone, si_name = v_name row, si_role = role, si_branches = map IDFromUUID (v_branches row)\<rparr>
                 (v_hash row) (v_status row) (IDFromUUID (v_by row)) (v_created_at row) (v_expires_at row)
                 (v_accepted_at row) (id_or_zero (v_accepted_by row)))))"

section \<open>Staff\<close>

definition branch_ids_of :: "business_db \<Rightarrow> staff_row \<Rightarrow> uuid list" where
  "branch_ids_of db s = map g_branch (filter (\<lambda>g. g_staff g = f_id s) (bd_staff_branches db))"

definition Staff_Membership :: "business_db \<Rightarrow> BusinessID \<Rightarrow> UserID \<Rightarrow> (business_error, StaffMember) result" where
  "Staff_Membership db business user =
     (case find_first (\<lambda>s. f_business s = id_value business \<and> f_user s = Some (id_value user)) (bd_staff db) of
        None \<Rightarrow> Inl ErrNotFound
      | Some row \<Rightarrow> toStaffMember row (branch_ids_of db row))"

definition Staff_List :: "business_db \<Rightarrow> BusinessID \<Rightarrow> (business_error, StaffMember list) result" where
  "Staff_List db business =
     each (\<lambda>row. toStaffMember row (branch_ids_of db row))
       (sort_key (\<lambda>s. (f_created_at s, f_id s)) (filter (\<lambda>s. f_business s = id_value business) (bd_staff db)))"

definition staff_row_of :: "StaffMember \<Rightarrow> staff_row" where
  "staff_row_of m = \<lparr>f_id = id_value (st_id m), f_business = id_value (st_business m), f_user = Some (id_value (st_user m)),
     f_role = role_text (st_role m), f_active = st_active m, f_created_at = db_time (st_createdAt m),
     f_name = st_displayName m\<rparr>"

definition InsertStaffMember :: "business_db \<Rightarrow> staff_row \<Rightarrow> (pg_error, business_db) result" where
  "InsertStaffMember db row =
     (if \<not> staff_ok row then Inl Refused
      else if list_ex (\<lambda>s. f_id s = f_id row) (bd_staff db) then Inl (UniqueViolation ''staff_members_pkey'')
      else if f_role row = ''owner'' \<and> list_ex (\<lambda>s. f_role s = ''owner'' \<and> f_business s = f_business row) (bd_staff db)
      then Inl (UniqueViolation ''staff_members_one_owner_key'')
      else if f_user row \<noteq> None \<and> list_ex (\<lambda>s. f_user s = f_user row \<and> f_business s = f_business row) (bd_staff db)
      then Inl (UniqueViolation ''staff_members_user_business_key'')
      else if \<not> list_ex (\<lambda>w. w_id w = f_business row) (bd_businesses db) then Inl Refused
      else Inr (db\<lparr>bd_staff := bd_staff db @ [row]\<rparr>))"

definition InsertStaffBranch :: "business_db \<Rightarrow> staff_branch_row \<Rightarrow> (pg_error, business_db) result" where
  "InsertStaffBranch db row =
     (if list_ex (\<lambda>g. g_staff g = g_staff row \<and> g_branch g = g_branch row) (bd_staff_branches db)
      then Inl (UniqueViolation ''staff_branches_pkey'')
      else if \<not> list_ex (\<lambda>s. f_business s = g_business row \<and> f_id s = g_staff row) (bd_staff db)
         \<or> \<not> list_ex (\<lambda>h. h_business h = g_business row \<and> h_id h = g_branch row) (bd_branches db)
      then Inl Refused
      else Inr (db\<lparr>bd_staff_branches := bd_staff_branches db @ [row]\<rparr>))"

definition insertStaff :: "business_db \<Rightarrow> StaffMember \<Rightarrow> (pg_error, business_db) result" where
  "insertStaff db m =
     (case InsertStaffMember db (staff_row_of m) of Inl e \<Rightarrow> Inl e
      | Inr db \<Rightarrow>
          fold_result (\<lambda>db b. InsertStaffBranch db
            \<lparr>g_staff = id_value (st_id m), g_branch = id_value b, g_business = id_value (st_business m)\<rparr>)
            db (st_branches m))"

record MembershipView =
  mv_staff :: StaffID
  mv_role :: Role
  mv_business :: BusinessID
  mv_displayName :: LocalizedText
  mv_status :: Status

definition membership_view :: "staff_row \<times> business_row \<Rightarrow> (business_error, MembershipView) result" where
  "membership_view sb =
     (case sb of (s, b) \<Rightarrow>
      (case ParseRole (f_role s) of Inl e \<Rightarrow> Inl e
      | Inr role \<Rightarrow>
      (case ParseStatus (w_status b) of Inl e \<Rightarrow> Inl e
      | Inr status \<Rightarrow>
      (case NewLocalizedText (w_name_ar b) (w_name_en b) of Inl _ \<Rightarrow> Inl Fault
      | Inr name \<Rightarrow>
          Inr \<lparr>mv_staff = IDFromUUID (f_id s), mv_role = role, mv_business = IDFromUUID (w_id b),
            mv_displayName = name, mv_status = status\<rparr>))))"

definition ForUser :: "business_db \<Rightarrow> UserID \<Rightarrow> (business_error, MembershipView list) result" where
  "ForUser db user =
     each membership_view
       (rev (sort_key (\<lambda>(s, b). w_id b)
         (concat (map (\<lambda>s. map (\<lambda>b. (s, b)) (filter (\<lambda>b. w_id b = f_business s) (bd_businesses db)))
           (filter (\<lambda>s. f_user s = Some (id_value user) \<and> f_active s) (bd_staff db))))))"

section \<open>Businesses\<close>

definition business_row_of :: "Business \<Rightarrow> business_row" where
  "business_row_of b = \<lparr>w_id = id_value (bz_id b), w_owner = id_value (bz_owner b),
     w_name_ar = lt_ar (bz_displayName b), w_name_en = lt_en (bz_displayName b), w_legal_name = bz_legalName b,
     w_cr = cr_digits (bz_cr b), w_status = status_text (bz_status b), w_version = bz_version b,
     w_created_at = db_time (bz_createdAt b), w_updated_at = db_time (bz_updatedAt b),
     w_submitted_at = None, w_reviewed_at = None, w_reviewed_by = None, w_reason = []\<rparr>"

definition CountOpenRegistrations :: "business_db \<Rightarrow> UserID \<Rightarrow> int" where
  "CountOpenRegistrations db owner =
     int (length (filter (\<lambda>r. w_owner r = id_value owner \<and> w_status r \<in> {''draft'', ''pending_review'', ''rejected''})
       (bd_businesses db)))"

definition InsertBusiness :: "business_db \<Rightarrow> business_row \<Rightarrow> (pg_error, business_db) result" where
  "InsertBusiness db row =
     (if \<not> business_ok row then Inl Refused
      else if list_ex (\<lambda>r. w_id r = w_id row) (bd_businesses db) then Inl (UniqueViolation ''businesses_pkey'')
      else if list_ex (\<lambda>r. w_owner r = w_owner row \<and> w_cr r = w_cr row) (bd_businesses db)
      then Inl (UniqueViolation ''businesses_owner_cr_number_key'')
      else if claimed row \<and> list_ex (\<lambda>r. claimed r \<and> w_cr r = w_cr row) (bd_businesses db)
      then Inl (UniqueViolation ''businesses_claimed_cr_number_key'')
      else Inr (db\<lparr>bd_businesses := bd_businesses db @ [row]\<rparr>))"

definition register_tx :: "business_db \<Rightarrow> Business \<Rightarrow> StaffMember \<Rightarrow> (business_error + pg_error, business_db) result" where
  "register_tx db b owner =
     (if MaxOpenRegistrations \<le> CountOpenRegistrations db (bz_owner b) then Inl (Inl ErrTooManyRegistrations)
      else case InsertBusiness db (business_row_of b) of Inl e \<Rightarrow> Inl (Inr e)
      | Inr db \<Rightarrow> (case insertStaff db owner of Inl e \<Rightarrow> Inl (Inr e) | Inr db \<Rightarrow> Inr db))"

definition Businesses_Register ::
  "business_db \<Rightarrow> Business \<Rightarrow> StaffMember \<Rightarrow> (business_error, unit) result \<times> business_db" where
  "Businesses_Register db b owner =
     (case int32 (bz_version b) of Inl e \<Rightarrow> (Inl e, db)
      | Inr _ \<Rightarrow>
          (case register_tx db b owner of
             Inl (Inl e) \<Rightarrow> (Inl e, db)
           | Inl (Inr e) \<Rightarrow>
               (Inl (if e = UniqueViolation ''businesses_owner_cr_number_key'' then ErrAlreadyRegistered else Fault), db)
           | Inr db' \<Rightarrow> (Inr (), db')))"

definition business_by_id :: "business_db \<Rightarrow> BusinessID \<Rightarrow> business_row option" where
  "business_by_id db i = find_first (\<lambda>r. w_id r = id_value i) (bd_businesses db)"

definition Businesses_ByID :: "business_db \<Rightarrow> BusinessID \<Rightarrow> (business_error, Business) result" where
  "Businesses_ByID db i = (case business_by_id db i of None \<Rightarrow> Inl ErrNotFound | Some row \<Rightarrow> toBusiness row)"

definition CountVerificationDocuments :: "business_db \<Rightarrow> BusinessID \<Rightarrow> int" where
  "CountVerificationDocuments db i = int (length (filter (\<lambda>d. d_business d = id_value i) (bd_documents db)))"

definition CountBranches :: "business_db \<Rightarrow> BusinessID \<Rightarrow> int" where
  "CountBranches db i = int (length (filter (\<lambda>h. h_business h = id_value i) (bd_branches db)))"

text \<open>The columns \<open>UpdateBusiness\<close> sets; the id, the owner, the registration number and the creation time stay.\<close>

definition updated_business :: "business_row \<Rightarrow> Business \<Rightarrow> business_row" where
  "updated_business r b = r\<lparr>w_name_ar := lt_ar (bz_displayName b), w_name_en := lt_en (bz_displayName b),
     w_legal_name := bz_legalName b, w_status := status_text (bz_status b), w_version := bz_version b,
     w_updated_at := db_time (bz_updatedAt b),
     w_submitted_at := map_option db_time (rv_submittedAt (bz_review b)),
     w_reviewed_at := map_option db_time (rv_reviewedAt (bz_review b)),
     w_reviewed_by := optional_id (rv_reviewedBy (bz_review b)), w_reason := rv_rejectionReason (bz_review b)\<rparr>"

definition UpdateBusiness_stmt :: "business_db \<Rightarrow> Business \<Rightarrow> int \<Rightarrow> (pg_error, nat \<times> business_db) result" where
  "UpdateBusiness_stmt db b expected =
     (let hit = (\<lambda>r. w_id r = id_value (bz_id b) \<and> w_version r = expected);
          new = map (\<lambda>r. updated_business r b) (filter hit (bd_businesses db))
      in if list_ex (\<lambda>r. \<not> business_ok r) new then Inl Refused
      else if list_ex (\<lambda>r. claimed r \<and> list_ex (\<lambda>q. w_id q \<noteq> w_id r \<and> claimed q \<and> w_cr q = w_cr r) (bd_businesses db)) new
      then Inl (UniqueViolation ''businesses_claimed_cr_number_key'')
      else Inr (length new, db\<lparr>bd_businesses := map (\<lambda>r. if hit r then updated_business r b else r) (bd_businesses db)\<rparr>))"

definition business_update ::
  "business_db \<Rightarrow> BusinessID \<Rightarrow> int \<Rightarrow> (Business \<Rightarrow> (business_error, Business) result)
   \<Rightarrow> (business_error, Business) result \<times> business_db" where
  "business_update db i expectedVersion fn =
     (case int32 expectedVersion of Inl _ \<Rightarrow> (Inl ErrVersionConflict, db)
      | Inr expected \<Rightarrow> commit db
          (case business_by_id db i of None \<Rightarrow> Inl ErrNotFound
           | Some row \<Rightarrow>
           if w_version row \<noteq> expected then Inl ErrVersionConflict
           else case toBusiness row of Inl e \<Rightarrow> Inl e
           | Inr b \<Rightarrow>
           (case fn b of Inl e \<Rightarrow> Inl e
           | Inr b' \<Rightarrow>
           (case int32 (bz_version b') of Inl e \<Rightarrow> Inl e
           | Inr _ \<Rightarrow>
           (case UpdateBusiness_stmt db b' expected of
              Inl e \<Rightarrow> Inl (if e = UniqueViolation ''businesses_claimed_cr_number_key'' then ErrCRNumberClaimed else Fault)
            | Inr (n, db') \<Rightarrow>
                if n = 0 then Inl ErrVersionConflict
                else Inr (b', db'\<lparr>bd_outbox := bd_outbox db' @ map FromBusiness (bz_events b')\<rparr>))))))"

definition Businesses_Update ::
  "business_db \<Rightarrow> BusinessID \<Rightarrow> int \<Rightarrow> (Business \<Rightarrow> (business_error, Business) result)
   \<Rightarrow> (business_error, Business) result \<times> business_db" where
  "Businesses_Update db i expectedVersion fn = business_update db i expectedVersion fn"

definition UpdateWithReadiness ::
  "business_db \<Rightarrow> BusinessID \<Rightarrow> int \<Rightarrow> (Business \<Rightarrow> Readiness \<Rightarrow> (business_error, Business) result)
   \<Rightarrow> (business_error, Business) result \<times> business_db" where
  "UpdateWithReadiness db i expectedVersion fn =
     business_update db i expectedVersion
       (\<lambda>b. fn b \<lparr>rd_documents = CountVerificationDocuments db i, rd_branches = CountBranches db i\<rparr>)"

record QueuePosition =
  qp_submittedAt :: gotime
  qp_id :: BusinessID

text \<open>Rows without a submission time sort last and are never after a position.\<close>

definition after_position :: "QueuePosition option \<Rightarrow> business_row \<Rightarrow> bool" where
  "after_position after r =
     (case after of None \<Rightarrow> True
      | Some q \<Rightarrow> (case w_submitted_at r of None \<Rightarrow> False
          | Some t \<Rightarrow> (db_time (qp_submittedAt q), id_value (qp_id q)) < (t, w_id r)))"

definition queue_key :: "business_row \<Rightarrow> bool \<times> gotime \<times> uuid" where
  "queue_key r = (case w_submitted_at r of None \<Rightarrow> (True, 0, w_id r) | Some t \<Rightarrow> (False, t, w_id r))"

definition ReviewPage ::
  "business_db \<Rightarrow> Status \<Rightarrow> QueuePosition option \<Rightarrow> int \<Rightarrow> (business_error, Business list) result" where
  "ReviewPage db status after limit =
     (case int32 limit of Inl e \<Rightarrow> Inl e
      | Inr size' \<Rightarrow>
          each toBusiness (take (nat size') (sort_key queue_key
            (filter (\<lambda>r. w_status r = status_text status \<and> after_position after r) (bd_businesses db)))))"

section \<open>Branches\<close>

definition InsertBranch :: "business_db \<Rightarrow> branch_row \<Rightarrow> (pg_error, business_db) result" where
  "InsertBranch db row =
     (if \<not> branch_ok row then Inl Refused
      else if list_ex (\<lambda>h. h_id h = h_id row) (bd_branches db) then Inl (UniqueViolation ''branches_pkey'')
      else if \<not> list_ex (\<lambda>w. w_id w = h_business row) (bd_businesses db) then Inl Refused
      else Inr (db\<lparr>bd_branches := bd_branches db @ [row]\<rparr>))"

definition Branches_Add ::
  "business_db \<Rightarrow> Branch \<Rightarrow> (int \<Rightarrow> business_error option) \<Rightarrow> (business_error, unit) result \<times> business_db" where
  "Branches_Add db b allow =
     (case toBranchRow b of Inl e \<Rightarrow> (Inl e, db)
      | Inr row \<Rightarrow> commit db
          (case business_by_id db (bn_business b) of None \<Rightarrow> Inl ErrNotFound
           | Some _ \<Rightarrow>
           (case allow (CountBranches db (bn_business b)) of Some e \<Rightarrow> Inl e
            | None \<Rightarrow> (case InsertBranch db row of Inl _ \<Rightarrow> Inl Fault | Inr db' \<Rightarrow> Inr ((), db')))))"

definition branch_by_id :: "business_db \<Rightarrow> BusinessID \<Rightarrow> BranchID \<Rightarrow> branch_row option" where
  "branch_by_id db business i =
     find_first (\<lambda>h. h_business h = id_value business \<and> h_id h = id_value i) (bd_branches db)"

definition Branches_ByID :: "business_db \<Rightarrow> BusinessID \<Rightarrow> BranchID \<Rightarrow> (business_error, Branch) result" where
  "Branches_ByID db business i = (case branch_by_id db business i of None \<Rightarrow> Inl ErrNotFound | Some row \<Rightarrow> toBranch row)"

definition Branches_Bookable :: "business_db \<Rightarrow> BranchID \<Rightarrow> (business_error, Branch) result" where
  "Branches_Bookable db i =
     (case find_first (\<lambda>h. h_id h = id_value i \<and> h_status h = ''published''
        \<and> list_ex (\<lambda>w. w_id w = h_business h \<and> w_status w = ''active'') (bd_businesses db)) (bd_branches db) of
        None \<Rightarrow> Inl ErrNotFound | Some row \<Rightarrow> toBranch row)"

definition Branches_List :: "business_db \<Rightarrow> BusinessID \<Rightarrow> (business_error, Branch list) result" where
  "Branches_List db business =
     each toBranch (sort_key h_id (filter (\<lambda>h. h_business h = id_value business) (bd_branches db)))"

text \<open>The columns \<open>UpdateBranch\<close> sets: all but the ids and the creation time.\<close>

definition updated_branch :: "branch_row \<Rightarrow> branch_row \<Rightarrow> branch_row" where
  "updated_branch r next' = next'\<lparr>h_id := h_id r, h_business := h_business r, h_created_at := h_created_at r\<rparr>"

definition UpdateBranch_stmt ::
  "business_db \<Rightarrow> BusinessID \<Rightarrow> BranchID \<Rightarrow> int \<Rightarrow> branch_row \<Rightarrow> (pg_error, nat \<times> business_db) result" where
  "UpdateBranch_stmt db business i expected next' =
     (let hit = (\<lambda>r. h_business r = id_value business \<and> h_id r = id_value i \<and> h_version r = expected);
          new = map (\<lambda>r. updated_branch r next') (filter hit (bd_branches db))
      in if list_ex (\<lambda>r. \<not> branch_ok r) new then Inl Refused
      else Inr (length new, db\<lparr>bd_branches := map (\<lambda>r. if hit r then updated_branch r next' else r) (bd_branches db)\<rparr>))"

definition Branches_Update ::
  "business_db \<Rightarrow> BusinessID \<Rightarrow> BranchID \<Rightarrow> int \<Rightarrow> (Branch \<Rightarrow> (business_error, Branch) result)
   \<Rightarrow> (business_error, Branch) result \<times> business_db" where
  "Branches_Update db business i expectedVersion fn =
     (case int32 expectedVersion of Inl _ \<Rightarrow> (Inl ErrVersionConflict, db)
      | Inr expected \<Rightarrow> commit db
          (case branch_by_id db business i of None \<Rightarrow> Inl ErrNotFound
           | Some row \<Rightarrow>
           if h_version row \<noteq> expected then Inl ErrVersionConflict
           else case toBranch row of Inl e \<Rightarrow> Inl e
           | Inr b \<Rightarrow>
           (case fn b of Inl e \<Rightarrow> Inl e
           | Inr b' \<Rightarrow>
           (case toBranchRow b' of Inl e \<Rightarrow> Inl e
           | Inr next' \<Rightarrow>
           (case UpdateBranch_stmt db business i expected next' of Inl _ \<Rightarrow> Inl Fault
            | Inr (n, db') \<Rightarrow>
                if n = 0 then Inl ErrVersionConflict
                else Inr (b', db'\<lparr>bd_outbox := bd_outbox db' @ map FromBranch (bn_events b')\<rparr>))))))"

section \<open>Documents\<close>

definition document_row_of :: "VerificationDocument \<Rightarrow> document_row" where
  "document_row_of d = \<lparr>d_object = id_value (vd_file d), d_business = id_value (vd_business d), d_kind = vd_kind d,
     d_content_type = vd_contentType d, d_size = vd_size d, d_by = id_value (vd_uploadedBy d), d_at = db_time (vd_uploadedAt d)\<rparr>"

definition InsertVerificationDocument :: "business_db \<Rightarrow> document_row \<Rightarrow> (pg_error, business_db) result" where
  "InsertVerificationDocument db row =
     (if d_kind row \<noteq> ''cr_certificate'' \<or> d_size row \<le> 0 then Inl Refused
      else if list_ex (\<lambda>d. d_object d = d_object row) (bd_documents db)
      then Inl (UniqueViolation ''verification_documents_pkey'')
      else if \<not> list_ex (\<lambda>w. w_id w = d_business row) (bd_businesses db) then Inl Refused
      else Inr (db\<lparr>bd_documents := bd_documents db @ [row]\<rparr>))"

definition Documents_Attach ::
  "business_db \<Rightarrow> VerificationDocument \<Rightarrow> (Business \<Rightarrow> int \<Rightarrow> business_error option)
   \<Rightarrow> (business_error, unit) result \<times> business_db" where
  "Documents_Attach db doc check = commit db
     (case business_by_id db (vd_business doc) of None \<Rightarrow> Inl ErrNotFound
      | Some row \<Rightarrow>
      (case toBusiness row of Inl e \<Rightarrow> Inl e
      | Inr b \<Rightarrow>
      (case check b (CountVerificationDocuments db (vd_business doc)) of Some e \<Rightarrow> Inl e
      | None \<Rightarrow>
      (case InsertVerificationDocument db (document_row_of doc) of Inl _ \<Rightarrow> Inl Fault
      | Inr db' \<Rightarrow> Inr ((), db')))))"

definition Documents_List :: "business_db \<Rightarrow> BusinessID \<Rightarrow> (business_error, VerificationDocument list) result" where
  "Documents_List db business =
     each (\<lambda>row. case ParseDocumentKind (d_kind row) of Inl e \<Rightarrow> Inl e
        | Inr kind \<Rightarrow> Inr (NewVerificationDocument (IDFromUUID (d_object row)) business kind (d_content_type row)
            (d_size row) (IDFromUUID (d_by row)) (d_at row)))
       (sort_key (\<lambda>d. (d_at d, d_object d)) (filter (\<lambda>d. d_business d = id_value business) (bd_documents db)))"

section \<open>Invitations\<close>

definition invitation_row_of :: "Invitation \<Rightarrow> invitation_row" where
  "invitation_row_of i = \<lparr>v_id = id_value (in_id i), v_business = id_value (in_business i), v_phone = e164 (in_phone i),
     v_name = in_name i, v_role = role_text (in_role i), v_branches = map id_value (in_branches i),
     v_hash = in_tokenHash i, v_status = in_status i, v_by = id_value (in_invitedBy i),
     v_created_at = db_time (in_createdAt i), v_expires_at = db_time (in_expiresAt i),
     v_accepted_at = None, v_accepted_by = None\<rparr>"

definition CountBranchesIn :: "business_db \<Rightarrow> BusinessID \<Rightarrow> uuid list \<Rightarrow> nat" where
  "CountBranchesIn db business ids =
     length (filter (\<lambda>h. h_business h = id_value business \<and> h_id h \<in> set ids) (bd_branches db))"

text \<open>\<open>coalesce(max(...), since)\<close> and \<open>coalesce(min(...), since)\<close>.\<close>

definition newest_since :: "gotime \<Rightarrow> gotime list \<Rightarrow> gotime" where
  "newest_since since ts = (case ts of [] \<Rightarrow> since | t # ts \<Rightarrow> fold max ts t)"

definition oldest_since :: "gotime \<Rightarrow> gotime list \<Rightarrow> gotime" where
  "oldest_since since ts = (case ts of [] \<Rightarrow> since | t # ts \<Rightarrow> fold min ts t)"

definition invite_history :: "business_db \<Rightarrow> BusinessID \<Rightarrow> PhoneNumber \<Rightarrow> gotime \<Rightarrow> InviteHistory" where
  "invite_history db business phone since =
     (let since = db_time since;
          recent = filter (\<lambda>i. since < v_created_at i) (bd_invitations db);
          toPhone = map v_created_at (filter (\<lambda>i. v_phone i = e164 phone) recent);
          byBusiness = map v_created_at (filter (\<lambda>i. v_business i = id_value business) recent);
          mine = map v_created_at (filter (\<lambda>i. v_business i = id_value business \<and> v_phone i = e164 phone) recent)
      in \<lparr>ih_lastToPhone = newest_since since mine,
           ih_toPhone = int (length toPhone), ih_oldestToPhone = oldest_since since toPhone,
           ih_byBusiness = int (length byBusiness), ih_oldestBusiness = oldest_since since byBusiness\<rparr>)"

definition RevokePendingInvitations :: "business_db \<Rightarrow> BusinessID \<Rightarrow> PhoneNumber \<Rightarrow> business_db" where
  "RevokePendingInvitations db business phone =
     db\<lparr>bd_invitations := map (\<lambda>i. if v_business i = id_value business \<and> v_phone i = e164 phone \<and> v_status i = InvitationPending
          then i\<lparr>v_status := InvitationRevoked\<rparr> else i) (bd_invitations db)\<rparr>"

definition CountStaffSeats :: "business_db \<Rightarrow> BusinessID \<Rightarrow> gotime \<Rightarrow> int" where
  "CountStaffSeats db business now =
     int (length (filter (\<lambda>s. f_business s = id_value business \<and> f_role s \<noteq> ''owner'' \<and> f_active s) (bd_staff db))
       + length (filter (\<lambda>i. v_business i = id_value business \<and> v_status i = InvitationPending \<and> db_time now < v_expires_at i)
           (bd_invitations db)))"

definition InsertInvitation :: "business_db \<Rightarrow> invitation_row \<Rightarrow> (pg_error, business_db) result" where
  "InsertInvitation db row =
     (if \<not> invitation_ok row then Inl Refused
      else if list_ex (\<lambda>i. v_id i = v_id row) (bd_invitations db) then Inl (UniqueViolation ''invitations_pkey'')
      else if list_ex (\<lambda>i. v_hash i = v_hash row) (bd_invitations db)
      then Inl (UniqueViolation ''invitations_token_hash_key'')
      else if v_status row = InvitationPending \<and> list_ex (\<lambda>i. v_business i = v_business row \<and> v_phone i = v_phone row
           \<and> v_status i = InvitationPending) (bd_invitations db)
      then Inl (UniqueViolation ''invitations_one_pending_key'')
      else if \<not> list_ex (\<lambda>w. w_id w = v_business row) (bd_businesses db) then Inl Refused
      else Inr (db\<lparr>bd_invitations := bd_invitations db @ [row]\<rparr>))"

definition Invitations_Invite ::
  "business_db \<Rightarrow> Invitation \<Rightarrow> (int \<Rightarrow> business_error option) \<Rightarrow> (business_error, unit) result \<times> business_db" where
  "Invitations_Invite db invn allow =
     (let ids = map id_value (in_branches invn) in commit db
       (case business_by_id db (in_business invn) of None \<Rightarrow> Inl ErrNotFound
        | Some _ \<Rightarrow>
        if CountBranchesIn db (in_business invn) ids \<noteq> length ids then Inl ErrUnknownBranch
        else case AllowInvite (invite_history db (in_business invn) (in_phone invn) (time_add (in_createdAt invn) (- InviteWindow)))
                (in_createdAt invn) of Some e \<Rightarrow> Inl e
        | None \<Rightarrow>
            let db = RevokePendingInvitations db (in_business invn) (in_phone invn) in
            (case allow (CountStaffSeats db (in_business invn) (in_createdAt invn)) of Some e \<Rightarrow> Inl e
             | None \<Rightarrow>
             (case InsertInvitation db (invitation_row_of invn) of Inl _ \<Rightarrow> Inl Fault | Inr db' \<Rightarrow> Inr ((), db')))))"

definition Invitations_Pending :: "business_db \<Rightarrow> BusinessID \<Rightarrow> (business_error, Invitation list) result" where
  "Invitations_Pending db business =
     each toInvitation (sort_key (\<lambda>i. (- v_created_at i, v_id i))
       (filter (\<lambda>i. v_business i = id_value business \<and> v_status i = InvitationPending) (bd_invitations db)))"

text \<open>An update that left the invitation pending would meet the index on pending invitations as well.\<close>

definition saveInvitation :: "business_db \<Rightarrow> Invitation \<Rightarrow> (pg_error, business_db) result" where
  "saveInvitation db invn =
     (let hit = (\<lambda>i. v_id i = id_value (in_id invn));
          upd = (\<lambda>i. i\<lparr>v_status := in_status invn, v_accepted_at := map_option db_time (in_acceptedAt invn),
                   v_accepted_by := optional_id (in_acceptedBy invn)\<rparr>)
      in if list_ex (\<lambda>i. hit i \<and> \<not> invitation_ok (upd i)) (bd_invitations db) then Inl Refused
      else if in_status invn = InvitationPending \<and> list_ex (\<lambda>i. hit i \<and> list_ex (\<lambda>j. v_id j \<noteq> v_id i \<and> v_business j = v_business i
           \<and> v_phone j = v_phone i \<and> v_status j = InvitationPending) (bd_invitations db)) (bd_invitations db)
      then Inl (UniqueViolation ''invitations_one_pending_key'')
      else Inr (db\<lparr>bd_invitations := map (\<lambda>i. if hit i then upd i else i) (bd_invitations db)\<rparr>))"

definition Invitations_Update ::
  "business_db \<Rightarrow> BusinessID \<Rightarrow> InvitationID \<Rightarrow> (Invitation \<Rightarrow> (business_error, Invitation) result)
   \<Rightarrow> (business_error, unit) result \<times> business_db" where
  "Invitations_Update db business i fn = commit db
     (case find_first (\<lambda>r. v_business r = id_value business \<and> v_id r = id_value i) (bd_invitations db) of
        None \<Rightarrow> Inl ErrNotFound
      | Some row \<Rightarrow>
      (case toInvitation row of Inl e \<Rightarrow> Inl e
      | Inr invn \<Rightarrow>
      (case fn invn of Inl e \<Rightarrow> Inl e
      | Inr invn' \<Rightarrow> (case saveInvitation db invn' of Inl _ \<Rightarrow> Inl Fault | Inr db' \<Rightarrow> Inr ((), db')))))"

definition accept_tx ::
  "business_db \<Rightarrow> string \<Rightarrow> (Invitation \<Rightarrow> (business_error, StaffMember \<times> Invitation) result)
   \<Rightarrow> (business_error + pg_error, StaffMember \<times> business_db) result" where
  "accept_tx db tokenHash fn =
     (case find_first (\<lambda>r. v_hash r = tokenHash) (bd_invitations db) of None \<Rightarrow> Inl (Inl ErrInvitationInvalid)
      | Some row \<Rightarrow>
      (case toInvitation row of Inl e \<Rightarrow> Inl (Inl e)
      | Inr invn \<Rightarrow>
      (case fn invn of Inl e \<Rightarrow> Inl (Inl e)
      | Inr (member, invn') \<Rightarrow>
      (case saveInvitation db invn' of Inl e \<Rightarrow> Inl (Inr e)
      | Inr db \<Rightarrow> (case insertStaff db member of Inl e \<Rightarrow> Inl (Inr e) | Inr db \<Rightarrow> Inr (member, db))))))"

definition Invitations_Accept ::
  "business_db \<Rightarrow> string \<Rightarrow> (Invitation \<Rightarrow> (business_error, StaffMember \<times> Invitation) result)
   \<Rightarrow> (business_error, StaffMember) result \<times> business_db" where
  "Invitations_Accept db tokenHash fn =
     (case accept_tx db tokenHash fn of
        Inl (Inl e) \<Rightarrow> (Inl e, db)
      | Inl (Inr e) \<Rightarrow> (Inl (if e = UniqueViolation ''staff_members_user_business_key'' then ErrAlreadyStaff else Fault), db)
      | Inr (member, db') \<Rightarrow> (Inr member, db'))"

end
