(* ===== verification/BusinessApp.thy ===== *)
theory BusinessApp
  imports BusinessStore
begin

text \<open>
  \<open>internal/business/app\<close>: the use cases over the store. What the module asks of others is a record
  of functions: the plan of a business (billing), whether a branch could take a booking (catalog and
  scheduling), the phone a user signs in with (iam), stored files (media), the sender of invitations,
  the hash of a token, the time-zone database and the text of a UUID. Fresh identifiers, the fresh
  token, the clock and what the other requests do between two transactions of one use case are
  arguments. A use case returns its answer and the database it leaves behind.
\<close>

section \<open>Ports and commands\<close>

record PlanStanding =
  ps_plan :: string
  ps_planName :: LocalizedText
  ps_status :: string
  ps_trialEndsAt :: "gotime option"
  ps_limits :: Limits

record StoredFile =
  sf_id :: MediaID
  sf_contentType :: string
  sf_size :: int

record business_ports =
  px_standing :: "BusinessID \<Rightarrow> (business_error, PlanStanding) result"
  px_readiness :: "BusinessID \<Rightarrow> BranchID \<Rightarrow> (business_error, BranchReadiness) result"
  px_phoneOf :: "UserID \<Rightarrow> (business_error, PhoneNumber) result"
  px_save :: "UserID \<Rightarrow> string \<Rightarrow> (business_error, StoredFile) result"
  px_downloadURL :: "MediaID \<Rightarrow> string \<times> gotime"
  px_send :: "PhoneNumber \<Rightarrow> LocalizedText \<Rightarrow> string \<Rightarrow> business_error option"
  px_hash :: "string \<Rightarrow> string"
  px_zones :: zones
  px_idText :: "uuid \<Rightarrow> string"

record DisplayName =
  dn_ar :: string
  dn_en :: string

section \<open>Authorization\<close>

definition authorize ::
  "business_db \<Rightarrow> UserID \<Rightarrow> BusinessID \<Rightarrow> Role \<Rightarrow> (business_error, StaffMember) result" where
  "authorize db actor business need =
     (case Staff_Membership db business actor of Inl e \<Rightarrow> Inl e
      | Inr member \<Rightarrow>
          if \<not> st_active member then Inl ErrNotFound
          else case Authorize member need of Some e \<Rightarrow> Inl e | None \<Rightarrow> Inr member)"

section \<open>Businesses\<close>

record RegisterBusiness_cmd =
  rb_actor :: UserID
  rb_name :: DisplayName
  rb_legalName :: string
  rb_crNumber :: string

definition RegisterBusinessHandler_Handle ::
  "BusinessID \<Rightarrow> StaffID \<Rightarrow> gotime \<Rightarrow> RegisterBusiness_cmd \<Rightarrow> business_db
   \<Rightarrow> (business_error, Business) result \<times> business_db" where
  "RegisterBusinessHandler_Handle i staff now cmd db =
     (case NewLocalizedText (dn_ar (rb_name cmd)) (dn_en (rb_name cmd)) of Inl e \<Rightarrow> (Inl (Invalid e), db)
      | Inr name \<Rightarrow>
      (case NewCRNumber (rb_crNumber cmd) of Inl e \<Rightarrow> (Inl e, db)
      | Inr cr \<Rightarrow>
      (case RegisterBusiness i staff (rb_actor cmd)
              \<lparr>rg_displayName = name, rg_legalName = rb_legalName cmd, rg_cr = cr\<rparr> now of Inl e \<Rightarrow> (Inl e, db)
      | Inr (business, owner) \<Rightarrow>
      (case Businesses_Register db business owner of (Inl e, db') \<Rightarrow> (Inl e, db')
      | (Inr _, db') \<Rightarrow> (Inr business, db')))))"

record UpdateBusiness_cmd =
  ub_actor :: UserID
  ub_business :: BusinessID
  ub_expectedVersion :: int
  ub_name :: "DisplayName option"
  ub_legalName :: "string option"

definition parse_name :: "DisplayName option \<Rightarrow> (business_error, LocalizedText option) result" where
  "parse_name n =
     (case n of None \<Rightarrow> Inr None
      | Some d \<Rightarrow> (case NewLocalizedText (dn_ar d) (dn_en d) of Inl e \<Rightarrow> Inl (Invalid e) | Inr t \<Rightarrow> Inr (Some t)))"

definition UpdateBusinessHandler_Handle ::
  "gotime \<Rightarrow> (business_db \<Rightarrow> business_db) \<Rightarrow> UpdateBusiness_cmd \<Rightarrow> business_db
   \<Rightarrow> (business_error, Business) result \<times> business_db" where
  "UpdateBusinessHandler_Handle now others cmd db =
     (case authorize db (ub_actor cmd) (ub_business cmd) RoleOwner of Inl e \<Rightarrow> (Inl e, db)
      | Inr _ \<Rightarrow>
      (case parse_name (ub_name cmd) of Inl e \<Rightarrow> (Inl e, db)
      | Inr name \<Rightarrow>
          Businesses_Update (others db) (ub_business cmd) (ub_expectedVersion cmd)
            (\<lambda>b. Rename b (case name of Some n \<Rightarrow> n | None \<Rightarrow> bz_displayName b)
                   (case ub_legalName cmd of Some l \<Rightarrow> l | None \<Rightarrow> bz_legalName b) now)))"

definition GetBusinessHandler_Handle ::
  "(business_db \<Rightarrow> business_db) \<Rightarrow> UserID \<Rightarrow> BusinessID \<Rightarrow> business_db \<Rightarrow> (business_error, Business) result" where
  "GetBusinessHandler_Handle others actor business db =
     (case authorize db actor business RoleOwner of Inl e \<Rightarrow> Inl e
      | Inr _ \<Rightarrow> Businesses_ByID (others db) business)"

definition ListMyMemberships :: "UserID \<Rightarrow> business_db \<Rightarrow> (business_error, MembershipView list) result" where
  "ListMyMemberships actor db = ForUser db actor"

definition PlanHandler_Handle ::
  "business_ports \<Rightarrow> UserID \<Rightarrow> BusinessID \<Rightarrow> business_db \<Rightarrow> (business_error, PlanStanding) result" where
  "PlanHandler_Handle ports actor business db =
     (case authorize db actor business RoleOwner of Inl e \<Rightarrow> Inl e | Inr _ \<Rightarrow> px_standing ports business)"

section \<open>Review\<close>

record Admin =
  ad_id :: UserID
  ad_isPlatformAdmin :: bool

definition require :: "Admin \<Rightarrow> business_error option" where
  "require a = (if \<not> ad_isPlatformAdmin a \<or> ID_IsZero (ad_id a) then Some ErrNotPlatformAdmin else None)"

definition SubmitHandler_Handle ::
  "gotime \<Rightarrow> (business_db \<Rightarrow> business_db) \<Rightarrow> UserID \<Rightarrow> BusinessID \<Rightarrow> int \<Rightarrow> business_db
   \<Rightarrow> (business_error, Business) result \<times> business_db" where
  "SubmitHandler_Handle now others actor business expectedVersion db =
     (case authorize db actor business RoleOwner of Inl e \<Rightarrow> (Inl e, db)
      | Inr _ \<Rightarrow> UpdateWithReadiness (others db) business expectedVersion (\<lambda>b r. Submit b r now))"

definition ReviewHandlers_Queue ::
  "Admin \<Rightarrow> Status \<Rightarrow> QueuePosition option \<Rightarrow> int \<Rightarrow> business_db
   \<Rightarrow> (business_error, Business list \<times> QueuePosition option) result option" where
  "ReviewHandlers_Queue admin status after limit db =
     (case require admin of Some e \<Rightarrow> Some (Inl e)
      | None \<Rightarrow>
          if status = StatusDraft then Some (Inl ErrUnknownStatus)
          else case ReviewPage db status after (limit + 1) of Inl e \<Rightarrow> Some (Inl e)
          | Inr page \<Rightarrow>
              if int (length page) \<le> limit then Some (Inr (page, None))
              else if limit < 1 then None
              else
                let page = take (nat limit) page; l = last page in
                (case rv_submittedAt (bz_review l) of None \<Rightarrow> None
                 | Some t \<Rightarrow> Some (Inr (page, Some \<lparr>qp_submittedAt = t, qp_id = bz_id l\<rparr>))))"

record DocumentView =
  dv_document :: VerificationDocument
  dv_url :: string
  dv_expires :: gotime

definition doc_view :: "business_ports \<Rightarrow> VerificationDocument \<Rightarrow> DocumentView" where
  "doc_view ports d = (case px_downloadURL ports (vd_file d) of (url, expires) \<Rightarrow>
     \<lparr>dv_document = d, dv_url = url, dv_expires = expires\<rparr>)"

record AdminView =
  av_business :: Business
  av_documents :: "DocumentView list"
  av_branches :: "Branch list"

definition ReviewHandlers_Detail ::
  "business_ports \<Rightarrow> (nat \<Rightarrow> business_db \<Rightarrow> business_db) \<Rightarrow> Admin \<Rightarrow> BusinessID \<Rightarrow> business_db
   \<Rightarrow> (business_error, AdminView) result" where
  "ReviewHandlers_Detail ports others admin i db =
     (case require admin of Some e \<Rightarrow> Inl e
      | None \<Rightarrow>
      (case Businesses_ByID db i of Inl e \<Rightarrow> Inl e
      | Inr b \<Rightarrow>
          if bz_status b = StatusDraft then Inl ErrNotFound
          else
            let db = others 0 db in
            (case Documents_List db i of Inl e \<Rightarrow> Inl e
             | Inr docs \<Rightarrow>
             (case Branches_List (others 1 db) i of Inl e \<Rightarrow> Inl e
              | Inr branches \<Rightarrow>
                  Inr \<lparr>av_business = b, av_documents = map (doc_view ports) docs, av_branches = branches\<rparr>))))"

definition decide ::
  "(business_db \<Rightarrow> business_db) \<Rightarrow> Admin \<Rightarrow> BusinessID \<Rightarrow> int \<Rightarrow> (Business \<Rightarrow> (business_error, Business) result)
   \<Rightarrow> business_db \<Rightarrow> (business_error, Business) result \<times> business_db" where
  "decide others admin i expectedVersion fn db =
     (case require admin of Some e \<Rightarrow> (Inl e, db)
      | None \<Rightarrow>
      (case Staff_Membership db i (ad_id admin) of
         Inr _ \<Rightarrow> (Inl ErrSelfReview, db)
       | Inl e \<Rightarrow> if e \<noteq> ErrNotFound then (Inl e, db) else Businesses_Update (others db) i expectedVersion fn))"

definition ReviewHandlers_Approve ::
  "gotime \<Rightarrow> (business_db \<Rightarrow> business_db) \<Rightarrow> Admin \<Rightarrow> BusinessID \<Rightarrow> int \<Rightarrow> business_db
   \<Rightarrow> (business_error, Business) result \<times> business_db" where
  "ReviewHandlers_Approve now others admin i expectedVersion db =
     decide others admin i expectedVersion (\<lambda>b. Approve b (ad_id admin) now) db"

definition ReviewHandlers_Reject ::
  "gotime \<Rightarrow> (business_db \<Rightarrow> business_db) \<Rightarrow> Admin \<Rightarrow> BusinessID \<Rightarrow> int \<Rightarrow> string \<Rightarrow> business_db
   \<Rightarrow> (business_error, Business) result \<times> business_db" where
  "ReviewHandlers_Reject now others admin i expectedVersion reason db =
     decide others admin i expectedVersion (\<lambda>b. Reject b (ad_id admin) reason now) db"

section \<open>Documents\<close>

record UploadDocument =
  ud_actor :: UserID
  ud_business :: BusinessID
  ud_kind :: string
  ud_body :: string

text \<open>The last component is the stored files that are deleted again.\<close>

definition DocumentHandlers_Upload ::
  "business_ports \<Rightarrow> gotime \<Rightarrow> (nat \<Rightarrow> business_db \<Rightarrow> business_db) \<Rightarrow> UploadDocument \<Rightarrow> business_db
   \<Rightarrow> (business_error, DocumentView) result \<times> business_db \<times> MediaID list" where
  "DocumentHandlers_Upload ports now others cmd db =
     (case authorize db (ud_actor cmd) (ud_business cmd) RoleOwner of Inl e \<Rightarrow> (Inl e, db, [])
      | Inr _ \<Rightarrow>
      (case ParseDocumentKind (ud_kind cmd) of Inl e \<Rightarrow> (Inl e, db, [])
      | Inr kind \<Rightarrow>
      let db = others 0 db in
      (case Businesses_ByID db (ud_business cmd) of Inl e \<Rightarrow> (Inl e, db, [])
      | Inr b \<Rightarrow>
      let db = others 1 db in
      (case Documents_List db (ud_business cmd) of Inl e \<Rightarrow> (Inl e, db, [])
      | Inr existing \<Rightarrow>
      (case CanAttachDocument b (int (length existing)) of Some e \<Rightarrow> (Inl e, db, [])
      | None \<Rightarrow>
      (case px_save ports (ud_actor cmd) (ud_body cmd) of Inl e \<Rightarrow> (Inl e, db, [])
      | Inr f \<Rightarrow>
          let doc = NewVerificationDocument (sf_id f) (ud_business cmd) kind (sf_contentType f) (sf_size f) (ud_actor cmd) now in
          (case Documents_Attach (others 2 db) doc CanAttachDocument of
             (Inl e, db') \<Rightarrow> (Inl e, db', [sf_id f])
           | (Inr _, db') \<Rightarrow> (Inr (doc_view ports doc), db', []))))))))"

definition DocumentHandlers_List ::
  "business_ports \<Rightarrow> (business_db \<Rightarrow> business_db) \<Rightarrow> UserID \<Rightarrow> BusinessID \<Rightarrow> business_db
   \<Rightarrow> (business_error, DocumentView list) result" where
  "DocumentHandlers_List ports others actor business db =
     (case authorize db actor business RoleOwner of Inl e \<Rightarrow> Inl e
      | Inr _ \<Rightarrow>
      (case Documents_List (others db) business of Inl e \<Rightarrow> Inl e | Inr docs \<Rightarrow> Inr (map (doc_view ports) docs)))"

section \<open>Branches\<close>

record CreateBranch =
  cb_actor :: UserID
  cb_business :: BusinessID
  cb_name :: DisplayName
  cb_cityCode :: string
  cb_district :: string
  cb_address :: string
  cb_lat :: float64
  cb_lng :: float64
  cb_phone :: string
  cb_timezone :: string
  cb_policy :: "PolicyRules option"

record UpdateBranch_cmd =
  uc_actor :: UserID
  uc_business :: BusinessID
  uc_branch :: BranchID
  uc_expectedVersion :: int
  uc_name :: "DisplayName option"
  uc_cityCode :: "string option"
  uc_district :: "string option"
  uc_address :: "string option"
  uc_location :: "(float64 \<times> float64) option"
  uc_phone :: "string option"
  uc_timezone :: "string option"
  uc_policy :: "PolicyRules option"

record BranchStatusChange =
  sc_actor :: UserID
  sc_business :: BusinessID
  sc_branch :: BranchID
  sc_expectedVersion :: int

definition parsePhone :: "string \<Rightarrow> (business_error, PhoneNumber) result" where
  "parsePhone s =
     (if trim_space s = [] then Inr \<lparr>e164 = []\<rparr>
      else case NewPhoneNumber s of Inl e \<Rightarrow> Inl (Invalid e) | Inr p \<Rightarrow> Inr p)"

definition change_status ::
  "BranchStatusChange \<Rightarrow> (Branch \<Rightarrow> (business_error, Branch) result) \<Rightarrow> business_db
   \<Rightarrow> (business_error, Branch) result \<times> business_db" where
  "change_status cmd fn db = Branches_Update db (sc_business cmd) (sc_branch cmd) (sc_expectedVersion cmd) fn"

definition BranchHandlers_Publish ::
  "business_ports \<Rightarrow> gotime \<Rightarrow> (nat \<Rightarrow> business_db \<Rightarrow> business_db) \<Rightarrow> BranchStatusChange \<Rightarrow> business_db
   \<Rightarrow> (business_error, Branch) result \<times> business_db" where
  "BranchHandlers_Publish ports now others cmd db =
     (case authorize db (sc_actor cmd) (sc_business cmd) RoleOwner of Inl e \<Rightarrow> (Inl e, db)
      | Inr _ \<Rightarrow>
      let db = others 0 db in
      (case Businesses_ByID db (sc_business cmd) of Inl e \<Rightarrow> (Inl e, db)
      | Inr biz \<Rightarrow>
      (case px_readiness ports (sc_business cmd) (sc_branch cmd) of Inl e \<Rightarrow> (Inl e, db)
      | Inr ready \<Rightarrow> change_status cmd (\<lambda>b. Publish b (bz_status biz) ready now) (others 1 db))))"

definition BranchHandlers_Unpublish ::
  "gotime \<Rightarrow> (business_db \<Rightarrow> business_db) \<Rightarrow> BranchStatusChange \<Rightarrow> business_db
   \<Rightarrow> (business_error, Branch) result \<times> business_db" where
  "BranchHandlers_Unpublish now others cmd db =
     (case authorize db (sc_actor cmd) (sc_business cmd) RoleOwner of Inl e \<Rightarrow> (Inl e, db)
      | Inr _ \<Rightarrow> change_status cmd (\<lambda>b. Unpublish b now) (others db))"

definition create_profile :: "CreateBranch \<Rightarrow> (business_error, BranchProfile) result" where
  "create_profile cmd =
     (case NewLocalizedText (dn_ar (cb_name cmd)) (dn_en (cb_name cmd)) of Inl e \<Rightarrow> Inl (Invalid e)
      | Inr name \<Rightarrow>
      (case NewGeoPoint (cb_lat cmd) (cb_lng cmd) of Inl e \<Rightarrow> Inl (Invalid e)
      | Inr loc \<Rightarrow>
      (case parsePhone (cb_phone cmd) of Inl e \<Rightarrow> Inl e
      | Inr phone \<Rightarrow>
          Inr \<lparr>bp_name = name, bp_city = cb_cityCode cmd, bp_district = cb_district cmd, bp_address = cb_address cmd,
            bp_location = loc, bp_phone = phone,
            bp_timezone = (if cb_timezone cmd = [] then DefaultTimezone else cb_timezone cmd)\<rparr>)))"

definition BranchHandlers_Create ::
  "business_ports \<Rightarrow> BranchID \<Rightarrow> gotime \<Rightarrow> (business_db \<Rightarrow> business_db) \<Rightarrow> CreateBranch \<Rightarrow> business_db
   \<Rightarrow> (business_error, Branch) result \<times> business_db" where
  "BranchHandlers_Create ports i now others cmd db =
     (case authorize db (cb_actor cmd) (cb_business cmd) RoleOwner of Inl e \<Rightarrow> (Inl e, db)
      | Inr _ \<Rightarrow>
      (case create_profile cmd of Inl e \<Rightarrow> (Inl e, db)
      | Inr profile \<Rightarrow>
      (case (case cb_policy cmd of None \<Rightarrow> Inr DefaultBookingPolicy | Some r \<Rightarrow> NewBookingPolicy r) of Inl e \<Rightarrow> (Inl e, db)
      | Inr policy \<Rightarrow>
      (case NewBranch (px_zones ports) i (cb_business cmd) profile policy now of Inl e \<Rightarrow> (Inl e, db)
      | Inr branch \<Rightarrow>
      (case px_standing ports (cb_business cmd) of Inl e \<Rightarrow> (Inl e, db)
      | Inr plan \<Rightarrow>
      (case Branches_Add (others db) branch (AllowBranch (ps_limits plan)) of (Inl e, db') \<Rightarrow> (Inl e, db')
      | (Inr _, db') \<Rightarrow> (Inr branch, db')))))))"

definition BranchHandlers_List ::
  "(business_db \<Rightarrow> business_db) \<Rightarrow> UserID \<Rightarrow> BusinessID \<Rightarrow> business_db \<Rightarrow> (business_error, Branch list) result" where
  "BranchHandlers_List others actor business db =
     (case authorize db actor business RoleBarber of Inl e \<Rightarrow> Inl e | Inr _ \<Rightarrow> Branches_List (others db) business)"

definition BranchHandlers_Get ::
  "(business_db \<Rightarrow> business_db) \<Rightarrow> UserID \<Rightarrow> BusinessID \<Rightarrow> BranchID \<Rightarrow> business_db \<Rightarrow> (business_error, Branch) result" where
  "BranchHandlers_Get others actor business branch db =
     (case authorize db actor business RoleBarber of Inl e \<Rightarrow> Inl e | Inr _ \<Rightarrow> Branches_ByID (others db) business branch)"

definition apply_branch ::
  "UpdateBranch_cmd \<Rightarrow> BranchProfile \<Rightarrow> BookingPolicy \<Rightarrow> (business_error, BranchProfile \<times> BookingPolicy) result" where
  "apply_branch cmd p policy =
     (case (case uc_name cmd of None \<Rightarrow> Inr (bp_name p)
            | Some d \<Rightarrow> NewLocalizedText (dn_ar d) (dn_en d)) of Inl e \<Rightarrow> Inl (Invalid e)
      | Inr name \<Rightarrow>
      (case (case uc_location cmd of None \<Rightarrow> Inr (bp_location p)
             | Some (lat, lng) \<Rightarrow> NewGeoPoint lat lng) of Inl e \<Rightarrow> Inl (Invalid e)
      | Inr loc \<Rightarrow>
      (case (case uc_phone cmd of None \<Rightarrow> Inr (bp_phone p) | Some s \<Rightarrow> parsePhone s) of Inl e \<Rightarrow> Inl e
      | Inr phone \<Rightarrow>
      (case (case uc_policy cmd of None \<Rightarrow> Inr policy | Some r \<Rightarrow> NewBookingPolicy r) of Inl e \<Rightarrow> Inl e
      | Inr policy \<Rightarrow>
          Inr (\<lparr>bp_name = name, bp_city = (case uc_cityCode cmd of None \<Rightarrow> bp_city p | Some c \<Rightarrow> c),
                 bp_district = (case uc_district cmd of None \<Rightarrow> bp_district p | Some d \<Rightarrow> d),
                 bp_address = (case uc_address cmd of None \<Rightarrow> bp_address p | Some a \<Rightarrow> a),
                 bp_location = loc, bp_phone = phone,
                 bp_timezone = (case uc_timezone cmd of None \<Rightarrow> bp_timezone p | Some z \<Rightarrow> z)\<rparr>, policy)))))"

definition edit_branch ::
  "business_ports \<Rightarrow> gotime \<Rightarrow> UpdateBranch_cmd \<Rightarrow> StaffMember \<Rightarrow> Branch \<Rightarrow> (business_error, Branch) result" where
  "edit_branch ports now cmd member b =
     (case apply_branch cmd (bn_profile b) (bn_policy b) of Inl e \<Rightarrow> Inl e
      | Inr (p, policy) \<Rightarrow>
          if bp_timezone p \<noteq> bp_timezone (bn_profile b) \<and> st_role member \<noteq> RoleOwner then Inl ErrForbidden
          else Edit (px_zones ports) b p policy now)"

definition BranchHandlers_Update ::
  "business_ports \<Rightarrow> gotime \<Rightarrow> (business_db \<Rightarrow> business_db) \<Rightarrow> UpdateBranch_cmd \<Rightarrow> business_db
   \<Rightarrow> (business_error, Branch) result \<times> business_db" where
  "BranchHandlers_Update ports now others cmd db =
     (case authorize db (uc_actor cmd) (uc_business cmd) RoleManager of Inl e \<Rightarrow> (Inl e, db)
      | Inr member \<Rightarrow>
      (case AuthorizeBranch member RoleManager (uc_branch cmd) of Some e \<Rightarrow> (Inl e, db)
      | None \<Rightarrow>
          Branches_Update (others db) (uc_business cmd) (uc_branch cmd) (uc_expectedVersion cmd)
            (edit_branch ports now cmd member)))"

section \<open>Staff\<close>

record InviteStaff =
  iv_actor :: UserID
  iv_business :: BusinessID
  iv_phone :: string
  iv_name :: string
  iv_role :: string
  iv_branches :: "BranchID list"

definition prepare_invite ::
  "business_ports \<Rightarrow> InvitationID \<Rightarrow> string \<Rightarrow> gotime \<Rightarrow> InviteStaff \<Rightarrow> StaffMember \<Rightarrow> (business_error, Invitation) result" where
  "prepare_invite ports i token now cmd owner =
     (case NewPhoneNumber (iv_phone cmd) of Inl e \<Rightarrow> Inl (Invalid e)
      | Inr phone \<Rightarrow>
      (case ParseRole (iv_role cmd) of Inl _ \<Rightarrow> Inl ErrInvalidInviteRole
      | Inr role \<Rightarrow>
          NewInvitation (px_idText ports) i (iv_business cmd)
            \<lparr>si_phone = phone, si_name = iv_name cmd, si_role = role, si_branches = iv_branches cmd\<rparr>
            (px_hash ports token) (st_user owner) now))"

definition StaffHandlers_Invite ::
  "business_ports \<Rightarrow> InvitationID \<Rightarrow> string \<Rightarrow> gotime \<Rightarrow> (nat \<Rightarrow> business_db \<Rightarrow> business_db) \<Rightarrow> InviteStaff \<Rightarrow> business_db
   \<Rightarrow> (business_error, Invitation) result \<times> business_db" where
  "StaffHandlers_Invite ports i token now others cmd db =
     (case authorize db (iv_actor cmd) (iv_business cmd) RoleOwner of Inl e \<Rightarrow> (Inl e, db)
      | Inr owner \<Rightarrow>
      (case prepare_invite ports i token now cmd owner of Inl e \<Rightarrow> (Inl e, db)
      | Inr invn \<Rightarrow>
      let db = others 0 db in
      (case Businesses_ByID db (iv_business cmd) of Inl e \<Rightarrow> (Inl e, db)
      | Inr b \<Rightarrow>
      (case px_standing ports (iv_business cmd) of Inl e \<Rightarrow> (Inl e, db)
      | Inr plan \<Rightarrow>
      (case Invitations_Invite (others 1 db) invn (AllowStaff (ps_limits plan)) of (Inl e, db') \<Rightarrow> (Inl e, db')
      | (Inr _, db') \<Rightarrow>
      (case px_send ports (in_phone invn) (bz_displayName b) token of Some e \<Rightarrow> (Inl e, db')
      | None \<Rightarrow> (Inr invn, db')))))))"

definition ListInvitations ::
  "(business_db \<Rightarrow> business_db) \<Rightarrow> UserID \<Rightarrow> BusinessID \<Rightarrow> business_db \<Rightarrow> (business_error, Invitation list) result" where
  "ListInvitations others actor business db =
     (case authorize db actor business RoleOwner of Inl e \<Rightarrow> Inl e | Inr _ \<Rightarrow> Invitations_Pending (others db) business)"

definition StaffHandlers_Revoke ::
  "(business_db \<Rightarrow> business_db) \<Rightarrow> UserID \<Rightarrow> BusinessID \<Rightarrow> InvitationID \<Rightarrow> business_db
   \<Rightarrow> (business_error, unit) result \<times> business_db" where
  "StaffHandlers_Revoke others actor business i db =
     (case authorize db actor business RoleOwner of Inl e \<Rightarrow> (Inl e, db)
      | Inr _ \<Rightarrow> Invitations_Update (others db) business i Revoke)"

definition ListStaff ::
  "(business_db \<Rightarrow> business_db) \<Rightarrow> UserID \<Rightarrow> BusinessID \<Rightarrow> business_db \<Rightarrow> (business_error, StaffMember list) result" where
  "ListStaff others actor business db =
     (case authorize db actor business RoleManager of Inl e \<Rightarrow> Inl e | Inr _ \<Rightarrow> Staff_List (others db) business)"

definition accept_fn ::
  "StaffID \<Rightarrow> UserID \<Rightarrow> PhoneNumber \<Rightarrow> gotime \<Rightarrow> Invitation \<Rightarrow> (business_error, StaffMember \<times> Invitation) result" where
  "accept_fn staff actor phone now invn =
     (if in_phone invn \<noteq> phone then Inl ErrInvitationInvalid else Accept invn staff actor now)"

definition StaffHandlers_Accept ::
  "business_ports \<Rightarrow> StaffID \<Rightarrow> gotime \<Rightarrow> (business_db \<Rightarrow> business_db) \<Rightarrow> UserID \<Rightarrow> string \<Rightarrow> business_db
   \<Rightarrow> (business_error, MembershipView) result \<times> business_db" where
  "StaffHandlers_Accept ports staff now others actor token db =
     (let token = trim_space token in
      if token = [] then (Inl ErrInvitationInvalid, db)
      else case px_phoneOf ports actor of
        Inl e \<Rightarrow> (Inl (if e = ErrNotFound then ErrInvitationInvalid else e), db)
      | Inr phone \<Rightarrow>
      (case Invitations_Accept db (px_hash ports token) (accept_fn staff actor phone now) of
         (Inl e, db') \<Rightarrow> (Inl e, db')
       | (Inr member, db') \<Rightarrow>
           let db' = others db' in
           (case Businesses_ByID db' (st_business member) of Inl e \<Rightarrow> (Inl e, db')
            | Inr b \<Rightarrow>
                (Inr \<lparr>mv_staff = st_id member, mv_role = st_role member, mv_business = bz_id b,
                   mv_displayName = bz_displayName b, mv_status = bz_status b\<rparr>, db'))))"

section \<open>What other modules ask\<close>

record Member =
  me_id :: StaffID
  me_role :: Role
  me_branches :: "BranchID list"

definition member_of :: "StaffMember \<Rightarrow> Member" where
  "member_of m = \<lparr>me_id = st_id m, me_role = st_role m, me_branches = st_branches m\<rparr>"

definition Access_Branch ::
  "UserID \<Rightarrow> BusinessID \<Rightarrow> BranchID \<Rightarrow> Role \<Rightarrow> business_db \<Rightarrow> business_error option" where
  "Access_Branch actor business branch need db =
     (case authorize db actor business need of Inl e \<Rightarrow> Some e
      | Inr member \<Rightarrow>
      (case Branches_ByID db business branch of Inl e \<Rightarrow> Some e
      | Inr _ \<Rightarrow> AuthorizeBranch member need branch))"

definition StaffAtBranch ::
  "BusinessID \<Rightarrow> BranchID \<Rightarrow> StaffID list \<Rightarrow> business_db \<Rightarrow> business_error option" where
  "StaffAtBranch business branch staff db =
     (case Branches_ByID db business branch of Inl e \<Rightarrow> Some e
      | Inr _ \<Rightarrow>
          if staff = [] then None
          else case Staff_List db business of Inl e \<Rightarrow> Some e
          | Inr members \<Rightarrow>
              let working = map st_id (filter (\<lambda>m. st_active m \<and> WorksAt m branch) members) in
              if list_all (\<lambda>i. i \<in> set working) staff then None else Some ErrNotFound)"

definition MemberOf :: "UserID \<Rightarrow> BusinessID \<Rightarrow> business_db \<Rightarrow> (business_error, Member) result" where
  "MemberOf actor business db =
     (case Staff_Membership db business actor of Inl e \<Rightarrow> Inl e
      | Inr m \<Rightarrow> if \<not> st_active m then Inl ErrNotFound else Inr (member_of m))"

definition Access_StaffMember :: "BusinessID \<Rightarrow> StaffID \<Rightarrow> business_db \<Rightarrow> (business_error, Member) result" where
  "Access_StaffMember business staff db =
     (case Staff_List db business of Inl e \<Rightarrow> Inl e
      | Inr members \<Rightarrow>
          (case find_first (\<lambda>m. st_id m = staff \<and> st_active m) members of
             None \<Rightarrow> Inl ErrNotFound | Some m \<Rightarrow> Inr (member_of m)))"

definition BranchLocation :: "zones \<Rightarrow> BusinessID \<Rightarrow> BranchID \<Rightarrow> business_db \<Rightarrow> (business_error, location) result" where
  "BranchLocation load business branch db =
     (case Branches_ByID db business branch of Inl e \<Rightarrow> Inl e
      | Inr b \<Rightarrow> (case load (bp_timezone (bn_profile b)) of None \<Rightarrow> Inl Fault | Some loc \<Rightarrow> Inr loc))"

definition Access_BookableBranch :: "BranchID \<Rightarrow> business_db \<Rightarrow> (business_error, Branch) result" where
  "Access_BookableBranch branch db = Branches_Bookable db branch"

definition BranchBarbers ::
  "BusinessID \<Rightarrow> BranchID \<Rightarrow> StaffID list \<Rightarrow> business_db \<Rightarrow> (business_error, (StaffID \<times> string) list) result" where
  "BranchBarbers business branch staff db =
     (case Staff_List db business of Inl e \<Rightarrow> Inl e
      | Inr members \<Rightarrow>
          let byID = map_of_last (map (\<lambda>m. (st_id m, m)) (filter (\<lambda>m. st_active m \<and> WorksAt m branch) members)) in
          Inr (concat (map (\<lambda>i. case byID i of None \<Rightarrow> [] | Some m \<Rightarrow> [(i, st_displayName m)]) staff)))"

end
