(* ===== verification/Tenants.thy ===== *)
theory Tenants
  imports BusinessApp
begin

text \<open>
  What the business tables promise over every sequence of transactions: registration numbers, owners,
  review, invitations, seats and who may join. A step is one committed or refused transaction of a use
  case, with the domain operation the use case hands to the store.
\<close>

section \<open>Steps\<close>

inductive business_step :: "business_ports \<Rightarrow> gotime \<Rightarrow> business_db \<Rightarrow> business_db \<Rightarrow> bool"
  for ports :: business_ports and now :: gotime where
  register: "NewCRNumber text = Inr (rg_cr r) \<Longrightarrow> RegisterBusiness i s owner r now = Inr (b, m)
    \<Longrightarrow> business_step ports now db (snd (Businesses_Register db b m))"
| rename: "business_step ports now db (snd (Businesses_Update db i v (\<lambda>b. Rename b (name b) (legal b) now)))"
| submit: "business_step ports now db (snd (UpdateWithReadiness db i v (\<lambda>b r. Submit b r now)))"
| approve: "require admin = None
    \<Longrightarrow> business_step ports now db (snd (Businesses_Update db i v (\<lambda>b. Approve b (ad_id admin) now)))"
| reject: "require admin = None
    \<Longrightarrow> business_step ports now db (snd (Businesses_Update db i v (\<lambda>b. Reject b (ad_id admin) reason now)))"
| attach: "business_step ports now db (snd (Documents_Attach db doc CanAttachDocument))"
| add_branch: "NewBranch (px_zones ports) i business p policy now = Inr branch \<Longrightarrow> px_standing ports business = Inr plan
    \<Longrightarrow> business_step ports now db (snd (Branches_Add db branch (AllowBranch (ps_limits plan))))"
| edit: "business_step ports now db (snd (Branches_Update db business branch v (edit_branch ports now cmd member)))"
| publish: "business_step ports now db (snd (Branches_Update db business branch v (\<lambda>b. Publish b status ready now)))"
| unpublish: "business_step ports now db (snd (Branches_Update db business branch v (\<lambda>b. Unpublish b now)))"
| invite: "prepare_invite ports i token now cmd owner = Inr invn \<Longrightarrow> px_standing ports (iv_business cmd) = Inr plan
    \<Longrightarrow> business_step ports now db (snd (Invitations_Invite db invn (AllowStaff (ps_limits plan))))"
| revoke: "business_step ports now db (snd (Invitations_Update db business i Revoke))"
| accept: "px_phoneOf ports actor = Inr phone
    \<Longrightarrow> business_step ports now db (snd (Invitations_Accept db (px_hash ports token) (accept_fn staff actor phone now)))"

section \<open>What a transaction changes\<close>

lemma int32_Inr [simp]: "int32 n = Inr m \<longleftrightarrow> m = n \<and> 0 \<le> n \<and> n \<le> 2147483647"
  by (cases "n < 0 \<or> 2147483647 < n") (auto simp: int32_def)

lemma find_first_unique:
  assumes "distinct (map k xs)" "x \<in> set xs" "p x" and key: "\<And>y. p y \<Longrightarrow> k y = k x"
  shows "find_first p xs = Some x"
proof -
  obtain y where y: "find_first p xs = Some y" using find_first_is_Some [of x xs p] assms by auto
  then have "y \<in> set xs" "k y = k x" using find_first_Some key by fast+
  then show ?thesis using y assms(1,2) by (metis distinct_map inj_onD)
qed

lemma map_if_unique:
  assumes "distinct (map k xs)" "x \<in> set xs"
  shows "map (\<lambda>r. if k r = k x \<and> p r = p x then g r else r) xs = map (\<lambda>r. if k r = k x then g x else r) xs"
proof (rule map_cong [OF refl])
  fix r assume "r \<in> set xs"
  then have "k r = k x \<Longrightarrow> r = x" using assms by (metis distinct_map inj_onD)
  then show "(if k r = k x \<and> p r = p x then g r else r) = (if k r = k x then g x else r)" by auto
qed

text \<open>A replaced row: membership, and what follows for properties of all rows.\<close>

definition replaced :: "('r \<Rightarrow> uuid) \<Rightarrow> 'r \<Rightarrow> 'r list \<Rightarrow> 'r list" where
  "replaced k new rows = map (\<lambda>r. if k r = k new then new else r) rows"

lemma replaced_ids [simp]: "map k (replaced k new rows) = map k rows"
  by (simp add: replaced_def)

lemma in_replaced: "r \<in> set (replaced k new rows) \<Longrightarrow> r = new \<or> r \<in> set rows \<and> k r \<noteq> k new"
  by (auto simp: replaced_def split: if_splits)

lemma replaced_new: "old \<in> set rows \<Longrightarrow> k old = k new \<Longrightarrow> new \<in> set (replaced k new rows)"
  by (force simp: replaced_def)

lemma replaced_kept: "r \<in> set rows \<Longrightarrow> k r \<noteq> k new \<Longrightarrow> r \<in> set (replaced k new rows)"
  by (force simp: replaced_def)

lemma updated_business_keeps [simp]:
  "w_id (updated_business r b) = w_id r" "w_owner (updated_business r b) = w_owner r"
  "w_cr (updated_business r b) = w_cr r" "w_status (updated_business r b) = status_text (bz_status b)"
  "w_reviewed_by (updated_business r b) = optional_id (rv_reviewedBy (bz_review b))"
  "w_version (updated_business r b) = bz_version b"
  by (simp_all add: updated_business_def)

lemma ParseStatus_Inr: "ParseStatus s = Inr st \<Longrightarrow> status_text st = s"
  by (auto simp: ParseStatus_def split: option.splits if_splits)

lemma ParseStatus_text [simp]: "ParseStatus (status_text st) = Inr st"
  by (cases st) (simp_all add: ParseStatus_def)

lemma toBusiness_Inr:
  assumes "toBusiness row = Inr b"
  shows "id_value (bz_id b) = w_id row" "id_value (bz_owner b) = w_owner row" "status_text (bz_status b) = w_status row"
    "bz_version b = w_version row" "rv_reviewedBy (bz_review b) = id_or_zero (w_reviewed_by row)" "bz_events b = []"
  using assms
  by (auto simp: toBusiness_def RehydrateBusiness_def IDFromUUID_def split: sum.splits dest: ParseStatus_Inr)

text \<open>A business changes as the domain operation says, or nothing changes.\<close>

definition business_changed ::
  "business_db \<Rightarrow> business_row \<Rightarrow> Business \<Rightarrow> Business \<Rightarrow> business_db \<Rightarrow> bool" where
  "business_changed db row b b' db' \<longleftrightarrow> row \<in> set (bd_businesses db) \<and> toBusiness row = Inr b
     \<and> business_ok (updated_business row b')
     \<and> (claimed (updated_business row b') \<longrightarrow> (\<forall>q \<in> set (bd_businesses db). w_id q \<noteq> w_id row \<longrightarrow> claimed q \<longrightarrow> w_cr q \<noteq> w_cr row))
     \<and> db' = db\<lparr>bd_businesses := replaced w_id (updated_business row b') (bd_businesses db),
          bd_outbox := bd_outbox db @ map FromBusiness (bz_events b')\<rparr>"

lemma UpdateBusiness_stmt_Inr:
  assumes "UpdateBusiness_stmt db b' v = Inr (n, db')" "row \<in> set (bd_businesses db)" "distinct (map w_id (bd_businesses db))"
    "w_id row = id_value (bz_id b')" "w_version row = v"
  shows "business_ok (updated_business row b')"
    "claimed (updated_business row b') \<longrightarrow> (\<forall>q \<in> set (bd_businesses db). w_id q \<noteq> w_id row \<longrightarrow> claimed q \<longrightarrow> w_cr q \<noteq> w_cr row)"
    "db' = db\<lparr>bd_businesses := replaced w_id (updated_business row b') (bd_businesses db)\<rparr>"
proof -
  let ?hit = "\<lambda>r. w_id r = id_value (bz_id b') \<and> w_version r = v"
  have db': "db' = db\<lparr>bd_businesses := map (\<lambda>r. if ?hit r then updated_business r b' else r) (bd_businesses db)\<rparr>"
    and ok: "\<And>r. r \<in> set (bd_businesses db) \<Longrightarrow> ?hit r \<Longrightarrow> business_ok (updated_business r b')
      \<and> (claimed (updated_business r b') \<longrightarrow> (\<forall>q \<in> set (bd_businesses db). w_id q \<noteq> w_id r \<longrightarrow> claimed q \<longrightarrow> w_cr q \<noteq> w_cr r))"
    using assms(1) by (auto simp: UpdateBusiness_stmt_def Let_def list_ex_iff split: if_splits)
  show "business_ok (updated_business row b')"
    "claimed (updated_business row b') \<longrightarrow> (\<forall>q \<in> set (bd_businesses db). w_id q \<noteq> w_id row \<longrightarrow> claimed q \<longrightarrow> w_cr q \<noteq> w_cr row)"
    using ok [OF assms(2)] assms(4,5) by auto
  have "map (\<lambda>r. if ?hit r then updated_business r b' else r) (bd_businesses db)
    = map (\<lambda>r. if w_id r = w_id row then updated_business row b' else r) (bd_businesses db)"
    using map_if_unique [OF assms(3,2), of w_version "\<lambda>r. updated_business r b'"] assms(4,5) by simp
  then show "db' = db\<lparr>bd_businesses := replaced w_id (updated_business row b') (bd_businesses db)\<rparr>"
    unfolding db' replaced_def by simp
qed

lemma business_update_cases:
  assumes "distinct (map w_id (bd_businesses db))" "\<And>b b'. fn b = Inr b' \<Longrightarrow> bz_id b' = bz_id b"
    and upd: "business_update db i v fn = (res, db')"
  obtains (refused) e where "res = Inl e" "db' = db"
  | (changed) row b b' where "res = Inr b'" "w_id row = id_value i" "w_version row = v" "fn b = Inr b'" "business_changed db row b b' db'"
proof (cases res)
  case (Inl e)
  moreover from this have "db' = db" using upd by (auto simp: business_update_def commit_def split: sum.splits prod.splits)
  ultimately show ?thesis by (rule refused)
next
  case (Inr b')
  obtain row b n db'' where row: "business_by_id db i = Some row" "w_version row = v" "toBusiness row = Inr b" "fn b = Inr b'"
    and s: "UpdateBusiness_stmt db b' v = Inr (n, db'')"
    and db': "db' = db''\<lparr>bd_outbox := bd_outbox db'' @ map FromBusiness (bz_events b')\<rparr>"
    using upd Inr by (auto simp: business_update_def commit_def split: sum.splits prod.splits option.splits if_splits)
  have r: "row \<in> set (bd_businesses db)" "w_id row = id_value i"
    using find_first_Some [OF row(1) [unfolded business_by_id_def]] by auto
  have "w_id row = id_value (bz_id b')" using toBusiness_Inr(1) [OF row(3)] assms(2) [OF row(4)] by simp
  note u = UpdateBusiness_stmt_Inr [OF s r(1) assms(1) this row(2)]
  have "business_changed db row b b' db'"
    unfolding business_changed_def using r(1) row(3) u(1,2) by (simp add: db' u(3))
  then show ?thesis using changed Inr r(2) row by blast
qed


section \<open>Businesses and their review\<close>

definition reviewed_ok :: "business_row \<Rightarrow> bool" where
  "reviewed_ok r \<longleftrightarrow> w_reviewed_by r \<noteq> Some uuid_Nil \<and> w_reviewed_by r \<noteq> Some (w_owner r)
     \<and> (w_status r \<in> {''active'', ''rejected''} \<longrightarrow> w_reviewed_by r \<noteq> None)"

definition businesses_ok :: "business_row list \<Rightarrow> bool" where
  "businesses_ok rows \<longleftrightarrow> distinct (map w_id rows)
     \<and> (\<forall>r \<in> set rows. business_ok r \<and> reviewed_ok r)
     \<and> (\<forall>r \<in> set rows. \<forall>q \<in> set rows. claimed r \<longrightarrow> claimed q \<longrightarrow> w_cr r = w_cr q \<longrightarrow> w_id r = w_id q)
     \<and> (\<forall>r \<in> set rows. \<forall>q \<in> set rows. w_owner r = w_owner q \<longrightarrow> w_cr r = w_cr q \<longrightarrow> w_id r = w_id q)"

lemma businesses_okD:
  assumes "businesses_ok rows" "r \<in> set rows"
  shows "business_ok r" "reviewed_ok r"
    "q \<in> set rows \<Longrightarrow> claimed r \<Longrightarrow> claimed q \<Longrightarrow> w_cr r = w_cr q \<Longrightarrow> w_id r = w_id q"
    "q \<in> set rows \<Longrightarrow> w_owner r = w_owner q \<Longrightarrow> w_cr r = w_cr q \<Longrightarrow> w_id r = w_id q"
  using assms unfolding businesses_ok_def by blast+

lemma businesses_ok_replaced:
  assumes ok: "businesses_ok rows" and old: "old \<in> set rows"
    and new: "w_id new = w_id old" "w_owner new = w_owner old" "w_cr new = w_cr old" "business_ok new" "reviewed_ok new"
    and cr: "\<And>q. claimed new \<Longrightarrow> q \<in> set rows \<Longrightarrow> w_id q \<noteq> w_id old \<Longrightarrow> claimed q \<Longrightarrow> w_cr q \<noteq> w_cr old"
  shows "businesses_ok (replaced w_id new rows)"
  unfolding businesses_ok_def
proof (intro conjI ballI impI)
  show "distinct (map w_id (replaced w_id new rows))" using ok by (simp add: businesses_ok_def)
next
  fix r assume r: "r \<in> set (replaced w_id new rows)"
  show "business_ok r" "reviewed_ok r" using in_replaced [OF r] new(4,5) businesses_okD(1,2) [OF ok] by auto
  fix q assume q: "q \<in> set (replaced w_id new rows)"
  show "w_id r = w_id q" if "claimed r" "claimed q" "w_cr r = w_cr q"
    using in_replaced [OF r] in_replaced [OF q] that new(1,3) cr businesses_okD(3) [OF ok] by metis
  show "w_id r = w_id q" if "w_owner r = w_owner q" "w_cr r = w_cr q"
    using in_replaced [OF r] in_replaced [OF q] that new(1-3) old businesses_okD(4) [OF ok] by metis
qed

lemma businesses_ok_changed:
  assumes "businesses_ok (bd_businesses db)" "business_changed db row b b' db'" "reviewed_ok (updated_business row b')"
  shows "businesses_ok (bd_businesses db')"
proof -
  have "bd_businesses db' = replaced w_id (updated_business row b') (bd_businesses db)"
    using assms(2) by (simp add: business_changed_def)
  moreover have "businesses_ok (replaced w_id (updated_business row b') (bd_businesses db))"
    using assms by (intro businesses_ok_replaced [where old = row]) (auto simp: business_changed_def)
  ultimately show ?thesis by simp
qed

text \<open>The four operations on a business: what they keep, and where they lead.\<close>

lemma optional_id_or_zero: "u \<noteq> Some uuid_Nil \<Longrightarrow> optional_id (id_or_zero u) = u"
  by (auto simp: optional_id_def id_or_zero_def ID_IsZero_def IDFromUUID_def split: option.splits)

lemma Rename_Inr:
  assumes "Rename b n l now = Inr b'"
  shows "bz_id b' = bz_id b" "bz_status b' = bz_status b" "rv_reviewedBy (bz_review b') = rv_reviewedBy (bz_review b)" "editable b" "bz_version b' = bz_version b + 1"
  using assms by (auto simp: Rename_def touch_def editable_def split: if_splits sum.splits)

lemma Submit_Inr:
  assumes "Submit b r now = Inr b'"
  shows "bz_id b' = bz_id b" "bz_status b' = StatusPendingReview" "rv_reviewedBy (bz_review b') = rv_reviewedBy (bz_review b)"
    "1 \<le> rd_documents r" "1 \<le> rd_branches r" "editable b" "bz_version b' = bz_version b + 1"
  using assms by (auto simp: Submit_def touch_def Let_def split: if_splits)

lemma Approve_Inr:
  assumes "Approve b u now = Inr b'"
  shows "bz_id b' = bz_id b" "bz_status b' = StatusActive" "rv_reviewedBy (bz_review b') = u" "u \<noteq> bz_owner b"
    "bz_status b = StatusPendingReview" "bz_version b' = bz_version b + 1"
  using assms by (auto simp: Approve_def canReview_def touch_def Let_def split: option.splits if_splits)

lemma Reject_Inr:
  assumes "Reject b u reason now = Inr b'"
  shows "bz_id b' = bz_id b" "bz_status b' = StatusRejected" "rv_reviewedBy (bz_review b') = u" "u \<noteq> bz_owner b"
    "bz_status b = StatusPendingReview" "bz_version b' = bz_version b + 1"
  using assms by (auto simp: Reject_def canReview_def touch_def Let_def split: option.splits if_splits)

lemma require_None: "require admin = None \<longleftrightarrow> ad_isPlatformAdmin admin \<and> \<not> ID_IsZero (ad_id admin)"
  by (auto simp: require_def)

lemma reviewed_ok_same:
  assumes "reviewed_ok row" "toBusiness row = Inr b" "rv_reviewedBy (bz_review b') = rv_reviewedBy (bz_review b)"
    "bz_status b' = bz_status b \<or> bz_status b' = StatusPendingReview"
  shows "reviewed_ok (updated_business row b')"
  using assms toBusiness_Inr(3,5) [OF assms(2)] by (auto simp: reviewed_ok_def optional_id_or_zero)

lemma reviewed_ok_decided:
  assumes "toBusiness row = Inr b" "rv_reviewedBy (bz_review b') = u" "u \<noteq> bz_owner b" "\<not> ID_IsZero u"
  shows "reviewed_ok (updated_business row b')"
proof -
  have "id_value u \<noteq> w_owner row" using assms(3) toBusiness_Inr(2) [OF assms(1)] by (metis id_value_inject)
  then show ?thesis using assms(2,4) by (simp add: reviewed_ok_def optional_id_def ID_IsZero_def)
qed


section \<open>Owners and staff\<close>

text \<open>Of the businesses only their ids and owners matter here.\<close>

definition owner_pairs :: "business_row list \<Rightarrow> (uuid \<times> uuid) list" where
  "owner_pairs rows = map (\<lambda>w. (w_id w, w_owner w)) rows"

definition owners_ok :: "(uuid \<times> uuid) list \<Rightarrow> staff_row list \<Rightarrow> bool" where
  "owners_ok ps staff \<longleftrightarrow> distinct (map f_id staff)
     \<and> (\<forall>s \<in> set staff. f_business s \<in> fst ` set ps)
     \<and> (\<forall>s \<in> set staff. f_user s \<noteq> None
          \<and> (f_role s = ''owner'' \<longrightarrow> f_active s \<and> (f_business s, the (f_user s)) \<in> set ps))
     \<and> (\<forall>s \<in> set staff. \<forall>t \<in> set staff. f_user s = f_user t \<longrightarrow> f_business s = f_business t \<longrightarrow> f_id s = f_id t)
     \<and> (\<forall>s \<in> set staff. \<forall>t \<in> set staff. f_role s = ''owner'' \<longrightarrow> f_role t = ''owner'' \<longrightarrow> f_business s = f_business t \<longrightarrow> f_id s = f_id t)
     \<and> (\<forall>i \<in> fst ` set ps. \<exists>s \<in> set staff. f_business s = i \<and> f_role s = ''owner'')"

lemma owners_okD:
  assumes "owners_ok ps staff"
  shows "distinct (map f_id staff)"
    "s \<in> set staff \<Longrightarrow> f_business s \<in> fst ` set ps"
    "s \<in> set staff \<Longrightarrow> f_user s \<noteq> None"
    "s \<in> set staff \<Longrightarrow> f_role s = ''owner'' \<Longrightarrow> f_active s \<and> (f_business s, the (f_user s)) \<in> set ps"
    "s \<in> set staff \<Longrightarrow> t \<in> set staff \<Longrightarrow> f_user s = f_user t \<Longrightarrow> f_business s = f_business t \<Longrightarrow> f_id s = f_id t"
    "s \<in> set staff \<Longrightarrow> t \<in> set staff \<Longrightarrow> f_role s = ''owner'' \<Longrightarrow> f_role t = ''owner'' \<Longrightarrow> f_business s = f_business t \<Longrightarrow> f_id s = f_id t"
    "i \<in> fst ` set ps \<Longrightarrow> \<exists>s \<in> set staff. f_business s = i \<and> f_role s = ''owner''"
  using assms unfolding owners_ok_def by blast+

lemma owner_pairs_replaced:
  assumes "distinct (map w_id rows)" "old \<in> set rows" "w_id new = w_id old" "w_owner new = w_owner old"
  shows "owner_pairs (replaced w_id new rows) = owner_pairs rows"
proof -
  have "r \<in> set rows \<Longrightarrow> w_id r = w_id new \<Longrightarrow> w_owner new = w_owner r" for r
    using assms by (metis distinct_map inj_onD)
  then show ?thesis by (simp add: owner_pairs_def replaced_def)
qed

lemma InsertStaffMember_Inr:
  assumes "InsertStaffMember db row = Inr db'"
  shows "db' = db\<lparr>bd_staff := bd_staff db @ [row]\<rparr>" "staff_ok row" "\<exists>w \<in> set (bd_businesses db). w_id w = f_business row"
    "s \<in> set (bd_staff db) \<Longrightarrow> f_id s \<noteq> f_id row"
    "s \<in> set (bd_staff db) \<Longrightarrow> f_role row = ''owner'' \<Longrightarrow> f_role s = ''owner'' \<Longrightarrow> f_business s \<noteq> f_business row"
    "s \<in> set (bd_staff db) \<Longrightarrow> f_user row \<noteq> None \<Longrightarrow> f_user s = f_user row \<Longrightarrow> f_business s \<noteq> f_business row"
  using assms by (auto simp: InsertStaffMember_def list_ex_iff split: if_splits)

definition staff_branch_rows :: "StaffMember \<Rightarrow> staff_branch_row list" where
  "staff_branch_rows m = map (\<lambda>b. \<lparr>g_staff = id_value (st_id m), g_branch = id_value b, g_business = id_value (st_business m)\<rparr>) (st_branches m)"

lemma InsertStaffBranch_Inr:
  "InsertStaffBranch db row = Inr db' \<Longrightarrow> db' = db\<lparr>bd_staff_branches := bd_staff_branches db @ [row]\<rparr>"
  by (auto simp: InsertStaffBranch_def split: if_splits)

lemma insert_branches_Inr:
  assumes "fold_result (\<lambda>db b. InsertStaffBranch db (row b)) db bs = Inr db'"
  shows "db' = db\<lparr>bd_staff_branches := bd_staff_branches db @ map row bs\<rparr>"
  using assms by (induction bs arbitrary: db) (fastforce split: sum.splits dest!: InsertStaffBranch_Inr)+

lemma insertStaff_Inr:
  assumes "insertStaff db m = Inr db'"
  shows "db' = db\<lparr>bd_staff := bd_staff db @ [staff_row_of m], bd_staff_branches := bd_staff_branches db @ staff_branch_rows m\<rparr>"
    "\<exists>db1. InsertStaffMember db (staff_row_of m) = Inr db1"
proof -
  obtain db1 where 1: "InsertStaffMember db (staff_row_of m) = Inr db1"
    and "fold_result (\<lambda>db b. InsertStaffBranch db \<lparr>g_staff = id_value (st_id m), g_branch = id_value b, g_business = id_value (st_business m)\<rparr>)
      db1 (st_branches m) = Inr db'"
    using assms by (auto simp: insertStaff_def split: sum.splits)
  from this(1) this(2) [THEN insert_branches_Inr]
  show "db' = db\<lparr>bd_staff := bd_staff db @ [staff_row_of m], bd_staff_branches := bd_staff_branches db @ staff_branch_rows m\<rparr>"
    by (simp add: InsertStaffMember_Inr(1) [OF 1] staff_branch_rows_def)
  show "\<exists>db1. InsertStaffMember db (staff_row_of m) = Inr db1" using 1 by blast
qed

text \<open>A member added to the staff of an existing business, who is not a second owner or there twice.\<close>

lemma owners_ok_add:
  assumes ok: "owners_ok ps staff" and w: "f_business s \<in> fst ` set ps"
    and s: "f_role s \<noteq> ''owner''" "f_user s \<noteq> None" "f_id s \<notin> f_id ` set staff"
    and u: "\<And>t. t \<in> set staff \<Longrightarrow> f_user t = f_user s \<Longrightarrow> f_business t \<noteq> f_business s"
  shows "owners_ok ps (staff @ [s])"
  unfolding owners_ok_def
proof (intro conjI ballI impI)
  show "distinct (map f_id (staff @ [s]))" using owners_okD(1) [OF ok] s(3) by simp
  fix t assume "t \<in> set (staff @ [s])"
  then have t: "t \<in> set staff \<or> t = s" by auto
  show "f_business t \<in> fst ` set ps" using t owners_okD(2) [OF ok] w by blast
  show "f_user t \<noteq> None" using t owners_okD(3) [OF ok] s(2) by blast
  show "f_active t" "(f_business t, the (f_user t)) \<in> set ps" if "f_role t = ''owner''"
    using t that owners_okD(4) [OF ok] s(1) by metis+
  fix t' assume "t' \<in> set (staff @ [s])"
  then have t': "t' \<in> set staff \<or> t' = s" by auto
  show "f_id t = f_id t'" if "f_user t = f_user t'" "f_business t = f_business t'"
    using t t' that owners_okD(5) [OF ok] u by metis
  show "f_id t = f_id t'" if "f_role t = ''owner''" "f_role t' = ''owner''" "f_business t = f_business t'"
    using t t' that owners_okD(6) [OF ok] s(1) by metis
next
  fix i assume "i \<in> fst ` set ps"
  then show "\<exists>t\<in>set (staff @ [s]). f_business t = i \<and> f_role t = ''owner''" using owners_okD(7) [OF ok] by auto
qed

text \<open>A new business with its owner.\<close>

lemma owners_ok_register:
  assumes ok: "owners_ok ps staff" and new: "i \<notin> fst ` set ps"
    and s: "f_business s = i" "f_role s = ''owner''" "f_user s = Some u" "f_active s" "f_id s \<notin> f_id ` set staff"
  shows "owners_ok (ps @ [(i, u)]) (staff @ [s])"
  unfolding owners_ok_def
proof (intro conjI ballI impI)
  have b: "f_business t \<noteq> i" if "t \<in> set staff" for t using owners_okD(2) [OF ok that] new by metis
  show "distinct (map f_id (staff @ [s]))" using owners_okD(1) [OF ok] s(5) by simp
  fix t assume "t \<in> set (staff @ [s])"
  then have t: "t \<in> set staff \<or> t = s" by auto
  show "f_business t \<in> fst ` set (ps @ [(i, u)])" using t owners_okD(2) [OF ok] s(1) by auto
  show "f_user t \<noteq> None" using t owners_okD(3) [OF ok] s(3) by auto
  show "f_active t" "(f_business t, the (f_user t)) \<in> set (ps @ [(i, u)])" if "f_role t = ''owner''"
    using t that owners_okD(4) [OF ok] s by auto
  fix t' assume "t' \<in> set (staff @ [s])"
  then have t': "t' \<in> set staff \<or> t' = s" by auto
  show "f_id t = f_id t'" if "f_user t = f_user t'" "f_business t = f_business t'"
    using t t' that owners_okD(5) [OF ok] b s(1) by metis
  show "f_id t = f_id t'" if "f_role t = ''owner''" "f_role t' = ''owner''" "f_business t = f_business t'"
    using t t' that owners_okD(6) [OF ok] b s(1) by metis
next
  fix j assume "j \<in> fst ` set (ps @ [(i, u)])"
  then show "\<exists>t\<in>set (staff @ [s]). f_business t = j \<and> f_role t = ''owner''" using owners_okD(7) [OF ok] s by auto
qed

section \<open>What was submitted\<close>

text \<open>Only the businesses of the documents and the branches matter here.\<close>

definition ready_ok :: "business_row list \<Rightarrow> uuid set \<Rightarrow> uuid set \<Rightarrow> bool" where
  "ready_ok rows docs branches \<longleftrightarrow> (\<forall>r \<in> set rows. w_status r \<noteq> ''draft'' \<longrightarrow> w_id r \<in> docs \<and> w_id r \<in> branches)"

lemma ready_ok_mono: "ready_ok rows D B \<Longrightarrow> D \<subseteq> D' \<Longrightarrow> B \<subseteq> B' \<Longrightarrow> ready_ok rows D' B'"
  unfolding ready_ok_def by blast

lemma ready_ok_replaced:
  assumes "ready_ok rows D B" "w_status new \<noteq> ''draft'' \<Longrightarrow> w_id new \<in> D \<and> w_id new \<in> B"
  shows "ready_ok (replaced w_id new rows) D B"
  using assms in_replaced unfolding ready_ok_def by metis


section \<open>Invitations and who joined\<close>

definition same_invitee :: "invitation_row \<Rightarrow> invitation_row \<Rightarrow> bool" where
  "same_invitee i j \<longleftrightarrow> v_business i = v_business j \<and> v_phone i = v_phone j"

definition invitations_ok :: "invitation_row list \<Rightarrow> bool" where
  "invitations_ok invs \<longleftrightarrow> distinct (map v_id invs) \<and> distinct (map v_hash invs)
     \<and> (\<forall>i \<in> set invs. invitation_ok i)
     \<and> (\<forall>i \<in> set invs. \<forall>j \<in> set invs. v_status i = InvitationPending \<longrightarrow> v_status j = InvitationPending
          \<longrightarrow> same_invitee i j \<longrightarrow> v_id i = v_id j)"

text \<open>A member who is not the owner accepted an invitation of the business that was sent to their phone.\<close>

definition joined_by :: "(UserID \<Rightarrow> (business_error, PhoneNumber) result) \<Rightarrow> staff_row \<Rightarrow> invitation_row \<Rightarrow> bool" where
  "joined_by phoneOf s i \<longleftrightarrow> v_status i = InvitationAccepted \<and> v_business i = f_business s \<and> v_accepted_by i = f_user s
     \<and> v_role i = f_role s \<and> (\<exists>u p. f_user s = Some (id_value u) \<and> phoneOf u = Inr p \<and> v_phone i = e164 p)"

definition joined_ok ::
  "(UserID \<Rightarrow> (business_error, PhoneNumber) result) \<Rightarrow> staff_row list \<Rightarrow> invitation_row list \<Rightarrow> bool" where
  "joined_ok phoneOf staff invs \<longleftrightarrow> (\<forall>s \<in> set staff. f_role s \<noteq> ''owner'' \<longrightarrow> (\<exists>i \<in> set invs. joined_by phoneOf s i))"

definition withdrawn :: "BusinessID \<Rightarrow> PhoneNumber \<Rightarrow> invitation_row \<Rightarrow> invitation_row" where
  "withdrawn business phone i =
     (if v_business i = id_value business \<and> v_phone i = e164 phone \<and> v_status i = InvitationPending
      then i\<lparr>v_status := InvitationRevoked\<rparr> else i)"

lemma withdrawn_keeps [simp]:
  "v_id (withdrawn b p i) = v_id i" "v_hash (withdrawn b p i) = v_hash i" "v_business (withdrawn b p i) = v_business i"
  "v_phone (withdrawn b p i) = v_phone i" "v_created_at (withdrawn b p i) = v_created_at i"
  "v_expires_at (withdrawn b p i) = v_expires_at i" "v_accepted_by (withdrawn b p i) = v_accepted_by i" "v_role (withdrawn b p i) = v_role i"
  by (simp_all add: withdrawn_def)

lemma withdrawn_status:
  "v_status (withdrawn b p i) = InvitationPending \<longleftrightarrow> v_status i = InvitationPending \<and> \<not> (v_business i = id_value b \<and> v_phone i = e164 p)"
  "v_status (withdrawn b p i) = InvitationAccepted \<longleftrightarrow> v_status i = InvitationAccepted"
  by (auto simp: withdrawn_def)

lemma invitation_ok_withdrawn: "invitation_ok i \<Longrightarrow> invitation_ok (withdrawn b p i)"
  by (auto simp: invitation_ok_def withdrawn_def)

lemma Invite_Inr:
  assumes "Invitations_Invite db invn allow = (Inr x, db')"
  shows "AllowInvite (invite_history db (in_business invn) (in_phone invn) (in_createdAt invn - InviteWindow)) (in_createdAt invn) = None"
    "allow (CountStaffSeats (db\<lparr>bd_invitations := map (withdrawn (in_business invn) (in_phone invn)) (bd_invitations db)\<rparr>)
       (in_business invn) (in_createdAt invn)) = None"
    "invitation_ok (invitation_row_of invn)"
    "i \<in> set (bd_invitations db) \<Longrightarrow> v_id i \<noteq> id_value (in_id invn) \<and> v_hash i \<noteq> in_tokenHash invn"
    "db' = db\<lparr>bd_invitations := map (withdrawn (in_business invn) (in_phone invn)) (bd_invitations db) @ [invitation_row_of invn]\<rparr>"
proof -
  have r: "RevokePendingInvitations db (in_business invn) (in_phone invn)
    = db\<lparr>bd_invitations := map (withdrawn (in_business invn) (in_phone invn)) (bd_invitations db)\<rparr>"
    by (simp add: RevokePendingInvitations_def withdrawn_def cong: if_cong)
  obtain db1 where a: "AllowInvite (invite_history db (in_business invn) (in_phone invn) (in_createdAt invn - InviteWindow)) (in_createdAt invn) = None"
    "allow (CountStaffSeats (RevokePendingInvitations db (in_business invn) (in_phone invn)) (in_business invn) (in_createdAt invn)) = None"
    and i: "InsertInvitation (RevokePendingInvitations db (in_business invn) (in_phone invn)) (invitation_row_of invn) = Inr db1" "db' = db1"
    using assms by (auto simp: Invitations_Invite_def commit_def Let_def time_add_def split: option.splits sum.splits if_splits)
  show "AllowInvite (invite_history db (in_business invn) (in_phone invn) (in_createdAt invn - InviteWindow)) (in_createdAt invn) = None"
    "allow (CountStaffSeats (db\<lparr>bd_invitations := map (withdrawn (in_business invn) (in_phone invn)) (bd_invitations db)\<rparr>)
       (in_business invn) (in_createdAt invn)) = None" using a r by simp_all
  show "invitation_ok (invitation_row_of invn)"
    "i \<in> set (bd_invitations db) \<Longrightarrow> v_id i \<noteq> id_value (in_id invn) \<and> v_hash i \<noteq> in_tokenHash invn"
    "db' = db\<lparr>bd_invitations := map (withdrawn (in_business invn) (in_phone invn)) (bd_invitations db) @ [invitation_row_of invn]\<rparr>"
    using i unfolding r by (auto simp: InsertInvitation_def list_ex_iff invitation_row_of_def split: if_splits)
qed

lemma Invite_Inl: "Invitations_Invite db invn allow = (Inl e, db') \<Longrightarrow> db' = db"
  by (auto simp: Invitations_Invite_def commit_def Let_def split: sum.splits prod.splits)

lemma invitations_ok_invite:
  assumes ok: "invitations_ok invs" and new: "invitation_ok new" "v_business new = id_value b" "v_phone new = e164 p"
    and fresh: "\<And>i. i \<in> set invs \<Longrightarrow> v_id i \<noteq> v_id new \<and> v_hash i \<noteq> v_hash new"
  shows "invitations_ok (map (withdrawn b p) invs @ [new])"
  unfolding invitations_ok_def
proof (intro conjI ballI impI)
  have "v_id new \<notin> v_id ` set invs" "v_hash new \<notin> v_hash ` set invs" using fresh by (metis imageE)+
  then show "distinct (map v_id (map (withdrawn b p) invs @ [new]))" "distinct (map v_hash (map (withdrawn b p) invs @ [new]))"
    using ok by (simp_all add: invitations_ok_def comp_def)
  fix i assume "i \<in> set (map (withdrawn b p) invs @ [new])"
  then have i: "(\<exists>i0 \<in> set invs. i = withdrawn b p i0) \<or> i = new" by auto
  show "invitation_ok i" using i ok new(1) invitation_ok_withdrawn by (auto simp: invitations_ok_def)
  fix j assume "j \<in> set (map (withdrawn b p) invs @ [new])"
  then have j: "(\<exists>j0 \<in> set invs. j = withdrawn b p j0) \<or> j = new" by auto
  assume s: "v_status i = InvitationPending" "v_status j = InvitationPending" "same_invitee i j"
  have "\<not> same_invitee (withdrawn b p k) new" if "v_status (withdrawn b p k) = InvitationPending" for k
    using that new(2,3) withdrawn_status(1) by (auto simp: same_invitee_def)
  moreover have "same_invitee i j \<longleftrightarrow> same_invitee j i" by (auto simp: same_invitee_def)
  ultimately consider "i = new \<and> j = new" | i0 j0 where "i0 \<in> set invs" "j0 \<in> set invs" "i = withdrawn b p i0" "j = withdrawn b p j0"
    using i j s by metis
  then show "v_id i = v_id j"
  proof cases
    case 2
    then have "v_status i0 = InvitationPending" "v_status j0 = InvitationPending" "same_invitee i0 j0"
      using s withdrawn_status(1) by (auto simp: same_invitee_def)
    then show ?thesis using ok 2 unfolding invitations_ok_def by (metis withdrawn_keeps(1))
  qed simp
qed

lemma joined_ok_invite:
  assumes "joined_ok phoneOf staff invs"
  shows "joined_ok phoneOf staff (map (withdrawn b p) invs @ [new])"
proof -
  have "joined_by phoneOf s i \<Longrightarrow> joined_by phoneOf s (withdrawn b p i)" for s i
    by (auto simp: joined_by_def withdrawn_status(2))
  then show ?thesis using assms unfolding joined_ok_def set_append set_map by blast
qed


text \<open>An invitation that is saved again.\<close>

definition saved_row :: "invitation_row \<Rightarrow> Invitation \<Rightarrow> invitation_row" where
  "saved_row i invn = i\<lparr>v_status := in_status invn, v_accepted_at := map_option db_time (in_acceptedAt invn),
     v_accepted_by := optional_id (in_acceptedBy invn)\<rparr>"

lemma saved_row_keeps [simp]:
  "v_id (saved_row i n) = v_id i" "v_hash (saved_row i n) = v_hash i" "v_business (saved_row i n) = v_business i"
  "v_phone (saved_row i n) = v_phone i" "v_role (saved_row i n) = v_role i" "v_status (saved_row i n) = in_status n"
  "v_accepted_by (saved_row i n) = optional_id (in_acceptedBy n)" "v_created_at (saved_row i n) = v_created_at i"
  "v_expires_at (saved_row i n) = v_expires_at i"
  by (simp_all add: saved_row_def)

lemma saveInvitation_Inr:
  assumes save: "saveInvitation db invn = Inr db'" and row: "row \<in> set (bd_invitations db)" "v_id row = id_value (in_id invn)"
    and dist: "distinct (map v_id (bd_invitations db))"
  shows "invitation_ok (saved_row row invn)" "db' = db\<lparr>bd_invitations := replaced v_id (saved_row row invn) (bd_invitations db)\<rparr>"
proof -
  have db': "db' = db\<lparr>bd_invitations := map (\<lambda>i. if v_id i = id_value (in_id invn) then saved_row i invn else i) (bd_invitations db)\<rparr>"
    and ok: "\<forall>i \<in> set (bd_invitations db). v_id i = id_value (in_id invn) \<longrightarrow> invitation_ok (saved_row i invn)"
    using save by (auto simp: saveInvitation_def Let_def list_ex_iff saved_row_def split: if_splits)
  show "invitation_ok (saved_row row invn)" using ok row by blast
  have "map (\<lambda>i. if v_id i = v_id row then saved_row i invn else i) (bd_invitations db)
    = map (\<lambda>i. if v_id i = v_id row then saved_row row invn else i) (bd_invitations db)"
    using map_if_unique [OF dist row(1), of "\<lambda>_. ()" "\<lambda>i. saved_row i invn"] by simp
  then show "db' = db\<lparr>bd_invitations := replaced v_id (saved_row row invn) (bd_invitations db)\<rparr>"
    unfolding db' replaced_def using row(2) by simp
qed

lemma ParseRole_Inr: "ParseRole s = Inr r \<Longrightarrow> role_text r = s"
  by (auto simp: ParseRole_def split: option.splits if_splits)

lemma ParseRole_text [simp]: "ParseRole (role_text r) = Inr r"
  by (cases r) (simp_all add: ParseRole_def)

lemma toInvitation_Inr:
  assumes "toInvitation row = Inr invn"
  shows "id_value (in_id invn) = v_id row" "id_value (in_business invn) = v_business row" "NewPhoneNumber (v_phone row) = Inr (in_phone invn)"
    "role_text (in_role invn) = v_role row" "in_status invn = v_status row" "in_expiresAt invn = v_expires_at row"
    "in_acceptedBy invn = id_or_zero (v_accepted_by row)" "in_acceptedAt invn = v_accepted_at row"
    "map id_value (in_branches invn) = v_branches row"
  using assms
  by (auto simp: toInvitation_def RehydrateInvitation_def IDFromUUID_def comp_def split: sum.splits dest: ParseRole_Inr)

lemma invitations_ok_replaced:
  assumes ok: "invitations_ok invs" and old: "old \<in> set invs" "v_id new = v_id old" "v_hash new = v_hash old"
    and new: "invitation_ok new" "v_status new \<noteq> InvitationPending"
  shows "invitations_ok (replaced v_id new invs)"
  unfolding invitations_ok_def
proof (intro conjI ballI impI)
  show "distinct (map v_id (replaced v_id new invs))" using ok by (simp add: invitations_ok_def)
  have "map v_hash (replaced v_id new invs) = map v_hash invs"
  proof -
    have "i \<in> set invs \<Longrightarrow> v_id i = v_id new \<Longrightarrow> v_hash new = v_hash i" for i
      using ok old unfolding invitations_ok_def by (metis distinct_map inj_onD)
    then show ?thesis by (simp add: replaced_def)
  qed
  then show "distinct (map v_hash (replaced v_id new invs))" using ok by (simp add: invitations_ok_def)
  fix i assume i: "i \<in> set (replaced v_id new invs)"
  show "invitation_ok i" using in_replaced [OF i] ok new(1) by (auto simp: invitations_ok_def)
  fix j assume j: "j \<in> set (replaced v_id new invs)"
  assume "v_status i = InvitationPending" "v_status j = InvitationPending" "same_invitee i j"
  then show "v_id i = v_id j" using in_replaced [OF i] in_replaced [OF j] ok new(2) unfolding invitations_ok_def by metis
qed

lemma joined_ok_replaced:
  assumes "joined_ok phoneOf staff invs" "old \<in> set invs" "v_id new = v_id old" "v_status old \<noteq> InvitationAccepted"
    "distinct (map v_id invs)"
  shows "joined_ok phoneOf staff (replaced v_id new invs)"
  unfolding joined_ok_def
proof (intro ballI impI)
  fix s assume "s \<in> set staff" "f_role s \<noteq> ''owner''"
  then obtain i where i: "i \<in> set invs" "joined_by phoneOf s i" using assms(1) unfolding joined_ok_def by blast
  then have "v_id i \<noteq> v_id new" using assms(2-5) unfolding joined_by_def by (metis distinct_map inj_onD)
  then show "\<exists>i \<in> set (replaced v_id new invs). joined_by phoneOf s i" using i replaced_kept by metis
qed

text \<open>Accepting: the invitation that has the token, the member it makes, and what is stored.\<close>

lemma Accept_Inr:
  assumes "accept_fn staff actor phone now invn = Inr (m, invn')"
  shows "in_phone invn = phone" "in_status invn = InvitationPending" "now < in_expiresAt invn"
    "m = \<lparr>st_id = staff, st_business = in_business invn, st_user = actor, st_role = in_role invn, st_active = True,
       st_createdAt = db_time now, st_displayName = in_name invn, st_branches = in_branches invn\<rparr>"
    "invn' = invn\<lparr>in_status := InvitationAccepted, in_acceptedAt := Some (db_time now), in_acceptedBy := actor\<rparr>"
  using assms by (auto simp: accept_fn_def Accept_def IsOpen_def Let_def split: if_splits)

lemma Invitations_Accept_cases:
  assumes acc: "Invitations_Accept db h (accept_fn staff actor phone now) = (res, db')" and ok: "invitations_ok (bd_invitations db)"
  obtains (refused) e where "res = Inl e" "db' = db"
  | (joined) row invn invn' m db1 where "res = Inr m" "row \<in> set (bd_invitations db)" "v_hash row = h" "toInvitation row = Inr invn"
      "accept_fn staff actor phone now invn = Inr (m, invn')" "invitation_ok (saved_row row invn')"
      "InsertStaffMember (db\<lparr>bd_invitations := replaced v_id (saved_row row invn') (bd_invitations db)\<rparr>) (staff_row_of m) = Inr db1"
      "db' = db\<lparr>bd_invitations := replaced v_id (saved_row row invn') (bd_invitations db),
         bd_staff := bd_staff db @ [staff_row_of m], bd_staff_branches := bd_staff_branches db @ staff_branch_rows m\<rparr>"
proof (cases "accept_tx db h (accept_fn staff actor phone now)")
  case (Inl e)
  then show ?thesis using refused acc by (cases e) (auto simp: Invitations_Accept_def)
next
  case (Inr x)
  obtain m where x: "x = (m, db')" "res = Inr m" using acc Inr by (cases x) (auto simp: Invitations_Accept_def)
  obtain row invn invn' db1 where row: "find_first (\<lambda>r. v_hash r = h) (bd_invitations db) = Some row" "toInvitation row = Inr invn"
    "accept_fn staff actor phone now invn = Inr (m, invn')" and s: "saveInvitation db invn' = Inr db1" and i: "insertStaff db1 m = Inr db'"
    using Inr x(1) by (auto simp: accept_tx_def split: option.splits sum.splits prod.splits)
  have r: "row \<in> set (bd_invitations db)" "v_hash row = h" using find_first_Some [OF row(1)] by auto
  have "v_id row = id_value (in_id invn')" using toInvitation_Inr(1) [OF row(2)] Accept_Inr(5) [OF row(3)] by simp
  note sv = saveInvitation_Inr [OF s r(1) this]
  have "distinct (map v_id (bd_invitations db))" using ok by (simp add: invitations_ok_def)
  note sv = sv [OF this]
  obtain db2 where db2: "InsertStaffMember db1 (staff_row_of m) = Inr db2" using insertStaff_Inr(2) [OF i] by blast
  have "db' = db\<lparr>bd_invitations := replaced v_id (saved_row row invn') (bd_invitations db),
         bd_staff := bd_staff db @ [staff_row_of m], bd_staff_branches := bd_staff_branches db @ staff_branch_rows m\<rparr>"
    using insertStaff_Inr(1) [OF i] sv(2) by simp
  then show ?thesis using joined [OF x(2) r row(2,3) sv(1) _ ] db2 sv(2) by blast
qed

section \<open>The invariant\<close>

lemma phone_reread:
  assumes "NewPhoneNumber raw = Inr p"
  shows "NewPhoneNumber (e164 p) = Inr p"
proof -
  obtain d where d: "saudi_mobile d" "e164 p = ''+966'' @ d" using NewPhoneNumber_e164 [OF assms] by blast
  then have "NewPhoneNumber (e164 p) = Inr \<lparr>e164 = e164 p\<rparr>" using NewPhoneNumber_forms [OF d(1), of "''+966''"] by simp
  then show ?thesis by simp
qed

definition phones_ok :: "invitation_row list \<Rightarrow> bool" where
  "phones_ok invs \<longleftrightarrow> (\<forall>i \<in> set invs. NewPhoneNumber (v_phone i) = Inr \<lparr>e164 = v_phone i\<rparr>)"

definition tenants_ok :: "business_ports \<Rightarrow> business_db \<Rightarrow> bool" where
  "tenants_ok ports db \<longleftrightarrow> businesses_ok (bd_businesses db) \<and> owners_ok (owner_pairs (bd_businesses db)) (bd_staff db)
     \<and> ready_ok (bd_businesses db) (d_business ` set (bd_documents db)) (h_business ` set (bd_branches db))
     \<and> invitations_ok (bd_invitations db) \<and> phones_ok (bd_invitations db)
     \<and> joined_ok (px_phoneOf ports) (bd_staff db) (bd_invitations db)"

lemma tenants_okI [intro?]:
  assumes "businesses_ok (bd_businesses db)" "owners_ok (owner_pairs (bd_businesses db)) (bd_staff db)"
    "ready_ok (bd_businesses db) (d_business ` set (bd_documents db)) (h_business ` set (bd_branches db))"
    "invitations_ok (bd_invitations db)" "phones_ok (bd_invitations db)"
    "joined_ok (px_phoneOf ports) (bd_staff db) (bd_invitations db)"
  shows "tenants_ok ports db"
  using assms by (simp add: tenants_ok_def)

lemma tenants_okD:
  assumes "tenants_ok ports db"
  shows "businesses_ok (bd_businesses db)" "owners_ok (owner_pairs (bd_businesses db)) (bd_staff db)"
    "ready_ok (bd_businesses db) (d_business ` set (bd_documents db)) (h_business ` set (bd_branches db))"
    "invitations_ok (bd_invitations db)" "phones_ok (bd_invitations db)"
    "joined_ok (px_phoneOf ports) (bd_staff db) (bd_invitations db)"
  using assms by (simp_all add: tenants_ok_def)

lemma tenants_ok_ids: "tenants_ok ports db \<Longrightarrow> distinct (map w_id (bd_businesses db))"
  using tenants_okD(1) by (simp add: businesses_ok_def)

lemma tenants_ok_empty: "tenants_ok ports empty_business_db"
  by (simp add: tenants_ok_def empty_business_db_def businesses_ok_def owners_ok_def owner_pairs_def ready_ok_def
      invitations_ok_def phones_ok_def joined_ok_def)

lemma count_pos: "1 \<le> int (length (filter P xs)) \<longleftrightarrow> (\<exists>x \<in> set xs. P x)"
  by (induction xs) auto

text \<open>A changed business.\<close>

lemma tenants_ok_changed:
  assumes ok: "tenants_ok ports db" and ch: "business_changed db row b b' db'"
    and rev: "reviewed_ok (updated_business row b')"
    and ready: "bz_status b' \<noteq> StatusDraft \<Longrightarrow> bz_status b = bz_status b' \<or> bz_status b = StatusPendingReview
      \<or> 1 \<le> CountVerificationDocuments db (bz_id b) \<and> 1 \<le> CountBranches db (bz_id b)"
  shows "tenants_ok ports db'"
proof
  note D = tenants_okD [OF ok]
  have row: "row \<in> set (bd_businesses db)" "toBusiness row = Inr b" using ch by (simp_all add: business_changed_def)
  have db': "bd_businesses db' = replaced w_id (updated_business row b') (bd_businesses db)" "bd_staff db' = bd_staff db"
    "bd_documents db' = bd_documents db" "bd_branches db' = bd_branches db" "bd_invitations db' = bd_invitations db"
    using ch by (simp_all add: business_changed_def)
  show "businesses_ok (bd_businesses db')" using businesses_ok_changed [OF D(1) ch rev] .
  show "owners_ok (owner_pairs (bd_businesses db')) (bd_staff db')"
    using D(2) owner_pairs_replaced [OF tenants_ok_ids [OF ok] row(1)] by (simp add: db')
  show "invitations_ok (bd_invitations db')" "phones_ok (bd_invitations db')"
    "joined_ok (px_phoneOf ports) (bd_staff db') (bd_invitations db')" using D(4-6) by (simp_all add: db')
  show "ready_ok (bd_businesses db') (d_business ` set (bd_documents db')) (h_business ` set (bd_branches db'))"
    unfolding db'
  proof (rule ready_ok_replaced [OF D(3)])
    assume "w_status (updated_business row b') \<noteq> ''draft''"
    then have s: "bz_status b' \<noteq> StatusDraft" by auto
    note t = toBusiness_Inr [OF row(2)]
    have "w_status row \<noteq> ''draft'' \<Longrightarrow> w_id row \<in> d_business ` set (bd_documents db) \<and> w_id row \<in> h_business ` set (bd_branches db)"
      using D(3) row(1) unfolding ready_ok_def by blast
    moreover have "w_id row \<in> d_business ` set (bd_documents db)" if "1 \<le> CountVerificationDocuments db (bz_id b)"
      using that t(1) unfolding CountVerificationDocuments_def count_pos by (auto intro: rev_image_eqI)
    moreover have "w_id row \<in> h_business ` set (bd_branches db)" if "1 \<le> CountBranches db (bz_id b)"
      using that t(1) unfolding CountBranches_def count_pos by (auto intro: rev_image_eqI)
    moreover have "w_status row \<noteq> ''draft''" if "bz_status b = bz_status b' \<or> bz_status b = StatusPendingReview"
      using that s t(3) by (cases "bz_status b") auto
    ultimately show "w_id (updated_business row b') \<in> d_business ` set (bd_documents db)
      \<and> w_id (updated_business row b') \<in> h_business ` set (bd_branches db)"
      using ready [OF s] by auto
  qed
qed

lemma tenants_ok_update:
  assumes ok: "tenants_ok ports db" and keep: "\<And>b b'. fn b = Inr b' \<Longrightarrow> bz_id b' = bz_id b"
    and rev: "\<And>row b b'. reviewed_ok row \<Longrightarrow> toBusiness row = Inr b \<Longrightarrow> fn b = Inr b' \<Longrightarrow> reviewed_ok (updated_business row b')"
    and ready: "\<And>b b'. fn b = Inr b' \<Longrightarrow> bz_id b = i \<Longrightarrow> bz_status b' \<noteq> StatusDraft \<Longrightarrow> bz_status b = bz_status b' \<or> bz_status b = StatusPendingReview
      \<or> 1 \<le> CountVerificationDocuments db i \<and> 1 \<le> CountBranches db i"
  shows "tenants_ok ports (snd (business_update db i v fn))"
proof -
  obtain res db' where u: "business_update db i v fn = (res, db')" by fastforce
  consider (refused) "db' = db" | (changed) row b b' where "w_id row = id_value i" "fn b = Inr b'" "business_changed db row b b' db'"
    by (rule business_update_cases [OF tenants_ok_ids [OF ok] keep u])
  then show ?thesis
  proof cases
    case refused
    then show ?thesis using ok u by simp
  next
    case (changed row b b')
    have r: "reviewed_ok row" "toBusiness row = Inr b"
      using changed(3) businesses_okD(2) [OF tenants_okD(1) [OF ok]] by (auto simp: business_changed_def)
    have "bz_id b = i" using toBusiness_Inr(1) [OF r(2)] changed(1) by (metis id_value_inject)
    then have "tenants_ok ports db'" using tenants_ok_changed [OF ok changed(3) rev [OF r changed(2)]] ready [OF changed(2)] by blast
    then show ?thesis using u by simp
  qed
qed


lemma tenants_ok_rename: "tenants_ok ports db \<Longrightarrow> tenants_ok ports (snd (Businesses_Update db i v (\<lambda>b. Rename b (name b) (legal b) now)))"
  unfolding Businesses_Update_def
  by (rule tenants_ok_update) (auto dest: Rename_Inr intro: reviewed_ok_same)

lemma tenants_ok_submit: "tenants_ok ports db \<Longrightarrow> tenants_ok ports (snd (UpdateWithReadiness db i v (\<lambda>b r. Submit b r now)))"
  unfolding UpdateWithReadiness_def
  by (rule tenants_ok_update) (auto dest: Submit_Inr intro: reviewed_ok_same)

lemma tenants_ok_approve:
  assumes "tenants_ok ports db" "require admin = None"
  shows "tenants_ok ports (snd (Businesses_Update db i v (\<lambda>b. Approve b (ad_id admin) now)))"
  unfolding Businesses_Update_def
  by (rule tenants_ok_update [OF assms(1)]) (use assms(2) in \<open>auto simp: require_None dest: Approve_Inr intro: reviewed_ok_decided\<close>)

lemma tenants_ok_reject:
  assumes "tenants_ok ports db" "require admin = None"
  shows "tenants_ok ports (snd (Businesses_Update db i v (\<lambda>b. Reject b (ad_id admin) reason now)))"
  unfolding Businesses_Update_def
  by (rule tenants_ok_update [OF assms(1)]) (use assms(2) in \<open>auto simp: require_None dest: Reject_Inr intro: reviewed_ok_decided\<close>)

lemma Businesses_Register_Inr:
  assumes "Businesses_Register db b m = (Inr x, db')" "st_branches m = []"
  shows "InsertBusiness db (business_row_of b) = Inr (db\<lparr>bd_businesses := bd_businesses db @ [business_row_of b]\<rparr>)"
    "\<exists>db1. InsertStaffMember (db\<lparr>bd_businesses := bd_businesses db @ [business_row_of b]\<rparr>) (staff_row_of m) = Inr db1"
    "db' = db\<lparr>bd_businesses := bd_businesses db @ [business_row_of b], bd_staff := bd_staff db @ [staff_row_of m]\<rparr>"
proof -
  obtain db1 where i: "InsertBusiness db (business_row_of b) = Inr db1" and s: "insertStaff db1 m = Inr db'"
    using assms(1) by (auto simp: Businesses_Register_def register_tx_def split: sum.splits if_splits)
  have db1: "db1 = db\<lparr>bd_businesses := bd_businesses db @ [business_row_of b]\<rparr>"
    using i by (auto simp: InsertBusiness_def split: if_splits)
  show "InsertBusiness db (business_row_of b) = Inr (db\<lparr>bd_businesses := bd_businesses db @ [business_row_of b]\<rparr>)" using i db1 by simp
  show "\<exists>db1. InsertStaffMember (db\<lparr>bd_businesses := bd_businesses db @ [business_row_of b]\<rparr>) (staff_row_of m) = Inr db1"
    "db' = db\<lparr>bd_businesses := bd_businesses db @ [business_row_of b], bd_staff := bd_staff db @ [staff_row_of m]\<rparr>"
    using insertStaff_Inr [OF s] assms(2) by (simp_all add: db1 staff_branch_rows_def)
qed

lemma Businesses_Register_Inl: "Businesses_Register db b m = (Inl e, db') \<Longrightarrow> db' = db"
  by (auto simp: Businesses_Register_def split: sum.splits)

lemma InsertBusiness_Inr:
  assumes "InsertBusiness db row = Inr db'"
  shows "business_ok row" "r \<in> set (bd_businesses db) \<Longrightarrow> w_id r \<noteq> w_id row"
    "r \<in> set (bd_businesses db) \<Longrightarrow> w_owner r = w_owner row \<Longrightarrow> w_cr r \<noteq> w_cr row"
  using assms by (auto simp: InsertBusiness_def list_ex_iff split: if_splits)

lemma businesses_ok_register:
  assumes ok: "businesses_ok rows" and new: "business_ok new" "w_status new = ''draft''" "w_reviewed_by new = None"
    and id: "\<And>r. r \<in> set rows \<Longrightarrow> w_id r \<noteq> w_id new"
    and cr: "\<And>r. r \<in> set rows \<Longrightarrow> w_owner r = w_owner new \<Longrightarrow> w_cr r \<noteq> w_cr new"
  shows "businesses_ok (rows @ [new])"
  unfolding businesses_ok_def
proof (intro conjI ballI impI)
  have "w_id new \<notin> w_id ` set rows" using id by (metis imageE)
  moreover have "distinct (map w_id rows)" using ok unfolding businesses_ok_def by blast
  ultimately show "distinct (map w_id (rows @ [new]))" by simp
  fix r assume "r \<in> set (rows @ [new])"
  then have r: "r \<in> set rows \<or> r = new" by auto
  show "business_ok r" using r new(1) businesses_okD(1) [OF ok] by blast
  show "reviewed_ok r" using r new(2,3) businesses_okD(2) [OF ok] by (auto simp: reviewed_ok_def)
  fix q assume "q \<in> set (rows @ [new])"
  then have q: "q \<in> set rows \<or> q = new" by auto
  have "\<not> claimed new" using new(2) by (simp add: claimed_def)
  then show "w_id r = w_id q" if "claimed r" "claimed q" "w_cr r = w_cr q"
    using r q that businesses_okD(3) [OF ok] by metis
  show "w_id r = w_id q" if "w_owner r = w_owner q" "w_cr r = w_cr q"
    using r q that businesses_okD(4) [OF ok] cr by metis
qed

lemma tenants_ok_register:
  assumes ok: "tenants_ok ports db" and reg: "RegisterBusiness i s owner r now = Inr (b, m)"
  shows "tenants_ok ports (snd (Businesses_Register db b m))"
proof (cases "Businesses_Register db b m")
  case (Pair res db')
  note D = tenants_okD [OF ok]
  have b: "w_status (business_row_of b) = ''draft''" "w_reviewed_by (business_row_of b) = None" "w_id (business_row_of b) = id_value i"
    "w_owner (business_row_of b) = id_value owner"
    and m: "f_business (staff_row_of m) = id_value i" "f_role (staff_row_of m) = ''owner''" "f_user (staff_row_of m) = Some (id_value owner)"
    "f_active (staff_row_of m)" "st_branches m = []"
    using reg by (auto simp: RegisterBusiness_def business_row_of_def staff_row_of_def Let_def split: if_splits sum.splits)
  show ?thesis
  proof (cases res)
    case (Inl e)
    then show ?thesis using Businesses_Register_Inl [of db b m e db'] Pair ok by simp
  next
    case (Inr x)
    note R = Businesses_Register_Inr [OF Pair [unfolded Inr] m(5)]
    note B = InsertBusiness_Inr [OF R(1)]
    obtain db1 where db1: "InsertStaffMember (db\<lparr>bd_businesses := bd_businesses db @ [business_row_of b]\<rparr>) (staff_row_of m) = Inr db1"
      using R(2) by blast
    have f: "f_id (staff_row_of m) \<notin> f_id ` set (bd_staff db)" using InsertStaffMember_Inr(4) [OF db1] by fastforce
    have n: "id_value i \<notin> fst ` set (owner_pairs (bd_businesses db))" using B(2) b(3) by (fastforce simp: owner_pairs_def)
    have "tenants_ok ports db'"
    proof
      show "businesses_ok (bd_businesses db')" using businesses_ok_register [OF D(1) B(1) b(1,2)] B(2,3) by (simp add: R(3))
      show "owners_ok (owner_pairs (bd_businesses db')) (bd_staff db')"
        using owners_ok_register [OF D(2) n m(1-4) f] b by (simp add: R(3) owner_pairs_def)
      show "ready_ok (bd_businesses db') (d_business ` set (bd_documents db')) (h_business ` set (bd_branches db'))"
        using D(3) b(1) by (auto simp: R(3) ready_ok_def)
      show "invitations_ok (bd_invitations db')" "phones_ok (bd_invitations db')" using D(4,5) by (simp_all add: R(3))
      show "joined_ok (px_phoneOf ports) (bd_staff db') (bd_invitations db')" using D(6) m(2) by (simp add: R(3) joined_ok_def)
    qed
    then show ?thesis using Pair by simp
  qed
qed


lemma tenants_ok_cong:
  assumes "tenants_ok ports db" "bd_businesses db' = bd_businesses db" "bd_staff db' = bd_staff db" "bd_invitations db' = bd_invitations db"
    "d_business ` set (bd_documents db) \<subseteq> d_business ` set (bd_documents db')"
    "h_business ` set (bd_branches db) \<subseteq> h_business ` set (bd_branches db')"
  shows "tenants_ok ports db'"
  using tenants_okD [OF assms(1)] ready_ok_mono assms(2-6) by (intro tenants_okI) auto

lemma tenants_ok_attach: "tenants_ok ports db \<Longrightarrow> tenants_ok ports (snd (Documents_Attach db doc check))"
  by (erule tenants_ok_cong)
    (auto simp: Documents_Attach_def commit_def InsertVerificationDocument_def split: option.splits sum.splits if_splits)

lemma tenants_ok_add_branch: "tenants_ok ports db \<Longrightarrow> tenants_ok ports (snd (Branches_Add db b allow))"
  by (erule tenants_ok_cong)
    (auto simp: Branches_Add_def commit_def InsertBranch_def split: option.splits sum.splits if_splits)

lemma UpdateBranch_stmt_Inr:
  assumes "UpdateBranch_stmt db business i v next' = Inr (n, db')"
  shows "bd_businesses db' = bd_businesses db" "bd_staff db' = bd_staff db" "bd_invitations db' = bd_invitations db"
    "bd_documents db' = bd_documents db" "h_business ` set (bd_branches db') = h_business ` set (bd_branches db)"
proof -
  have db': "db' = db\<lparr>bd_branches := map (\<lambda>r. if h_business r = id_value business \<and> h_id r = id_value i \<and> h_version r = v
      then updated_branch r next' else r) (bd_branches db)\<rparr>"
    using assms by (auto simp: UpdateBranch_stmt_def Let_def split: if_splits)
  then show "bd_businesses db' = bd_businesses db" "bd_staff db' = bd_staff db" "bd_invitations db' = bd_invitations db"
    "bd_documents db' = bd_documents db" by simp_all
  have "map h_business (bd_branches db') = map h_business (bd_branches db)" unfolding db' by (simp add: updated_branch_def)
  then show "h_business ` set (bd_branches db') = h_business ` set (bd_branches db)" by (metis set_map)
qed

lemma tenants_ok_edit_branch: "tenants_ok ports db \<Longrightarrow> tenants_ok ports (snd (Branches_Update db business i v fn))"
  by (erule tenants_ok_cong)
    (auto simp: Branches_Update_def commit_def UpdateBranch_stmt_Inr split: option.splits sum.splits if_splits prod.splits)

lemma tenants_ok_invite:
  assumes ok: "tenants_ok ports db" and inv: "prepare_invite ports i token now cmd owner = Inr invn"
  shows "tenants_ok ports (snd (Invitations_Invite db invn allow))"
proof (cases "Invitations_Invite db invn allow")
  case (Pair res db')
  note D = tenants_okD [OF ok]
  show ?thesis
  proof (cases res)
    case (Inl e)
    then show ?thesis using Invite_Inl [of db invn allow e db'] Pair ok by simp
  next
    case (Inr x)
    note I = Invite_Inr [OF Pair [unfolded Inr]]
    let ?row = "invitation_row_of invn"
    have row: "v_business ?row = id_value (in_business invn)" "v_phone ?row = e164 (in_phone invn)" by (simp_all add: invitation_row_of_def)
    have "\<exists>raw. NewPhoneNumber raw = Inr (in_phone invn)"
      using inv by (auto simp: prepare_invite_def NewInvitation_def Let_def split: sum.splits if_splits)
    then have ph: "NewPhoneNumber (v_phone ?row) = Inr \<lparr>e164 = v_phone ?row\<rparr>" using phone_reread row(2) by force
    have "tenants_ok ports db'"
    proof
      show "businesses_ok (bd_businesses db')" "owners_ok (owner_pairs (bd_businesses db')) (bd_staff db')"
        "ready_ok (bd_businesses db') (d_business ` set (bd_documents db')) (h_business ` set (bd_branches db'))"
        using D(1-3) by (simp_all add: I(5))
      show "invitations_ok (bd_invitations db')"
        using invitations_ok_invite [OF D(4) I(3) row] I(4) by (simp add: I(5) invitation_row_of_def)
      show "phones_ok (bd_invitations db')" using D(5) ph by (auto simp: I(5) phones_ok_def)
      show "joined_ok (px_phoneOf ports) (bd_staff db') (bd_invitations db')" using joined_ok_invite [OF D(6)] by (simp add: I(5))
    qed
    then show ?thesis using Pair by simp
  qed
qed

lemma Revoke_Inr:
  assumes "Revoke invn = Inr invn'"
  shows "in_status invn = InvitationPending" "in_id invn' = in_id invn" "in_status invn' = InvitationRevoked"
  using assms by (auto simp: Revoke_def split: if_splits)

lemma Revoke_cases:
  assumes upd: "Invitations_Update db business i Revoke = (res, db')" and ok: "invitations_ok (bd_invitations db)"
  obtains (refused) e where "res = Inl e" "db' = db"
  | (revoked) row invn where "res = Inr ()" "row \<in> set (bd_invitations db)" "v_business row = id_value business" "v_id row = id_value i"
      "v_status row = InvitationPending" "in_status invn = InvitationRevoked" "invitation_ok (saved_row row invn)"
      "db' = db\<lparr>bd_invitations := replaced v_id (saved_row row invn) (bd_invitations db)\<rparr>"
proof (cases res)
  case (Inl e)
  then show ?thesis using refused upd by (auto simp: Invitations_Update_def commit_def split: sum.splits prod.splits)
next
  case (Inr x)
  obtain row invn invn' where row: "find_first (\<lambda>r. v_business r = id_value business \<and> v_id r = id_value i) (bd_invitations db) = Some row"
    "toInvitation row = Inr invn" "Revoke invn = Inr invn'" and s: "saveInvitation db invn' = Inr db'"
    using upd Inr by (auto simp: Invitations_Update_def commit_def split: option.splits sum.splits prod.splits)
  have r: "row \<in> set (bd_invitations db)" "v_business row = id_value business" "v_id row = id_value i" using find_first_Some [OF row(1)] by auto
  have "v_id row = id_value (in_id invn')" using toInvitation_Inr(1) [OF row(2)] Revoke_Inr(2) [OF row(3)] by simp
  moreover have "distinct (map v_id (bd_invitations db))" using ok by (simp add: invitations_ok_def)
  ultimately show ?thesis
    using revoked Inr r saveInvitation_Inr [OF s r(1)] Revoke_Inr [OF row(3)] toInvitation_Inr(5) [OF row(2)] by simp
qed

lemma tenants_ok_saved:
  assumes ok: "tenants_ok ports db" and row: "row \<in> set (bd_invitations db)" "v_status row = InvitationPending"
    and new: "invitation_ok (saved_row row invn)" "in_status invn \<noteq> InvitationPending"
  shows "tenants_ok ports (db\<lparr>bd_invitations := replaced v_id (saved_row row invn) (bd_invitations db)\<rparr>)"
proof -
  note D = tenants_okD [OF ok]
  have "distinct (map v_id (bd_invitations db))" using D(4) by (simp add: invitations_ok_def)
  then have "joined_ok (px_phoneOf ports) (bd_staff db) (replaced v_id (saved_row row invn) (bd_invitations db))"
    using joined_ok_replaced [OF D(6) row(1), of "saved_row row invn"] row(2) by simp
  moreover have "invitations_ok (replaced v_id (saved_row row invn) (bd_invitations db))"
    using invitations_ok_replaced [OF D(4) row(1), of "saved_row row invn"] new by simp
  moreover have "phones_ok (replaced v_id (saved_row row invn) (bd_invitations db))"
    using D(5) row(1) in_replaced unfolding phones_ok_def by (metis saved_row_keeps(4))
  ultimately show ?thesis using D(1-3) by (intro tenants_okI) simp_all
qed

lemma tenants_ok_revoke:
  assumes ok: "tenants_ok ports db"
  shows "tenants_ok ports (snd (Invitations_Update db business i Revoke))"
proof -
  obtain res db' where u: "Invitations_Update db business i Revoke = (res, db')" by fastforce
  show ?thesis using Revoke_cases [OF u tenants_okD(4) [OF ok]] tenants_ok_saved [OF ok] ok u
    by (metis InvitationStatus.distinct(3) snd_conv)
qed


lemma tenants_ok_accept:
  assumes ok: "tenants_ok ports db" and ph: "px_phoneOf ports actor = Inr phone"
  shows "tenants_ok ports (snd (Invitations_Accept db h (accept_fn staff actor phone now)))"
proof -
  obtain res db' where u: "Invitations_Accept db h (accept_fn staff actor phone now) = (res, db')" by fastforce
  note D = tenants_okD [OF ok]
  consider (refused) "db' = db"
    | (joined) row invn invn' m db1 where "row \<in> set (bd_invitations db)" "toInvitation row = Inr invn"
      "accept_fn staff actor phone now invn = Inr (m, invn')" "invitation_ok (saved_row row invn')"
      "InsertStaffMember (db\<lparr>bd_invitations := replaced v_id (saved_row row invn') (bd_invitations db)\<rparr>) (staff_row_of m) = Inr db1"
      "db' = db\<lparr>bd_invitations := replaced v_id (saved_row row invn') (bd_invitations db),
         bd_staff := bd_staff db @ [staff_row_of m], bd_staff_branches := bd_staff_branches db @ staff_branch_rows m\<rparr>"
    by (rule Invitations_Accept_cases [OF u D(4)])
  then have "tenants_ok ports db'"
  proof cases
    case refused
    then show ?thesis using ok by simp
  next
    case joined
    note A = Accept_Inr [OF joined(3)] and T = toInvitation_Inr [OF joined(2)] and S = InsertStaffMember_Inr [OF joined(5)]
    let ?new = "saved_row row invn'" and ?s = "staff_row_of m"
    have row: "v_status row = InvitationPending" using A(2) T(5) by simp
    have "v_role row \<in> {''manager'', ''barber''}" using D(4) joined(1) by (auto simp: invitations_ok_def invitation_ok_def)
    then have role: "f_role ?s \<noteq> ''owner''" "f_role ?s = v_role row" using A(4) T(4) by (auto simp: staff_row_of_def)
    have s: "f_user ?s = Some (id_value actor)" "f_business ?s = v_business row" using A(4) T(2) by (simp_all add: staff_row_of_def)
    have new: "in_status invn' = InvitationAccepted" "invitation_ok ?new" "in_acceptedBy invn' = actor" using A(5) joined(4) by simp_all
    have z: "\<not> ID_IsZero actor" using new by (auto simp: invitation_ok_def saved_row_def optional_id_def split: if_splits)
    have "v_phone row = e164 phone"
      using D(5) joined(1) A(1) T(3) unfolding phones_ok_def by (metis PhoneNumber.select_convs(1) sum.inject(2))
    then have j: "joined_by (px_phoneOf ports) ?s ?new"
      unfolding joined_by_def using new(1,3) s role(2) z ph by (auto simp: optional_id_def)
    have n: "?new \<in> set (replaced v_id ?new (bd_invitations db))" using replaced_new [OF joined(1), of v_id ?new] by simp
    note O = tenants_okD [OF tenants_ok_saved [OF ok joined(1) row joined(4)]]
    have O: "businesses_ok (bd_businesses db)" "owners_ok (owner_pairs (bd_businesses db)) (bd_staff db)"
      "ready_ok (bd_businesses db) (d_business ` set (bd_documents db)) (h_business ` set (bd_branches db))"
      "invitations_ok (replaced v_id ?new (bd_invitations db))" "phones_ok (replaced v_id ?new (bd_invitations db))"
      "joined_ok (px_phoneOf ports) (bd_staff db) (replaced v_id ?new (bd_invitations db))"
      using O new(1) by simp_all
    have f: "f_id ?s \<notin> f_id ` set (bd_staff db)" using S(4) by fastforce
    have w: "f_business ?s \<in> fst ` set (owner_pairs (bd_businesses db))" using S(3) by (auto simp: owner_pairs_def intro: rev_image_eqI)
    have "owners_ok (owner_pairs (bd_businesses db)) (bd_staff db @ [?s])"
      by (rule owners_ok_add [OF O(2) w role(1) _ f]) (use s(1) S(6) in auto)
    moreover have "joined_ok (px_phoneOf ports) (bd_staff db @ [?s]) (replaced v_id ?new (bd_invitations db))"
      using O(6) j n unfolding joined_ok_def set_append by auto
    ultimately show ?thesis unfolding joined(6) using O by (intro tenants_okI) simp_all
  qed
  then show ?thesis using u by simp
qed

text \<open>The tables of the business module as a system of steps with an invariant.\<close>

definition any_step :: "business_ports \<Rightarrow> business_db \<Rightarrow> business_db \<Rightarrow> bool" where
  "any_step ports db db' \<longleftrightarrow> (\<exists>now. business_step ports now db db')"

lemma business_step_ok: "business_step ports now db db' \<Longrightarrow> tenants_ok ports db \<Longrightarrow> tenants_ok ports db'"
  by (induction rule: business_step.induct)
    (auto intro: tenants_ok_register tenants_ok_rename tenants_ok_submit tenants_ok_approve tenants_ok_reject tenants_ok_attach
      tenants_ok_add_branch tenants_ok_edit_branch tenants_ok_invite tenants_ok_revoke tenants_ok_accept)

interpretation tenants_kept: invariant_system "any_step ports" "tenants_ok ports" for ports
  by unfold_locales (auto simp: any_step_def intro: business_step_ok)

end
