(* ===== verification/Invites.thy ===== *)
theory Invites
  imports Tenants
begin

text \<open>
  How often invitations are sent, how many people a plan lets in, and who may join: what the limits of
  \<open>invitation.go\<close> and \<open>limits.go\<close> amount to over every sequence of transactions.
\<close>

section \<open>How often invitations are sent\<close>

definition sent_in :: "(invitation_row \<Rightarrow> bool) \<Rightarrow> gotime \<Rightarrow> invitation_row list \<Rightarrow> nat" where
  "sent_in who t invs = length (filter (\<lambda>i. who i \<and> t < v_created_at i \<and> v_created_at i \<le> t + InviteWindow) invs)"

definition paced :: "invitation_row list \<Rightarrow> bool" where
  "paced invs \<longleftrightarrow>
     (\<forall>p t. int (sent_in (\<lambda>i. v_phone i = p) t invs) \<le> MaxInvitesPerPhone)
     \<and> (\<forall>b t. int (sent_in (\<lambda>i. v_business i = b) t invs) \<le> MaxInvitesPerBusiness)
     \<and> sorted_wrt (\<lambda>i j. same_invitee i j \<longrightarrow> v_created_at i + InviteCooldown \<le> v_created_at j) invs"

lemma fold_max_ge: "t \<in> set (x # ts) \<Longrightarrow> t \<le> fold max ts (x :: int)"
  using Max.set_eq_fold [of x ts] Max_ge [of "set (x # ts)" t] by simp

lemma fold_min_in: "fold min ts (x :: int) \<in> set (x # ts)"
  using Min.set_eq_fold [of x ts] Min_in [of "set (x # ts)"] by simp

lemma newest_since_ge: "t \<in> set ts \<Longrightarrow> t \<le> newest_since since ts"
  using fold_max_ge by (auto simp: newest_since_def split: list.splits)

lemma oldest_since_in: "ts \<noteq> [] \<Longrightarrow> oldest_since since ts \<in> set ts"
  using fold_min_in by (auto simp: oldest_since_def split: list.splits)

lemma filter_length_mono: "(\<And>x. x \<in> set xs \<Longrightarrow> P x \<Longrightarrow> Q x) \<Longrightarrow> length (filter P xs) \<le> length (filter Q xs)"
  by (induction xs) auto

text \<open>One more invitation keeps a limit of \<open>n\<close> in every window, if it waited for the oldest of \<open>n\<close> recent ones.\<close>

lemma sent_in_snoc:
  assumes before: "\<And>t. int (sent_in who t invs) \<le> n" and n: "0 < n"
    and wait: "n \<le> int (length (filter who (filter (\<lambda>i. v_created_at new - InviteWindow < v_created_at i) invs)))
      \<Longrightarrow> oldest_since s (map v_created_at (filter who (filter (\<lambda>i. v_created_at new - InviteWindow < v_created_at i) invs))) + InviteWindow
          \<le> v_created_at new"
  shows "int (sent_in who t (invs @ [new])) \<le> n"
proof (cases "who new \<and> t < v_created_at new \<and> v_created_at new \<le> t + InviteWindow")
  case False
  then show ?thesis using before [of t] by (auto simp: sent_in_def)
next
  case True
  let ?recent = "filter who (filter (\<lambda>i. v_created_at new - InviteWindow < v_created_at i) invs)"
  have "sent_in who t invs \<le> length ?recent"
    unfolding sent_in_def filter_filter by (rule filter_length_mono) (use True in auto)
  moreover have "int (length ?recent) < n"
  proof (rule ccontr)
    assume m: "\<not> int (length ?recent) < n"
    then have "map v_created_at ?recent \<noteq> []" using n by auto
    then have "oldest_since s (map v_created_at ?recent) \<in> set (map v_created_at ?recent)" by (rule oldest_since_in)
    moreover have "\<forall>c \<in> set (map v_created_at ?recent). v_created_at new < c + InviteWindow" by auto
    ultimately show False using wait m by force
  qed
  ultimately show ?thesis using True by (simp add: sent_in_def)
qed

lemma sent_in_withdrawn:
  assumes "\<And>i. who (withdrawn b p i) = who i"
  shows "sent_in who t (map (withdrawn b p) invs) = sent_in who t invs"
  using assms by (simp add: sent_in_def filter_map comp_def)

lemma paced_withdrawn: "paced (map (withdrawn b p) invs) = paced invs"
  by (simp add: paced_def sent_in_withdrawn sorted_wrt_map same_invitee_def)

lemma paced_invite:
  assumes ok: "paced invs" and new: "v_created_at new = db_time c" "v_business new = id_value b" "v_phone new = e164 p" "db_time c = c"
    and allow: "AllowInvite (invite_history db b p (c - InviteWindow)) c = None" "bd_invitations db = invs"
  shows "paced (invs @ [new])"
  unfolding paced_def
proof (intro conjI allI)
  let ?since = "c - InviteWindow"
  have since: "db_time ?since = ?since"
    using db_time_shift [of "- InviteWindow" c] new(4) by (simp add: InviteWindow_def hour_def)
  let ?recent = "filter (\<lambda>i. ?since < v_created_at i) invs"
  have h: "invite_history db b p ?since = \<lparr>
      ih_lastToPhone = newest_since ?since (map v_created_at (filter (\<lambda>i. v_business i = id_value b \<and> v_phone i = e164 p) ?recent)),
      ih_toPhone = int (length (filter (\<lambda>i. v_phone i = e164 p) ?recent)),
      ih_oldestToPhone = oldest_since ?since (map v_created_at (filter (\<lambda>i. v_phone i = e164 p) ?recent)),
      ih_byBusiness = int (length (filter (\<lambda>i. v_business i = id_value b) ?recent)),
      ih_oldestBusiness = oldest_since ?since (map v_created_at (filter (\<lambda>i. v_business i = id_value b) ?recent))\<rparr>"
    by (simp add: invite_history_def Let_def since allow(2))
  note A = allow(1) [unfolded AllowInvite_None_iff h InviteHistory.select_convs]
  have c: "v_created_at new = c" using new(1,4) by simp
  have L: "0 < MaxInvitesPerPhone" "0 < MaxInvitesPerBusiness" by (simp_all add: MaxInvitesPerPhone_def MaxInvitesPerBusiness_def)
  have ok1: "\<And>q t. int (sent_in (\<lambda>i. v_phone i = q) t invs) \<le> MaxInvitesPerPhone"
    and ok2: "\<And>q t. int (sent_in (\<lambda>i. v_business i = q) t invs) \<le> MaxInvitesPerBusiness" using ok by (simp_all add: paced_def)
  show "int (sent_in (\<lambda>i. v_phone i = q) t (invs @ [new])) \<le> MaxInvitesPerPhone" for q t
  proof (cases "q = e164 p")
    case True
    show ?thesis by (rule sent_in_snoc [OF ok1 L(1)]) (use A True c in auto)
  next
    case False
    then show ?thesis using ok1 new(3) by (simp add: sent_in_def)
  qed
  show "int (sent_in (\<lambda>i. v_business i = q) t (invs @ [new])) \<le> MaxInvitesPerBusiness" for q t
  proof (cases "q = id_value b")
    case True
    show ?thesis by (rule sent_in_snoc [OF ok2 L(2)]) (use A True c in auto)
  next
    case False
    then show ?thesis using ok2 new(2) by (simp add: sent_in_def)
  qed
  have "v_created_at i + InviteCooldown \<le> v_created_at new" if i: "i \<in> set invs" "same_invitee i new" for i
  proof (cases "?since < v_created_at i")
    case True
    then have "v_created_at i \<in> set (map v_created_at (filter (\<lambda>i. v_business i = id_value b \<and> v_phone i = e164 p) ?recent))"
      using i new(2,3) by (auto simp: same_invitee_def)
    then show ?thesis using newest_since_ge [of "v_created_at i" _ ?since] A c by fastforce
  next
    case False
    then show ?thesis using c by (simp add: InviteWindow_def InviteCooldown_def hour_def minute_def)
  qed
  then show "sorted_wrt (\<lambda>i j. same_invitee i j \<longrightarrow> v_created_at i + InviteCooldown \<le> v_created_at j) (invs @ [new])"
    using ok by (simp add: paced_def sorted_wrt_snoc)
qed

text \<open>Invitations are only ever added by inviting; what else happens to them keeps their times.\<close>

definition timed :: "invitation_row \<Rightarrow> uuid \<times> string \<times> gotime" where
  "timed i = (v_business i, v_phone i, v_created_at i)"

lemma sent_in_timed:
  assumes "map timed invs = map timed invs'" "\<And>i j. timed i = timed j \<Longrightarrow> who i = who j"
  shows "sent_in who t invs = sent_in who t invs'"
proof -
  let ?P = "\<lambda>i. who i \<and> t < v_created_at i \<and> v_created_at i \<le> t + InviteWindow"
  have P: "?P i = ?P j" if "timed i = timed j" for i j using assms(2) [OF that] that by (simp add: timed_def)
  have "list_all2 (=) (map timed invs) (map timed invs')" using assms(1) by (simp add: list.rel_eq)
  then have "list_all2 (\<lambda>i j. timed i = timed j) invs invs'" by (simp add: list.rel_map)
  then have "length (filter ?P invs) = length (filter ?P invs')"
  proof (induction rule: list_all2_induct)
    case (Cons i rest j rest2)
    then show ?case using P [of i j] by simp
  qed simp
  then show ?thesis by (simp only: sent_in_def)
qed

lemma paced_timed:
  assumes "map timed invs = map timed invs'" "paced invs"
  shows "paced invs'"
proof -
  let ?R = "\<lambda>(b, p, c) (b', p', c'). b = b' \<and> p = p' \<longrightarrow> c + InviteCooldown \<le> c'"
  have "sorted_wrt (\<lambda>i j. same_invitee i j \<longrightarrow> v_created_at i + InviteCooldown \<le> v_created_at j) xs = sorted_wrt ?R (map timed xs)" for xs
    by (simp add: sorted_wrt_map timed_def same_invitee_def)
  moreover have "sent_in (\<lambda>i. v_phone i = q) t invs = sent_in (\<lambda>i. v_phone i = q) t invs'"
    "sent_in (\<lambda>i. v_business i = b) t invs = sent_in (\<lambda>i. v_business i = b) t invs'" for q b t
    using assms(1) by (auto intro!: sent_in_timed simp: timed_def)
  ultimately show ?thesis using assms unfolding paced_def by simp
qed


lemma timed_replaced:
  assumes "distinct (map v_id invs)" "row \<in> set invs"
  shows "map timed (replaced v_id (saved_row row n) invs) = map timed invs"
proof -
  have "i \<in> set invs \<Longrightarrow> v_id i = v_id row \<Longrightarrow> i = row" for i using assms by (metis distinct_map inj_onD)
  then have "i \<in> set invs \<Longrightarrow> timed (if v_id i = v_id (saved_row row n) then saved_row row n else i) = timed i" for i
    by (auto simp: timed_def)
  then show ?thesis by (simp add: replaced_def)
qed

text \<open>Transactions on businesses, documents and branches leave staff and invitations alone, except that a registration adds its owner.\<close>

lemma business_update_keeps:
  "bd_invitations (snd (business_update db i v fn)) = bd_invitations db" "bd_staff (snd (business_update db i v fn)) = bd_staff db"
  by (auto simp: business_update_def UpdateBusiness_stmt_def commit_def Let_def split: sum.splits option.splits if_splits prod.splits)

lemma Documents_Attach_keeps:
  "bd_invitations (snd (Documents_Attach db d c)) = bd_invitations db" "bd_staff (snd (Documents_Attach db d c)) = bd_staff db"
  by (auto simp: Documents_Attach_def InsertVerificationDocument_def commit_def split: sum.splits option.splits if_splits)

lemma Branches_Add_keeps:
  "bd_invitations (snd (Branches_Add db b a)) = bd_invitations db" "bd_staff (snd (Branches_Add db b a)) = bd_staff db"
  by (auto simp: Branches_Add_def InsertBranch_def commit_def split: sum.splits option.splits if_splits)

lemma Branches_Update_keeps:
  "bd_invitations (snd (Branches_Update db b i v fn)) = bd_invitations db" "bd_staff (snd (Branches_Update db b i v fn)) = bd_staff db"
  by (auto simp: Branches_Update_def UpdateBranch_stmt_Inr commit_def split: sum.splits option.splits if_splits prod.splits)

lemma Register_keeps:
  assumes "RegisterBusiness i s owner r now = Inr (b, m)"
  shows "bd_invitations (snd (Businesses_Register db b m)) = bd_invitations db"
    "bd_staff (snd (Businesses_Register db b m)) = bd_staff db \<or> (\<exists>o'. f_role o' = ''owner'' \<and> bd_staff (snd (Businesses_Register db b m)) = bd_staff db @ [o'])"
proof -
  obtain res db' where u: "Businesses_Register db b m = (res, db')" by fastforce
  have m: "f_role (staff_row_of m) = ''owner''" "st_branches m = []"
    using assms by (auto simp: RegisterBusiness_def staff_row_of_def Let_def split: if_splits sum.splits)
  have "bd_invitations db' = bd_invitations db \<and> (bd_staff db' = bd_staff db \<or> bd_staff db' = bd_staff db @ [staff_row_of m])"
    using u Businesses_Register_Inl [of db b m _ db'] Businesses_Register_Inr(3) [OF _ m(2), of db b _ db'] by (cases res) auto
  then show "bd_invitations (snd (Businesses_Register db b m)) = bd_invitations db"
    "bd_staff (snd (Businesses_Register db b m)) = bd_staff db \<or> (\<exists>o'. f_role o' = ''owner'' \<and> bd_staff (snd (Businesses_Register db b m)) = bd_staff db @ [o'])"
    using u m(1) by auto
qed

lemmas quiet_steps = business_update_keeps Documents_Attach_keeps Branches_Add_keeps Branches_Update_keeps
  Businesses_Update_def UpdateWithReadiness_def

text \<open>The shapes a step can have, as far as staff and invitations are concerned.\<close>

lemma step_shapes:
  assumes step: "business_step ports now db db'" and ok: "tenants_ok ports db"
  obtains (quiet) "bd_invitations db' = bd_invitations db"
      "bd_staff db' = bd_staff db \<or> (\<exists>o'. f_role o' = ''owner'' \<and> bd_staff db' = bd_staff db @ [o'])"
  | (invited) i token cmd owner invn plan where "prepare_invite ports i token now cmd owner = Inr invn"
      "px_standing ports (iv_business cmd) = Inr plan"
      "Invitations_Invite db invn (AllowStaff (ps_limits plan)) = (Inr (), db')"
  | (revoked) row invn where "row \<in> set (bd_invitations db)" "in_status invn = InvitationRevoked"
      "bd_invitations db' = replaced v_id (saved_row row invn) (bd_invitations db)" "bd_staff db' = bd_staff db"
  | (joined) row m invn where "row \<in> set (bd_invitations db)" "v_status row = InvitationPending" "now < v_expires_at row"
      "in_status invn = InvitationAccepted" "f_business m = v_business row" "f_role m \<noteq> ''owner''"
      "bd_invitations db' = replaced v_id (saved_row row invn) (bd_invitations db)" "bd_staff db' = bd_staff db @ [m]"
  using step
proof cases
  case (register crText r i s owner b m)
  then show ?thesis using quiet Register_keeps [OF register(3)] by simp
next
  case (invite i token cmd owner invn plan)
  show ?thesis
  proof (cases "fst (Invitations_Invite db invn (AllowStaff (ps_limits plan)))")
    case (Inl e)
    then show ?thesis using quiet invite(1) Invite_Inl [of db invn _ e db'] by (metis prod.collapse)
  next
    case (Inr x)
    then show ?thesis using invited [OF invite(2,3)] invite(1) by (metis old.unit.exhaust prod.collapse)
  qed
next
  case (revoke business i)
  obtain res where u: "Invitations_Update db business i Revoke = (res, db')" using revoke by (metis prod.collapse)
  consider "db' = db" | row invn where "row \<in> set (bd_invitations db)" "in_status invn = InvitationRevoked"
      "db' = db\<lparr>bd_invitations := replaced v_id (saved_row row invn) (bd_invitations db)\<rparr>"
    by (rule Revoke_cases [OF u tenants_okD(4) [OF ok]])
  then show ?thesis using quiet revoked by cases simp_all
next
  case (accept actor phone token staff)
  obtain res where u: "Invitations_Accept db (px_hash ports token) (accept_fn staff actor phone now) = (res, db')" using accept by (metis prod.collapse)
  consider "db' = db"
    | row invn invn' m where "row \<in> set (bd_invitations db)" "toInvitation row = Inr invn" "accept_fn staff actor phone now invn = Inr (m, invn')"
      "db' = db\<lparr>bd_invitations := replaced v_id (saved_row row invn') (bd_invitations db),
         bd_staff := bd_staff db @ [staff_row_of m], bd_staff_branches := bd_staff_branches db @ staff_branch_rows m\<rparr>"
    by (rule Invitations_Accept_cases [OF u tenants_okD(4) [OF ok]])
  then show ?thesis
  proof cases
    case 2
    note A = Accept_Inr [OF 2(3)] and T = toInvitation_Inr [OF 2(2)]
    have "v_role row \<in> {''manager'', ''barber''}"
      using tenants_okD(4) [OF ok] 2(1) by (auto simp: invitations_ok_def invitation_ok_def)
    then have "f_role (staff_row_of m) \<noteq> ''owner''" using A(4) T(4) by (auto simp: staff_row_of_def)
    then show ?thesis using joined [of row invn' "staff_row_of m"] 2(1,4) A T by (simp add: staff_row_of_def)
  qed (use quiet in simp)
qed (use quiet in \<open>simp_all add: quiet_steps\<close>)

lemma paced_step:
  assumes "business_step ports now db db'" "tenants_ok ports db" "paced (bd_invitations db)"
  shows "paced (bd_invitations db')"
  using assms(1,2)
proof (cases rule: step_shapes)
  case quiet
  then show ?thesis using assms(3) by simp
next
  case (invited i token cmd owner invn plan)
  note I = Invite_Inr [OF invited(3)]
  have "\<exists>t. in_createdAt invn = db_time t"
    using invited(1) by (auto simp: prepare_invite_def NewInvitation_def Let_def split: sum.splits if_splits)
  then have c: "db_time (in_createdAt invn) = in_createdAt invn" by auto
  let ?db = "db\<lparr>bd_invitations := map (withdrawn (in_business invn) (in_phone invn)) (bd_invitations db)\<rparr>"
  have "invite_history ?db b p t = invite_history db b p t" for b p t
    by (simp add: invite_history_def Let_def filter_map comp_def)
  then have "AllowInvite (invite_history ?db (in_business invn) (in_phone invn) (in_createdAt invn - InviteWindow)) (in_createdAt invn) = None"
    using I(1) by simp
  then show ?thesis
    using paced_invite [of "bd_invitations ?db" "invitation_row_of invn" "in_createdAt invn"] assms(3) c paced_withdrawn
    by (simp add: I(5) invitation_row_of_def)
next
  case revoked
  then show ?thesis using timed_replaced paced_timed assms(2,3) by (metis invitations_ok_def tenants_okD(4))
next
  case joined
  then show ?thesis using timed_replaced paced_timed assms(2,3) by (metis invitations_ok_def tenants_okD(4))
qed

interpretation invites_paced: invariant_system "any_step ports" "\<lambda>db. tenants_ok ports db \<and> paced (bd_invitations db)" for ports
  by unfold_locales (auto simp: any_step_def intro: business_step_ok paced_step)

section \<open>Seats\<close>

text \<open>Managers, barbers and open invitations of a business at an instant.\<close>

definition members_of :: "uuid \<Rightarrow> staff_row list \<Rightarrow> nat" where
  "members_of b staff = length (filter (\<lambda>s. f_business s = b \<and> f_role s \<noteq> ''owner'' \<and> f_active s) staff)"

definition open_at :: "uuid \<Rightarrow> gotime \<Rightarrow> invitation_row \<Rightarrow> bool" where
  "open_at b t i \<longleftrightarrow> v_business i = b \<and> v_status i = InvitationPending \<and> db_time t < v_expires_at i"

lemma CountStaffSeats_eq:
  "CountStaffSeats db business t = int (members_of (id_value business) (bd_staff db)
     + length (filter (open_at (id_value business) t) (bd_invitations db)))"
  unfolding CountStaffSeats_def members_of_def open_at_def by simp

lemma seats_later: "t \<le> u \<Longrightarrow> CountStaffSeats db b u \<le> CountStaffSeats db b t"
  unfolding CountStaffSeats_eq using db_time_mono [of t u]
  by (auto intro!: filter_length_mono simp: open_at_def)

lemma filter_replaced_le:
  assumes "P new \<Longrightarrow> P old" "distinct (map k rows)" "old \<in> set rows" "k new = k old"
  shows "length (filter P (replaced k new rows)) \<le> length (filter P rows)"
proof -
  have "r \<in> set rows \<Longrightarrow> k r = k new \<Longrightarrow> P new \<Longrightarrow> P r" for r using assms by (metis distinct_map inj_onD)
  then show ?thesis unfolding replaced_def by (induction rows) auto
qed

lemma filter_replaced_out:
  assumes "P old" "\<not> P new" "distinct (map k rows)" "old \<in> set rows" "k new = k old"
  shows "Suc (length (filter P (replaced k new rows))) = length (filter P rows)"
  using assms
proof (induction rows)
  case (Cons r rows)
  show ?case
  proof (cases "r = old")
    case True
    then have "\<forall>q \<in> set rows. k q \<noteq> k new" using Cons.prems by (metis distinct.simps(2) image_eqI list.simps(9) set_map)
    then have "replaced k new rows = rows" by (simp add: replaced_def map_idI)
    then show ?thesis using True Cons.prems by (simp add: replaced_def)
  next
    case False
    then have "old \<in> set rows" "k r \<noteq> k new" using Cons.prems by (auto simp: image_iff)
    then show ?thesis using Cons by (auto simp: replaced_def)
  qed
qed simp

lemma seats_step:
  assumes step: "business_step ports now db db'" and ok: "tenants_ok ports db"
    and plan: "\<And>plan. px_standing ports b = Inr plan \<Longrightarrow> lm_maxStaff (ps_limits plan) \<le> limit"
    and before: "CountStaffSeats db b now \<le> limit"
  shows "CountStaffSeats db' b now \<le> limit"
proof -
  have ids: "distinct (map v_id (bd_invitations db))" using tenants_okD(4) [OF ok] by (simp add: invitations_ok_def)
  from step ok show ?thesis
  proof (cases rule: step_shapes)
    case quiet
    then have "members_of (id_value b) (bd_staff db') = members_of (id_value b) (bd_staff db)" by (auto simp: members_of_def)
    then show ?thesis using before quiet(1) by (simp add: CountStaffSeats_eq)
  next
    case (invited i token cmd owner invn plan')
    note I = Invite_Inr [OF invited(3)]
    let ?w = "map (withdrawn (in_business invn) (in_phone invn)) (bd_invitations db)"
    have inv: "in_business invn = iv_business cmd" "in_createdAt invn = db_time now"
      using invited(1) by (auto simp: prepare_invite_def NewInvitation_def Let_def split: sum.splits if_splits)
    have now: "CountStaffSeats d c (db_time now) = CountStaffSeats d c now" for d c by (simp add: CountStaffSeats_def)
    show ?thesis
    proof (cases "b = in_business invn")
      case True
      then have "lm_maxStaff (ps_limits plan') \<le> limit" using plan [of plan'] invited(2) inv by simp
      then have "CountStaffSeats (db\<lparr>bd_invitations := ?w\<rparr>) b now < limit"
        using I(2) inv now True by (simp add: AllowStaff_def split: if_splits)
      then show ?thesis by (simp add: CountStaffSeats_eq I(5))
    next
      case False
      then have "\<not> open_at (id_value b) now (invitation_row_of invn)" by (simp add: open_at_def invitation_row_of_def)
      moreover have "open_at (id_value b) now (withdrawn (in_business invn) (in_phone invn) i) = open_at (id_value b) now i" for i
        using False by (auto simp: open_at_def withdrawn_status)
      ultimately show ?thesis using before by (simp add: CountStaffSeats_eq I(5) filter_map comp_def)
    qed
  next
    case (revoked row invn)
    have "\<not> open_at (id_value b) now (saved_row row invn)" using revoked(2) by (simp add: open_at_def)
    then have "length (filter (open_at (id_value b) now) (bd_invitations db')) \<le> length (filter (open_at (id_value b) now) (bd_invitations db))"
      unfolding revoked(3) by (intro filter_replaced_le [OF _ ids revoked(1)]) auto
    then show ?thesis using before revoked(4) by (simp add: CountStaffSeats_eq)
  next
    case (joined row m invn)
    have no: "\<not> open_at (id_value b) now (saved_row row invn)" using joined(4) by (simp add: open_at_def)
    show ?thesis
    proof (cases "v_business row = id_value b")
      case True
      then have "open_at (id_value b) now row" using joined(2,3) db_time_le [of now] by (simp add: open_at_def)
      then have "Suc (length (filter (open_at (id_value b) now) (bd_invitations db'))) = length (filter (open_at (id_value b) now) (bd_invitations db))"
        unfolding joined(7) using no by (intro filter_replaced_out [OF _ _ ids joined(1)]) auto
      moreover have "members_of (id_value b) (bd_staff db') \<le> Suc (members_of (id_value b) (bd_staff db))"
        by (simp add: members_of_def joined(8))
      ultimately show ?thesis using before by (simp add: CountStaffSeats_eq)
    next
      case False
      then have "members_of (id_value b) (bd_staff db') = members_of (id_value b) (bd_staff db)" using joined(5,8) by (simp add: members_of_def)
      moreover have "length (filter (open_at (id_value b) now) (bd_invitations db')) \<le> length (filter (open_at (id_value b) now) (bd_invitations db))"
        unfolding joined(7) using no by (intro filter_replaced_le [OF _ ids joined(1)]) auto
      ultimately show ?thesis using before by (simp add: CountStaffSeats_eq)
    qed
  qed
qed

text \<open>Transactions in the order of their clock readings; the state carries the latest of them.\<close>

inductive clocked_step :: "business_ports \<Rightarrow> gotime \<times> business_db \<Rightarrow> gotime \<times> business_db \<Rightarrow> bool" for ports :: business_ports where
  "t \<le> now \<Longrightarrow> business_step ports now db db' \<Longrightarrow> clocked_step ports (t, db) (now, db')"

definition seats_ok :: "business_ports \<Rightarrow> gotime \<times> business_db \<Rightarrow> bool" where
  "seats_ok ports s \<longleftrightarrow> tenants_ok ports (snd s)
     \<and> (\<forall>b plan. px_standing ports b = Inr plan \<longrightarrow> 0 \<le> lm_maxStaff (ps_limits plan)
          \<longrightarrow> CountStaffSeats (snd s) b (fst s) \<le> lm_maxStaff (ps_limits plan))"

interpretation seats_kept: invariant_system "clocked_step ports" "seats_ok ports" for ports
proof
  fix s s' assume "clocked_step ports s s'" and ok: "seats_ok ports s"
  then obtain t now db db' where s: "s = (t, db)" "s' = (now, db')" "t \<le> now" "business_step ports now db db'"
    by (auto elim: clocked_step.cases)
  have T: "tenants_ok ports db" using ok s(1) by (simp add: seats_ok_def)
  have "CountStaffSeats db' b now \<le> lm_maxStaff (ps_limits plan)"
    if p: "px_standing ports b = Inr plan" "0 \<le> lm_maxStaff (ps_limits plan)" for b plan
  proof (rule seats_step [OF s(4) T])
    show "lm_maxStaff (ps_limits plan') \<le> lm_maxStaff (ps_limits plan)" if "px_standing ports b = Inr plan'" for plan'
      using p(1) that by simp
    have "CountStaffSeats db b t \<le> lm_maxStaff (ps_limits plan)" using ok p s(1) by (simp add: seats_ok_def)
    then show "CountStaffSeats db b now \<le> lm_maxStaff (ps_limits plan)" using seats_later [OF s(3), of db b] by simp
  qed
  then show "seats_ok ports s'" using business_step_ok [OF s(4) T] s(2) by (simp add: seats_ok_def)
qed

end
