(* ===== verification/TenantFacts.thy ===== *)
theory TenantFacts
  imports Invites
begin

text \<open>
  The properties of the business module: every use case is a run of the transactions of theory Tenants,
  and what their invariants mean for owners, reviewers, staff and strangers.
\<close>

section \<open>A run of the module\<close>

definition sample_plan :: PlanStanding where
  "sample_plan = \<lparr>ps_plan = ''free'', ps_planName = \<lparr>lt_ar = ''Free'', lt_en = []\<rparr>, ps_status = ''free'', ps_trialEndsAt = None,
     ps_limits = \<lparr>lm_maxBranches = 1, lm_maxStaff = 1\<rparr>\<rparr>"

definition sample_ports :: business_ports where
  "sample_ports = \<lparr>px_standing = (\<lambda>_. Inr sample_plan),
     px_readiness = (\<lambda>_ _. Inr \<lparr>bd_openingHours = True, bd_offeredService = True, bd_bookableBarber = True\<rparr>),
     px_phoneOf = (\<lambda>u. if u = ID 7 then Inr \<lparr>e164 = ''+966551234567''\<rparr> else Inl ErrNotFound),
     px_save = (\<lambda>_ _. Inr \<lparr>sf_id = ID 40, sf_contentType = ''application/pdf'', sf_size = 9\<rparr>),
     px_downloadURL = (\<lambda>_. ([], 0)), px_send = (\<lambda>_ _ _. None), px_hash = (\<lambda>_. replicate 32 (CHR ''h'')),
     px_zones = (\<lambda>_. Some riyadh), px_idText = (\<lambda>_. [])\<rparr>"

definition sample_registration :: Registration where
  "sample_registration = \<lparr>rg_displayName = \<lparr>lt_ar = ''Shop'', lt_en = []\<rparr>, rg_legalName = ''Shop Co'', rg_cr = \<lparr>cr_digits = ''1010101010''\<rparr>\<rparr>"

definition registered :: business_db where
  "registered = (case RegisterBusiness (ID 10) (ID 20) (ID 1) sample_registration 0 of
     Inr (b, m) \<Rightarrow> snd (Businesses_Register empty_business_db b m) | Inl _ \<Rightarrow> empty_business_db)"

definition sample_profile :: BranchProfile where
  "sample_profile = \<lparr>bp_name = \<lparr>lt_ar = ''Main'', lt_en = []\<rparr>, bp_city = ''riyadh'', bp_district = [], bp_address = ''King Rd'',
     bp_location = \<lparr>geo_lat = Fin 24, geo_lng = Fin 46\<rparr>, bp_phone = \<lparr>e164 = []\<rparr>, bp_timezone = ''Asia/Riyadh''\<rparr>"

definition with_branch :: business_db where
  "with_branch = (case NewBranch (px_zones sample_ports) (ID 30) (ID 10) sample_profile DefaultBookingPolicy 0 of
     Inr br \<Rightarrow> snd (Branches_Add registered br (AllowBranch (ps_limits sample_plan))) | Inl _ \<Rightarrow> registered)"

definition with_document :: business_db where
  "with_document = snd (Documents_Attach with_branch (NewVerificationDocument (ID 40) (ID 10) DocumentCRCertificate ''application/pdf'' 9 (ID 1) 0) CanAttachDocument)"

definition submitted :: business_db where
  "submitted = snd (UpdateWithReadiness with_document (ID 10) 1 (\<lambda>b r. Submit b r 0))"

definition approved :: business_db where
  "approved = snd (Businesses_Update submitted (ID 10) 2 (\<lambda>b. Approve b (ID 2) 0))"

definition sample_invite :: InviteStaff where
  "sample_invite = \<lparr>iv_actor = ID 1, iv_business = ID 10, iv_phone = ''0551234567'', iv_name = ''Ali'', iv_role = ''barber'', iv_branches = [ID 30]\<rparr>"

definition sample_owner :: StaffMember where
  "sample_owner = \<lparr>st_id = ID 20, st_business = ID 10, st_user = ID 1, st_role = RoleOwner, st_active = True,
     st_createdAt = 0, st_displayName = [], st_branches = []\<rparr>"

definition with_invitation :: business_db where
  "with_invitation = (case prepare_invite sample_ports (ID 50) ''inv_x'' 0 sample_invite sample_owner of
     Inr invn \<Rightarrow> snd (Invitations_Invite approved invn (AllowStaff (ps_limits sample_plan))) | Inl _ \<Rightarrow> approved)"

definition with_barber :: business_db where
  "with_barber = snd (Invitations_Accept with_invitation (px_hash sample_ports ''inv_x'') (accept_fn (ID 60) (ID 7) \<lparr>e164 = ''+966551234567''\<rparr> hour))"

lemma sample_inputs_ok:
  "is_ok (RegisterBusiness (ID 10) (ID 20) (ID 1) sample_registration 0)"
  "is_ok (NewBranch (px_zones sample_ports) (ID 30) (ID 10) sample_profile DefaultBookingPolicy 0)"
  "is_ok (prepare_invite sample_ports (ID 50) ''inv_x'' 0 sample_invite sample_owner)"
  "NewCRNumber ''1010101010'' = Inr (rg_cr sample_registration)"
  "require \<lparr>ad_id = ID 2, ad_isPlatformAdmin = True\<rparr> = None"
  by code_simp+

lemma is_ok_Inr: "is_ok r \<Longrightarrow> \<exists>x. r = Inr x"
  by (cases r) (simp_all add: is_ok_def)

lemma sample_run:
  "any_step sample_ports empty_business_db registered" "any_step sample_ports registered with_branch"
  "any_step sample_ports with_branch with_document" "any_step sample_ports with_document submitted"
  "any_step sample_ports submitted approved" "business_step sample_ports 0 approved with_invitation"
  "business_step sample_ports hour with_invitation with_barber"
proof -
  obtain b m where b: "RegisterBusiness (ID 10) (ID 20) (ID 1) sample_registration 0 = Inr (b, m)"
    using is_ok_Inr [OF sample_inputs_ok(1)] by auto
  from business_step.register [OF sample_inputs_ok(4) b] show "any_step sample_ports empty_business_db registered"
    unfolding any_step_def registered_def b by auto
  obtain br where br: "NewBranch (px_zones sample_ports) (ID 30) (ID 10) sample_profile DefaultBookingPolicy 0 = Inr br"
    using is_ok_Inr [OF sample_inputs_ok(2)] by auto
  have plan: "px_standing sample_ports i = Inr sample_plan" for i by (simp add: sample_ports_def)
  from business_step.add_branch [OF br plan] show "any_step sample_ports registered with_branch"
    unfolding any_step_def with_branch_def br by auto
  show "any_step sample_ports with_branch with_document" unfolding with_document_def any_step_def by (blast intro: business_step.attach)
  show "any_step sample_ports with_document submitted" unfolding submitted_def any_step_def by (blast intro: business_step.submit)
  from business_step.approve [OF sample_inputs_ok(5)] show "any_step sample_ports submitted approved"
    unfolding approved_def any_step_def by fastforce
  obtain invn where i: "prepare_invite sample_ports (ID 50) ''inv_x'' 0 sample_invite sample_owner = Inr invn"
    using is_ok_Inr [OF sample_inputs_ok(3)] by auto
  from business_step.invite [OF i plan] show "business_step sample_ports 0 approved with_invitation"
    unfolding with_invitation_def i by auto
  have "px_phoneOf sample_ports (ID 7) = Inr \<lparr>e164 = ''+966551234567''\<rparr>" by (simp add: sample_ports_def)
  from business_step.accept [OF this] show "business_step sample_ports hour with_invitation with_barber"
    unfolding with_barber_def by fast
qed

lemma sample_reached: "(any_step sample_ports)\<^sup>*\<^sup>* empty_business_db with_barber"
proof -
  have "any_step sample_ports approved with_invitation" "any_step sample_ports with_invitation with_barber"
    using sample_run(6,7) unfolding any_step_def by blast+
  with sample_run(1-5) show ?thesis by (meson converse_rtranclp_into_rtranclp rtranclp.rtrancl_refl)
qed

lemma sample_result:
  "map (\<lambda>r. (w_id r, w_owner r, w_status r)) (bd_businesses with_barber) = [(10, 1, ''active'')]"
  "map (\<lambda>s. (f_id s, f_business s, f_user s, f_role s)) (bd_staff with_barber) = [(20, 10, Some 1, ''owner''), (60, 10, Some 7, ''barber'')]"
  "map (\<lambda>i. (v_id i, v_business i, v_phone i)) (bd_invitations with_barber) = [(50, 10, ''+966551234567'')]"
  by code_simp+


lemma row_by_id: "distinct (map k xs) \<Longrightarrow> x \<in> set xs \<Longrightarrow> y \<in> set xs \<Longrightarrow> k x = k y \<Longrightarrow> x = y"
  by (metis distinct_map inj_onD)

lemma owner_of:
  assumes "businesses_ok rows" "owners_ok (owner_pairs rows) staff" "r \<in> set rows" "s \<in> set staff" "f_business s = w_id r" "f_role s = ''owner''"
  shows "f_user s = Some (w_owner r)" "f_active s"
proof -
  have s: "f_active s" "(f_business s, the (f_user s)) \<in> set (owner_pairs rows)" "f_user s \<noteq> None"
    using owners_okD(3,4) [OF assms(2,4)] assms(6) by blast+
  then obtain q where "q \<in> set rows" "w_id q = w_id r" "w_owner q = the (f_user s)" using assms(5) by (auto simp: owner_pairs_def)
  moreover have "distinct (map w_id rows)" using assms(1) unfolding businesses_ok_def by blast
  ultimately show "f_user s = Some (w_owner r)" using row_by_id assms(3) s(3) by (metis option.collapse)
  show "f_active s" by (rule s(1))
qed

section \<open>Use cases\<close>

lemma into_run:
  assumes "(any_step ports)\<^sup>*\<^sup>* db d" "business_step ports now d d'"
  shows "(any_step ports)\<^sup>*\<^sup>* db d'"
proof -
  have "any_step ports d d'" using assms(2) unfolding any_step_def by blast
  with assms(1) show ?thesis by (rule rtranclp.rtrancl_into_rtrancl)
qed

lemma pair_snd: "p = (x, y) \<Longrightarrow> y = snd p"
  by simp

lemma register_is_step: "(any_step ports)\<^sup>*\<^sup>* db (snd (RegisterBusinessHandler_Handle i staff now cmd db))"
  unfolding RegisterBusinessHandler_Handle_def
  by (auto split: sum.splits prod.splits dest!: pair_snd intro!: into_run [OF rtranclp.rtrancl_refl] business_step.register)

lemma update_is_step:
  assumes "\<And>d. (any_step ports)\<^sup>*\<^sup>* d (others d)"
  shows "(any_step ports)\<^sup>*\<^sup>* db (snd (UpdateBusinessHandler_Handle now others cmd db))"
  unfolding UpdateBusinessHandler_Handle_def
  by (auto split: sum.splits intro!: into_run [OF assms] business_step.rename)

lemma submit_is_step:
  assumes "\<And>d. (any_step ports)\<^sup>*\<^sup>* d (others d)"
  shows "(any_step ports)\<^sup>*\<^sup>* db (snd (SubmitHandler_Handle now others actor business v db))"
  unfolding SubmitHandler_Handle_def
  by (auto split: sum.splits intro!: into_run [OF assms] business_step.submit)

lemma decide_is_step:
  assumes "\<And>d. (any_step ports)\<^sup>*\<^sup>* d (others d)"
  shows "(any_step ports)\<^sup>*\<^sup>* db (snd (ReviewHandlers_Approve now others admin i v db))"
    "(any_step ports)\<^sup>*\<^sup>* db (snd (ReviewHandlers_Reject now others admin i v reason db))"
  unfolding ReviewHandlers_Approve_def ReviewHandlers_Reject_def decide_def
  by (auto split: sum.splits option.splits intro!: into_run [OF assms] business_step.approve business_step.reject)

lemma publish_is_step:
  assumes "\<And>n d. (any_step ports)\<^sup>*\<^sup>* d (others n d)"
  shows "(any_step ports)\<^sup>*\<^sup>* db (snd (BranchHandlers_Publish ports now others cmd db))"
    "(any_step ports)\<^sup>*\<^sup>* db (snd (BranchHandlers_Unpublish now (others 0) cmd db))"
proof -
  have two: "(any_step ports)\<^sup>*\<^sup>* db (others 1 (others 0 db))" using assms by (meson rtranclp_trans)
  have "(any_step ports)\<^sup>*\<^sup>* db (snd (Branches_Update (others 1 (others 0 db)) business i v (\<lambda>b. Publish b status ready now)))"
    for business i v status ready by (rule into_run [OF two business_step.publish])
  then show "(any_step ports)\<^sup>*\<^sup>* db (snd (BranchHandlers_Publish ports now others cmd db))"
    unfolding BranchHandlers_Publish_def change_status_def Let_def using assms by (auto split: sum.splits)
  show "(any_step ports)\<^sup>*\<^sup>* db (snd (BranchHandlers_Unpublish now (others 0) cmd db))"
    unfolding BranchHandlers_Unpublish_def change_status_def
    by (auto split: sum.splits intro!: into_run [OF assms] business_step.unpublish)
qed

lemma branch_is_step:
  assumes "\<And>d. (any_step ports)\<^sup>*\<^sup>* d (others d)"
  shows "(any_step ports)\<^sup>*\<^sup>* db (snd (BranchHandlers_Create ports i now others create db))"
    "(any_step ports)\<^sup>*\<^sup>* db (snd (BranchHandlers_Update ports now others edit db))"
  unfolding BranchHandlers_Create_def BranchHandlers_Update_def
  by (auto split: sum.splits option.splits prod.splits dest!: pair_snd intro!: into_run [OF assms] business_step.add_branch business_step.edit)

lemma upload_is_step:
  assumes "\<And>n d. (any_step ports)\<^sup>*\<^sup>* d (others n d)"
  shows "(any_step ports)\<^sup>*\<^sup>* db (fst (snd (DocumentHandlers_Upload ports now others cmd db)))"
proof -
  have two: "(any_step ports)\<^sup>*\<^sup>* db (others 1 (others 0 db))" using assms by (meson rtranclp_trans)
  have three: "(any_step ports)\<^sup>*\<^sup>* db (others 2 (others 1 (others 0 db)))" using two assms by (meson rtranclp_trans)
  have "(any_step ports)\<^sup>*\<^sup>* db (snd (Documents_Attach (others 2 (others 1 (others 0 db))) doc CanAttachDocument))" for doc
    by (rule into_run [OF three business_step.attach])
  then have "(any_step ports)\<^sup>*\<^sup>* db d" if "Documents_Attach (others 2 (others 1 (others 0 db))) doc CanAttachDocument = (r, d)" for doc r d
    using that by (metis snd_conv)
  then show ?thesis unfolding DocumentHandlers_Upload_def Let_def using assms two
    by (auto split: sum.splits option.splits prod.splits)
qed


lemma invite_is_step:
  assumes "\<And>n d. (any_step ports)\<^sup>*\<^sup>* d (others n d)"
  shows "(any_step ports)\<^sup>*\<^sup>* db (snd (StaffHandlers_Invite ports i token now others cmd db))"
proof -
  have two: "(any_step ports)\<^sup>*\<^sup>* db (others 1 (others 0 db))" using assms by (meson rtranclp_trans)
  have "(any_step ports)\<^sup>*\<^sup>* db d" if "prepare_invite ports i token now cmd owner = Inr invn" "px_standing ports (iv_business cmd) = Inr plan"
    "Invitations_Invite (others 1 (others 0 db)) invn (AllowStaff (ps_limits plan)) = (r, d)" for owner invn plan r d
    using into_run [OF two business_step.invite [OF that(1,2)]] that(3) by (metis snd_conv)
  then show ?thesis unfolding StaffHandlers_Invite_def Let_def using assms by (auto split: sum.splits option.splits prod.splits)
qed

lemma revoke_is_step:
  assumes "\<And>d. (any_step ports)\<^sup>*\<^sup>* d (others d)"
  shows "(any_step ports)\<^sup>*\<^sup>* db (snd (StaffHandlers_Revoke others actor business i db))"
  unfolding StaffHandlers_Revoke_def by (auto split: sum.splits intro!: into_run [OF assms] business_step.revoke)

lemma accept_is_step:
  assumes "\<And>d. (any_step ports)\<^sup>*\<^sup>* d (others d)"
  shows "(any_step ports)\<^sup>*\<^sup>* db (snd (StaffHandlers_Accept ports staff now others actor token db))"
proof -
  have a: "(any_step ports)\<^sup>*\<^sup>* db d" if "px_phoneOf ports actor = Inr phone"
    "Invitations_Accept db (px_hash ports tok) (accept_fn staff actor phone now) = (r, d)" for phone tok r d
    using into_run [OF rtranclp.rtrancl_refl business_step.accept [OF that(1)]] that(2) by (metis snd_conv)
  have "(any_step ports)\<^sup>*\<^sup>* db (others d)" if "px_phoneOf ports actor = Inr phone"
    "Invitations_Accept db (px_hash ports tok) (accept_fn staff actor phone now) = (r, d)" for phone tok r d
    using a [OF that] assms by (meson rtranclp_trans)
  then show ?thesis using a unfolding StaffHandlers_Accept_def Let_def by (auto split: sum.splits prod.splits)
qed

section \<open>Properties\<close>

text \<open>C31: Whatever the other requests do between two transactions of a use case, every use case of the business
  module that can change the tables takes them along a run of the transactions of theory Tenants:
  what holds along every such run holds along every interleaving of use cases.\<close>

theorem business_use_cases_refine_store:
  assumes "\<And>n d. (any_step ports)\<^sup>*\<^sup>* d (others n d)"
  shows "(any_step ports)\<^sup>*\<^sup>* db (snd (RegisterBusinessHandler_Handle b staff now reg db))
   \<and> (any_step ports)\<^sup>*\<^sup>* db (snd (UpdateBusinessHandler_Handle now (others 0) upd db))
   \<and> (any_step ports)\<^sup>*\<^sup>* db (snd (SubmitHandler_Handle now (others 0) actor b v db))
   \<and> (any_step ports)\<^sup>*\<^sup>* db (snd (ReviewHandlers_Approve now (others 0) admin b v db))
   \<and> (any_step ports)\<^sup>*\<^sup>* db (snd (ReviewHandlers_Reject now (others 0) admin b v reason db))
   \<and> (any_step ports)\<^sup>*\<^sup>* db (fst (snd (DocumentHandlers_Upload ports now others doc db)))
   \<and> (any_step ports)\<^sup>*\<^sup>* db (snd (BranchHandlers_Create ports br now (others 0) create db))
   \<and> (any_step ports)\<^sup>*\<^sup>* db (snd (BranchHandlers_Update ports now (others 0) edit db))
   \<and> (any_step ports)\<^sup>*\<^sup>* db (snd (BranchHandlers_Publish ports now others change db))
   \<and> (any_step ports)\<^sup>*\<^sup>* db (snd (BranchHandlers_Unpublish now (others 0) change db))
   \<and> (any_step ports)\<^sup>*\<^sup>* db (snd (StaffHandlers_Invite ports i token now others inv' db))
   \<and> (any_step ports)\<^sup>*\<^sup>* db (snd (StaffHandlers_Revoke (others 0) actor b i db))
   \<and> (any_step ports)\<^sup>*\<^sup>* db (snd (StaffHandlers_Accept ports staff now (others 0) actor token db))"
  using assms
  by (intro conjI register_is_step update_is_step submit_is_step decide_is_step upload_is_step branch_is_step
      publish_is_step invite_is_step revoke_is_step accept_is_step)

theorem business_use_cases_refine_store_witness:
  "(any_step sample_ports)\<^sup>*\<^sup>* empty_business_db (snd (RegisterBusinessHandler_Handle (ID 10) (ID 20) 0
     \<lparr>rb_actor = ID 1, rb_name = \<lparr>dn_ar = ''Shop'', dn_en = []\<rparr>, rb_legalName = ''Shop Co'', rb_crNumber = ''1010101010''\<rparr> empty_business_db))
   \<and> length (bd_businesses (snd (RegisterBusinessHandler_Handle (ID 10) (ID 20) 0
     \<lparr>rb_actor = ID 1, rb_name = \<lparr>dn_ar = ''Shop'', dn_en = []\<rparr>, rb_legalName = ''Shop Co'', rb_crNumber = ''1010101010''\<rparr> empty_business_db))) = 1"
proof (rule conjI)
  have "(any_step sample_ports)\<^sup>*\<^sup>* d d" for d by simp
  then show "(any_step sample_ports)\<^sup>*\<^sup>* empty_business_db (snd (RegisterBusinessHandler_Handle (ID 10) (ID 20) 0
     \<lparr>rb_actor = ID 1, rb_name = \<lparr>dn_ar = ''Shop'', dn_en = []\<rparr>, rb_legalName = ''Shop Co'', rb_crNumber = ''1010101010''\<rparr> empty_business_db))"
    using business_use_cases_refine_store [of sample_ports "\<lambda>_ d. d"] by blast
  show "length (bd_businesses (snd (RegisterBusinessHandler_Handle (ID 10) (ID 20) 0
     \<lparr>rb_actor = ID 1, rb_name = \<lparr>dn_ar = ''Shop'', dn_en = []\<rparr>, rb_legalName = ''Shop Co'', rb_crNumber = ''1010101010''\<rparr> empty_business_db))) = 1"
    by code_simp
qed

text \<open>C7: Along every run no two businesses that are under review, active or suspended have the same registration
  number, and every business has exactly one owner among its staff: the active member who registered it.\<close>

theorem one_owner_one_registration:
  assumes "(any_step ports)\<^sup>*\<^sup>* empty_business_db db" "r \<in> set (bd_businesses db)"
  shows "(\<forall>q \<in> set (bd_businesses db). claimed r \<and> claimed q \<and> w_cr r = w_cr q \<longrightarrow> q = r)
    \<and> (\<exists>s \<in> set (bd_staff db). f_business s = w_id r \<and> f_role s = ''owner'' \<and> f_user s = Some (w_owner r) \<and> f_active s
         \<and> (\<forall>t \<in> set (bd_staff db). f_business t = w_id r \<and> f_role t = ''owner'' \<longrightarrow> t = s))"
proof -
  note D = tenants_okD [OF tenants_kept.steps_inv [OF assms(1) tenants_ok_empty]]
  have ids: "distinct (map w_id (bd_businesses db))" using D(1) unfolding businesses_ok_def by blast
  have "w_id r \<in> fst ` set (owner_pairs (bd_businesses db))" using assms(2) by (force simp: owner_pairs_def)
  from owners_okD(7) [OF D(2) this] obtain s where s: "s \<in> set (bd_staff db)" "f_business s = w_id r" "f_role s = ''owner''" by blast
  have "t = s" if "t \<in> set (bd_staff db)" "f_business t = w_id r" "f_role t = ''owner''" for t
    using owners_okD(6) [OF D(2) that(1) s(1)] that s row_by_id [OF owners_okD(1) [OF D(2)] that(1) s(1)] by simp
  moreover have "q = r" if "q \<in> set (bd_businesses db)" "claimed r" "claimed q" "w_cr r = w_cr q" for q
    using businesses_okD(3) [OF D(1) assms(2) that] row_by_id [OF ids that(1) assms(2)] by simp
  ultimately show ?thesis using s owner_of [OF D(1,2) assms(2) s] by blast
qed

theorem one_owner_one_registration_witness:
  "\<exists>r. (any_step sample_ports)\<^sup>*\<^sup>* empty_business_db with_barber \<and> bd_businesses with_barber = [r] \<and> claimed r
    \<and> (\<exists>s \<in> set (bd_staff with_barber). f_business s = w_id r \<and> f_role s = ''owner'' \<and> f_user s = Some 1)"
proof -
  obtain r where r: "bd_businesses with_barber = [r]" "w_owner r = 1" "w_status r = ''active''" using sample_result(1) by auto
  then show ?thesis using sample_reached one_owner_one_registration [OF sample_reached, of r] by (auto simp: claimed_def)
qed

text \<open>C8: Along every run an active business was submitted, was approved by somebody other than its owner, and has a
  document and a branch for the reviewer to have seen.\<close>

theorem active_business_was_reviewed:
  assumes "(any_step ports)\<^sup>*\<^sup>* empty_business_db db" "r \<in> set (bd_businesses db)" "w_status r = ''active''"
  shows "w_submitted_at r \<noteq> None \<and> w_reviewed_at r \<noteq> None \<and> (\<exists>u. w_reviewed_by r = Some u \<and> u \<noteq> w_owner r)
    \<and> (\<exists>d \<in> set (bd_documents db). d_business d = w_id r) \<and> (\<exists>h \<in> set (bd_branches db). h_business h = w_id r)"
proof -
  note D = tenants_okD [OF tenants_kept.steps_inv [OF assms(1) tenants_ok_empty]]
  have "w_id r \<in> d_business ` set (bd_documents db)" "w_id r \<in> h_business ` set (bd_branches db)"
    using D(3) assms(2,3) unfolding ready_ok_def by auto
  moreover have "w_reviewed_by r \<noteq> None" "w_reviewed_by r \<noteq> Some (w_owner r)"
    using businesses_okD(2) [OF D(1) assms(2)] assms(3) by (auto simp: reviewed_ok_def)
  moreover have "w_submitted_at r \<noteq> None" "w_reviewed_at r = None \<longleftrightarrow> w_reviewed_by r = None"
    using businesses_okD(1) [OF D(1) assms(2)] assms(3) by (auto simp: business_ok_def)
  ultimately show ?thesis by auto
qed

theorem active_business_was_reviewed_witness:
  "\<exists>r \<in> set (bd_businesses with_barber). w_status r = ''active'' \<and> (\<exists>u. w_reviewed_by r = Some u \<and> u \<noteq> w_owner r)
    \<and> (\<exists>d \<in> set (bd_documents with_barber). d_business d = w_id r)"
proof -
  obtain r where r: "bd_businesses with_barber = [r]" "w_status r = ''active''" using sample_result(1) by auto
  then show ?thesis using active_business_was_reviewed [OF sample_reached, of r] by auto
qed

text \<open>C12: Along every run a manager or barber of a business accepted an invitation of that business that named the
  role and was sent to the phone they sign in with, and nobody else joined with that invitation.\<close>

theorem staff_joined_by_invitation:
  assumes "(any_step ports)\<^sup>*\<^sup>* empty_business_db db" "s \<in> set (bd_staff db)" "f_role s \<noteq> ''owner''"
  shows "\<exists>i \<in> set (bd_invitations db). \<exists>u p. v_status i = InvitationAccepted \<and> v_business i = f_business s \<and> v_role i = f_role s
    \<and> v_accepted_by i = Some (id_value u) \<and> f_user s = Some (id_value u) \<and> px_phoneOf ports u = Inr p \<and> v_phone i = e164 p
    \<and> (\<forall>t \<in> set (bd_staff db). joined_by (px_phoneOf ports) t i \<longrightarrow> t = s)"
proof -
  note D = tenants_okD [OF tenants_kept.steps_inv [OF assms(1) tenants_ok_empty]]
  obtain i where i: "i \<in> set (bd_invitations db)" "joined_by (px_phoneOf ports) s i" using D(6) assms(2,3) unfolding joined_ok_def by blast
  have "t = s" if "t \<in> set (bd_staff db)" "joined_by (px_phoneOf ports) t i" for t
  proof -
    have "f_user t = f_user s" "f_business t = f_business s" using i(2) that(2) unfolding joined_by_def by metis+
    then show ?thesis using owners_okD(5) [OF D(2) that(1) assms(2)] row_by_id [OF owners_okD(1) [OF D(2)] that(1) assms(2)] by blast
  qed
  moreover obtain u p where "f_user s = Some (id_value u)" "px_phoneOf ports u = Inr p" "v_phone i = e164 p"
    using i(2) unfolding joined_by_def by blast
  ultimately show ?thesis using i by (intro bexI [of _ i] exI [of _ u] exI [of _ p]) (simp_all add: joined_by_def)
qed

theorem staff_joined_by_invitation_witness:
  "\<exists>s \<in> set (bd_staff with_barber). f_role s = ''barber'' \<and> (\<exists>i \<in> set (bd_invitations with_barber). v_status i = InvitationAccepted
     \<and> v_accepted_by i = f_user s \<and> v_phone i = ''+966551234567'')"
proof -
  obtain o' s where "bd_staff with_barber = [o', s]" and r: "f_role s = ''barber''" using sample_result(2) by auto
  then have s: "s \<in> set (bd_staff with_barber)" by simp
  moreover have "v_phone i = ''+966551234567''" if "i \<in> set (bd_invitations with_barber)" for i using that sample_result(3) by auto
  moreover obtain i where "i \<in> set (bd_invitations with_barber)" "v_status i = InvitationAccepted" "v_accepted_by i = f_user s"
    using staff_joined_by_invitation [OF sample_reached s] r by auto
  ultimately show ?thesis using r by blast
qed


text \<open>C32: Along every run, in every stretch of 24 hours at most five invitations are sent to one phone, by all businesses
  together, and at most fifty by one business, and a business invites the same phone again only after a minute.\<close>

theorem invitations_sent_bounded:
  assumes "(any_step ports)\<^sup>*\<^sup>* empty_business_db db"
  shows "length (filter (\<lambda>i. v_phone i = p \<and> t < v_created_at i \<and> v_created_at i \<le> t + 24 * hour) (bd_invitations db)) \<le> 5
    \<and> length (filter (\<lambda>i. v_business i = b \<and> t < v_created_at i \<and> v_created_at i \<le> t + 24 * hour) (bd_invitations db)) \<le> 50
    \<and> (\<forall>i \<in> set (bd_invitations db). \<forall>j \<in> set (bd_invitations db). i \<noteq> j \<and> v_business i = v_business j \<and> v_phone i = v_phone j
         \<longrightarrow> minute \<le> \<bar>v_created_at i - v_created_at j\<bar>)"
proof -
  have "tenants_ok ports empty_business_db \<and> paced (bd_invitations empty_business_db)"
    using tenants_ok_empty by (simp add: paced_def sent_in_def empty_business_db_def MaxInvitesPerPhone_def MaxInvitesPerBusiness_def)
  from invites_paced.steps_inv [OF assms this] have ok: "paced (bd_invitations db)" by blast
  have apart: "minute \<le> \<bar>v_created_at i - v_created_at j\<bar>"
    if ij: "i \<in> set (bd_invitations db)" "j \<in> set (bd_invitations db)" "i \<noteq> j" "same_invitee i j" for i j
  proof -
    obtain m n where mn: "m < length (bd_invitations db)" "n < length (bd_invitations db)" "i = bd_invitations db ! m" "j = bd_invitations db ! n"
      using ij(1,2) by (metis in_set_conv_nth)
    have s: "same_invitee j i" using ij(4) by (auto simp: same_invitee_def)
    have "m < n \<or> n < m" using mn ij(3) by (metis nat_neq_iff)
    then have "v_created_at i + InviteCooldown \<le> v_created_at j \<or> v_created_at j + InviteCooldown \<le> v_created_at i"
      using ok mn ij(4) s unfolding paced_def sorted_wrt_iff_nth_less by blast
    then show ?thesis by (auto simp: InviteCooldown_def)
  qed
  have "int (sent_in (\<lambda>i. v_phone i = p) t (bd_invitations db)) \<le> 5" "int (sent_in (\<lambda>i. v_business i = b) t (bd_invitations db)) \<le> 50"
    using ok by (simp_all add: paced_def MaxInvitesPerPhone_def MaxInvitesPerBusiness_def)
  then show ?thesis using apart by (auto simp: sent_in_def InviteWindow_def same_invitee_def)
qed

theorem invitations_sent_bounded_witness:
  "(any_step sample_ports)\<^sup>*\<^sup>* empty_business_db with_barber \<and> bd_invitations with_barber \<noteq> []
   \<and> length (filter (\<lambda>i. v_phone i = ''+966551234567'' \<and> - hour < v_created_at i \<and> v_created_at i \<le> - hour + 24 * hour)
       (bd_invitations with_barber)) \<le> 5"
  using sample_reached sample_result(3) invitations_sent_bounded [OF sample_reached] by auto

text \<open>If the transactions commit in the order of their clock readings, the managers, barbers and open invitations of a
  business never exceed the number its plan allows.\<close>

theorem seats_within_plan:
  assumes "(clocked_step ports)\<^sup>*\<^sup>* (t0, empty_business_db) (t, db)" "px_standing ports b = Inr plan" "0 \<le> lm_maxStaff (ps_limits plan)"
  shows "CountStaffSeats db b t \<le> lm_maxStaff (ps_limits plan)"
proof -
  have "seats_ok ports (t0, empty_business_db)"
    using tenants_ok_empty by (simp add: seats_ok_def CountStaffSeats_def empty_business_db_def)
  from seats_kept.steps_inv [OF assms(1) this] show ?thesis using assms(2,3) by (simp add: seats_ok_def)
qed

lemma sample_clocked: "(clocked_step sample_ports)\<^sup>*\<^sup>* (0, empty_business_db) (hour, with_barber)"
proof -
  obtain b m where b: "RegisterBusiness (ID 10) (ID 20) (ID 1) sample_registration 0 = Inr (b, m)"
    using is_ok_Inr [OF sample_inputs_ok(1)] by auto
  obtain br where br: "NewBranch (px_zones sample_ports) (ID 30) (ID 10) sample_profile DefaultBookingPolicy 0 = Inr br"
    using is_ok_Inr [OF sample_inputs_ok(2)] by auto
  have plan: "px_standing sample_ports i = Inr sample_plan" for i by (simp add: sample_ports_def)
  have "business_step sample_ports 0 empty_business_db registered"
    using business_step.register [OF sample_inputs_ok(4) b, of sample_ports empty_business_db] by (simp add: registered_def b)
  moreover have "business_step sample_ports 0 registered with_branch"
    using business_step.add_branch [OF br plan, of registered] by (simp add: with_branch_def br)
  moreover have "business_step sample_ports 0 with_branch with_document"
    unfolding with_document_def by (rule business_step.attach)
  moreover have "business_step sample_ports 0 with_document submitted" unfolding submitted_def by (rule business_step.submit)
  moreover have "business_step sample_ports 0 submitted approved"
    using business_step.approve [OF sample_inputs_ok(5), of sample_ports 0 submitted "ID 10" 2] by (simp add: approved_def)
  moreover have "(0::int) \<le> hour" by (simp add: hour_def)
  ultimately show ?thesis using sample_run(6,7)
    by (meson clocked_step.intros converse_rtranclp_into_rtranclp order_refl rtranclp.rtrancl_refl)
qed

theorem seats_within_plan_witness:
  "(clocked_step sample_ports)\<^sup>*\<^sup>* (0, empty_business_db) (hour, with_barber) \<and> CountStaffSeats with_barber (ID 10) hour \<le> 1
   \<and> length (bd_staff with_barber) = 2"
proof -
  have "px_standing sample_ports (ID 10) = Inr sample_plan" "lm_maxStaff (ps_limits sample_plan) = 1"
    by (simp_all add: sample_ports_def sample_plan_def)
  moreover have "length (bd_staff with_barber) = 2" using arg_cong [OF sample_result(2), of length] by simp
  ultimately show ?thesis using seats_within_plan [OF sample_clocked, of "ID 10" sample_plan] sample_clocked by simp
qed



section \<open>Branches as they were saved\<close>

lemma ParseCityCode_Inr: "ParseCityCode s = Inr c \<Longrightarrow> c = s"
  by (auto simp: ParseCityCode_def split: sum.splits)

lemma ParseBranchStatus_text [simp]: "ParseBranchStatus (branch_status_text st) = Inr st"
  by (cases st) (simp_all add: ParseBranchStatus_def)

lemma validate_Inr:
  assumes "validate load p = Inr q"
  shows "bp_name q = bp_name p" "ParseCityCode (bp_city q) = Inr (bp_city q)" "bp_location q = bp_location p" "bp_phone q = bp_phone p"
    "bp_timezone q = bp_timezone p"
  using assms by (auto simp: validate_def Let_def split: if_splits sum.splits option.splits dest: ParseCityCode_Inr)

lemma parsePhone_Inr: "parsePhone s = Inr p \<Longrightarrow> e164 p = [] \<or> NewPhoneNumber (e164 p) = Inr p"
  by (auto simp: parsePhone_def split: if_splits sum.splits dest: phone_reread)

lemma whole_minutes: "wholeMinutes d \<Longrightarrow> go_div d minute * minute = d"
  by (simp add: wholeMinutes_def go_mod_def)

lemma slot_whole: "d \<in> set slotIntervals \<Longrightarrow> wholeMinutes d"
  by (auto simp: slotIntervals_def wholeMinutes_def go_mod_def go_div_def minute_def hour_def)

lemma profile_eta: "\<lparr>bp_name = bp_name p, bp_city = bp_city p, bp_district = bp_district p, bp_address = bp_address p,
    bp_location = bp_location p, bp_phone = bp_phone p, bp_timezone = bp_timezone p\<rparr> = p"
  by simp

text \<open>A branch whose parts were made by their constructors reads back from its row as it was.\<close>

lemma toBranch_row:
  assumes row: "toBranchRow b = Inr row"
    and p: "NewLocalizedText (lt_ar (bp_name (bn_profile b))) (lt_en (bp_name (bn_profile b))) = Inr (bp_name (bn_profile b))"
      "ParseCityCode (bp_city (bn_profile b)) = Inr (bp_city (bn_profile b))"
      "NewGeoPoint (geo_lat (bp_location (bn_profile b))) (geo_lng (bp_location (bn_profile b))) = Inr (bp_location (bn_profile b))"
      "e164 (bp_phone (bn_profile b)) = [] \<or> NewPhoneNumber (e164 (bp_phone (bn_profile b))) = Inr (bp_phone (bn_profile b))"
    and pol: "NewBookingPolicy (bn_policy b) = Inr (bn_policy b)"
    and t: "db_time (bn_createdAt b) = bn_createdAt b" "db_time (bn_updatedAt b) = bn_updatedAt b"
  shows "toBranch row = Inr (b\<lparr>bn_events := []\<rparr>)" "h_id row = id_value (bn_id b)" "h_business row = id_value (bn_business b)"
proof -
  let ?r = "bn_policy b" and ?p = "bn_profile b"
  have row: "row = \<lparr>h_id = id_value (bn_id b), h_business = id_value (bn_business b),
      h_name_ar = lt_ar (bp_name ?p), h_name_en = lt_en (bp_name ?p), h_city = bp_city ?p,
      h_district = bp_district ?p, h_address = bp_address ?p,
      h_lat = geo_lat (bp_location ?p), h_lng = geo_lng (bp_location ?p),
      h_phone = (if Phone_IsZero (bp_phone ?p) then None else Some (e164 (bp_phone ?p))),
      h_timezone = bp_timezone ?p, h_status = branch_status_text (bn_status b),
      h_min_lead = go_div (pr_minLead ?r) minute, h_horizon = pr_horizonDays ?r,
      h_slot = go_div (pr_slotInterval ?r) minute, h_buffer = go_div (pr_buffer ?r) minute,
      h_cancellation = go_div (pr_cancellationWindow ?r) minute, h_auto_confirm = pr_autoConfirm ?r,
      h_pending_expiry = go_div (pr_pendingExpiry ?r) minute, h_max_active = pr_maxActiveBookings ?r,
      h_version = bn_version b, h_created_at = bn_createdAt b, h_updated_at = bn_updatedAt b\<rparr>"
    using row t by (auto simp: toBranchRow_def Let_def split: sum.splits if_splits)
  have "wholeMinutes (pr_minLead ?r)" "wholeMinutes (pr_buffer ?r)" "wholeMinutes (pr_cancellationWindow ?r)"
    "wholeMinutes (pr_pendingExpiry ?r)" "wholeMinutes (pr_slotInterval ?r)"
    using pol slot_whole by (simp_all add: NewBookingPolicy_Inr_iff policy_checks_def)
  then have rules: "row_policy row = ?r" by (simp add: row_policy_def row whole_minutes)
  have phone: "stored_phone (h_phone row) = Inr (bp_phone ?p)"
    using p(4) by (cases "bp_phone ?p") (auto simp: row stored_phone_def Phone_IsZero_def)
  have "toBranch row = Inr (RehydrateBranch (bn_id b) (bn_business b) ?p ?r (bn_status b) (bn_version b) (bn_createdAt b) (bn_updatedAt b))"
    unfolding toBranch_def rules phone pol using p(1-3) by (simp add: row IDFromUUID_def profile_eta)
  then show "toBranch row = Inr (b\<lparr>bn_events := []\<rparr>)" by (simp add: RehydrateBranch_def)
  show "h_id row = id_value (bn_id b)" "h_business row = id_value (bn_business b)" by (simp_all add: row)
qed

lemma Branches_Add_Inr:
  assumes "Branches_Add db b allow = (Inr x, db')"
  obtains row where "toBranchRow b = Inr row" "allow (CountBranches db (bn_business b)) = None"
    "\<forall>h \<in> set (bd_branches db). h_id h \<noteq> h_id row" "db' = db\<lparr>bd_branches := bd_branches db @ [row]\<rparr>"
  using assms that
  by (auto simp: Branches_Add_def commit_def InsertBranch_def list_ex_iff split: sum.splits option.splits if_splits)

lemma create_Inr:
  assumes "BranchHandlers_Create ports i now others cmd db = (Inr b, db')"
  shows "\<exists>profile policy plan. create_profile cmd = Inr profile
    \<and> (case cb_policy cmd of None \<Rightarrow> Inr DefaultBookingPolicy | Some r \<Rightarrow> NewBookingPolicy r) = Inr policy
    \<and> NewBranch (px_zones ports) i (cb_business cmd) profile policy now = Inr b
    \<and> px_standing ports (cb_business cmd) = Inr plan \<and> Branches_Add (others db) b (AllowBranch (ps_limits plan)) = (Inr (), db')"
  using assms by (auto simp: BranchHandlers_Create_def split: sum.splits prod.splits)

text \<open>C34: A branch that was created is read back exactly as it was answered: names, place, phone, time zone and every
  rule of its booking policy survive their storage in rows of minutes and text.\<close>

theorem created_branch_reads_back:
  assumes "BranchHandlers_Create ports i now others cmd db = (Inr b, db')"
  shows "Branches_ByID db' (cb_business cmd) i = Inr b \<and> CountBranches db' (cb_business cmd) = CountBranches (others db) (cb_business cmd) + 1"
proof -
  obtain profile policy and plan :: PlanStanding where p: "create_profile cmd = Inr profile"
    and pol: "(case cb_policy cmd of None \<Rightarrow> Inr DefaultBookingPolicy | Some r \<Rightarrow> NewBookingPolicy r) = Inr policy"
    and b: "NewBranch (px_zones ports) i (cb_business cmd) profile policy now = Inr b"
    and add: "Branches_Add (others db) b (AllowBranch (ps_limits plan)) = (Inr (), db')"
    using create_Inr [OF assms] by blast
  obtain row where row: "toBranchRow b = Inr row" "\<forall>h \<in> set (bd_branches (others db)). h_id h \<noteq> h_id row"
    "db' = (others db)\<lparr>bd_branches := bd_branches (others db) @ [row]\<rparr>" by (rule Branches_Add_Inr [OF add])
  have policy: "NewBookingPolicy policy = Inr policy" using pol DefaultBookingPolicy_valid
    by (auto simp: NewBookingPolicy_Inr_iff split: option.splits)
  then have nz: "policy \<noteq> zero_policy" using zero_policy_invalid by metis
  obtain q where q: "validate (px_zones ports) profile = Inr q"
    and b: "bn_id b = i" "bn_business b = cb_business cmd" "bn_profile b = q" "bn_policy b = policy" "bn_events b = []"
      "db_time (bn_createdAt b) = bn_createdAt b" "db_time (bn_updatedAt b) = bn_updatedAt b"
    using b nz by (auto simp: NewBranch_def Let_def split: sum.splits)
  obtain name loc phone where parts: "NewLocalizedText (dn_ar (cb_name cmd)) (dn_en (cb_name cmd)) = Inr name"
    "NewGeoPoint (cb_lat cmd) (cb_lng cmd) = Inr loc" "parsePhone (cb_phone cmd) = Inr phone"
    "bp_name profile = name" "bp_location profile = loc" "bp_phone profile = phone"
    using p by (auto simp: create_profile_def split: sum.splits)
  have loc: "NewGeoPoint (geo_lat loc) (geo_lng loc) = Inr loc" using parts(2) by (auto simp: NewGeoPoint_def split: if_splits)
  note V = validate_Inr [OF q]
  have "toBranch row = Inr (b\<lparr>bn_events := []\<rparr>)" "h_id row = id_value i" "h_business row = id_value (cb_business cmd)"
    using toBranch_row [OF row(1)] b V parts(4-6) NewLocalizedText_reread [OF parts(1)] loc parsePhone_Inr [OF parts(3)] policy by simp_all
  moreover have "b\<lparr>bn_events := []\<rparr> = b" using b(5) by (cases b) simp
  moreover from row(2) calculation(2) have "find_first (\<lambda>h. h_business h = id_value (cb_business cmd) \<and> h_id h = id_value i) (bd_branches (others db)) = None"
    by (auto simp: find_first_None_iff)
  ultimately show ?thesis by (simp add: Branches_ByID_def branch_by_id_def row(3) find_first_append CountBranches_def)
qed

definition sample_create :: CreateBranch where
  "sample_create = \<lparr>cb_actor = ID 1, cb_business = ID 10, cb_name = \<lparr>dn_ar = '' Main '', dn_en = []\<rparr>, cb_cityCode = ''riyadh'',
     cb_district = [], cb_address = ''King Rd'', cb_lat = Fin 24, cb_lng = Fin 46, cb_phone = ''0551234567'', cb_timezone = [], cb_policy = None\<rparr>"

theorem created_branch_reads_back_witness:
  "\<exists>b db'. BranchHandlers_Create sample_ports (ID 30) 0 (\<lambda>d. d) sample_create registered = (Inr b, db') \<and> Branches_ByID db' (ID 10) (ID 30) = Inr b"
proof -
  have "is_ok (fst (BranchHandlers_Create sample_ports (ID 30) 0 (\<lambda>d. d) sample_create registered))" by code_simp
  then obtain b db' where b: "BranchHandlers_Create sample_ports (ID 30) 0 (\<lambda>d. d) sample_create registered = (Inr b, db')"
    using is_ok_Inr by (metis prod.collapse)
  have "cb_business sample_create = ID 10" by (simp add: sample_create_def)
  then show ?thesis using created_branch_reads_back [OF b] b by auto
qed

end
