(* ===== verification/Billing.thy ===== *)
theory Billing
  imports Shared GoTime
begin

text \<open>
  \<open>internal/billing\<close>: plans and their limits (\<open>domain/plan.go\<close>), subscriptions and trials
  (\<open>domain/subscription.go\<close>), their table (migration 00011, \<open>adapters/postgres/repository.go\<close>), the two use
  cases (\<open>app/app.go\<close>) and the module's face (\<open>module.go\<close>). The only writer is the handler of the event that
  says a business was approved; the outbox delivers it at least once, so the property is about every
  sequence of deliveries, repeated and out of order.
\<close>

section \<open>Plans\<close>

type_synonym PlanCode = string

definition PlanFree :: PlanCode where "PlanFree = ''free''"
definition PlanPro :: PlanCode where "PlanPro = ''pro''"

record Plan =
  pn_code :: PlanCode
  pn_name :: LocalizedText
  pn_maxBranches :: int
  pn_maxStaff :: int

definition TrialPlan :: PlanCode where "TrialPlan = PlanPro"
definition TrialLength :: duration where "TrialLength = 30 * 24 * hour"

text \<open>The Arabic names, in UTF-8.\<close>

definition name_free :: LocalizedText where
  "name_free = \<lparr>lt_ar = [CHR 0xD8, CHR 0xA7, CHR 0xD9, CHR 0x84, CHR 0xD9, CHR 0x85, CHR 0xD8, CHR 0xAC, CHR 0xD8, CHR 0xA7,
     CHR 0xD9, CHR 0x86, CHR 0xD9, CHR 0x8A, CHR 0xD8, CHR 0xA9], lt_en = ''Free''\<rparr>"

definition name_pro :: LocalizedText where
  "name_pro = \<lparr>lt_ar = [CHR 0xD8, CHR 0xA7, CHR 0xD9, CHR 0x84, CHR 0xD8, CHR 0xA7, CHR 0xD8, CHR 0xAD, CHR 0xD8, CHR 0xAA,
     CHR 0xD8, CHR 0xB1, CHR 0xD8, CHR 0xA7, CHR 0xD9, CHR 0x81, CHR 0xD9, CHR 0x8A, CHR 0xD8, CHR 0xA9], lt_en = ''Pro''\<rparr>"

definition plans :: "PlanCode \<rightharpoonup> Plan" where
  "plans = [PlanFree \<mapsto> \<lparr>pn_code = PlanFree, pn_name = name_free, pn_maxBranches = 1, pn_maxStaff = 3\<rparr>,
            PlanPro \<mapsto> \<lparr>pn_code = PlanPro, pn_name = name_pro, pn_maxBranches = 5, pn_maxStaff = 30\<rparr>]"

datatype billing_error = ErrUnknownPlan | ErrNotFound | Fault

definition zero_plan :: Plan where
  "zero_plan = \<lparr>pn_code = [], pn_name = \<lparr>lt_ar = [], lt_en = []\<rparr>, pn_maxBranches = 0, pn_maxStaff = 0\<rparr>"

text \<open>The zero value comes with the error, as in the source: two callers ignore the error.\<close>

definition PlanByCode :: "PlanCode \<Rightarrow> Plan \<times> billing_error option" where
  "PlanByCode code = (case plans code of None \<Rightarrow> (zero_plan, Some ErrUnknownPlan) | Some p \<Rightarrow> (p, None))"

section \<open>Subscriptions\<close>

datatype StandingStatus = StatusSetup | StatusTrialing | StatusFree

record Standing =
  stg_plan :: Plan
  stg_status :: StandingStatus
  stg_trialEndsAt :: "gotime option"

definition SetupStanding :: Standing where
  "SetupStanding = \<lparr>stg_plan = fst (PlanByCode TrialPlan), stg_status = StatusSetup, stg_trialEndsAt = None\<rparr>"

record Subscription =
  sub_business :: BusinessID
  sub_plan :: PlanCode
  sub_periodEnd :: gotime
  sub_createdAt :: gotime

definition domain_StartTrial :: "BusinessID \<Rightarrow> gotime \<Rightarrow> Subscription" where
  "domain_StartTrial business approvedAt =
     (let at' = db_time approvedAt in
      \<lparr>sub_business = business, sub_plan = TrialPlan, sub_periodEnd = time_add at' TrialLength, sub_createdAt = at'\<rparr>)"

definition RehydrateSubscription :: "BusinessID \<Rightarrow> PlanCode \<Rightarrow> gotime \<Rightarrow> gotime \<Rightarrow> Subscription" where
  "RehydrateSubscription business plan periodEnd createdAt =
     \<lparr>sub_business = business, sub_plan = plan, sub_periodEnd = periodEnd, sub_createdAt = createdAt\<rparr>"

definition StandingAt :: "Subscription \<Rightarrow> gotime \<Rightarrow> Standing" where
  "StandingAt s now =
     (if now < sub_periodEnd s
      then \<lparr>stg_plan = fst (PlanByCode (sub_plan s)), stg_status = StatusTrialing, stg_trialEndsAt = Some (sub_periodEnd s)\<rparr>
      else \<lparr>stg_plan = fst (PlanByCode PlanFree), stg_status = StatusFree, stg_trialEndsAt = Some (sub_periodEnd s)\<rparr>)"

section \<open>The table\<close>

record subscription_row =
  sb_plan_code :: string
  sb_period_end :: gotime
  sb_created_at :: gotime

type_synonym billing_db = "uuid \<rightharpoonup> subscription_row"

definition subscription_ok :: "subscription_row \<Rightarrow> bool" where
  "subscription_ok r \<longleftrightarrow> sb_plan_code r \<in> set [''free'', ''pro''] \<and> sb_created_at r < sb_period_end r"

text \<open>\<open>INSERT ... ON CONFLICT (business_id) DO NOTHING\<close>; the answer says whether a row was saved.\<close>

definition AddIfAbsent :: "billing_db \<Rightarrow> Subscription \<Rightarrow> (billing_error, bool) result \<times> billing_db" where
  "AddIfAbsent db s =
     (let row = \<lparr>sb_plan_code = sub_plan s, sb_period_end = db_time (sub_periodEnd s), sb_created_at = db_time (sub_createdAt s)\<rparr> in
      if \<not> subscription_ok row then (Inl Fault, db)
      else if db (id_value (sub_business s)) \<noteq> None then (Inr False, db)
      else (Inr True, db(id_value (sub_business s) \<mapsto> row)))"

definition ForBusiness :: "billing_db \<Rightarrow> BusinessID \<Rightarrow> (billing_error, Subscription) result" where
  "ForBusiness db business =
     (case db (id_value business) of None \<Rightarrow> Inl ErrNotFound
      | Some row \<Rightarrow> Inr (RehydrateSubscription business (sb_plan_code row) (sb_period_end row) (sb_created_at row)))"

section \<open>Use cases\<close>

definition StartTrial :: "BusinessID \<Rightarrow> gotime \<Rightarrow> billing_db \<Rightarrow> billing_error option \<times> billing_db" where
  "StartTrial business approvedAt db =
     (case AddIfAbsent db (domain_StartTrial business approvedAt) of (Inl e, db') \<Rightarrow> (Some e, db') | (Inr _, db') \<Rightarrow> (None, db'))"

definition billing_Standing :: "billing_db \<Rightarrow> gotime \<Rightarrow> BusinessID \<Rightarrow> (billing_error, Standing) result" where
  "billing_Standing db now business =
     (case ForBusiness db business of
        Inl e \<Rightarrow> if e = ErrNotFound then Inr SetupStanding else Inl e
      | Inr s \<Rightarrow> Inr (StandingAt s now))"

section \<open>Properties\<close>

lemma plan_codes [simp]: "fst (PlanByCode PlanFree) = \<lparr>pn_code = PlanFree, pn_name = name_free, pn_maxBranches = 1, pn_maxStaff = 3\<rparr>"
  "fst (PlanByCode PlanPro) = \<lparr>pn_code = PlanPro, pn_name = name_pro, pn_maxBranches = 5, pn_maxStaff = 30\<rparr>"
  by (simp_all add: PlanByCode_def plans_def PlanFree_def PlanPro_def)

text \<open>The table after a sequence of deliveries, and the first of a business among them.\<close>

definition delivered :: "(BusinessID \<times> gotime) list \<Rightarrow> billing_db" where
  "delivered evs = foldl (\<lambda>db (b, t). snd (StartTrial b t db)) Map.empty evs"

lemma StartTrial_eq:
  "StartTrial b t db = (None, if db (id_value b) = None
     then db(id_value b \<mapsto> \<lparr>sb_plan_code = ''pro'', sb_period_end = db_time t + TrialLength, sb_created_at = db_time t\<rparr>) else db)"
proof -
  have "db_time (db_time t + TrialLength) = db_time t + TrialLength"
    by (subst db_time_shift) (simp_all add: TrialLength_def hour_def)
  then show ?thesis
    by (simp add: StartTrial_def AddIfAbsent_def domain_StartTrial_def subscription_ok_def time_add_def TrialPlan_def PlanPro_def Let_def
        TrialLength_def hour_def)
qed

lemma delivered_eq:
  "delivered evs (id_value b) = map_option (\<lambda>(_, t). \<lparr>sb_plan_code = ''pro'', sb_period_end = db_time t + TrialLength, sb_created_at = db_time t\<rparr>)
     (find_first (\<lambda>(c, _). c = b) evs)"
proof (induction evs rule: rev_induct)
  case (snoc e evs)
  obtain c t where e: "e = (c, t)" by (cases e)
  have "delivered (evs @ [e]) = snd (StartTrial c t (delivered evs))" by (simp add: delivered_def e)
  then show ?case using snoc by (cases "c = b") (auto simp: StartTrial_eq find_first_append e split: option.splits)
qed (simp add: delivered_def)

text \<open>C36: However often and in whatever order approvals are delivered, a business has one trial, from the first delivery:
  without any it sets up under the Pro limits, for thirty days it is on trial with the Pro limits, and from
  then on it is on the Free plan; and delivering an approval never fails.\<close>

theorem trial_exact:
  "billing_Standing (delivered evs) now b =
     (case find_first (\<lambda>(c, _). c = b) evs of
        None \<Rightarrow> Inr \<lparr>stg_plan = fst (PlanByCode PlanPro), stg_status = StatusSetup, stg_trialEndsAt = None\<rparr>
      | Some (_, t) \<Rightarrow>
          let end' = db_time t + 30 * 24 * hour in
          Inr (if now < end' then \<lparr>stg_plan = fst (PlanByCode PlanPro), stg_status = StatusTrialing, stg_trialEndsAt = Some end'\<rparr>
               else \<lparr>stg_plan = fst (PlanByCode PlanFree), stg_status = StatusFree, stg_trialEndsAt = Some end'\<rparr>))
   \<and> fst (StartTrial b t' (delivered evs)) = None"
  unfolding billing_Standing_def ForBusiness_def delivered_eq
  by (auto simp: StandingAt_def RehydrateSubscription_def SetupStanding_def TrialPlan_def StartTrial_eq TrialLength_def PlanPro_def Let_def
      split: option.splits)

end
