(* ===== verification/Plans.thy ===== *)
theory Plans
  imports TenantFacts Billing
begin

text \<open>
  Business over billing: billing's public face (\<open>internal/billing/module.go\<close>) and business's adapter to
  it (\<open>internal/business/adapters/acl/billing.go\<close>). The property bounds what any business can grow to,
  whatever approvals billing has been told of and whenever it was asked.
\<close>

section \<open>The adapter\<close>

fun standing_text :: "StandingStatus \<Rightarrow> string" where
  "standing_text StatusSetup = ''setup''"
| "standing_text StatusTrialing = ''trialing''"
| "standing_text StatusFree = ''free''"

record PublicStanding =
  sg_plan :: string
  sg_planName :: LocalizedText
  sg_status :: string
  sg_trialEndsAt :: "gotime option"
  sg_maxBranches :: int
  sg_maxStaff :: int

definition Module_Standing :: "billing_db \<Rightarrow> gotime \<Rightarrow> BusinessID \<Rightarrow> (billing_error, PublicStanding) result" where
  "Module_Standing ldb now business =
     (case billing_Standing ldb now business of Inl e \<Rightarrow> Inl e
      | Inr s \<Rightarrow> Inr \<lparr>sg_plan = pn_code (stg_plan s), sg_planName = pn_name (stg_plan s), sg_status = standing_text (stg_status s),
          sg_trialEndsAt = stg_trialEndsAt s, sg_maxBranches = pn_maxBranches (stg_plan s), sg_maxStaff = pn_maxStaff (stg_plan s)\<rparr>)"

definition BillingPlans_Standing :: "billing_db \<Rightarrow> gotime \<Rightarrow> BusinessID \<Rightarrow> (business_error, PlanStanding) result" where
  "BillingPlans_Standing ldb now business =
     (case Module_Standing ldb now business of Inl e \<Rightarrow> Inl Business.Fault
      | Inr s \<Rightarrow> Inr \<lparr>ps_plan = sg_plan s, ps_planName = sg_planName s, ps_status = sg_status s, ps_trialEndsAt = sg_trialEndsAt s,
          ps_limits = \<lparr>lm_maxBranches = sg_maxBranches s, lm_maxStaff = sg_maxStaff s\<rparr>\<rparr>)"

section \<open>Limits\<close>

lemma delivered_standing:
  "\<exists>s. billing_Standing (delivered evs) now b = Inr s \<and> (stg_plan s = fst (PlanByCode PlanPro) \<or> stg_plan s = fst (PlanByCode PlanFree))"
  unfolding billing_Standing_def ForBusiness_def delivered_eq
  by (auto simp: StandingAt_def RehydrateSubscription_def SetupStanding_def TrialPlan_def PlanPro_def split: option.splits)

lemma plan_limits:
  assumes "BillingPlans_Standing (delivered evs) now b = Inr plan"
  shows "lm_maxBranches (ps_limits plan) \<le> 5" "lm_maxStaff (ps_limits plan) \<le> 30"
  using delivered_standing [of evs now b] assms by (auto simp: BillingPlans_Standing_def Module_Standing_def)

text \<open>Business's ports with billing behind them, asked at some time; and transactions in the order of their
  clock readings, each with billing's answer of its own.\<close>

definition billed :: "business_ports \<Rightarrow> (BusinessID \<times> gotime) list \<Rightarrow> gotime \<Rightarrow> business_ports" where
  "billed ports evs asked = ports\<lparr>px_standing := BillingPlans_Standing (delivered evs) asked\<rparr>"

inductive billed_step :: "business_ports \<Rightarrow> gotime \<times> business_db \<Rightarrow> gotime \<times> business_db \<Rightarrow> bool" for ports :: business_ports where
  "t \<le> now \<Longrightarrow> business_step (billed ports evs asked) now db db' \<Longrightarrow> billed_step ports (t, db) (now, db')"

lemma tenants_ok_billed: "tenants_ok (billed ports evs asked) db = tenants_ok ports db"
  by (simp add: tenants_ok_def billed_def)

lemma Branches_Add_count:
  assumes "\<And>n. allow n = None \<Longrightarrow> bn_business br = b \<Longrightarrow> n < limit" "CountBranches db b \<le> limit"
  shows "CountBranches (snd (Branches_Add db br allow)) b \<le> limit"
proof (cases "Branches_Add db br allow")
  case (Pair res db')
  show ?thesis
  proof (cases res)
    case (Inl e)
    then show ?thesis using Pair assms(2) by (auto simp: Branches_Add_def commit_def split: sum.splits option.splits)
  next
    case (Inr u)
    obtain row where row: "toBranchRow br = Inr row" "allow (CountBranches db (bn_business br)) = None" "db' = db\<lparr>bd_branches := bd_branches db @ [row]\<rparr>"
      using Pair Inr by (auto simp: Branches_Add_def commit_def InsertBranch_def split: sum.splits option.splits if_splits)
    have "h_business row = id_value (bn_business br)" using row(1) by (auto simp: toBranchRow_def Let_def split: sum.splits if_splits)
    then have "CountBranches db' b = CountBranches db b + (if bn_business br = b then 1 else 0)"
      by (cases b; cases "bn_business br") (simp add: row(3) CountBranches_def)
    moreover have "CountBranches db b < limit" if "bn_business br = b" using assms(1) row(2) that by blast
    ultimately show ?thesis using assms(2) Pair by auto
  qed
qed

lemma Branches_Update_count: "CountBranches (snd (Branches_Update db business i v fn)) b = CountBranches db b"
  by (auto simp: Branches_Update_def commit_def UpdateBranch_stmt_def updated_branch_def CountBranches_def Let_def filter_map comp_def
      split: sum.splits option.splits prod.splits intro!: arg_cong [where f = length] filter_cong)

lemma CountBranches_kept: "bd_branches db' = bd_branches db \<Longrightarrow> CountBranches db' b = CountBranches db b"
  by (simp add: CountBranches_def)

lemma branches_kept:
  "bd_branches (snd (business_update db i v fn')) = bd_branches db" "bd_branches (snd (Documents_Attach db d c)) = bd_branches db"
  "bd_branches (snd (Invitations_Invite db invn allow)) = bd_branches db"
  "bd_branches (snd (Invitations_Update db business inv' fn)) = bd_branches db"
  by (auto simp: business_update_def UpdateBusiness_stmt_def Documents_Attach_def InsertVerificationDocument_def Invitations_Invite_def
      RevokePendingInvitations_def InsertInvitation_def Invitations_Update_def saveInvitation_def commit_def Let_def
      split: sum.splits option.splits if_splits prod.splits)

lemma branches_step:
  assumes step: "business_step ports now db db'" and ok: "tenants_ok ports db"
    and plan: "\<And>plan. px_standing ports b = Inr plan \<Longrightarrow> lm_maxBranches (ps_limits plan) \<le> limit"
    and before: "CountBranches db b \<le> limit"
  shows "CountBranches db' b \<le> limit"
  using step
proof cases
  case (register crText r i s owner bz m)
  have "st_branches m = []" using register(3) by (auto simp: RegisterBusiness_def Let_def split: if_splits sum.splits)
  obtain res where u: "Businesses_Register db bz m = (res, db')" using register(1) by (metis prod.collapse)
  have "bd_branches db' = bd_branches db"
    using u Businesses_Register_Inl [of db bz m _ db'] Businesses_Register_Inr(3) [OF _ \<open>st_branches m = []\<close>, of db bz _ db'] by (cases res) auto
  from CountBranches_kept [OF this] before show ?thesis by simp
next
  case (add_branch i business p policy branch plan')
  have "bn_business branch = business" using add_branch(2) by (auto simp: NewBranch_def Let_def record_event_def split: sum.splits if_splits)
  then have "n < limit" if "AllowBranch (ps_limits plan') n = None" "bn_business branch = b" for n
    using plan [of plan'] add_branch(3) that by (auto simp: AllowBranch_def split: if_splits)
  then show ?thesis unfolding add_branch(1) by (rule Branches_Add_count [OF _ before])
next
  case (accept actor phone token staff)
  obtain res where u: "Invitations_Accept db (px_hash ports token) (accept_fn staff actor phone now) = (res, db')"
    using accept(1) by (metis prod.collapse)
  from u tenants_okD(4) [OF ok] have "bd_branches db' = bd_branches db" by (cases rule: Invitations_Accept_cases) simp_all
  from CountBranches_kept [OF this] before show ?thesis by simp
qed (use before in \<open>simp_all add: Branches_Update_count branches_kept [THEN CountBranches_kept] Businesses_Update_def UpdateWithReadiness_def\<close>)

definition limits_ok :: "business_ports \<Rightarrow> gotime \<times> business_db \<Rightarrow> bool" where
  "limits_ok ports s \<longleftrightarrow> tenants_ok ports (snd s) \<and> (\<forall>b. CountStaffSeats (snd s) b (fst s) \<le> 30 \<and> CountBranches (snd s) b \<le> 5)"

interpretation limits_kept: invariant_system "billed_step ports" "limits_ok ports" for ports
proof
  fix s s' assume "billed_step ports s s'" and ok: "limits_ok ports s"
  then obtain t now evs asked db db' where s: "s = (t, db)" "s' = (now, db')" "t \<le> now" "business_step (billed ports evs asked) now db db'"
    by (auto elim: billed_step.cases)
  have T: "tenants_ok (billed ports evs asked) db" using ok s(1) by (simp add: limits_ok_def tenants_ok_billed)
  have plan: "BillingPlans_Standing (delivered evs) asked b = Inr p" if "px_standing (billed ports evs asked) b = Inr p" for b p
    using that by (simp add: billed_def)
  have "CountStaffSeats db' b now \<le> 30" for b
  proof (rule seats_step [OF s(4) T plan_limits(2) [OF plan]])
    show "CountStaffSeats db b now \<le> 30" using seats_later [OF s(3), of db b] ok s(1) by (auto simp: limits_ok_def intro: order_trans)
  qed assumption
  moreover have "CountBranches db' b \<le> 5" for b
    by (rule branches_step [OF s(4) T plan_limits(1) [OF plan]]) (use ok s(1) in \<open>simp_all add: limits_ok_def\<close>)
  ultimately show "limits_ok ports s'"
    using business_step_ok [OF s(4) T] s(2) by (simp add: limits_ok_def tenants_ok_billed)
qed

text \<open>C35: With billing behind business, whatever approvals were delivered and whenever billing was asked, if transactions
  commit in the order of their clock readings then no business ever has more than five branches, nor more
  than thirty managers, barbers and open invitations.\<close>

theorem no_business_outgrows_pro:
  assumes "(billed_step ports)\<^sup>*\<^sup>* (t0, empty_business_db) (t, db)"
  shows "CountBranches db b \<le> 5 \<and> CountStaffSeats db b t \<le> 30"
proof -
  have "limits_ok ports (t0, empty_business_db)"
    using tenants_ok_empty by (simp add: limits_ok_def CountStaffSeats_def CountBranches_def empty_business_db_def)
  from limits_kept.steps_inv [OF assms this] show ?thesis by (simp add: limits_ok_def)
qed

definition pro_limits :: Limits where
  "pro_limits = \<lparr>lm_maxBranches = 5, lm_maxStaff = 30\<rparr>"

definition pro_branch :: business_db where
  "pro_branch = (case NewBranch (px_zones sample_ports) (ID 30) (ID 10) sample_profile DefaultBookingPolicy 0 of
     Inr br \<Rightarrow> snd (Branches_Add registered br (AllowBranch pro_limits)) | Inl _ \<Rightarrow> registered)"

theorem no_business_outgrows_pro_witness:
  "(billed_step sample_ports)\<^sup>*\<^sup>* (0, empty_business_db) (0, pro_branch) \<and> CountBranches pro_branch (ID 10) \<le> 5
   \<and> length (bd_branches pro_branch) = 1"
proof -
  obtain b m where b: "RegisterBusiness (ID 10) (ID 20) (ID 1) sample_registration 0 = Inr (b, m)"
    using is_ok_Inr [OF sample_inputs_ok(1)] by auto
  obtain br where br: "NewBranch (px_zones sample_ports) (ID 30) (ID 10) sample_profile DefaultBookingPolicy 0 = Inr br"
    using is_ok_Inr [OF sample_inputs_ok(2)] by auto
  let ?ports = "billed sample_ports [] 0"
  have z: "px_zones ?ports = px_zones sample_ports" by (simp add: billed_def)
  obtain plan where plan: "px_standing ?ports (ID 10) = Inr plan" "ps_limits plan = pro_limits"
    by (simp add: billed_def BillingPlans_Standing_def Module_Standing_def billing_Standing_def ForBusiness_def delivered_def SetupStanding_def
        TrialPlan_def pro_limits_def)
  have "business_step ?ports 0 empty_business_db registered"
    using business_step.register [OF sample_inputs_ok(4) b, of ?ports empty_business_db] by (simp add: registered_def b)
  moreover have "business_step ?ports 0 registered pro_branch"
    using business_step.add_branch [of ?ports, unfolded z, OF br plan(1), of registered] by (simp add: pro_branch_def br plan(2))
  ultimately have run: "(billed_step sample_ports)\<^sup>*\<^sup>* (0, empty_business_db) (0, pro_branch)"
    by (meson billed_step.intros converse_rtranclp_into_rtranclp order_refl rtranclp.rtrancl_refl)
  moreover have "length (bd_branches pro_branch) = 1" by code_simp
  ultimately show ?thesis using no_business_outgrows_pro [OF run, of "ID 10"] by simp
qed

end
