(* ===== verification/Interval.thy ===== *)
theory Interval
  imports GoTime
begin

text \<open>
  \<open>internal/shared/interval.go\<close>: half-open time ranges, the shared kernel's value object
  that scheduling and booking both calculate with. The denotation \<open>points\<close> of an interval
  is the set of instants it holds, and \<open>span_points\<close> that of a list of them; every
  operation is characterised by it.
\<close>

datatype interval_error = ErrInvalidInterval

record Interval =
  ivl_start :: gotime
  ivl_end :: gotime

text \<open>\<open>NewInterval\<close> refuses an end that is not after the start.\<close>

definition NewInterval :: "gotime \<Rightarrow> gotime \<Rightarrow> (interval_error, Interval) result" where
  "NewInterval s e =
     (if \<not> s < e then Inl ErrInvalidInterval else Inr \<lparr>ivl_start = s, ivl_end = e\<rparr>)"

definition Duration :: "Interval \<Rightarrow> duration" where
  "Duration i = time_sub (ivl_end i) (ivl_start i)"

definition Overlaps :: "Interval \<Rightarrow> Interval \<Rightarrow> bool" where
  "Overlaps i j \<longleftrightarrow> ivl_start i < ivl_end j \<and> ivl_start j < ivl_end i"

definition Contains :: "Interval \<Rightarrow> gotime \<Rightarrow> bool" where
  "Contains i t \<longleftrightarrow> \<not> t < ivl_start i \<and> t < ivl_end i"

definition Covers :: "Interval \<Rightarrow> Interval \<Rightarrow> bool" where
  "Covers i j \<longleftrightarrow> \<not> ivl_start j < ivl_start i \<and> \<not> ivl_end i < ivl_end j"

section \<open>Denotation\<close>

definition points :: "Interval \<Rightarrow> gotime set" where
  "points i = {ivl_start i ..< ivl_end i}"

definition span_points :: "Interval list \<Rightarrow> gotime set" where
  "span_points xs = (\<Union>i \<in> set xs. points i)"

definition proper :: "Interval \<Rightarrow> bool" where
  "proper i \<longleftrightarrow> ivl_start i < ivl_end i"

declare Overlaps_def [interval_simps] Contains_def [interval_simps] Covers_def [interval_simps]
  points_def [interval_simps] proper_def [interval_simps]

lemma span_points_simps [simp]:
  "span_points [] = {}"
  "span_points (x # xs) = points x \<union> span_points xs"
  "span_points (xs @ ys) = span_points xs \<union> span_points ys"
  by (auto simp: span_points_def)

lemma NewInterval_Inr_iff:
  "NewInterval s e = Inr i \<longleftrightarrow> s < e \<and> i = \<lparr>ivl_start = s, ivl_end = e\<rparr>"
  by (auto simp: NewInterval_def)

lemma NewInterval_proper: "NewInterval s e = Inr i \<Longrightarrow> proper i"
  by (auto simp: NewInterval_Inr_iff proper_def)

lemma points_nonempty: "proper i \<longleftrightarrow> points i \<noteq> {}"
  by (simp add: interval_simps)

lemma Contains_iff_points: "Contains i t \<longleftrightarrow> t \<in> points i"
  by (auto simp: interval_simps)

lemma Overlaps_iff_points:
  assumes "proper i" "proper j"
  shows "Overlaps i j \<longleftrightarrow> points i \<inter> points j \<noteq> {}"
proof
  assume "Overlaps i j"
  then have "max (ivl_start i) (ivl_start j) \<in> points i \<inter> points j"
    using assms by (auto simp: interval_simps)
  then show "points i \<inter> points j \<noteq> {}" by blast
qed (auto simp: interval_simps)

lemma Covers_iff_points: "proper j \<Longrightarrow> Covers i j \<longleftrightarrow> points j \<subseteq> points i"
  by (auto simp: interval_simps atLeastLessThan_subset_iff not_less)

lemma Overlaps_sym: "Overlaps i j \<longleftrightarrow> Overlaps j i"
  by (auto simp: interval_simps)

lemma Interval_eqI:
  "ivl_start i = ivl_start j \<Longrightarrow> ivl_end i = ivl_end j \<Longrightarrow> i = (j :: Interval)"
  by (rule Interval.equality) simp_all

end
