(* ===== verification/Spans.thy ===== *)
theory Spans
  imports Interval
begin

text \<open>
  The interval-list algebra of \<open>internal/scheduling/domain/windows.go\<close>: \<open>normalize\<close>,
  \<open>intersect\<close>, \<open>subtract\<close> and \<open>clip\<close>. The source builds intervals it believes
  non-empty with \<open>mustSpan\<close>, which panics otherwise; a panic is \<open>None\<close> here, so each
  correctness lemma also says that the operation does not panic. The locale
  \<open>span_algebra\<close> is the contract the working-windows calculation relies on, and
  \<open>spans\<close> its interpretation on the four operations.
\<close>

section \<open>The operations\<close>

definition mustSpan :: "gotime \<Rightarrow> gotime \<Rightarrow> Interval option" where
  "mustSpan s e = (case NewInterval s e of Inl _ \<Rightarrow> None | Inr i \<Rightarrow> Some i)"

definition later :: "gotime \<Rightarrow> gotime \<Rightarrow> gotime" where
  "later a b = (if b < a then a else b)"

definition earlier :: "gotime \<Rightarrow> gotime \<Rightarrow> gotime" where
  "earlier a b = (if a < b then a else b)"

definition appendSpan :: "Interval list \<Rightarrow> gotime \<Rightarrow> gotime \<Rightarrow> Interval list" where
  "appendSpan spans s e = (case NewInterval s e of Inl _ \<Rightarrow> spans | Inr i \<Rightarrow> spans @ [i])"

fun normalize_loop :: "Interval list \<Rightarrow> Interval list \<Rightarrow> Interval list option" where
  "normalize_loop out [] = Some out"
| "normalize_loop out (s # ss) =
     (if out \<noteq> [] \<and> \<not> ivl_end (last out) < ivl_start s then
        (if ivl_end (last out) < ivl_end s then
           do { m \<leftarrow> mustSpan (ivl_start (last out)) (ivl_end s);
                normalize_loop (butlast out @ [m]) ss }
         else normalize_loop out ss)
      else normalize_loop (out @ [s]) ss)"

definition normalize :: "Interval list \<Rightarrow> Interval list option" where
  "normalize spans = normalize_loop [] (sort_key ivl_start spans)"

fun intersect_loop :: "Interval list \<Rightarrow> Interval list \<Rightarrow> Interval list \<Rightarrow> Interval list option" where
  "intersect_loop out (x # a) (y # b) =
     (let s = later (ivl_start x) (ivl_start y); e = earlier (ivl_end x) (ivl_end y) in
      do { out' \<leftarrow> (if s < e then do { m \<leftarrow> mustSpan s e; Some (out @ [m]) } else Some out);
           (if ivl_end x < ivl_end y then intersect_loop out' a (y # b)
            else intersect_loop out' (x # a) b) })"
| "intersect_loop out a b = Some out"

definition intersect :: "Interval list \<Rightarrow> Interval list \<Rightarrow> Interval list option" where
  "intersect a b = intersect_loop [] a b"

text \<open>The inner loop of \<open>subtract\<close>: cut \<open>b\<close> out of the rest \<open>[s, e)\<close> of one interval.\<close>

fun subtract_inner ::
  "Interval list \<Rightarrow> gotime \<Rightarrow> gotime \<Rightarrow> Interval list \<Rightarrow> (Interval list \<times> gotime) option" where
  "subtract_inner out s e (x # b) =
     (if ivl_start x < e then
        do { out' \<leftarrow> (if s < ivl_start x then do { m \<leftarrow> mustSpan s (ivl_start x); Some (out @ [m]) }
                       else Some out);
             subtract_inner out' (if s < ivl_end x then ivl_end x else s) e b }
      else Some (out, s))"
| "subtract_inner out s e [] = Some (out, s)"

fun subtract_loop :: "Interval list \<Rightarrow> Interval list \<Rightarrow> Interval list \<Rightarrow> Interval list option" where
  "subtract_loop out [] b = Some out"
| "subtract_loop out (x # a) b =
     (let b' = dropWhile (\<lambda>y. \<not> ivl_start x < ivl_end y) b in
      do { (out', s) \<leftarrow> subtract_inner out (ivl_start x) (ivl_end x) b';
           out'' \<leftarrow> (if s < ivl_end x then do { m \<leftarrow> mustSpan s (ivl_end x); Some (out' @ [m]) }
                       else Some out');
           subtract_loop out'' a b' })"

definition subtract :: "Interval list \<Rightarrow> Interval list \<Rightarrow> Interval list option" where
  "subtract a b = subtract_loop [] a b"

fun clip_loop :: "Interval list \<Rightarrow> Interval list \<Rightarrow> gotime \<Rightarrow> gotime \<Rightarrow> Interval list option" where
  "clip_loop out [] lo hi = Some out"
| "clip_loop out (x # xs) lo hi =
     (let s = later (ivl_start x) lo; e = earlier (ivl_end x) hi in
      do { out' \<leftarrow> (if s < e then do { m \<leftarrow> mustSpan s e; Some (out @ [m]) } else Some out);
           clip_loop out' xs lo hi })"

definition clip :: "Interval list \<Rightarrow> gotime \<Rightarrow> gotime \<Rightarrow> Interval list option" where
  "clip spans lo hi = clip_loop [] spans lo hi"

section \<open>Canonical lists\<close>

text \<open>Sorted, every interval non-empty, and a gap between any two: \<open>never touching\<close>.\<close>

definition canonical :: "Interval list \<Rightarrow> bool" where
  "canonical xs \<longleftrightarrow> (\<forall>i \<in> set xs. proper i) \<and> sorted_wrt (\<lambda>i j. ivl_end i < ivl_start j) xs"

lemma canonical_Nil [simp]: "canonical []"
  by (simp add: canonical_def)

lemma canonical_Cons:
  "canonical (x # xs) \<longleftrightarrow>
     proper x \<and> canonical xs \<and> (\<forall>y \<in> set xs. ivl_end x < ivl_start y)"
  by (auto simp: canonical_def)

lemma canonical_snoc:
  "canonical (xs @ [x]) \<longleftrightarrow>
     canonical xs \<and> proper x \<and> (\<forall>y \<in> set xs. ivl_end y < ivl_start x)"
  by (auto simp: canonical_def sorted_wrt_snoc)

lemma later_max [simp]: "later a b = max a b"
  by (simp add: later_def max_def)

lemma earlier_min [simp]: "earlier a b = min a b"
  by (simp add: earlier_def min_def)

lemma mustSpan_Some: "s < e \<Longrightarrow> mustSpan s e = Some \<lparr>ivl_start = s, ivl_end = e\<rparr>"
  by (simp add: mustSpan_def NewInterval_def)

lemma appendSpan_points:
  "span_points (appendSpan xs s e) = span_points xs \<union> {s ..< e}"
  by (auto simp: appendSpan_def NewInterval_def points_def)

lemma appendSpan_proper:
  "\<forall>i \<in> set xs. proper i \<Longrightarrow> \<forall>i \<in> set (appendSpan xs s e). proper i"
  by (auto simp: appendSpan_def NewInterval_def proper_def)

text \<open>
  A canonical list is determined by its instants, so results that denote the same set are
  equal: whatever order an unstable sort leaves equal starts in, \<open>normalize\<close> returns the
  same list.
\<close>

lemma canonical_bounds:
  "canonical (x # xs) \<Longrightarrow> t \<in> span_points xs \<Longrightarrow> ivl_end x < t"
  by (fastforce simp: canonical_Cons span_points_def points_def)

lemma canonical_head_start:
  assumes "canonical (x # xs)"
  shows "t \<in> span_points (x # xs) \<Longrightarrow> ivl_start x \<le> t"
    and "ivl_start x \<in> span_points (x # xs)"
  using assms canonical_bounds [OF assms, of t]
  by (auto simp: canonical_Cons interval_simps)

lemma canonical_unique:
  assumes "canonical xs" "canonical ys" "span_points xs = span_points ys"
  shows "xs = ys"
  using assms
proof (induction xs arbitrary: ys)
  case Nil
  then show ?case
    using canonical_head_start(2) by (cases ys) auto
next
  case (Cons x xs)
  then obtain y ys' where ys: "ys = y # ys'"
    using canonical_head_start(2) [of x xs] by (cases ys) auto
  have start: "ivl_start x = ivl_start y"
    using canonical_head_start [of x xs] canonical_head_start [of y ys'] Cons.prems
    unfolding ys by (metis order_antisym)
  have not_later: "ivl_end u \<le> ivl_end v"
    if "canonical (u # us)" "canonical (v # vs)" "ivl_start u = ivl_start v"
      "span_points (u # us) \<subseteq> span_points (v # vs)" for u us v vs
  proof (rule ccontr)
    assume "\<not> ivl_end u \<le> ivl_end v"
    then have "ivl_end v \<in> span_points (u # us)"
      using that by (auto simp: canonical_Cons interval_simps)
    then have "ivl_end v \<in> span_points (v # vs)" using that(4) by blast
    then show False
      using canonical_bounds [OF that(2), of "ivl_end v"] by (auto simp: points_def)
  qed
  have "ivl_end x = ivl_end y"
    using not_later [of x xs y ys'] not_later [of y ys' x xs] Cons.prems start
    unfolding ys by (metis order_antisym order_refl)
  with start have xy: "x = y" by (rule Interval_eqI)
  have "span_points xs = span_points ys'"
  proof -
    have "points x \<inter> span_points xs = {}" "points y \<inter> span_points ys' = {}"
      using canonical_bounds [of x xs] canonical_bounds [of y ys'] Cons.prems
      unfolding ys by (force simp: points_def)+
    then show ?thesis using Cons.prems(3) unfolding ys xy by auto
  qed
  then show ?case
    using Cons.IH [of ys'] Cons.prems unfolding ys xy by (simp add: canonical_Cons)
qed

section \<open>Correctness of each operation\<close>

lemma normalize_loop_correct:
  assumes "canonical out" "\<forall>i \<in> set ss. proper i" "sorted (map ivl_start ss)"
    "out \<noteq> [] \<Longrightarrow> \<forall>i \<in> set ss. ivl_start (last out) \<le> ivl_start i"
  shows "\<exists>r. normalize_loop out ss = Some r \<and> canonical r
    \<and> span_points r = span_points out \<union> span_points ss"
  using assms
proof (induction out ss rule: normalize_loop.induct)
  case (1 out)
  then show ?case by simp
next
  case (2 out s ss)
  show ?case
  proof (cases "out \<noteq> [] \<and> \<not> ivl_end (last out) < ivl_start s")
    case False
    have "canonical (out @ [s])"
    proof (cases "out = []")
      case True
      then show ?thesis using "2.prems" by (simp add: canonical_Cons)
    next
      case ne: False
      then obtain ys y where out: "out = ys @ [y]" using snoc_cases_last by blast
      show ?thesis
        using "2.prems" False unfolding out canonical_snoc
        by (fastforce simp: proper_def)
    qed
    with False show ?thesis
      using "2.IH"(3) "2.prems" by (auto simp: Un_assoc)
  next
    case True
    then obtain ys y where out: "out = ys @ [y]" using snoc_cases_last by blast
    have ends: "ivl_start y \<le> ivl_start s" "ivl_start s \<le> ivl_end y" "proper s" "proper y"
      using "2.prems" True by (simp_all add: out canonical_snoc)
    show ?thesis
    proof (cases "ivl_end y < ivl_end s")
      case grow: True
      let ?m = "\<lparr>ivl_start = ivl_start y, ivl_end = ivl_end s\<rparr>"
      have m: "mustSpan (ivl_start y) (ivl_end s) = Some ?m"
        using ends grow by (intro mustSpan_Some) (simp add: proper_def)
      have "canonical (ys @ [?m])"
        using "2.prems"(1) ends grow by (simp add: out canonical_snoc proper_def)
      moreover have "points ?m = points y \<union> points s"
        using ends grow by (auto simp: interval_simps)
      ultimately show ?thesis
        using "2.IH"(1) [OF True] "2.prems" True grow m by (auto simp: out Un_assoc)
    next
      case False
      then have "points s \<subseteq> points y" using ends by (auto simp: interval_simps)
      then show ?thesis
        using "2.IH"(2) [OF True] "2.prems" True False by (auto simp: out)
    qed
  qed
qed

lemma normalize_correct:
  assumes "\<forall>i \<in> set spans. proper i"
  shows "\<exists>r. normalize spans = Some r \<and> canonical r \<and> span_points r = span_points spans"
  using normalize_loop_correct [of "[]" "sort_key ivl_start spans"] assms
  by (simp add: normalize_def span_points_def)

lemma intersect_loop_correct:
  assumes "canonical out" "canonical a" "canonical b"
    "\<forall>i \<in> set out. \<forall>x \<in> set a. \<forall>y \<in> set b. ivl_end i < max (ivl_start x) (ivl_start y)"
  shows "\<exists>r. intersect_loop out a b = Some r \<and> canonical r
    \<and> span_points r = span_points out \<union> (span_points a \<inter> span_points b)"
  using assms
proof (induction out a b rule: intersect_loop.induct)
  case (1 out x a y b)
  let ?s = "max (ivl_start x) (ivl_start y)" and ?e = "min (ivl_end x) (ivl_end y)"
  let ?m = "\<lparr>ivl_start = ?s, ivl_end = ?e\<rparr>"
  define out' where "out' = (if ?s < ?e then out @ [?m] else out)"
  have step: "(if ?s < ?e then do { m \<leftarrow> mustSpan ?s ?e; Some (out @ [m]) } else Some out) = Some out'"
    by (simp add: out'_def mustSpan_Some)
  have unf: "intersect_loop out (x # a) (y # b) =
      (if ivl_end x < ivl_end y then intersect_loop out' a (y # b) else intersect_loop out' (x # a) b)"
    unfolding intersect_loop.simps Let_def later_max earlier_min step by simp
  have out': "span_points out' = span_points out \<union> (points x \<inter> points y)" "canonical out'"
    using "1.prems" by (auto simp: out'_def interval_simps canonical_snoc)
  have xs: "\<And>z. z \<in> set a \<Longrightarrow> ivl_end x < ivl_start z" and ys: "\<And>z. z \<in> set b \<Longrightarrow> ivl_end y < ivl_start z"
    using "1.prems" by (auto simp: canonical_Cons)
  have px: "\<And>t. t \<in> points x \<Longrightarrow> t < ivl_end x" and py: "\<And>t. t \<in> points y \<Longrightarrow> t < ivl_end y"
    by (simp_all add: points_def)
  have pa: "\<And>t. t \<in> span_points a \<Longrightarrow> ivl_end x < t" and pb: "\<And>t. t \<in> span_points b \<Longrightarrow> ivl_end y < t"
    using canonical_bounds "1.prems" by blast+
  show ?case
  proof (cases "ivl_end x < ivl_end y")
    case True
    have sep: "\<forall>i \<in> set out'. \<forall>u \<in> set a. \<forall>v \<in> set (y # b). ivl_end i < max (ivl_start u) (ivl_start v)"
      using "1.prems"(4) xs by (auto simp: out'_def less_max_iff_disj min_less_iff_disj split: if_splits)
    have "points x \<inter> span_points b = {}" using px pb True by fastforce
    then have "span_points out' \<union> (span_points a \<inter> span_points (y # b))
      = span_points out \<union> (span_points (x # a) \<inter> span_points (y # b))"
      by (auto simp: out')
    then show ?thesis
      using "1.IH"(1) [of ?s ?e out', OF _ _ step True] out'(2) sep "1.prems" True
      unfolding unf by (simp add: canonical_Cons)
  next
    case False
    have sep: "\<forall>i \<in> set out'. \<forall>u \<in> set (x # a). \<forall>v \<in> set b. ivl_end i < max (ivl_start u) (ivl_start v)"
      using "1.prems"(4) ys by (auto simp: out'_def less_max_iff_disj min_less_iff_disj split: if_splits)
    have "span_points a \<inter> points y = {}" using pa py False by fastforce
    then have "span_points out' \<union> (span_points (x # a) \<inter> span_points b)
      = span_points out \<union> (span_points (x # a) \<inter> span_points (y # b))"
      by (auto simp: out')
    then show ?thesis
      using "1.IH"(2) [of ?s ?e out', OF _ _ step False] out'(2) sep "1.prems" False
      unfolding unf by (simp add: canonical_Cons)
  qed
qed simp_all

lemma intersect_correct:
  assumes "canonical a" "canonical b"
  shows "\<exists>r. intersect a b = Some r \<and> canonical r \<and> span_points r = span_points a \<inter> span_points b"
  using intersect_loop_correct [of "[]" a b] assms by (simp add: intersect_def)

lemma subtract_inner_correct:
  assumes "canonical out" "\<forall>i \<in> set out. ivl_end i < s \<and> ivl_end i < e" "canonical b"
    "\<forall>x \<in> set b. s < ivl_end x"
  shows "\<exists>out' s'. subtract_inner out s e b = Some (out', s') \<and> canonical out'
    \<and> (\<forall>i \<in> set out'. ivl_end i < s' \<and> ivl_end i < e)
    \<and> span_points out' \<union> {s' ..< e} = span_points out \<union> ({s ..< e} - span_points b)"
  using assms
proof (induction out s e b rule: subtract_inner.induct)
  case (1 out s e x b)
  show ?case
  proof (cases "ivl_start x < e")
    case True
    define out1 where "out1 = (if s < ivl_start x then out @ [\<lparr>ivl_start = s, ivl_end = ivl_start x\<rparr>] else out)"
    have sx: "s < ivl_end x" "proper x" using "1.prems" by (auto simp: canonical_Cons)
    have unf: "subtract_inner out s e (x # b) = subtract_inner out1 (ivl_end x) e b"
      using True sx by (simp add: out1_def mustSpan_Some)
    have step: "(if s < ivl_start x then do { m \<leftarrow> mustSpan s (ivl_start x); Some (out @ [m]) }
        else Some out) = Some out1"
      by (simp add: out1_def mustSpan_Some)
    have c1: "canonical out1"
      using "1.prems"(1,2) by (auto simp: out1_def canonical_snoc proper_def)
    have e1: "\<forall>i \<in> set out1. ivl_end i < ivl_end x \<and> ivl_end i < e"
      using "1.prems"(2) sx True by (auto simp: out1_def proper_def)
    have b1: "\<forall>y \<in> set b. ivl_end x < ivl_end y"
      using "1.prems"(3) by (fastforce simp: canonical_def proper_def)
    have "span_points out1 \<union> ({ivl_end x ..< e} - span_points b)
      = span_points out \<union> ({s ..< e} - span_points (x # b))"
    proof -
      have "\<forall>t \<in> span_points b. ivl_end x < t" using canonical_bounds [OF "1.prems"(3)] by blast
      then show ?thesis
        using sx True by (intro set_eqI) (auto simp: out1_def points_def proper_def)
    qed
    then show ?thesis
      using "1.IH" [OF True step] c1 e1 b1 "1.prems"(3) sx unfolding unf by (simp add: canonical_Cons)
  next
    case False
    then have "{s ..< e} \<inter> span_points (x # b) = {}"
      using canonical_head_start(1) [OF "1.prems"(3)] by fastforce
    then show ?thesis using "1.prems" False by auto
  qed
qed auto

lemma canonical_dropWhile:
  fixes s :: gotime
  assumes "canonical b"
  defines "b' \<equiv> dropWhile (\<lambda>y. \<not> s < ivl_end y) b"
  shows "canonical b' \<and> (\<forall>y \<in> set b'. s < ivl_end y)
    \<and> span_points b' \<inter> {s ..} = span_points b \<inter> {s ..}"
  using assms(1) unfolding b'_def
proof (induction b)
  case (Cons x b)
  show ?case
  proof (cases "s < ivl_end x")
    case True
    then have "\<forall>y \<in> set (x # b). s < ivl_end y"
      using Cons.prems by (fastforce simp: canonical_def proper_def)
    with True show ?thesis using Cons.prems by simp
  next
    case False
    then have "points x \<inter> {s ..} = {}" by (auto simp: points_def)
    then have "span_points (x # b) \<inter> {s ..} = span_points b \<inter> {s ..}" by auto
    moreover have "dropWhile (\<lambda>y. \<not> s < ivl_end y) (x # b) = dropWhile (\<lambda>y. \<not> s < ivl_end y) b"
      using False by simp
    moreover have "canonical b" using Cons.prems by (simp add: canonical_Cons)
    ultimately show ?thesis using Cons.IH by metis
  qed
qed simp

lemma subtract_loop_correct:
  assumes "canonical out" "canonical a" "canonical b"
    "\<forall>i \<in> set out. \<forall>x \<in> set a. ivl_end i < ivl_start x"
  shows "\<exists>r. subtract_loop out a b = Some r \<and> canonical r
    \<and> span_points r = span_points out \<union> (span_points a - span_points b)"
  using assms
proof (induction a arbitrary: out b)
  case (Cons x a)
  define b' where "b' = dropWhile (\<lambda>y. \<not> ivl_start x < ivl_end y) b"
  have x: "proper x" "canonical a" "\<forall>y \<in> set a. ivl_end x < ivl_start y"
    using Cons.prems(2) by (auto simp: canonical_Cons)
  have b': "canonical b'" "\<forall>y \<in> set b'. ivl_start x < ivl_end y"
    "span_points b' \<inter> {ivl_start x ..} = span_points b \<inter> {ivl_start x ..}"
    unfolding b'_def using canonical_dropWhile [OF Cons.prems(3)] by blast+
  obtain out1 s where inner: "subtract_inner out (ivl_start x) (ivl_end x) b' = Some (out1, s)"
    "canonical out1" "\<forall>i \<in> set out1. ivl_end i < s \<and> ivl_end i < ivl_end x"
    "span_points out1 \<union> {s ..< ivl_end x} = span_points out \<union> (points x - span_points b')"
    using subtract_inner_correct [of out "ivl_start x" "ivl_end x" b'] Cons.prems x b'
    by (fastforce simp: points_def proper_def)
  define out2 where "out2 = (if s < ivl_end x then out1 @ [\<lparr>ivl_start = s, ivl_end = ivl_end x\<rparr>] else out1)"
  have unf: "subtract_loop out (x # a) b = subtract_loop out2 a b'"
    by (simp add: b'_def [symmetric] inner out2_def mustSpan_Some Let_def)
  have "\<forall>i \<in> set out2. ivl_end i \<le> ivl_end x"
    using inner(3) by (auto simp: out2_def)
  then have c2: "\<forall>i \<in> set out2. \<forall>y \<in> set a. ivl_end i < ivl_start y"
    using x by (meson le_less_trans)
  have c1: "canonical out2"
    using inner(2,3) x by (auto simp: out2_def canonical_snoc proper_def)
  have "span_points out2 = span_points out \<union> (points x - span_points b')"
    using inner(4) by (auto simp: out2_def points_def)
  moreover have "t \<in> span_points b' \<longleftrightarrow> t \<in> span_points b" if "t \<in> span_points (x # a)" for t
    using b'(3) canonical_head_start(1) [OF Cons.prems(2) that] by blast
  ultimately have "span_points out2 \<union> (span_points a - span_points b')
    = span_points out \<union> (span_points (x # a) - span_points b)"
    by auto
  then show ?case
    using Cons.IH [OF c1 x(2) b'(1) c2] unfolding unf by simp
qed simp

lemma subtract_correct:
  assumes "canonical a" "canonical b"
  shows "\<exists>r. subtract a b = Some r \<and> canonical r \<and> span_points r = span_points a - span_points b"
  using subtract_loop_correct [of "[]" a b] assms by (simp add: subtract_def)

lemma clip_loop_correct:
  assumes "canonical out" "canonical xs" "\<forall>i \<in> set out. \<forall>x \<in> set xs. ivl_end i < ivl_start x"
  shows "\<exists>r. clip_loop out xs lo hi = Some r \<and> canonical r
    \<and> span_points r = span_points out \<union> (span_points xs \<inter> {lo ..< hi})"
  using assms
proof (induction xs arbitrary: out)
  case (Cons x xs)
  let ?s = "max (ivl_start x) lo" and ?e = "min (ivl_end x) hi"
  define out1 where "out1 = (if ?s < ?e then out @ [\<lparr>ivl_start = ?s, ivl_end = ?e\<rparr>] else out)"
  have unf: "clip_loop out (x # xs) lo hi = clip_loop out1 xs lo hi"
    by (simp add: Let_def out1_def mustSpan_Some)
  have "canonical out1" "\<forall>i \<in> set out1. \<forall>y \<in> set xs. ivl_end i < ivl_start y"
    using Cons.prems by (auto simp: out1_def canonical_snoc canonical_Cons proper_def
        less_max_iff_disj min_less_iff_disj)
  moreover have "span_points out1 = span_points out \<union> (points x \<inter> {lo ..< hi})"
    by (auto simp: out1_def points_def)
  ultimately show ?case
    using Cons.IH [of out1] Cons.prems unfolding unf by (auto simp: canonical_Cons)
qed simp

lemma clip_correct:
  assumes "canonical xs"
  shows "\<exists>r. clip xs lo hi = Some r \<and> canonical r \<and> span_points r = span_points xs \<inter> {lo ..< hi}"
  using clip_loop_correct [of "[]" xs lo hi] assms by (simp add: clip_def)

section \<open>The contract of the algebra\<close>

text \<open>
  What the working-windows calculation needs: a raw collection can be put in canonical form,
  canonical values can be intersected, subtracted and restricted, nothing panics, and the
  instants held are exactly those of the set operation.
\<close>

locale span_algebra =
  fixes raw_ok :: "'r \<Rightarrow> bool" and raw_points :: "'r \<Rightarrow> 't::linorder set"
    and canon :: "'s \<Rightarrow> bool" and pts :: "'s \<Rightarrow> 't set"
    and norm :: "'r \<Rightarrow> 's option" and meet :: "'s \<Rightarrow> 's \<Rightarrow> 's option"
    and minus :: "'s \<Rightarrow> 's \<Rightarrow> 's option" and restrict :: "'s \<Rightarrow> 't \<Rightarrow> 't \<Rightarrow> 's option"
  assumes norm_total: "raw_ok r \<Longrightarrow> \<exists>s. norm r = Some s \<and> canon s \<and> pts s = raw_points r"
    and meet_total: "canon a \<Longrightarrow> canon b \<Longrightarrow> \<exists>s. meet a b = Some s \<and> canon s \<and> pts s = pts a \<inter> pts b"
    and minus_total: "canon a \<Longrightarrow> canon b \<Longrightarrow> \<exists>s. minus a b = Some s \<and> canon s \<and> pts s = pts a - pts b"
    and restrict_total: "canon a \<Longrightarrow> \<exists>s. restrict a lo hi = Some s \<and> canon s \<and> pts s = pts a \<inter> {lo ..< hi}"
    and pts_inject: "canon a \<Longrightarrow> canon b \<Longrightarrow> pts a = pts b \<Longrightarrow> a = b"
begin

lemma windows_pipeline:
  assumes "raw_ok opn" "raw_ok wrk" "raw_ok cls" "raw_ok off"
  shows "\<exists>w. do { o' \<leftarrow> norm opn; w' \<leftarrow> norm wrk; x \<leftarrow> meet o' w';
                 c \<leftarrow> norm cls; y \<leftarrow> minus x c;
                 f \<leftarrow> norm off; z \<leftarrow> minus y f; restrict z lo hi } = Some w
    \<and> canon w
    \<and> pts w = (raw_points opn \<inter> raw_points wrk - raw_points cls - raw_points off) \<inter> {lo ..< hi}"
proof -
  obtain o' where o': "norm opn = Some o'" "canon o'" "pts o' = raw_points opn"
    using norm_total [OF assms(1)] by blast
  obtain w' where w': "norm wrk = Some w'" "canon w'" "pts w' = raw_points wrk"
    using norm_total [OF assms(2)] by blast
  obtain c where c: "norm cls = Some c" "canon c" "pts c = raw_points cls"
    using norm_total [OF assms(3)] by blast
  obtain f where f: "norm off = Some f" "canon f" "pts f = raw_points off"
    using norm_total [OF assms(4)] by blast
  obtain x where x: "meet o' w' = Some x" "canon x" "pts x = pts o' \<inter> pts w'"
    using meet_total [OF o'(2) w'(2)] by blast
  obtain y where y: "minus x c = Some y" "canon y" "pts y = pts x - pts c"
    using minus_total [OF x(2) c(2)] by blast
  obtain z where z: "minus y f = Some z" "canon z" "pts z = pts y - pts f"
    using minus_total [OF y(2) f(2)] by blast
  show ?thesis using restrict_total [OF z(2), of lo hi] by (simp add: o' w' c f x y z)
qed

lemma norm_order_irrelevant:
  "raw_ok r \<Longrightarrow> raw_ok r' \<Longrightarrow> raw_points r = raw_points r' \<Longrightarrow> norm r = norm r'"
  by (metis norm_total pts_inject)

end

interpretation spans: span_algebra "\<lambda>xs. \<forall>i \<in> set xs. proper i" span_points canonical span_points
  normalize intersect subtract clip
proof unfold_locales
  fix r a b :: "Interval list" and lo hi :: gotime
  show "\<forall>i \<in> set r. proper i \<Longrightarrow> \<exists>s. normalize r = Some s \<and> canonical s \<and> span_points s = span_points r"
    by (rule normalize_correct)
  assume a: "canonical a"
  then show "\<exists>s. clip a lo hi = Some s \<and> canonical s \<and> span_points s = span_points a \<inter> {lo ..< hi}"
    by (rule clip_correct)
  assume b: "canonical b"
  show "\<exists>s. intersect a b = Some s \<and> canonical s \<and> span_points s = span_points a \<inter> span_points b"
    using a b by (rule intersect_correct)
  show "\<exists>s. subtract a b = Some s \<and> canonical s \<and> span_points s = span_points a - span_points b"
    using a b by (rule subtract_correct)
  show "span_points a = span_points b \<Longrightarrow> a = b"
    using a b by (rule canonical_unique)
qed

end
