(* ===== verification/Availability.thy ===== *)
theory Availability
  imports Spans Shared
begin

text \<open>
  \<open>internal/booking/domain\<close>: days in a branch's zone (\<open>day.go\<close>), the errors
  (\<open>errors.go\<close>) and which start times a branch can offer (\<open>availability.go\<close>). The
  specification of a free start is about instants: the whole booking, buffer included, lies in
  the barber's working time and meets none of the barber's appointments.
\<close>

text \<open>Where an appointment is in its life, and what can be done to it; errors carry both.\<close>

datatype Status =
    StatusPending | StatusConfirmed | StatusRejected | StatusExpired | StatusCancelled
  | StatusCompleted | StatusNoShow

datatype Action =
    ActionConfirm | ActionReject | ActionCancel | ActionComplete | ActionNoShow | ActionExpire

text \<open>
  \<open>TransitionError\<close> matches \<open>ErrInvalidTransition\<close>; \<open>ErrMoney\<close> is an error of
  \<open>Money.Add\<close> passed on; \<open>Fault\<close> is an error the domain has no name for, and
  \<open>Panic\<close> an index out of range.
\<close>

datatype booking_error =
    ErrNotFound | ErrInvalidDay | ErrNoServices | ErrServiceUnavailable | ErrBarberUnavailable
  | ErrSlotUnavailable | ErrInvalidStart | ErrTooManyBookings | ErrNoteTooLong | ErrIdempotencyReused
  | ErrForbidden | TransitionError Action Status | ErrTooLateToCancel | ErrNotStarted
  | ErrReasonTooLong | ErrNoCustomer | ErrCustomerNameTooLong | ErrBranchNotBookable
  | ErrMoney shared_error
  | Fault | Panic

section \<open>Days\<close>

record Day =
  day_year :: int
  day_month :: int
  day_day :: int

definition mk_Day :: "int \<times> int \<times> int \<Rightarrow> Day" where
  "mk_Day c = (case c of (y, m, d) \<Rightarrow> \<lparr>day_year = y, day_month = m, day_day = d\<rparr>)"

text \<open>\<open>DayOf(t.In(loc))\<close>.\<close>

definition DayOf :: "location \<Rightarrow> gotime \<Rightarrow> Day" where
  "DayOf loc t = mk_Day (civil_date loc t)"

definition Day_String :: "Day \<Rightarrow> string" where
  "Day_String d = fmt_d 4 (day_year d) @ ''-'' @ fmt_d 2 (day_month d) @ ''-'' @ fmt_d 2 (day_day d)"

definition Day_Start :: "Day \<Rightarrow> location \<Rightarrow> gotime" where
  "Day_Start d loc = go_date (day_year d) (day_month d) (day_day d) 0 0 0 loc"

definition Day_AddDays :: "Day \<Rightarrow> int \<Rightarrow> Day" where
  "Day_AddDays d n = DayOf utc (go_date (day_year d) (day_month d) (day_day d + n) 0 0 0 utc)"

definition Day_Compare :: "Day \<Rightarrow> Day \<Rightarrow> int" where
  "Day_Compare d e =
     (if Day_Start d utc < Day_Start e utc then - 1
      else if Day_Start e utc < Day_Start d utc then 1 else 0)"

section \<open>Candidates and slots\<close>

definition MaxServices :: nat where "MaxServices = 5"

record Candidate =
  c_staff :: StaffID
  c_length :: duration
  c_windows :: "Interval list"
  c_busy :: "Interval list"

record SlotRules =
  r_location :: location
  r_interval :: duration
  r_earliest :: gotime
  r_latest :: gotime

record Slot =
  sl_start :: gotime
  sl_staff :: "StaffID list"

definition OnGrid :: "gotime \<Rightarrow> location \<Rightarrow> duration \<Rightarrow> bool" where
  "OnGrid t loc interval =
     (let step = go_div interval minute in
      0 < step \<and> clock_second loc t = 0 \<and> clock_nanosecond t = 0
      \<and> go_mod (clock_hour loc t * 60 + clock_minute loc t) step = 0)"

function grid_loop :: "location \<Rightarrow> int \<Rightarrow> gotime \<Rightarrow> gotime \<Rightarrow> gotime list" where
  "grid_loop loc step e t =
     (if t < e then
        (if OnGrid t loc (step * minute) then t # grid_loop loc step e (time_add t minute)
         else grid_loop loc step e (time_add t minute))
      else [])"
  by pat_completeness auto
termination
  by (relation "measure (\<lambda>(loc, step, e, t). nat (e - t))") (auto simp: time_simps)

declare grid_loop.simps [simp del]

definition grid :: "Day \<Rightarrow> location \<Rightarrow> int \<Rightarrow> gotime list" where
  "grid day loc step = grid_loop loc step (Day_Start (Day_AddDays day 1) loc) (Day_Start day loc)"

definition CanTake :: "Candidate \<Rightarrow> gotime \<Rightarrow> bool" where
  "CanTake c start =
     (case NewInterval start (time_add start (c_length c)) of Inl _ \<Rightarrow> False
      | Inr span' \<Rightarrow>
          list_ex (\<lambda>w. Covers w span') (c_windows c)
          \<and> \<not> list_ex (\<lambda>b. Overlaps b span') (c_busy c))"

definition Slots :: "Day \<Rightarrow> SlotRules \<Rightarrow> Candidate list \<Rightarrow> Slot list" where
  "Slots day r candidates =
     (let step = go_div (r_interval r) minute in
      if step \<le> 0 then []
      else concat (map (\<lambda>start.
          if start < r_earliest r \<or> \<not> start < r_latest r then []
          else let free = map c_staff (filter (\<lambda>c. CanTake c start) candidates) in
            if free = [] then [] else [\<lparr>sl_start = start, sl_staff = free\<rparr>])
        (grid day (r_location r) step)))"

section \<open>When a candidate can take a start\<close>

text \<open>Windows that never touch: a stretch inside their union lies inside one of them.\<close>

lemma canonical_one_window:
  assumes "canonical ws" "s < e" "{s ..< e} \<subseteq> span_points ws"
  shows "\<exists>w \<in> set ws. ivl_start w \<le> s \<and> e \<le> ivl_end w"
proof -
  obtain w where w: "w \<in> set ws" "ivl_start w \<le> s" "s < ivl_end w"
    using assms(2,3) by (force simp: span_points_def points_def)
  have "e \<le> ivl_end w"
  proof (rule ccontr)
    assume "\<not> e \<le> ivl_end w"
    then have "ivl_end w \<in> span_points ws" using assms(3) w by auto
    then obtain v where v: "v \<in> set ws" "ivl_start v \<le> ivl_end w" "ivl_end w < ivl_end v"
      by (auto simp: span_points_def points_def)
    then obtain i j where "i < length ws" "j < length ws" "ws ! i = w" "ws ! j = v" "i \<noteq> j"
      using w(1) by (metis in_set_conv_nth less_irrefl)
    then show False
      using assms(1) v w sorted_wrt_nth_less [of "\<lambda>i j. ivl_end i < ivl_start j" ws]
      unfolding canonical_def by (cases i j rule: linorder_cases) force+
  qed
  then show ?thesis using w by blast
qed

lemma CanTake_iff:
  assumes "canonical (c_windows c)" "\<forall>b \<in> set (c_busy c). proper b"
  shows "CanTake c start \<longleftrightarrow> 0 < c_length c
    \<and> {start ..< start + c_length c} \<subseteq> span_points (c_windows c)
    \<and> {start ..< start + c_length c} \<inter> span_points (c_busy c) = {}"
proof (cases "0 < c_length c")
  case True
  let ?s = "\<lparr>ivl_start = start, ivl_end = start + c_length c\<rparr>"
  have p: "proper ?s" using True by (simp add: proper_def)
  have "(\<exists>w \<in> set (c_windows c). Covers w ?s) \<longleftrightarrow> {start ..< start + c_length c} \<subseteq> span_points (c_windows c)"
    using canonical_one_window [OF assms(1), of start "start + c_length c"] True
    by (auto simp: Covers_iff_points [OF p] span_points_def) (force simp: points_def)+
  moreover have "(\<exists>b \<in> set (c_busy c). Overlaps b ?s)
      \<longleftrightarrow> {start ..< start + c_length c} \<inter> span_points (c_busy c) \<noteq> {}"
  proof -
    have "Overlaps b ?s \<longleftrightarrow> {start ..< start + c_length c} \<inter> points b \<noteq> {}" if "b \<in> set (c_busy c)" for b
      using Overlaps_iff_points [OF _ p, of b] assms(2) that by (simp add: points_def [of ?s] Int_commute)
    then show ?thesis unfolding span_points_def by blast
  qed
  ultimately show ?thesis
    using True by (auto simp: CanTake_def NewInterval_def time_add_def list_ex_iff)
qed (simp add: CanTake_def NewInterval_def time_add_def)

section \<open>The grid\<close>

lemma OnGrid_step: "0 < step \<Longrightarrow> step = go_div interval minute \<Longrightarrow>
    OnGrid t loc (step * minute) = OnGrid t loc interval"
  using go_div_mult [of minute step] by (simp add: OnGrid_def minute_def mult.commute)

lemma set_grid_loop:
  "set (grid_loop loc step e t) = {u. \<exists>k. u = t + int k * minute \<and> u < e \<and> OnGrid u loc (step * minute)}"
proof (induction loc step e t rule: grid_loop.induct)
  case (1 loc step e t)
  show ?case
  proof (cases "t < e")
    case False
    then have "\<not> t + int k * minute < e" for k by (simp add: minute_def)
    then show ?thesis using False by (subst grid_loop.simps) auto
  next
    case True
    let ?S = "\<lambda>t. {u. \<exists>k. u = t + int k * minute \<and> u < e \<and> OnGrid u loc (step * minute)}"
    have IH: "set (grid_loop loc step e (time_add t minute)) = ?S (time_add t minute)"
      using 1 True by (cases "OnGrid t loc (step * minute)") simp_all
    have "u \<in> ?S t \<longleftrightarrow> u = t \<and> OnGrid t loc (step * minute) \<or> u \<in> ?S (time_add t minute)" for u
    proof
      assume "u \<in> ?S t"
      then obtain k where k: "u = t + int k * minute" "u < e" "OnGrid u loc (step * minute)" by blast
      show "u = t \<and> OnGrid t loc (step * minute) \<or> u \<in> ?S (time_add t minute)"
      proof (cases k)
        case (Suc j)
        then have "u = time_add t minute + int j * minute" using k(1) by (simp add: time_add_def algebra_simps)
        then show ?thesis using k by blast
      qed (use k in simp)
    next
      assume "u = t \<and> OnGrid t loc (step * minute) \<or> u \<in> ?S (time_add t minute)"
      then consider "u = t + int 0 * minute" "u < e" "OnGrid u loc (step * minute)"
        | k where "u = t + int (Suc k) * minute" "u < e" "OnGrid u loc (step * minute)"
        using True by (auto simp: time_add_def algebra_simps)
      then show "u \<in> ?S t" by cases blast+
    qed
    then show ?thesis using True IH by (subst grid_loop.simps) auto
  qed
qed

lemma grid_loop_sorted: "sorted_wrt (<) (grid_loop loc step e t)"
proof (induction loc step e t rule: grid_loop.induct)
  case (1 loc step e t)
  have "t < u" if "u \<in> set (grid_loop loc step e (time_add t minute))" for u
    using that by (auto simp: set_grid_loop time_add_def minute_def)
  then show ?case using 1 by (subst grid_loop.simps) simp
qed

text \<open>In a zone without transitions every on-grid instant of the day is a whole number of
  minutes after the day's start, so the walk meets it.\<close>

lemma OnGrid_fixed_minutes:
  assumes "OnGrid t (fixed_zone off) interval"
  shows "\<exists>m. t = (m * 60 - off) * 1000000000"
proof -
  have "(t div 1000000000 + off) mod 60 = 0" "t mod 1000000000 = 0"
    using assms by (auto simp: OnGrid_def clock_second_def clock_nanosecond_def unix_sec_def Let_def)
  then obtain m where "t div 1000000000 + off = 60 * m" by (meson dvdE mod_eq_0_iff_dvd)
  moreover have "t = t div 1000000000 * 1000000000"
    using \<open>t mod 1000000000 = 0\<close> div_mult_mod_eq [of t 1000000000] by simp
  ultimately have "t = (m * 60 - off) * 1000000000" by (metis add_diff_cancel_right' mult.commute)
  then show ?thesis by blast
qed

lemma Day_Start_fixed:
  "\<exists>n. Day_Start d (fixed_zone off) = (n * 60 - off) * 1000000000"
proof -
  obtain y m where ym: "norm_month (day_year d) (day_month d) = (y, m)" by fastforce
  have "Day_Start d (fixed_zone off) = (days_of_civil y m (day_day d) * 1440 * 60 - off) * 1000000000"
    by (simp add: Day_Start_def go_date_def ym)
  then show ?thesis by blast
qed

lemma set_grid_fixed:
  assumes "0 < step"
  shows "set (grid day (fixed_zone off) step) =
    {u. Day_Start day (fixed_zone off) \<le> u \<and> u < Day_Start (Day_AddDays day 1) (fixed_zone off)
        \<and> OnGrid u (fixed_zone off) (step * minute)}"
proof -
  have "(\<exists>k. u = Day_Start day (fixed_zone off) + int k * minute) \<longleftrightarrow> Day_Start day (fixed_zone off) \<le> u"
    if g: "OnGrid u (fixed_zone off) (step * minute)" for u
  proof
    assume le: "Day_Start day (fixed_zone off) \<le> u"
    obtain n m where nm: "Day_Start day (fixed_zone off) = (n * 60 - off) * 1000000000"
      "u = (m * 60 - off) * 1000000000"
      using Day_Start_fixed OnGrid_fixed_minutes [OF g] by blast
    then have "n \<le> m" using le by simp
    then have "u = Day_Start day (fixed_zone off) + int (nat (m - n)) * minute"
      using nm by (simp add: minute_def algebra_simps)
    then show "\<exists>k. u = Day_Start day (fixed_zone off) + int k * minute" by blast
  qed (auto simp: minute_def)
  then show ?thesis unfolding grid_def set_grid_loop by blast
qed

section \<open>What \<open>Slots\<close> offers\<close>

lemma in_Slots_iff:
  "sl \<in> set (Slots day r cands) \<longleftrightarrow>
     0 < go_div (r_interval r) minute \<and> sl_start sl \<in> set (grid day (r_location r) (go_div (r_interval r) minute))
     \<and> r_earliest r \<le> sl_start sl \<and> sl_start sl < r_latest r
     \<and> sl_staff sl = map c_staff (filter (\<lambda>c. CanTake c (sl_start sl)) cands) \<and> sl_staff sl \<noteq> []"
  by (cases sl) (auto simp: Slots_def Let_def not_less split: if_splits)

lemma sorted_concat_at_most_one:
  assumes "sorted_wrt (<) xs" "\<And>x. f x = [] \<or> (\<exists>y. f x = [y] \<and> g y = x)"
  shows "sorted_wrt (<) (map g (concat (map f xs)))"
  using assms(1)
proof (induction xs)
  case (Cons x xs)
  have "g y \<in> set xs" if "y \<in> set (concat (map f xs))" for y
    using that assms(2) by auto (metis empty_iff empty_set list.set(2) insert_iff singletonD)
  then show ?case using Cons assms(2) [of x] by auto
qed simp

lemma Slots_sorted: "sorted_wrt (<) (map sl_start (Slots day r cands))"
  unfolding Slots_def Let_def
  by (auto intro!: sorted_concat_at_most_one simp: grid_def grid_loop_sorted)

section \<open>Properties\<close>

text \<open>C3: In a zone without transitions \<open>Slots\<close> offers exactly the right starts, in order and each
  once: an instant is offered if and only if it lies on the day, on the branch's clock grid and in
  \<open>[Earliest, Latest)\<close>, and for some candidate the whole booking lies in the working
  windows and meets none of the candidate's appointments; the slot lists those candidates.\<close>

theorem slots_exact:
  assumes "r_location r = fixed_zone off"
    "\<forall>c \<in> set cands. canonical (c_windows c) \<and> (\<forall>b \<in> set (c_busy c). proper b)"
  shows "sorted_wrt (<) (map sl_start (Slots day r cands))
    \<and> (\<forall>s. s \<in> sl_start ` set (Slots day r cands) \<longleftrightarrow>
        Day_Start day (fixed_zone off) \<le> s \<and> s < Day_Start (Day_AddDays day 1) (fixed_zone off)
        \<and> OnGrid s (fixed_zone off) (r_interval r) \<and> r_earliest r \<le> s \<and> s < r_latest r
        \<and> (\<exists>c \<in> set cands. 0 < c_length c \<and> {s ..< s + c_length c} \<subseteq> span_points (c_windows c)
              \<and> {s ..< s + c_length c} \<inter> span_points (c_busy c) = {}))
    \<and> (\<forall>sl \<in> set (Slots day r cands).
        sl_staff sl = map c_staff (filter (\<lambda>c. CanTake c (sl_start sl)) cands))"
proof -
  let ?step = "go_div (r_interval r) minute"
  have "s \<in> sl_start ` set (Slots day r cands) \<longleftrightarrow>
      0 < ?step \<and> s \<in> set (grid day (fixed_zone off) ?step) \<and> r_earliest r \<le> s \<and> s < r_latest r
      \<and> (\<exists>c \<in> set cands. CanTake c s)" for s
  proof
    assume "s \<in> sl_start ` set (Slots day r cands)"
    then show "0 < ?step \<and> s \<in> set (grid day (fixed_zone off) ?step) \<and> r_earliest r \<le> s \<and> s < r_latest r
      \<and> (\<exists>c \<in> set cands. CanTake c s)"
      by (auto simp: in_Slots_iff assms(1) filter_empty_conv)
  next
    assume a: "0 < ?step \<and> s \<in> set (grid day (fixed_zone off) ?step) \<and> r_earliest r \<le> s \<and> s < r_latest r
      \<and> (\<exists>c \<in> set cands. CanTake c s)"
    let ?sl = "\<lparr>sl_start = s, sl_staff = map c_staff (filter (\<lambda>c. CanTake c s) cands)\<rparr>"
    have "?sl \<in> set (Slots day r cands)" unfolding in_Slots_iff using a by (auto simp: assms(1) filter_empty_conv)
    then show "s \<in> sl_start ` set (Slots day r cands)" by (auto intro: rev_image_eqI)
  qed
  moreover have "0 < ?step \<and> s \<in> set (grid day (fixed_zone off) ?step) \<longleftrightarrow>
      Day_Start day (fixed_zone off) \<le> s \<and> s < Day_Start (Day_AddDays day 1) (fixed_zone off)
      \<and> OnGrid s (fixed_zone off) (r_interval r)" for s
    using set_grid_fixed [of ?step day off] OnGrid_step [of ?step "r_interval r" s "fixed_zone off"]
    by (auto simp: OnGrid_def Let_def)
  moreover have "(\<exists>c \<in> set cands. CanTake c s) \<longleftrightarrow>
      (\<exists>c \<in> set cands. 0 < c_length c \<and> {s ..< s + c_length c} \<subseteq> span_points (c_windows c)
              \<and> {s ..< s + c_length c} \<inter> span_points (c_busy c) = {})" for s
    using CanTake_iff assms(2) by (intro bex_cong refl) blast
  ultimately show ?thesis using Slots_sorted [of day r cands] by (auto simp: in_Slots_iff)
qed

definition sample_candidate :: Candidate where
  "sample_candidate = \<lparr>c_staff = ID 3, c_length = hour,
     c_windows = [\<lparr>ivl_start = 0, ivl_end = 24 * hour\<rparr>], c_busy = [\<lparr>ivl_start = 0, ivl_end = 2 * hour\<rparr>]\<rparr>"

definition sample_rules :: SlotRules where
  "sample_rules = \<lparr>r_location = riyadh, r_interval = 30 * minute, r_earliest = hour, r_latest = 24 * hour\<rparr>"

theorem slots_exact_witness:
  "\<exists>sl \<in> set (Slots \<lparr>day_year = 1970, day_month = 1, day_day = 1\<rparr> sample_rules [sample_candidate]).
     sl_start sl = 4 * hour"
proof -
  let ?d = "\<lparr>day_year = 1970, day_month = 1, day_day = 1\<rparr>"
  have loc: "r_location sample_rules = fixed_zone 10800" by (simp add: sample_rules_def riyadh_def)
  have cand: "\<forall>c \<in> set [sample_candidate]. canonical (c_windows c) \<and> (\<forall>b \<in> set (c_busy c). proper b)"
    by (simp add: sample_candidate_def canonical_def proper_def hour_def)
  have "Day_Start ?d (fixed_zone 10800) \<le> 4 * hour" "4 * hour < Day_Start (Day_AddDays ?d 1) (fixed_zone 10800)"
    "OnGrid (4 * hour) (fixed_zone 10800) (r_interval sample_rules)" by code_simp+
  moreover have "r_earliest sample_rules \<le> 4 * hour" "4 * hour < r_latest sample_rules"
    "\<exists>c \<in> set [sample_candidate]. 0 < c_length c \<and> {4 * hour ..< 4 * hour + c_length c} \<subseteq> span_points (c_windows c)
       \<and> {4 * hour ..< 4 * hour + c_length c} \<inter> span_points (c_busy c) = {}"
    by (auto simp: sample_rules_def sample_candidate_def hour_def points_def)
  ultimately have "4 * hour \<in> sl_start ` set (Slots ?d sample_rules [sample_candidate])"
    using slots_exact [OF loc cand, of ?d] by blast
  then show ?thesis by auto
qed

end
