(* ===== verification/Appointment.thy ===== *)
theory Appointment
  imports Availability
begin

text \<open>
  \<open>internal/booking/domain/appointment.go\<close> and \<open>lifecycle.go\<close>: what an appointment is, how
  \<open>Book\<close> makes one and how it changes afterwards. A snapshot is the appointment without the
  events recorded since it was built, so the appointment is the snapshot's record extended with
  them. The lifecycle is also stated as a relation on statuses, and the theorems show that the
  operations implement it, keep the well-formedness invariant and record every change once.
\<close>

section \<open>Data\<close>

datatype Source = SourceCustomerApp | SourceStaff
datatype Assignment = RequestedBarber | AnyBarber
datatype Canceller = ByCustomer | ByStaff

definition MaxNoteLen :: int where "MaxNoteLen = 300"
definition MaxCustomerNameLen :: int where "MaxCustomerNameLen = 100"
definition MaxReasonLen :: int where "MaxReasonLen = 300"

record Item =
  it_service :: ServiceID
  it_name :: LocalizedText
  it_duration :: duration
  it_price :: Money

record Cancellation =
  cn_by :: Canceller
  cn_reason :: string
  cn_at :: gotime

text \<open>\<open>None\<close> stands for the empty \<open>Source\<close>, which \<open>Book\<close> replaces by \<open>SourceCustomerApp\<close>.\<close>

record Booking =
  b_id :: AppointmentID
  b_business :: BusinessID
  b_branch :: BranchID
  b_barber :: StaffID
  b_customer :: UserID
  b_customerName :: string
  b_source :: "Source option"
  b_start :: gotime
  b_items :: "Item list"
  b_buffer :: duration
  b_assignment :: Assignment
  b_note :: string
  b_autoConfirm :: bool
  b_pendingExpiry :: duration
  b_cancellationWindow :: duration

record Snapshot =
  ap_id :: AppointmentID
  ap_business :: BusinessID
  ap_branch :: BranchID
  ap_barber :: StaffID
  ap_customer :: UserID
  ap_customerName :: string
  ap_items :: "Item list"
  ap_start :: gotime
  ap_end :: gotime
  ap_busyUntil :: gotime
  ap_price :: Money
  ap_status :: Status
  ap_source :: Source
  ap_assignment :: Assignment
  ap_note :: string
  ap_pendingUntil :: "gotime option"
  ap_cancellableUntil :: gotime
  ap_cancellation :: "Cancellation option"
  ap_version :: int
  ap_createdAt :: gotime
  ap_updatedAt :: gotime

datatype booking_event =
    AppointmentBooked Snapshot
  | StatusChanged Status Snapshot

record Appointment = Snapshot +
  ap_events :: "booking_event list"

definition snapshot :: "Appointment \<Rightarrow> Snapshot" where
  "snapshot a = Snapshot.truncate a"

definition Rehydrate :: "Snapshot \<Rightarrow> Appointment" where
  "Rehydrate s = Snapshot.extend s \<lparr>ap_events = []\<rparr>"

definition zero_user :: UserID where "zero_user = ID uuid_Nil"

section \<open>Booking\<close>

text \<open>The loop over the items: the total duration and price so far.\<close>

definition add_item :: "duration \<times> Money \<Rightarrow> Item \<Rightarrow> (booking_error, duration \<times> Money) result" where
  "add_item acc it =
     (case Money_Add (snd acc) (it_price it) of Inl e \<Rightarrow> Inl (ErrMoney e)
      | Inr p \<Rightarrow> Inr (wrap64 (fst acc + it_duration it), p))"

definition Book :: "Booking \<Rightarrow> gotime \<Rightarrow> (booking_error, Appointment) result" where
  "Book b now =
     (if b_items b = [] \<or> MaxServices < length (b_items b) then Inl ErrNoServices
      else if MaxNoteLen < rune_count (b_note b) then Inl ErrNoteTooLong
      else
        let source = (case b_source b of None \<Rightarrow> SourceCustomerApp | Some s \<Rightarrow> s);
            name = trim_space (b_customerName b)
        in
          if MaxCustomerNameLen < rune_count name then Inl ErrCustomerNameTooLong
          else if ID_IsZero (b_customer b) \<and> (source \<noteq> SourceStaff \<or> name = []) then Inl ErrNoCustomer
          else
            let now = db_time now in
            case fold_result add_item (0, Halalas 0) (b_items b) of Inl e \<Rightarrow> Inl e
            | Inr (dur, price) \<Rightarrow>
                let e = time_add (b_start b) dur;
                    pend = \<not> b_autoConfirm b \<and> source = SourceCustomerApp;
                    s = \<lparr>ap_id = b_id b, ap_business = b_business b, ap_branch = b_branch b,
                         ap_barber = b_barber b, ap_customer = b_customer b, ap_customerName = name,
                         ap_items = b_items b, ap_start = b_start b, ap_end = e,
                         ap_busyUntil = time_add e (b_buffer b), ap_price = price,
                         ap_status = (if pend then StatusPending else StatusConfirmed),
                         ap_source = source, ap_assignment = b_assignment b, ap_note = b_note b,
                         ap_pendingUntil = (if pend then Some (time_add now (b_pendingExpiry b)) else None),
                         ap_cancellableUntil = time_add (b_start b) (- max (b_cancellationWindow b) 0),
                         ap_cancellation = None, ap_version = 1, ap_createdAt = now, ap_updatedAt = now\<rparr>
                in Inr (Snapshot.extend s \<lparr>ap_events = [AppointmentBooked s]\<rparr>))"

text \<open>\<open>Busy\<close> ignores the error of \<open>NewInterval\<close> and returns the zero interval then.\<close>

definition Busy :: "'a Snapshot_scheme \<Rightarrow> Interval" where
  "Busy a = (case NewInterval (ap_start a) (ap_busyUntil a) of
     Inl _ \<Rightarrow> \<lparr>ivl_start = zero_time, ivl_end = zero_time\<rparr> | Inr i \<Rightarrow> i)"

section \<open>Lifecycle\<close>

definition current :: "Appointment \<Rightarrow> gotime \<Rightarrow> Status" where
  "current a now =
     (case ap_pendingUntil a of
        Some u \<Rightarrow> if ap_status a = StatusPending \<and> \<not> now < u then StatusExpired else ap_status a
      | None \<Rightarrow> ap_status a)"

definition change :: "Appointment \<Rightarrow> Status \<Rightarrow> gotime \<Rightarrow> Appointment" where
  "change a to now =
     (let a' = a\<lparr>ap_status := to, ap_pendingUntil := None, ap_version := ap_version a + 1,
                 ap_updatedAt := db_time now\<rparr>
      in a'\<lparr>ap_events := ap_events a @ [StatusChanged (ap_status a) (snapshot a')]\<rparr>)"

definition Confirm :: "Appointment \<Rightarrow> gotime \<Rightarrow> (booking_error, Appointment) result" where
  "Confirm a now =
     (if current a now \<noteq> StatusPending then Inl (TransitionError ActionConfirm (current a now))
      else Inr (change a StatusConfirmed now))"

definition Reject :: "Appointment \<Rightarrow> gotime \<Rightarrow> (booking_error, Appointment) result" where
  "Reject a now =
     (if current a now \<noteq> StatusPending then Inl (TransitionError ActionReject (current a now))
      else Inr (change a StatusRejected now))"

definition cancel ::
  "Appointment \<Rightarrow> Canceller \<Rightarrow> string \<Rightarrow> gotime \<Rightarrow> (booking_error, Appointment) result" where
  "cancel a by' reason now =
     (let reason = trim_space reason in
      if MaxReasonLen < rune_count reason then Inl ErrReasonTooLong
      else Inr (change (a\<lparr>ap_cancellation :=
             Some \<lparr>cn_by = by', cn_reason = reason, cn_at = db_time now\<rparr>\<rparr>) StatusCancelled now))"

definition CancelByCustomer ::
  "Appointment \<Rightarrow> string \<Rightarrow> gotime \<Rightarrow> (booking_error, Appointment) result" where
  "CancelByCustomer a reason now =
     (let s = current a now in
      if s \<noteq> StatusPending \<and> s \<noteq> StatusConfirmed then Inl (TransitionError ActionCancel s)
      else let deadline = (if s = StatusConfirmed then ap_cancellableUntil a else ap_start a) in
        if \<not> now < deadline then Inl ErrTooLateToCancel
        else cancel a ByCustomer reason now)"

definition CancelByStaff ::
  "Appointment \<Rightarrow> string \<Rightarrow> gotime \<Rightarrow> (booking_error, Appointment) result" where
  "CancelByStaff a reason now =
     (let s = current a now in
      if s \<noteq> StatusPending \<and> s \<noteq> StatusConfirmed then Inl (TransitionError ActionCancel s)
      else cancel a ByStaff reason now)"

definition Expire :: "Appointment \<Rightarrow> gotime \<Rightarrow> (booking_error, Appointment) result" where
  "Expire a now =
     (if ap_status a \<noteq> StatusPending \<or> ap_pendingUntil a = None \<or> now < the (ap_pendingUntil a)
      then Inl (TransitionError ActionExpire (current a now))
      else Inr (change a StatusExpired now))"

definition finish ::
  "Appointment \<Rightarrow> Status \<Rightarrow> Action \<Rightarrow> gotime \<Rightarrow> (booking_error, Appointment) result" where
  "finish a to action now =
     (if current a now \<noteq> StatusConfirmed then Inl (TransitionError action (current a now))
      else if now < ap_start a then Inl ErrNotStarted
      else Inr (change a to now))"

definition Complete :: "Appointment \<Rightarrow> gotime \<Rightarrow> (booking_error, Appointment) result" where
  "Complete a now = finish a StatusCompleted ActionComplete now"

definition MarkNoShow :: "Appointment \<Rightarrow> gotime \<Rightarrow> (booking_error, Appointment) result" where
  "MarkNoShow a now = finish a StatusNoShow ActionNoShow now"

lemmas lifecycle_defs [lifecycle_simps] = Confirm_def Reject_def CancelByCustomer_def CancelByStaff_def
  Expire_def finish_def Complete_def MarkNoShow_def cancel_def change_def current_def Let_def

section \<open>The lifecycle as a relation\<close>

inductive lifecycle_step :: "Status \<Rightarrow> Status \<Rightarrow> bool" where
  "lifecycle_step StatusPending StatusConfirmed"
| "lifecycle_step StatusPending StatusRejected"
| "lifecycle_step StatusPending StatusCancelled"
| "lifecycle_step StatusPending StatusExpired"
| "lifecycle_step StatusConfirmed StatusCancelled"
| "lifecycle_step StatusConfirmed StatusCompleted"
| "lifecycle_step StatusConfirmed StatusNoShow"

code_pred lifecycle_step .

inductive_simps lifecycle_step_simps [simp]:
  "lifecycle_step StatusPending s" "lifecycle_step StatusConfirmed s" "lifecycle_step StatusRejected s"
  "lifecycle_step StatusExpired s" "lifecycle_step StatusCancelled s" "lifecycle_step StatusCompleted s"
  "lifecycle_step StatusNoShow s"

definition active :: "Status \<Rightarrow> bool" where
  "active s \<longleftrightarrow> s = StatusPending \<or> s = StatusConfirmed"

lemma lifecycle_step_active: "lifecycle_step s t \<Longrightarrow> active s"
  by (auto elim!: lifecycle_step.cases simp: active_def)

lemma lifecycle_no_return: "lifecycle_step s t \<Longrightarrow> t \<noteq> StatusPending"
  by (auto elim!: lifecycle_step.cases)

text \<open>The operations the program performs on a booked appointment.\<close>

datatype operation =
    OpConfirm | OpReject | OpCancelByCustomer string | OpCancelByStaff string
  | OpExpire | OpComplete | OpNoShow

fun perform :: "operation \<Rightarrow> Appointment \<Rightarrow> gotime \<Rightarrow> (booking_error, Appointment) result" where
  "perform OpConfirm a now = Confirm a now"
| "perform OpReject a now = Reject a now"
| "perform (OpCancelByCustomer r) a now = CancelByCustomer a r now"
| "perform (OpCancelByStaff r) a now = CancelByStaff a r now"
| "perform OpExpire a now = Expire a now"
| "perform OpComplete a now = Complete a now"
| "perform OpNoShow a now = MarkNoShow a now"

fun target :: "operation \<Rightarrow> Status" where
  "target OpConfirm = StatusConfirmed"
| "target OpReject = StatusRejected"
| "target (OpCancelByCustomer _) = StatusCancelled"
| "target (OpCancelByStaff _) = StatusCancelled"
| "target OpExpire = StatusExpired"
| "target OpComplete = StatusCompleted"
| "target OpNoShow = StatusNoShow"

text \<open>What no operation after booking may touch.\<close>

definition same_booking :: "'a Snapshot_scheme \<Rightarrow> 'b Snapshot_scheme \<Rightarrow> bool" where
  "same_booking a b \<longleftrightarrow> ap_id a = ap_id b \<and> ap_business a = ap_business b \<and> ap_branch a = ap_branch b
     \<and> ap_barber a = ap_barber b \<and> ap_customer a = ap_customer b \<and> ap_customerName a = ap_customerName b
     \<and> ap_items a = ap_items b \<and> ap_start a = ap_start b \<and> ap_end a = ap_end b
     \<and> ap_busyUntil a = ap_busyUntil b \<and> ap_price a = ap_price b \<and> ap_source a = ap_source b
     \<and> ap_assignment a = ap_assignment b \<and> ap_note a = ap_note b
     \<and> ap_cancellableUntil a = ap_cancellableUntil b \<and> ap_createdAt a = ap_createdAt b"

lemma same_booking_refl [simp]: "same_booking a a"
  by (simp add: same_booking_def)

lemma same_booking_trans: "same_booking a b \<Longrightarrow> same_booking b c \<Longrightarrow> same_booking a c"
  by (simp add: same_booking_def)

text \<open>The shape every successful operation has: \<open>change\<close>, perhaps after noting a cancellation.\<close>

lemma perform_change:
  assumes "perform oper a now = Inr a'"
  shows "\<exists>c. a' = change (a\<lparr>ap_cancellation := c\<rparr>) (target oper) now
    \<and> lifecycle_step (ap_status a) (target oper)
    \<and> (if target oper = StatusCancelled then c \<noteq> None else c = ap_cancellation a)"
  using assms
proof (cases oper)
  case (OpCancelByCustomer r)
  then show ?thesis using assms
    by (auto simp: CancelByCustomer_def cancel_def current_def Let_def split: if_splits option.splits)
next
  case (OpCancelByStaff r)
  then show ?thesis using assms
    by (auto simp: CancelByStaff_def cancel_def current_def Let_def split: if_splits option.splits)
qed (auto simp: Confirm_def Reject_def Expire_def finish_def Complete_def MarkNoShow_def current_def
    split: if_splits option.splits intro!: exI [of _ "ap_cancellation a"])

lemma snapshot_simps [simp]:
  "ap_status (snapshot a) = ap_status a" "ap_version (snapshot a) = ap_version a"
  "ap_id (snapshot a) = ap_id a"
  by (simp_all add: snapshot_def Snapshot.truncate_def)

lemma snapshot_events [simp]: "snapshot (a\<lparr>ap_events := es\<rparr>) = snapshot a"
  by (simp add: snapshot_def Snapshot.truncate_def)

lemma change_simps [simp]:
  "ap_status (change a s now) = s" "ap_version (change a s now) = ap_version a + 1"
  "ap_pendingUntil (change a s now) = None" "ap_cancellation (change a s now) = ap_cancellation a"
  "ap_updatedAt (change a s now) = db_time now"
  "ap_events (change a s now) = ap_events a @ [StatusChanged (ap_status a) (snapshot (change a s now))]"
  "same_booking a (change a s now)"
  by (simp_all add: change_def Let_def same_booking_def)

lemma perform_step:
  assumes "perform oper a now = Inr a'"
  shows "lifecycle_step (ap_status a) (ap_status a')" "ap_status a' = target oper"
    "ap_version a' = ap_version a + 1" "same_booking a a'" "ap_pendingUntil a' = None"
    "ap_events a' = ap_events a @ [StatusChanged (ap_status a) (snapshot a')]"
    "(ap_status a' = StatusCancelled) = (ap_cancellation a' \<noteq> None) \<or> ap_cancellation a \<noteq> None"
proof -
  obtain c where c: "a' = change (a\<lparr>ap_cancellation := c\<rparr>) (target oper) now"
    "lifecycle_step (ap_status a) (target oper)"
    "if target oper = StatusCancelled then c \<noteq> None else c = ap_cancellation a"
    using perform_change [OF assms] by blast
  have "same_booking a (a\<lparr>ap_cancellation := c\<rparr>)" by (simp add: same_booking_def)
  then show "same_booking a a'" unfolding c(1) by (rule same_booking_trans) simp
  show "lifecycle_step (ap_status a) (ap_status a')" "ap_status a' = target oper"
    "ap_version a' = ap_version a + 1" "ap_pendingUntil a' = None"
    "ap_events a' = ap_events a @ [StatusChanged (ap_status a) (snapshot a')]"
    "(ap_status a' = StatusCancelled) = (ap_cancellation a' \<noteq> None) \<or> ap_cancellation a \<noteq> None"
    unfolding c(1) using c(2,3) by (auto split: if_splits)
qed

section \<open>Well-formed appointments\<close>

text \<open>
  The invariant the aggregate keeps; the first two lines and the version are also CHECK
  constraints of the appointments table.
\<close>

definition wf_appointment :: "'a Snapshot_scheme \<Rightarrow> bool" where
  "wf_appointment a \<longleftrightarrow>
     (ap_status a = StatusPending \<longleftrightarrow> ap_pendingUntil a \<noteq> None)
     \<and> (ap_status a = StatusCancelled \<longleftrightarrow> ap_cancellation a \<noteq> None)
     \<and> ap_cancellableUntil a \<le> ap_start a \<and> 1 \<le> ap_version a
     \<and> (ap_status a = StatusPending \<longrightarrow> ap_source a = SourceCustomerApp)
     \<and> (ID_IsZero (ap_customer a) \<longrightarrow> ap_source a = SourceStaff \<and> ap_customerName a \<noteq> [])
     \<and> ap_items a \<noteq> [] \<and> length (ap_items a) \<le> 5 \<and> rune_count (ap_note a) \<le> 300
     \<and> (case ap_cancellation a of None \<Rightarrow> True | Some c \<Rightarrow> rune_count (cn_reason c) \<le> 300
          \<and> (cn_by c = ByCustomer \<longrightarrow> cn_at c < ap_start a))"

lemma Book_wf: "Book b now = Inr a \<Longrightarrow> wf_appointment a"
  by (auto simp: Book_def Let_def wf_appointment_def Snapshot.defs MaxServices_def MaxNoteLen_def time_add_def
      split: if_splits sum.splits option.splits)

lemma perform_cancellation:
  assumes "perform oper a now = Inr a'" "ap_cancellation a = None" "ap_cancellation a' = Some c"
    "ap_cancellableUntil a \<le> ap_start a"
  shows "rune_count (cn_reason c) \<le> 300 \<and> (cn_by c = ByCustomer \<longrightarrow> cn_at c < ap_start a)"
proof (cases oper)
  case (OpCancelByCustomer r)
  then show ?thesis using assms db_time_le [of now]
    by (auto simp: CancelByCustomer_def cancel_def Let_def MaxReasonLen_def split: if_splits)
next
  case (OpCancelByStaff r)
  then show ?thesis using assms
    by (auto simp: CancelByStaff_def cancel_def Let_def MaxReasonLen_def split: if_splits)
qed (use assms in \<open>auto simp: Confirm_def Reject_def Expire_def finish_def Complete_def MarkNoShow_def
    split: if_splits\<close>)

lemma perform_wf:
  assumes "perform oper a now = Inr a'" "wf_appointment a"
  shows "wf_appointment a'"
proof -
  note s = perform_step [OF assms(1)]
  have n: "ap_cancellation a = None"
    using assms(2) lifecycle_step_active [OF s(1)] by (auto simp: wf_appointment_def active_def)
  have "ap_status a' \<noteq> StatusPending" using s(1) lifecycle_no_return by blast
  moreover have "(ap_status a' = StatusCancelled) = (ap_cancellation a' \<noteq> None)" using s(7) n by blast
  moreover have "case ap_cancellation a' of None \<Rightarrow> True | Some c \<Rightarrow> rune_count (cn_reason c) \<le> 300
          \<and> (cn_by c = ByCustomer \<longrightarrow> cn_at c < ap_start a)"
    using perform_cancellation [OF assms(1) n] assms(2) by (auto simp: wf_appointment_def split: option.splits)
  ultimately show ?thesis using assms(2) s(3-5) unfolding wf_appointment_def same_booking_def by auto
qed

section \<open>Histories\<close>

text \<open>Everything an appointment can become after booking: operations at any instants.\<close>

inductive evolves :: "Appointment \<Rightarrow> Appointment \<Rightarrow> bool" for a0 where
  start: "evolves a0 a0"
| step: "evolves a0 a \<Longrightarrow> perform oper a now = Inr a' \<Longrightarrow> evolves a0 a'"

lemma evolves_wf: "evolves a0 a \<Longrightarrow> wf_appointment a0 \<Longrightarrow> wf_appointment a"
  by (induction rule: evolves.induct) (auto intro: perform_wf)

lemma evolves_same_booking: "evolves a0 a \<Longrightarrow> same_booking a0 a"
  by (induction rule: evolves.induct) (auto intro: same_booking_trans perform_step)

text \<open>The statuses an event log tells, the oldest first.\<close>

fun event_status :: "booking_event \<Rightarrow> Status" where
  "event_status (AppointmentBooked s) = ap_status s"
| "event_status (StatusChanged _ s) = ap_status s"

fun chained :: "booking_event list \<Rightarrow> bool" where
  "chained (e # StatusChanged frm s # es) \<longleftrightarrow>
     frm = event_status e \<and> lifecycle_step frm (ap_status s) \<and> chained (StatusChanged frm s # es)"
| "chained [AppointmentBooked s] \<longleftrightarrow> True"
| "chained [StatusChanged f s] \<longleftrightarrow> True"
| "chained _ \<longleftrightarrow> False"

lemma chained_snoc:
  "es \<noteq> [] \<Longrightarrow> chained es \<Longrightarrow> frm = event_status (last es) \<Longrightarrow> lifecycle_step frm (ap_status s)
   \<Longrightarrow> chained (es @ [StatusChanged frm s])"
  by (induction es rule: chained.induct) auto

lemma evolves_log:
  assumes "evolves a0 a" "ap_events a0 = [AppointmentBooked (snapshot a0)]" "ap_version a0 = 1"
  shows "chained (ap_events a) \<and> ap_events a \<noteq> [] \<and> hd (ap_events a) = AppointmentBooked (snapshot a0)
    \<and> event_status (last (ap_events a)) = ap_status a \<and> ap_version a = int (length (ap_events a))"
  using assms
proof (induction rule: evolves.induct)
  case (step a oper now a')
  note s = perform_step [OF step.hyps(2)]
  show ?case using step.IH [OF step.prems] s chained_snoc [of "ap_events a" "ap_status a" "snapshot a'"]
    by simp
qed simp

lemma chained_length:
  "chained (e # es) \<Longrightarrow> length es \<le> (case event_status e of StatusPending \<Rightarrow> 2 | StatusConfirmed \<Rightarrow> 1 | _ \<Rightarrow> 0)"
proof (induction es arbitrary: e)
  case (Cons f es)
  then obtain frm s where f: "f = StatusChanged frm s" by (cases f; cases es) auto
  then have "frm = event_status e" "lifecycle_step frm (ap_status s)" "chained (f # es)"
    using Cons.prems by (cases e; cases es; simp)+
  then show ?case using Cons.IH [of f] f
    by (cases "event_status e"; cases "ap_status s") auto
qed simp

section \<open>Totals\<close>

definition total_price :: "Item list \<Rightarrow> int" where
  "total_price its = (\<Sum>it \<leftarrow> its. sint (m_amount (it_price it)))"

definition total_duration :: "Item list \<Rightarrow> int" where
  "total_duration its = (\<Sum>it \<leftarrow> its. it_duration it)"

lemma total_simps [simp]:
  "total_price [] = 0" "total_duration [] = 0"
  "total_price (it # its) = sint (m_amount (it_price it)) + total_price its"
  "total_duration (it # its) = it_duration it + total_duration its"
  by (simp_all add: total_price_def total_duration_def)

lemma fold_add_item:
  assumes "fold_result add_item (d, m) its = Inr (d', m')" "in_int64 d"
  shows "sint (m_amount m') = sint (m_amount m) + total_price its \<and> m_currency m' = m_currency m
    \<and> (\<forall>it \<in> set its. m_currency (it_price it) = m_currency m) \<and> d' = wrap64 (d + total_duration its)"
  using assms
proof (induction its arbitrary: d m)
  case Nil
  then show ?case by (simp add: wrap64_id)
next
  case (Cons it its)
  from Cons.prems(1) obtain p where p: "Money_Add m (it_price it) = Inr p"
    "fold_result add_item (wrap64 (d + it_duration it), p) its = Inr (d', m')"
    by (auto simp: add_item_def [of "(d, m)" it] split: sum.splits)
  then have q: "m_currency m = m_currency (it_price it)" "m_currency p = m_currency m"
    "sint (m_amount p) = sint (m_amount m) + sint (m_amount (it_price it))"
    by (auto simp: Money_Add_exact sint_add64 wrap64_id split: if_splits)
  show ?case using Cons.IH [OF p(2)] q by (simp add: add.assoc)
qed

lemma Book_totals:
  assumes "Book b now = Inr a"
  shows "ap_items a = b_items b" "ap_start a = b_start b"
    "ap_end a = b_start b + wrap64 (total_duration (b_items b))"
    "ap_busyUntil a = ap_end a + b_buffer b"
    "m_currency (ap_price a) = SAR" "sint (m_amount (ap_price a)) = total_price (b_items b)"
proof -
  obtain d p where f: "fold_result add_item (0, Halalas 0) (b_items b) = Inr (d, p)"
    using assms by (auto simp: Book_def Let_def split: if_splits sum.splits)
  have z: "sint (m_amount (Halalas 0)) = 0" "m_currency (Halalas 0) = SAR" by (simp_all add: Halalas_def)
  have "sint (m_amount p) = total_price (b_items b)" "m_currency p = SAR"
    "d = wrap64 (total_duration (b_items b))"
    using fold_add_item [OF f] z by (simp_all add: in_int64_def min_int64_def max_int64_def)
  then show "ap_items a = b_items b" "ap_start a = b_start b"
    "ap_end a = b_start b + wrap64 (total_duration (b_items b))"
    "ap_busyUntil a = ap_end a + b_buffer b"
    "m_currency (ap_price a) = SAR" "sint (m_amount (ap_price a)) = total_price (b_items b)"
    using assms f
    by (auto simp: Book_def Let_def time_add_def Snapshot.defs split: if_splits)
qed

lemma Book_fields:
  assumes "Book b now = Inr a"
  shows "ap_id a = b_id b" "ap_business a = b_business b" "ap_branch a = b_branch b"
    "ap_barber a = b_barber b" "ap_customer a = b_customer b" "ap_version a = 1"
    "ap_events a = [AppointmentBooked (snapshot a)]"
    "ap_status a = (if \<not> b_autoConfirm b \<and> ap_source a = SourceCustomerApp then StatusPending else StatusConfirmed)"
  using assms
  by (auto simp: Book_def Let_def Snapshot.defs snapshot_def split: if_splits sum.splits option.splits)


section \<open>Properties\<close>

definition sample_item :: Item where
  "sample_item = \<lparr>it_service = ID 7, it_name = \<lparr>lt_ar = ''qass'', lt_en = ''Haircut''\<rparr>,
     it_duration = 30 * minute, it_price = Halalas 6000\<rparr>"

definition sample_booking :: Booking where
  "sample_booking = \<lparr>b_id = ID 10, b_business = ID 1, b_branch = ID 2, b_barber = ID 3, b_customer = ID 4,
     b_customerName = [], b_source = None, b_start = 3 * hour, b_items = [sample_item, sample_item],
     b_buffer = 5 * minute, b_assignment = AnyBarber, b_note = ''hi'', b_autoConfirm = False,
     b_pendingExpiry = hour, b_cancellationWindow = 2 * hour\<rparr>"

definition sample_snapshot :: Snapshot where
  "sample_snapshot = \<lparr>ap_id = ID 10, ap_business = ID 1, ap_branch = ID 2, ap_barber = ID 3, ap_customer = ID 4,
     ap_customerName = [], ap_items = [sample_item, sample_item], ap_start = 3 * hour, ap_end = 4 * hour,
     ap_busyUntil = 4 * hour + 5 * minute, ap_price = Halalas 12000, ap_status = StatusPending,
     ap_source = SourceCustomerApp, ap_assignment = AnyBarber, ap_note = ''hi'',
     ap_pendingUntil = Some hour, ap_cancellableUntil = hour, ap_cancellation = None, ap_version = 1,
     ap_createdAt = 0, ap_updatedAt = 0\<rparr>"

definition sample_appointment :: Appointment where
  "sample_appointment = Snapshot.extend sample_snapshot \<lparr>ap_events = [AppointmentBooked sample_snapshot]\<rparr>"

lemma sample_Book: "Book sample_booking 0 = Inr sample_appointment"
  by code_simp


text \<open>C6: Whatever is done to an appointment after \<open>Book\<close> made it, in any order and at any
  instants, it stays well-formed and what was booked stays untouched; its event log starts with
  the booking, every later entry is a step of the lifecycle from the status before it, the log
  ends in the present status, the version counts the entries, and there are at most three.\<close>

theorem appointment_history:
  assumes "Book b now = Inr a0" "evolves a0 a"
  shows "wf_appointment a \<and> same_booking a0 a \<and> chained (ap_events a)
    \<and> hd (ap_events a) = AppointmentBooked (snapshot a0)
    \<and> event_status (last (ap_events a)) = ap_status a
    \<and> ap_version a = int (length (ap_events a)) \<and> length (ap_events a) \<le> 3"
proof -
  note l = evolves_log [OF assms(2) Book_fields(7) [OF assms(1)] Book_fields(6) [OF assms(1)]]
  obtain e es where e: "ap_events a = e # es" using l by (cases "ap_events a") auto
  have "length es \<le> 2" using chained_length [of e es] l e by (auto split: Status.splits)
  then show ?thesis
    using l e evolves_wf [OF assms(2) Book_wf [OF assms(1)]] evolves_same_booking [OF assms(2)] by auto
qed

theorem appointment_history_witness:
  "\<exists>a. perform OpConfirm sample_appointment minute = Inr a
     \<and> wf_appointment a \<and> ap_version a = int (length (ap_events a))"
proof -
  obtain a where a: "perform OpConfirm sample_appointment minute = Inr a"
    by (simp add: Confirm_def current_def sample_appointment_def sample_snapshot_def Snapshot.defs time_simps)
  have "evolves sample_appointment a" by (rule evolves.step [OF evolves.start a])
  then show ?thesis using appointment_history [OF sample_Book] a by blast
qed

text \<open>An appointment that is no longer pending or confirmed is final: every operation is
  refused with the transition error that names the action's status.\<close>

theorem final_statuses_are_final:
  assumes "\<not> active (ap_status a)"
  shows "\<exists>act. perform oper a now = Inl (TransitionError act (ap_status a))"
  using assms
  by (cases oper) (auto simp: lifecycle_simps active_def split: option.splits)

theorem final_statuses_are_final_witness:
  "\<exists>act. perform OpComplete (sample_appointment\<lparr>ap_status := StatusRejected\<rparr>) 0
     = Inl (TransitionError act StatusRejected)"
  using final_statuses_are_final [of "sample_appointment\<lparr>ap_status := StatusRejected\<rparr>" OpComplete 0]
  by (simp add: active_def)

text \<open>A pending booking whose expiry has come can only expire: expiring it succeeds, and
  confirming, rejecting, cancelling, completing it or marking a no-show is refused as for an
  expired one, even before the expiry job has run.\<close>

theorem pending_past_expiry_only_expires:
  assumes "ap_status a = StatusPending" "ap_pendingUntil a = Some u" "u \<le> now"
  shows "perform oper a now =
    (if oper = OpExpire then Inr (change a StatusExpired now)
     else Inl (TransitionError (case oper of OpConfirm \<Rightarrow> ActionConfirm | OpReject \<Rightarrow> ActionReject
       | OpComplete \<Rightarrow> ActionComplete | OpNoShow \<Rightarrow> ActionNoShow | _ \<Rightarrow> ActionCancel) StatusExpired))"
  using assms
  by (cases oper) (simp_all add: Confirm_def Reject_def CancelByCustomer_def CancelByStaff_def Expire_def
      finish_def Complete_def MarkNoShow_def current_def Let_def)

theorem pending_past_expiry_only_expires_witness:
  "perform OpConfirm sample_appointment hour = Inl (TransitionError ActionConfirm StatusExpired)"
  using pending_past_expiry_only_expires [of sample_appointment hour hour OpConfirm]
  by (simp add: sample_appointment_def sample_snapshot_def Snapshot.defs)

text \<open>\<open>Book\<close> prices an appointment exactly: the price is in riyals and its amount is the sum
  of the items' amounts as integers (an overflow is an error, never a wrong price); it starts when
  asked, ends after the items' durations and holds the barber for the buffer after that.\<close>

theorem booking_totals_exact:
  assumes "Book b now = Inr a" "\<forall>it \<in> set (b_items b). 0 \<le> it_duration it \<and> it_duration it \<le> 24 * hour"
  shows "m_currency (ap_price a) = SAR
    \<and> sint (m_amount (ap_price a)) = (\<Sum>it \<leftarrow> b_items b. sint (m_amount (it_price it)))
    \<and> ap_start a = b_start b \<and> ap_end a = b_start b + (\<Sum>it \<leftarrow> b_items b. it_duration it)
    \<and> ap_busyUntil a = ap_end a + b_buffer b"
proof -
  have l: "length (b_items b) \<le> 5" using Book_wf [OF assms(1)] Book_totals(1) [OF assms(1)]
    by (simp add: wf_appointment_def)
  have "0 \<le> total_duration its \<and> total_duration its \<le> int (length its) * (24 * hour)"
    if "\<forall>it \<in> set its. 0 \<le> it_duration it \<and> it_duration it \<le> 24 * hour" for its
    using that by (induction its) (auto simp: algebra_simps)
  then have "0 \<le> total_duration (b_items b)" "total_duration (b_items b) \<le> 5 * (24 * hour)"
    using assms(2) l mult_right_mono [of "int (length (b_items b))" 5 "24 * hour"]
    by (force simp: hour_def)+
  then have "wrap64 (total_duration (b_items b)) = total_duration (b_items b)"
    by (intro wrap64_small) (simp add: hour_def)
  then show ?thesis using Book_totals [OF assms(1)] by (simp add: total_price_def total_duration_def)
qed

theorem booking_totals_exact_witness:
  "ap_end sample_appointment = 3 * hour + 60 * minute"
  using booking_totals_exact [OF sample_Book] by (simp add: sample_booking_def sample_item_def time_simps)

end
