(* ===== verification/BookingStore.thy ===== *)
theory BookingStore
  imports Appointment
begin

text \<open>
  \<open>internal/booking/adapters/postgres\<close>: the appointments, items, idempotency keys and
  published events in the database, and the transactions over them (\<open>appointments.go\<close>,
  \<open>book.go\<close>, \<open>change.go\<close>). The tables, their CHECK constraints and the exclusion constraint
  are those of the migrations 00017 to 00020, the selections those of \<open>queries.sql\<close>; a
  transaction that fails leaves the database as it was. Timestamps are stored to the
  microsecond. Connection failures, context cancellation and the limit on transactions in
  flight are left out; the advisory and row locks make transactions on the same barber,
  customer or row take turns, so the model runs transactions one after the other.
\<close>

section \<open>Tables\<close>

record appointment_row =
  row_id :: uuid
  row_business :: uuid
  row_branch :: uuid
  row_staff :: uuid
  row_customer :: "uuid option"
  row_customer_name :: string
  row_status :: Status
  row_source :: Source
  row_assignment :: Assignment
  row_starts_at :: gotime
  row_ends_at :: gotime
  row_busy_until :: gotime
  row_price_amount :: int64
  row_price_currency :: Currency
  row_note :: string
  row_pending_until :: "gotime option"
  row_cancellable_until :: gotime
  row_cancelled_by :: "Canceller option"
  row_cancel_reason :: string
  row_cancelled_at :: "gotime option"
  row_version :: int
  row_created_at :: gotime
  row_updated_at :: gotime

record item_row =
  ir_appointment :: uuid
  ir_position :: int
  ir_service :: uuid
  ir_name_ar :: string
  ir_name_en :: string
  ir_minutes :: int
  ir_price_amount :: int64
  ir_price_currency :: Currency

record key_row =
  key_hash :: string
  key_appointment :: "uuid option"
  key_created_at :: gotime

record booking_db =
  db_rows :: "appointment_row list"
  db_items :: "item_row list"
  db_keys :: "uuid \<times> uuid \<rightharpoonup> key_row"
  db_outbox :: "booking_event list"

definition empty_db :: booking_db where
  "empty_db = \<lparr>db_rows = [], db_items = [], db_keys = Map.empty, db_outbox = []\<rparr>"

text \<open>The constraint \<open>appointments_no_overlap\<close> between two rows.\<close>

definition during :: "appointment_row \<Rightarrow> Interval" where
  "during r = \<lparr>ivl_start = row_starts_at r, ivl_end = row_busy_until r\<rparr>"

definition rows_clash :: "appointment_row \<Rightarrow> appointment_row \<Rightarrow> bool" where
  "rows_clash r q \<longleftrightarrow> active (row_status r) \<and> active (row_status q) \<and> row_staff r = row_staff q
     \<and> Overlaps (during r) (during q)"

text \<open>The CHECK constraints of the appointments table.\<close>

definition row_ok :: "appointment_row \<Rightarrow> bool" where
  "row_ok r \<longleftrightarrow>
     0 \<le> sint (row_price_amount r) \<and> sint (row_price_amount r) \<le> 50000000 \<and> row_price_currency r = SAR
     \<and> rune_count (row_note r) \<le> 300 \<and> rune_count (row_cancel_reason r) \<le> 300
     \<and> rune_count (row_customer_name r) \<le> 100 \<and> 0 < row_version r
     \<and> row_starts_at r < row_ends_at r \<and> row_ends_at r \<le> row_busy_until r
     \<and> (row_status r = StatusPending \<longleftrightarrow> row_pending_until r \<noteq> None)
     \<and> (row_status r = StatusCancelled \<longleftrightarrow> row_cancelled_at r \<noteq> None \<and> row_cancelled_by r \<noteq> None)
     \<and> row_cancellable_until r \<le> row_starts_at r
     \<and> (row_customer r \<noteq> None \<or> row_source r = SourceStaff \<and> row_customer_name r \<noteq> [])"

definition item_ok :: "item_row \<Rightarrow> bool" where
  "item_ok i \<longleftrightarrow> 1 \<le> ir_position i \<and> ir_position i \<le> 5 \<and> ir_name_ar i \<noteq> []
     \<and> 5 \<le> ir_minutes i \<and> ir_minutes i \<le> 480
     \<and> 0 \<le> sint (ir_price_amount i) \<and> sint (ir_price_amount i) \<le> 10000000 \<and> ir_price_currency i = SAR"

section \<open>Conversions\<close>

definition toInt16 :: "int \<Rightarrow> (booking_error, int) result" where
  "toInt16 n = (if n < - 32768 \<or> 32767 < n then Inl Fault else Inr n)"

definition toInt32 :: "int \<Rightarrow> (booking_error, int) result" where
  "toInt32 n = (if n < - 2147483648 \<or> 2147483647 < n then Inl Fault else Inr n)"

definition optional :: "'t id \<Rightarrow> uuid option" where
  "optional i = (if ID_IsZero i then None else Some (id_value i))"

definition customerOf :: "uuid option \<Rightarrow> UserID" where
  "customerOf u = (case u of None \<Rightarrow> ID uuid_Nil | Some v \<Rightarrow> IDFromUUID v)"

definition appointment_row_of :: "Snapshot \<Rightarrow> appointment_row" where
  "appointment_row_of s =
     \<lparr>row_id = id_value (ap_id s), row_business = id_value (ap_business s),
      row_branch = id_value (ap_branch s), row_staff = id_value (ap_barber s),
      row_customer = optional (ap_customer s), row_customer_name = ap_customerName s,
      row_status = ap_status s, row_source = ap_source s, row_assignment = ap_assignment s,
      row_starts_at = db_time (ap_start s), row_ends_at = db_time (ap_end s),
      row_busy_until = db_time (ap_busyUntil s),
      row_price_amount = m_amount (ap_price s), row_price_currency = m_currency (ap_price s),
      row_note = ap_note s, row_pending_until = map_option db_time (ap_pendingUntil s),
      row_cancellable_until = db_time (ap_cancellableUntil s),
      row_cancelled_by = None, row_cancel_reason = [], row_cancelled_at = None,
      row_version = ap_version s, row_created_at = db_time (ap_createdAt s),
      row_updated_at = db_time (ap_updatedAt s)\<rparr>"

definition item_row_of :: "uuid \<Rightarrow> int \<Rightarrow> Item \<Rightarrow> item_row" where
  "item_row_of aid pos it =
     \<lparr>ir_appointment = aid, ir_position = pos, ir_service = id_value (it_service it),
      ir_name_ar = lt_ar (it_name it), ir_name_en = lt_en (it_name it),
      ir_minutes = go_div (it_duration it) minute,
      ir_price_amount = m_amount (it_price it), ir_price_currency = m_currency (it_price it)\<rparr>"

definition hydrate_item :: "item_row \<Rightarrow> (booking_error, Item) result" where
  "hydrate_item it =
     (case NewLocalizedText (ir_name_ar it) (ir_name_en it) of Inl _ \<Rightarrow> Inl Fault
      | Inr name \<Rightarrow>
          (case NewMoney (ir_price_amount it) (ir_price_currency it) of Inl _ \<Rightarrow> Inl Fault
           | Inr price \<Rightarrow>
               Inr \<lparr>it_service = IDFromUUID (ir_service it), it_name = name,
                    it_duration = ir_minutes it * minute, it_price = price\<rparr>))"

definition hydrate :: "appointment_row \<Rightarrow> item_row list \<Rightarrow> (booking_error, Appointment) result" where
  "hydrate row rows =
     (case fold_result (\<lambda>acc it. case hydrate_item it of Inl e \<Rightarrow> Inl e | Inr i \<Rightarrow> Inr (acc @ [i])) [] rows of
        Inl e \<Rightarrow> Inl e
      | Inr items \<Rightarrow>
          (case NewMoney (row_price_amount row) (row_price_currency row) of Inl _ \<Rightarrow> Inl Fault
           | Inr price \<Rightarrow>
               Inr (Rehydrate
                 \<lparr>ap_id = IDFromUUID (row_id row), ap_business = IDFromUUID (row_business row),
                  ap_branch = IDFromUUID (row_branch row), ap_barber = IDFromUUID (row_staff row),
                  ap_customer = customerOf (row_customer row), ap_customerName = row_customer_name row,
                  ap_items = items, ap_start = row_starts_at row, ap_end = row_ends_at row,
                  ap_busyUntil = row_busy_until row, ap_price = price, ap_status = row_status row,
                  ap_source = row_source row, ap_assignment = row_assignment row, ap_note = row_note row,
                  ap_pendingUntil = row_pending_until row, ap_cancellableUntil = row_cancellable_until row,
                  ap_cancellation =
                    (case (row_cancelled_by row, row_cancelled_at row) of
                       (Some b, Some t) \<Rightarrow> Some \<lparr>cn_by = b, cn_reason = row_cancel_reason row, cn_at = t\<rparr>
                     | _ \<Rightarrow> None),
                  ap_version = row_version row, ap_createdAt = row_created_at row,
                  ap_updatedAt = row_updated_at row\<rparr>)))"

definition withItems :: "booking_db \<Rightarrow> appointment_row \<Rightarrow> (booking_error, Appointment) result" where
  "withItems db row =
     hydrate row (sort_key ir_position (filter (\<lambda>i. ir_appointment i = row_id row) (db_items db)))"

section \<open>Reading\<close>

definition Store_Busy ::
  "booking_db \<Rightarrow> StaffID list \<Rightarrow> gotime \<Rightarrow> gotime \<Rightarrow> (booking_error, StaffID \<Rightarrow> Interval list) result" where
  "Store_Busy db staff frm till =
     (let rows = filter (\<lambda>r. row_staff r \<in> set (map id_value staff) \<and> active (row_status r)
            \<and> db_time frm < db_time till
            \<and> Overlaps (during r) \<lparr>ivl_start = db_time frm, ivl_end = db_time till\<rparr>)
          (sort_key row_starts_at (db_rows db))
      in if db_time till < db_time frm \<or> list_ex (\<lambda>r. \<not> is_ok (NewInterval (row_starts_at r) (row_busy_until r))) rows then Inl Fault
         else Inr (\<lambda>s. map during (filter (\<lambda>r. row_staff r = id_value s) rows)))"

definition ByCustomer_row :: "booking_db \<Rightarrow> UserID \<Rightarrow> AppointmentID \<Rightarrow> appointment_row option" where
  "ByCustomer_row db customer i =
     find_first (\<lambda>r. row_customer r = Some (id_value customer) \<and> row_id r = id_value i) (db_rows db)"

definition ByBusiness_row :: "booking_db \<Rightarrow> BusinessID \<Rightarrow> AppointmentID \<Rightarrow> appointment_row option" where
  "ByBusiness_row db business i =
     find_first (\<lambda>r. row_business r = id_value business \<and> row_id r = id_value i) (db_rows db)"

definition Store_ByCustomer ::
  "booking_db \<Rightarrow> UserID \<Rightarrow> AppointmentID \<Rightarrow> (booking_error, Appointment) result" where
  "Store_ByCustomer db customer i =
     (case ByCustomer_row db customer i of None \<Rightarrow> Inl ErrNotFound | Some row \<Rightarrow> withItems db row)"

definition Store_Day ::
  "booking_db \<Rightarrow> BusinessID \<Rightarrow> BranchID \<Rightarrow> gotime \<Rightarrow> gotime \<Rightarrow> StaffID option
   \<Rightarrow> (booking_error, Appointment list) result" where
  "Store_Day db business branch frm till barber =
     (let rows = filter (\<lambda>r. row_business r = id_value business \<and> row_branch r = id_value branch
            \<and> db_time frm \<le> row_starts_at r \<and> row_starts_at r < db_time till
            \<and> (case barber of None \<Rightarrow> True | Some b \<Rightarrow> row_staff r = id_value b))
          (sort_key row_starts_at (sort_key row_id (db_rows db)))
      in fold_result (\<lambda>acc r. case withItems db r of Inl e \<Rightarrow> Inl e | Inr a \<Rightarrow> Inr (acc @ [a])) [] rows)"

definition CountActiveBookings :: "booking_db \<Rightarrow> UserID \<Rightarrow> BranchID \<Rightarrow> gotime \<Rightarrow> int" where
  "CountActiveBookings db customer branch now =
     int (length (filter (\<lambda>r. row_customer r = Some (id_value customer) \<and> row_branch r = id_value branch
       \<and> active (row_status r) \<and> db_time now < row_starts_at r) (db_rows db)))"

text \<open>\<open>Replay\<close>: \<open>None\<close> when the key is new.\<close>

definition replay ::
  "booking_db \<Rightarrow> UserID \<Rightarrow> uuid \<Rightarrow> string \<Rightarrow> (booking_error, Appointment option) result" where
  "replay db requester key hash =
     (case db_keys db (id_value requester, key) of None \<Rightarrow> Inr None
      | Some k \<Rightarrow>
          (case key_appointment k of None \<Rightarrow> Inl ErrIdempotencyReused
           | Some aid \<Rightarrow>
               if key_hash k \<noteq> hash then Inl ErrIdempotencyReused
               else case find_first (\<lambda>r. row_id r = aid) (db_rows db) of None \<Rightarrow> Inl Fault
                 | Some row \<Rightarrow> (case withItems db row of Inl e \<Rightarrow> Inl e | Inr a \<Rightarrow> Inr (Some a))))"

section \<open>Writing\<close>

datatype insert_outcome = Inserted booking_db | ExclusionViolation | InsertFailed

definition item_rows :: "Snapshot \<Rightarrow> item_row list" where
  "item_rows s =
     map (\<lambda>(i, it). item_row_of (id_value (ap_id s)) (int i + 1) it) (enumerate 0 (ap_items s))"

definition insert_row :: "booking_db \<Rightarrow> appointment_row \<Rightarrow> insert_outcome" where
  "insert_row db row =
     (if \<not> row_ok row \<or> row_id row \<in> set (map row_id (db_rows db)) then InsertFailed
      else if list_ex (rows_clash row) (db_rows db) then ExclusionViolation
      else Inserted (db\<lparr>db_rows := db_rows db @ [row]\<rparr>))"

definition insert_items :: "booking_db \<Rightarrow> item_row list \<Rightarrow> insert_outcome" where
  "insert_items db its =
     (if list_ex (\<lambda>i. \<not> is_ok (toInt16 (ir_position i)) \<or> \<not> is_ok (toInt16 (ir_minutes i)) \<or> \<not> item_ok i
          \<or> (ir_appointment i, ir_position i) \<in> set (map (\<lambda>j. (ir_appointment j, ir_position j)) (db_items db))) its
      then InsertFailed
      else Inserted (db\<lparr>db_items := db_items db @ its\<rparr>))"

definition insert_appointment :: "booking_db \<Rightarrow> Appointment \<Rightarrow> insert_outcome" where
  "insert_appointment db a =
     (let s = snapshot a in
      if \<not> is_ok (toInt32 (ap_version s)) then InsertFailed
      else case insert_row db (appointment_row_of s) of
        Inserted db' \<Rightarrow> insert_items db' (item_rows s)
      | r \<Rightarrow> r)"

text \<open>The contract's events; there is none for a change to pending.\<close>

definition publish :: "booking_db \<Rightarrow> booking_event list \<Rightarrow> (booking_error, booking_db) result" where
  "publish db recorded =
     (if list_ex (\<lambda>e. case e of StatusChanged _ s \<Rightarrow> ap_status s = StatusPending | _ \<Rightarrow> False) recorded
      then Inl Fault
      else Inr (db\<lparr>db_outbox := db_outbox db @ recorded\<rparr>))"

record BookingAttempt =
  at_requester :: UserID
  at_branch :: BranchID
  at_key :: uuid
  at_hash :: string
  at_now :: gotime
  at_allow :: "(int \<Rightarrow> booking_error option) option"
  at_drafts :: "Appointment list"
  at_stillWorking :: "Appointment \<Rightarrow> (booking_error, bool) result"

text \<open>\<open>Inr None\<close>: the barber does not work then or was booked meanwhile.\<close>

definition try_draft ::
  "booking_db \<Rightarrow> Appointment \<Rightarrow> (Appointment \<Rightarrow> (booking_error, bool) result)
   \<Rightarrow> (booking_error, booking_db option) result" where
  "try_draft db draft stillWorking =
     (case stillWorking draft of Inl e \<Rightarrow> Inl e
      | Inr working \<Rightarrow>
          if \<not> working then Inr None
          else case insert_appointment db draft of Inserted db' \<Rightarrow> Inr (Some db')
            | ExclusionViolation \<Rightarrow> Inr None | InsertFailed \<Rightarrow> Inl Fault)"

definition settle :: "booking_db \<Rightarrow> uuid \<times> uuid \<Rightarrow> uuid \<Rightarrow> booking_db" where
  "settle db k aid =
     db\<lparr>db_keys := (db_keys db)(k := map_option (\<lambda>r. r\<lparr>key_appointment := Some aid\<rparr>) (db_keys db k))\<rparr>"

text \<open>The loop over the drafts inside the transaction.\<close>

fun book_drafts ::
  "booking_db \<Rightarrow> BookingAttempt \<Rightarrow> Appointment list \<Rightarrow> (booking_error, Appointment \<times> booking_db) result" where
  "book_drafts db attempt [] = Inl ErrSlotUnavailable"
| "book_drafts db attempt (draft # drafts) =
     (case try_draft db draft (at_stillWorking attempt) of Inl e \<Rightarrow> Inl e
      | Inr None \<Rightarrow> book_drafts db attempt drafts
      | Inr (Some db') \<Rightarrow>
          (case publish (settle db' (id_value (at_requester attempt), at_key attempt) (id_value (ap_id draft)))
                  (ap_events draft) of
             Inl e \<Rightarrow> Inl e | Inr db'' \<Rightarrow> Inr (draft, db'')))"

text \<open>The claim, its CHECK on the hash, the replay, the limit and the drafts; \<open>True\<close>: replayed.\<close>

definition book_tx ::
  "booking_db \<Rightarrow> BookingAttempt \<Rightarrow> (booking_error, Appointment \<times> bool \<times> booking_db) result" where
  "book_tx db attempt =
     (let k = (id_value (at_requester attempt), at_key attempt) in
      case db_keys db k of
        Some _ \<Rightarrow>
          (case replay db (at_requester attempt) (at_key attempt) (at_hash attempt) of
             Inl e \<Rightarrow> Inl e | Inr None \<Rightarrow> Inl Fault | Inr (Some a) \<Rightarrow> Inr (a, True, db))
      | None \<Rightarrow>
          if length (at_hash attempt) \<noteq> 32 then Inl Fault
          else
            let db = db\<lparr>db_keys := (db_keys db)(k \<mapsto>
                  \<lparr>key_hash = at_hash attempt, key_appointment = None, key_created_at = db_time (at_now attempt)\<rparr>)\<rparr>
            in if at_drafts attempt = [] then Inl ErrSlotUnavailable
               else case (case at_allow attempt of None \<Rightarrow> None
                   | Some allow \<Rightarrow> allow (CountActiveBookings db (at_requester attempt) (at_branch attempt) (at_now attempt)))
                 of Some e \<Rightarrow> Inl e
                  | None \<Rightarrow>
                      (case book_drafts db attempt (at_drafts attempt) of Inl e \<Rightarrow> Inl e
                       | Inr (a, db') \<Rightarrow> Inr (a, False, db')))"

definition Store_Book ::
  "booking_db \<Rightarrow> BookingAttempt \<Rightarrow> (booking_error, Appointment \<times> bool) result \<times> booking_db" where
  "Store_Book db attempt =
     (case book_tx db attempt of Inl e \<Rightarrow> (Inl e, db) | Inr (a, replayed, db') \<Rightarrow> (Inr (a, replayed), db'))"

definition update_row :: "appointment_row \<Rightarrow> Snapshot \<Rightarrow> appointment_row" where
  "update_row row s =
     row\<lparr>row_status := ap_status s, row_pending_until := map_option db_time (ap_pendingUntil s),
         row_cancelled_by := map_option cn_by (ap_cancellation s),
         row_cancel_reason := (case ap_cancellation s of None \<Rightarrow> [] | Some c \<Rightarrow> cn_reason c),
         row_cancelled_at := map_option (\<lambda>c. db_time (cn_at c)) (ap_cancellation s),
         row_version := ap_version s, row_updated_at := db_time (ap_updatedAt s)\<rparr>"

text \<open>
  \<open>UPDATE ... WHERE id AND version\<close>: the constraints are checked on the row as it becomes; \<open>n\<close>
  is how many rows matched.
\<close>

definition save :: "booking_db \<Rightarrow> appointment_row \<Rightarrow> Appointment \<Rightarrow> (booking_error, booking_db) result" where
  "save db row a =
     (let s = snapshot a; hit = (\<lambda>r. row_id r = row_id row \<and> row_version r = row_version row) in
      if \<not> is_ok (toInt32 (ap_version s)) then Inl Fault
      else
        let n = length (filter hit (db_rows db)) in
        if list_ex (\<lambda>r. hit r \<and> (\<not> row_ok (update_row r s)
             \<or> list_ex (\<lambda>q. row_id q \<noteq> row_id r \<and> rows_clash (update_row r s) q) (db_rows db))) (db_rows db)
        then Inl Fault
        else if n \<noteq> 1 then Inl Fault
        else Inr (db\<lparr>db_rows := map (\<lambda>r. if hit r then update_row r s else r) (db_rows db)\<rparr>))"

definition change_tx ::
  "booking_db \<Rightarrow> appointment_row option \<Rightarrow> (Appointment \<Rightarrow> (booking_error, Appointment) result)
   \<Rightarrow> (booking_error, Appointment \<times> booking_db) result" where
  "change_tx db lock f =
     (case lock of None \<Rightarrow> Inl ErrNotFound
      | Some row \<Rightarrow>
          (case withItems db row of Inl e \<Rightarrow> Inl e
           | Inr a \<Rightarrow>
               (case f a of Inl e \<Rightarrow> Inl e
                | Inr a' \<Rightarrow>
                    (case save db row a' of Inl e \<Rightarrow> Inl e
                     | Inr db' \<Rightarrow>
                         (case publish db' (ap_events a') of Inl e \<Rightarrow> Inl e
                          | Inr db'' \<Rightarrow> Inr (a', db''))))))"

definition ChangeMine ::
  "booking_db \<Rightarrow> UserID \<Rightarrow> AppointmentID \<Rightarrow> (Appointment \<Rightarrow> (booking_error, Appointment) result)
   \<Rightarrow> (booking_error, Appointment) result \<times> booking_db" where
  "ChangeMine db customer i f = commit db (change_tx db (ByCustomer_row db customer i) f)"

definition ChangeAtBusiness ::
  "booking_db \<Rightarrow> BusinessID \<Rightarrow> AppointmentID \<Rightarrow> (Appointment \<Rightarrow> (booking_error, Appointment) result)
   \<Rightarrow> (booking_error, Appointment) result \<times> booking_db" where
  "ChangeAtBusiness db business i f = commit db (change_tx db (ByBusiness_row db business i) f)"

text \<open>\<open>FOR UPDATE SKIP LOCKED\<close>: \<open>locked\<close> says which rows another transaction holds.\<close>

definition DuePending :: "booking_db \<Rightarrow> (uuid \<Rightarrow> bool) \<Rightarrow> gotime \<Rightarrow> nat \<Rightarrow> appointment_row list" where
  "DuePending db locked now batch =
     take batch (sort_key (\<lambda>r. the (row_pending_until r)) (sort_key row_id
       (filter (\<lambda>r. row_status r = StatusPending \<and> \<not> locked (row_id r)
          \<and> (case row_pending_until r of None \<Rightarrow> False | Some u \<Rightarrow> u \<le> db_time now)) (db_rows db))))"

definition expire_one ::
  "gotime \<Rightarrow> booking_event list \<times> booking_db \<Rightarrow> appointment_row
   \<Rightarrow> (booking_error, booking_event list \<times> booking_db) result" where
  "expire_one now acc row =
     (case acc of (evs, db) \<Rightarrow>
        case withItems db row of Inl e \<Rightarrow> Inl e
        | Inr a \<Rightarrow>
            (case Expire a now of Inl e \<Rightarrow> Inl e
             | Inr a' \<Rightarrow>
                 (case save db row a' of Inl e \<Rightarrow> Inl e | Inr db' \<Rightarrow> Inr (evs @ ap_events a', db'))))"

definition ExpireDue ::
  "booking_db \<Rightarrow> (uuid \<Rightarrow> bool) \<Rightarrow> gotime \<Rightarrow> nat \<Rightarrow> (booking_error, nat) result \<times> booking_db" where
  "ExpireDue db locked now batch =
     (if \<not> is_ok (toInt32 (int batch)) then (Inl Fault, db)
      else
        let rows = DuePending db locked now batch in
        commit db
          (case fold_result (expire_one now) ([], db) rows of Inl e \<Rightarrow> Inl e
           | Inr (evs, db') \<Rightarrow>
               (case publish db' evs of Inl e \<Rightarrow> Inl e | Inr db'' \<Rightarrow> Inr (length rows, db''))))"

section \<open>Every transaction as a step\<close>

text \<open>Changes apply one lifecycle operation, perhaps after a check of their own.\<close>

definition lifecycle_change :: "(Appointment \<Rightarrow> (booking_error, Appointment) result) \<Rightarrow> bool" where
  "lifecycle_change f \<longleftrightarrow> (\<forall>a a'. f a = Inr a' \<longrightarrow> (\<exists>oper now. perform oper a now = Inr a'))"

inductive db_step :: "booking_db \<Rightarrow> booking_db \<Rightarrow> bool" where
  book: "db_step db (snd (Store_Book db attempt))"
| mine: "lifecycle_change f \<Longrightarrow> db_step db (snd (ChangeMine db customer i f))"
| shop: "lifecycle_change f \<Longrightarrow> db_step db (snd (ChangeAtBusiness db business i f))"
| expire: "db_step db (snd (ExpireDue db locked now batch))"

definition db_steps :: "booking_db \<Rightarrow> booking_db \<Rightarrow> bool" where
  "db_steps = db_step\<^sup>*\<^sup>*"

section \<open>The invariant of the tables\<close>

definition wf_db :: "booking_db \<Rightarrow> bool" where
  "wf_db db \<longleftrightarrow> distinct (map row_id (db_rows db)) \<and> (\<forall>r \<in> set (db_rows db). row_ok r)
     \<and> (\<forall>r \<in> set (db_rows db). \<forall>q \<in> set (db_rows db). row_id r \<noteq> row_id q \<longrightarrow> \<not> rows_clash r q)
     \<and> (\<forall>i \<in> set (db_items db). ir_appointment i \<in> set (map row_id (db_rows db)))
     \<and> (\<forall>k kr. db_keys db k = Some kr \<longrightarrow>
          (\<exists>aid. key_appointment kr = Some aid \<and> aid \<in> set (map row_id (db_rows db))))"

lemma wf_empty_db: "wf_db empty_db"
  by (simp add: wf_db_def empty_db_def)

lemma rows_clash_sym: "rows_clash r q \<longleftrightarrow> rows_clash q r"
  by (auto simp: rows_clash_def Overlaps_sym)

lemma publish_Inr: "publish db evs = Inr db' \<Longrightarrow> db' = db\<lparr>db_outbox := db_outbox db @ evs\<rparr>"
  by (simp add: publish_def split: if_splits)

lemma item_rows_appointment: "i \<in> set (item_rows s) \<Longrightarrow> ir_appointment i = id_value (ap_id s)"
  by (auto simp: item_rows_def item_row_of_def)

lemma insert_appointment_Inserted:
  assumes "insert_appointment db a = Inserted db'"
  shows "db' = db\<lparr>db_rows := db_rows db @ [appointment_row_of (snapshot a)],
      db_items := db_items db @ item_rows (snapshot a)\<rparr>"
    "row_ok (appointment_row_of (snapshot a))"
    "row_id (appointment_row_of (snapshot a)) \<notin> set (map row_id (db_rows db))"
    "\<forall>q \<in> set (db_rows db). \<not> rows_clash (appointment_row_of (snapshot a)) q"
    "\<forall>i \<in> set (item_rows (snapshot a)). item_ok i"
  using assms
  by (auto simp: insert_appointment_def insert_row_def insert_items_def Let_def list_ex_iff
      split: if_splits insert_outcome.splits)

text \<open>What a successful \<open>book_drafts\<close> did: one draft inserted, the key settled, its events out.\<close>

lemma book_drafts_Inr:
  assumes "book_drafts db attempt drafts = Inr (a, db')"
  shows "\<exists>db1. a \<in> set drafts \<and> at_stillWorking attempt a = Inr True
    \<and> insert_appointment db a = Inserted db1
    \<and> db' = (settle db1 (id_value (at_requester attempt), at_key attempt) (id_value (ap_id a)))
         \<lparr>db_outbox := db_outbox db1 @ ap_events a\<rparr>"
  using assms
proof (induction drafts)
  case (Cons d ds)
  show ?case
  proof (cases "try_draft db d (at_stillWorking attempt)")
    case (Inl e)
    then show ?thesis using Cons.prems by simp
  next
    case (Inr o')
    show ?thesis
    proof (cases o')
      case None
      then show ?thesis using Cons Inr by auto
    next
      case (Some db1)
      then have t: "at_stillWorking attempt d = Inr True" "insert_appointment db d = Inserted db1"
        using Inr by (auto simp: try_draft_def split: sum.splits if_splits insert_outcome.splits)
      have "a = d" "publish (settle db1 (id_value (at_requester attempt), at_key attempt) (id_value (ap_id d)))
          (ap_events d) = Inr db'"
        using Cons.prems Inr Some by (auto split: sum.splits)
      then show ?thesis using t publish_Inr by (fastforce simp: settle_def)
    qed
  qed
qed simp

lemma book_tx_new:
  assumes "book_tx db attempt = Inr (a, replayed, db')" "db_keys db (id_value (at_requester attempt), at_key attempt) = None"
  defines "k \<equiv> (id_value (at_requester attempt), at_key attempt)"
  defines "row \<equiv> appointment_row_of (snapshot a)"
  shows "\<not> replayed" "a \<in> set (at_drafts attempt)" "at_stillWorking attempt a = Inr True"
    "db' = \<lparr>db_rows = db_rows db @ [row], db_items = db_items db @ item_rows (snapshot a),
        db_keys = (db_keys db)(k \<mapsto> \<lparr>key_hash = at_hash attempt, key_appointment = Some (id_value (ap_id a)),
           key_created_at = db_time (at_now attempt)\<rparr>), db_outbox = db_outbox db @ ap_events a\<rparr>"
    "row_ok row" "row_id row \<notin> set (map row_id (db_rows db))" "\<forall>q \<in> set (db_rows db). \<not> rows_clash row q"
    "\<forall>i \<in> set (item_rows (snapshot a)). item_ok i"
    "\<And>allow. at_allow attempt = Some allow \<Longrightarrow>
       allow (CountActiveBookings db (at_requester attempt) (at_branch attempt) (at_now attempt)) = None"
proof -
  let ?db = "db\<lparr>db_keys := (db_keys db)(k \<mapsto>
     \<lparr>key_hash = at_hash attempt, key_appointment = None, key_created_at = db_time (at_now attempt)\<rparr>)\<rparr>"
  have c: "CountActiveBookings ?db u b n = CountActiveBookings db u b n" for u b n
    by (simp add: CountActiveBookings_def)
  have d: "\<not> replayed" "book_drafts ?db attempt (at_drafts attempt) = Inr (a, db')"
    "case at_allow attempt of None \<Rightarrow> True
      | Some allow \<Rightarrow> allow (CountActiveBookings db (at_requester attempt) (at_branch attempt) (at_now attempt)) = None"
    using assms(1,2) c unfolding book_tx_def k_def [symmetric]
    by (auto simp: Let_def split: if_splits option.splits sum.splits)
  show "\<not> replayed" by (rule d(1))
  show "\<And>allow. at_allow attempt = Some allow \<Longrightarrow>
       allow (CountActiveBookings db (at_requester attempt) (at_branch attempt) (at_now attempt)) = None"
    using d(3) by simp
  obtain db1 where b: "a \<in> set (at_drafts attempt)" "at_stillWorking attempt a = Inr True"
    "insert_appointment ?db a = Inserted db1"
    "db' = (settle db1 k (id_value (ap_id a)))\<lparr>db_outbox := db_outbox db1 @ ap_events a\<rparr>"
    using book_drafts_Inr [OF d(2)] unfolding k_def by blast
  note i = insert_appointment_Inserted [OF b(3)]
  show "a \<in> set (at_drafts attempt)" "at_stillWorking attempt a = Inr True" by fact+
  show "row_ok row" "row_id row \<notin> set (map row_id (db_rows db))" "\<forall>q \<in> set (db_rows db). \<not> rows_clash row q"
    "\<forall>i \<in> set (item_rows (snapshot a)). item_ok i"
    using i(2-5) by (simp_all add: row_def)
  show "db' = \<lparr>db_rows = db_rows db @ [row], db_items = db_items db @ item_rows (snapshot a),
        db_keys = (db_keys db)(k \<mapsto> \<lparr>key_hash = at_hash attempt, key_appointment = Some (id_value (ap_id a)),
           key_created_at = db_time (at_now attempt)\<rparr>), db_outbox = db_outbox db @ ap_events a\<rparr>"
    unfolding b(4) i(1) by (simp add: settle_def row_def)
qed

lemma book_tx_old:
  assumes "book_tx db attempt = Inr (a, replayed, db')"
    "db_keys db (id_value (at_requester attempt), at_key attempt) \<noteq> None"
  shows "replayed" "db' = db"
  using assms by (auto simp: book_tx_def Let_def split: option.splits sum.splits)

lemma row_of_id [simp]: "row_id (appointment_row_of s) = id_value (ap_id s)"
  by (simp add: appointment_row_of_def)

lemma Store_Book_wf:
  assumes "wf_db db"
  shows "wf_db (snd (Store_Book db attempt))"
proof (cases "book_tx db attempt")
  case (Inl e)
  then show ?thesis using assms by (simp add: Store_Book_def)
next
  case (Inr r)
  obtain a p db' where r: "r = (a, p, db')" by (metis prod_cases3)
  show ?thesis
  proof (cases "db_keys db (id_value (at_requester attempt), at_key attempt) = None")
    case False
    then show ?thesis using book_tx_old [of db attempt a p db'] Inr r assms by (simp add: Store_Book_def)
  next
    case True
    note n = book_tx_new [OF Inr [unfolded r] True]
    have "wf_db db'" unfolding n(4) using assms n(5-7) rows_clash_sym item_rows_appointment
      by (fastforce simp: wf_db_def)
    then show ?thesis using Inr r by (simp add: Store_Book_def)
  qed
qed

lemma update_row_simps [simp]:
  "row_id (update_row r s) = row_id r" "row_staff (update_row r s) = row_staff r"
  "row_status (update_row r s) = ap_status s" "during (update_row r s) = during r"
  by (simp_all add: update_row_def during_def)

text \<open>What a successful \<open>save\<close> does: the one row with the loaded id and version is replaced.\<close>

lemma save_Inr:
  assumes "save db row a = Inr db'"
  defines "hit \<equiv> \<lambda>r. row_id r = row_id row \<and> row_version r = row_version row"
  shows "db' = db\<lparr>db_rows := map (\<lambda>r. if hit r then update_row r (snapshot a) else r) (db_rows db)\<rparr>"
    "\<forall>r \<in> set (db_rows db). hit r \<longrightarrow> row_ok (update_row r (snapshot a))"
    "\<forall>r \<in> set (db_rows db). hit r \<longrightarrow>
       (\<forall>q \<in> set (db_rows db). row_id q \<noteq> row_id r \<longrightarrow> \<not> rows_clash (update_row r (snapshot a)) q)"
    "length (filter hit (db_rows db)) = 1"
  using assms(1) unfolding save_def Let_def hit_def
  by (auto simp: list_ex_iff split: if_splits)

lemma save_wf:
  assumes "save db row a = Inr db'" "wf_db db"
  shows "wf_db db'"
proof -
  note s = save_Inr [OF assms(1)]
  let ?hit = "\<lambda>r. row_id r = row_id row \<and> row_version r = row_version row"
  let ?u = "\<lambda>r. if ?hit r then update_row r (snapshot a) else r"
  have ids: "map row_id (db_rows db') = map row_id (db_rows db)" unfolding s(1) by simp
  have clash: "\<not> rows_clash (?u r) (?u q)" if "r \<in> set (db_rows db)" "q \<in> set (db_rows db)" "row_id r \<noteq> row_id q" for r q
  proof -
    have w: "\<not> rows_clash r q" using that assms(2) by (simp add: wf_db_def)
    have "\<not> rows_clash (update_row r (snapshot a)) q" if "?hit r"
      using that s(3) \<open>r \<in> set (db_rows db)\<close> \<open>q \<in> set (db_rows db)\<close> \<open>row_id r \<noteq> row_id q\<close> by simp
    moreover have "\<not> rows_clash r (update_row q (snapshot a))" if "?hit q"
      using that s(3) \<open>r \<in> set (db_rows db)\<close> \<open>q \<in> set (db_rows db)\<close> \<open>row_id r \<noteq> row_id q\<close>
      by (simp add: rows_clash_sym [of r])
    ultimately show ?thesis using w that(3) by auto
  qed
  have u: "row_id (?u r) = row_id r" for r by simp
  have pre: "\<exists>r \<in> set (db_rows db). r' = ?u r" if "r' \<in> set (db_rows db')" for r'
    using that unfolding s(1) by (auto split: if_splits)
  have "\<not> rows_clash r' q'" if "r' \<in> set (db_rows db')" "q' \<in> set (db_rows db')" "row_id r' \<noteq> row_id q'" for r' q'
  proof -
    note t = that
    obtain r q where rq: "r \<in> set (db_rows db)" "q \<in> set (db_rows db)" "r' = ?u r" "q' = ?u q"
      using pre [OF t(1)] pre [OF t(2)] by blast
    then have "row_id r \<noteq> row_id q" using t(3) u [of r] u [of q] by simp
    then show ?thesis unfolding rq(3,4) by (rule clash [OF rq(1,2)])
  qed
  moreover have "row_ok r'" if "r' \<in> set (db_rows db')" for r'
    using pre [OF that] s(2) assms(2) unfolding wf_db_def by (auto split: if_splits)
  moreover have "db_items db' = db_items db" "db_keys db' = db_keys db" by (simp_all add: s(1))
  ultimately show ?thesis using assms(2) unfolding wf_db_def ids by simp
qed

lemma wf_db_outbox [simp]: "wf_db (db\<lparr>db_outbox := evs\<rparr>) = wf_db db"
  by (simp add: wf_db_def)

lemma change_tx_Inr:
  assumes "change_tx db lock f = Inr (a', db')"
  shows "\<exists>row a db1. lock = Some row \<and> withItems db row = Inr a \<and> f a = Inr a' \<and> save db row a' = Inr db1
    \<and> db' = db1\<lparr>db_outbox := db_outbox db1 @ ap_events a'\<rparr>"
  using assms by (auto simp: change_tx_def split: option.splits sum.splits dest: publish_Inr)

lemma change_tx_wf: "wf_db db \<Longrightarrow> wf_db (snd (commit db (change_tx db lock f)))"
  by (auto simp: commit_def split: sum.splits dest!: change_tx_Inr intro: save_wf)

lemma expire_one_Inr:
  assumes "expire_one now (evs, db) row = Inr (evs', db')"
  shows "\<exists>a a'. withItems db row = Inr a \<and> Expire a now = Inr a' \<and> save db row a' = Inr db' \<and> evs' = evs @ ap_events a'"
  using assms by (auto simp: expire_one_def split: sum.splits)

lemma ExpireDue_wf:
  assumes "wf_db db"
  shows "wf_db (snd (ExpireDue db locked now batch))"
proof -
  have "wf_db db'" if "fold_result (expire_one now) ([], db) rows = Inr (evs, db')" for rows evs db'
  proof -
    have "wf_db (snd t)" if "wf_db (snd s)" "expire_one now s x = Inr t" for s t x
      using that expire_one_Inr save_wf by (cases s; cases t) fastforce
    then show ?thesis
      using fold_result_invariant [where P = "\<lambda>acc. wf_db (snd acc)", OF _ that] assms by simp
  qed
  then show ?thesis
    using assms by (auto simp: ExpireDue_def commit_def Let_def split: sum.splits dest: publish_Inr)
qed

lemma db_step_wf: "db_step db db' \<Longrightarrow> wf_db db \<Longrightarrow> wf_db db'"
  by (induction rule: db_step.induct)
    (simp_all add: Store_Book_wf ExpireDue_wf change_tx_wf ChangeMine_def ChangeAtBusiness_def)

interpretation bookings_kept: invariant_system db_step wf_db
  by unfold_locales (rule db_step_wf)

lemma db_steps_wf: "db_steps db db' \<Longrightarrow> wf_db db \<Longrightarrow> wf_db db'"
  unfolding db_steps_def by (rule bookings_kept.steps_inv)

section \<open>What every later transaction keeps\<close>

definition same_row :: "appointment_row \<Rightarrow> appointment_row \<Rightarrow> bool" where
  "same_row r q \<longleftrightarrow> row_id r = row_id q \<and> row_business r = row_business q \<and> row_branch r = row_branch q
     \<and> row_staff r = row_staff q \<and> row_customer r = row_customer q \<and> row_customer_name r = row_customer_name q
     \<and> row_source r = row_source q \<and> row_assignment r = row_assignment q
     \<and> row_starts_at r = row_starts_at q \<and> row_ends_at r = row_ends_at q \<and> row_busy_until r = row_busy_until q
     \<and> row_price_amount r = row_price_amount q \<and> row_price_currency r = row_price_currency q
     \<and> row_note r = row_note q \<and> row_cancellable_until r = row_cancellable_until q
     \<and> row_created_at r = row_created_at q"

definition items_of :: "booking_db \<Rightarrow> uuid \<Rightarrow> item_row list" where
  "items_of db aid = filter (\<lambda>i. ir_appointment i = aid) (db_items db)"

definition keeps :: "booking_db \<Rightarrow> booking_db \<Rightarrow> bool" where
  "keeps db db' \<longleftrightarrow>
     (\<forall>k kr. db_keys db k = Some kr \<longrightarrow> db_keys db' k = Some kr)
     \<and> (\<forall>r \<in> set (db_rows db). \<exists>r' \<in> set (db_rows db'). same_row r r')
     \<and> (\<forall>r \<in> set (db_rows db). items_of db' (row_id r) = items_of db (row_id r))"

lemma same_row_refl [simp]: "same_row r r" by (simp add: same_row_def)

lemma same_row_trans: "same_row r q \<Longrightarrow> same_row q p \<Longrightarrow> same_row r p"
  by (simp add: same_row_def)

lemma keeps_refl: "keeps db db"
  by (auto simp: keeps_def intro: same_row_refl)

lemma keeps_trans: "keeps a b \<Longrightarrow> keeps b c \<Longrightarrow> keeps a c"
proof -
  assume ab: "keeps a b" and bc: "keeps b c"
  have "(\<exists>r'' \<in> set (db_rows c). same_row r r'') \<and> items_of c (row_id r) = items_of a (row_id r)"
    if r: "r \<in> set (db_rows a)" for r
  proof -
    obtain r' where r': "r' \<in> set (db_rows b)" "same_row r r'" using ab r by (auto simp: keeps_def)
    then obtain r'' where "r'' \<in> set (db_rows c)" "same_row r' r''" using bc by (auto simp: keeps_def)
    moreover have "row_id r' = row_id r" using r'(2) by (simp add: same_row_def)
    ultimately show ?thesis
      using r r' ab bc same_row_trans [OF r'(2)] by (auto simp: keeps_def)
  qed
  then show ?thesis using ab bc by (simp add: keeps_def)
qed

lemma same_row_update: "same_row r (update_row r s)"
  by (simp add: same_row_def update_row_def)

lemma keeps_outbox [simp]: "keeps db (db'\<lparr>db_outbox := evs\<rparr>) = keeps db db'"
  by (simp add: keeps_def items_of_def)

lemma save_keeps:
  assumes "save db row a = Inr db'"
  shows "keeps db db'"
proof -
  have "\<exists>r' \<in> set (db_rows db'). same_row r r'" if "r \<in> set (db_rows db)" for r
    unfolding save_Inr(1) [OF assms]
    by (rule bexI [of _ "if row_id r = row_id row \<and> row_version r = row_version row
          then update_row r (snapshot a) else r"]) (use that in \<open>auto simp: same_row_update\<close>)
  then show ?thesis by (simp add: keeps_def items_of_def save_Inr(1) [OF assms])
qed

lemma Store_Book_keeps: "keeps db (snd (Store_Book db attempt))"
proof (cases "book_tx db attempt")
  case (Inl e)
  then show ?thesis by (simp add: Store_Book_def keeps_refl)
next
  case (Inr r)
  obtain a p db' where r: "r = (a, p, db')" by (metis prod_cases3)
  show ?thesis
  proof (cases "db_keys db (id_value (at_requester attempt), at_key attempt) = None")
    case False
    then show ?thesis using book_tx_old [of db attempt a p db'] Inr r by (simp add: Store_Book_def keeps_refl)
  next
    case True
    note n = book_tx_new [OF Inr [unfolded r] True]
    have "filter (\<lambda>i. ir_appointment i = row_id r) (item_rows (snapshot a)) = []" if "r \<in> set (db_rows db)" for r
      using that n(6) item_rows_appointment by (fastforce simp: filter_empty_conv)
    then have "keeps db db'" unfolding n(4)
      using True by (auto simp: keeps_def items_of_def intro: same_row_refl)
    then show ?thesis using Inr r by (simp add: Store_Book_def)
  qed
qed

lemma change_tx_keeps: "keeps db (snd (commit db (change_tx db lock f)))"
  by (auto simp: commit_def keeps_refl split: sum.splits dest!: change_tx_Inr intro: save_keeps)

lemma ExpireDue_keeps: "keeps db (snd (ExpireDue db locked now batch))"
proof -
  have "keeps db db'" if f: "fold_result (expire_one now) ([], db) rows = Inr (evs, db')" for rows evs db'
  proof -
    have "keeps db (snd t)" if "keeps db (snd s)" "expire_one now s x = Inr t" for s t x
      using that expire_one_Inr save_keeps keeps_trans by (cases s; cases t) fastforce
    then show ?thesis
      using fold_result_invariant [where P = "\<lambda>acc. keeps db (snd acc)", OF _ f] by (simp add: keeps_refl)
  qed
  then show ?thesis
    by (auto simp: ExpireDue_def commit_def Let_def keeps_refl split: sum.splits dest: publish_Inr)
qed

lemma db_step_keeps: "db_step db db' \<Longrightarrow> keeps db db'"
  by (induction rule: db_step.induct)
    (simp_all add: Store_Book_keeps ExpireDue_keeps change_tx_keeps ChangeMine_def ChangeAtBusiness_def)

interpretation bookings_grow: monotone_system db_step "\<lambda>_. True" keeps
  by unfold_locales (auto intro: keeps_refl keeps_trans db_step_keeps)

lemma db_steps_keeps: "db_steps db db' \<Longrightarrow> keeps db db'"
  unfolding db_steps_def using bookings_grow.steps_rel by simp

section \<open>Reading back what was written\<close>

lemma customerOf_optional [simp]: "customerOf (optional c) = c"
  by (cases c) (simp add: customerOf_def optional_def ID_IsZero_def IDFromUUID_def)

text \<open>Names that \<open>NewLocalizedText\<close> leaves as they are: what every stored item has.\<close>

definition clean_item :: "Item \<Rightarrow> bool" where
  "clean_item it \<longleftrightarrow> NewLocalizedText (lt_ar (it_name it)) (lt_en (it_name it)) = Inr (it_name it)"

definition stored_item :: "Item \<Rightarrow> Item" where
  "stored_item it = it\<lparr>it_duration := go_div (it_duration it) minute * minute\<rparr>"

lemma hydrate_item_of:
  assumes "clean_item it" "item_ok (item_row_of aid pos it)"
  shows "hydrate_item (item_row_of aid pos it) = Inr (stored_item it)"
proof -
  have "m_currency (it_price it) = SAR" using assms(2) by (simp add: item_ok_def item_row_of_def)
  then show ?thesis using assms(1)
    by (simp add: hydrate_item_def item_row_of_def clean_item_def NewMoney_def minorPerMajor_def
        IDFromUUID_def stored_item_def)
qed

lemma fold_hydrate:
  assumes "\<forall>(i, it) \<in> set xs. clean_item it \<and> item_ok (item_row_of aid (f i) it)"
  shows "fold_result (\<lambda>acc it. case hydrate_item it of Inl e \<Rightarrow> Inl e | Inr i \<Rightarrow> Inr (acc @ [i])) acc
     (map (\<lambda>(i, it). item_row_of aid (f i) it) xs) = Inr (acc @ map (stored_item \<circ> snd) xs)"
  using assms by (induction xs arbitrary: acc) (auto simp: hydrate_item_of)

lemma item_rows_sorted: "sort_key ir_position (item_rows s) = item_rows s"
proof (rule sort_key_id_if_sorted)
  have "sorted_wrt (\<le>) (map (\<lambda>n. int n + 1) [0 ..< n])" for n
    by (simp add: sorted_wrt_map sorted_wrt_upt)
  moreover have "map ir_position (item_rows s) = map (\<lambda>n. int n + 1) (map fst (enumerate 0 (ap_items s)))"
    by (simp add: item_rows_def item_row_of_def case_prod_beta comp_def del: map_fst_enumerate)
  ultimately show "sorted (map ir_position (item_rows s))" by simp
qed

lemma hydrate_item_rows:
  assumes "\<forall>it \<in> set (ap_items s). clean_item it" "\<forall>i \<in> set (item_rows s). item_ok i"
    "row_price_currency row = SAR"
  shows "\<exists>a. hydrate row (item_rows s) = Inr a \<and> ap_items a = map stored_item (ap_items s)
    \<and> ap_id a = ID (row_id row) \<and> ap_business a = ID (row_business row) \<and> ap_branch a = ID (row_branch row)
    \<and> ap_barber a = ID (row_staff row) \<and> ap_customer a = customerOf (row_customer row)
    \<and> ap_start a = row_starts_at row \<and> ap_busyUntil a = row_busy_until row
    \<and> ap_price a = \<lparr>m_amount = row_price_amount row, m_currency = SAR\<rparr>"
proof -
  have "\<forall>(i, it) \<in> set (enumerate 0 (ap_items s)). clean_item it \<and> item_ok (item_row_of (id_value (ap_id s)) (int i + 1) it)"
    using assms(1,2) by (auto simp: item_rows_def in_set_enumerate_eq)
  from fold_hydrate [OF this, of "[]"]
  have "fold_result (\<lambda>acc it. case hydrate_item it of Inl e \<Rightarrow> Inl e | Inr i \<Rightarrow> Inr (acc @ [i])) [] (item_rows s)
      = Inr (map stored_item (ap_items s))"
    by (simp add: item_rows_def flip: map_map)
  then show ?thesis
    using assms(3) by (simp add: hydrate_def NewMoney_def minorPerMajor_def Rehydrate_def Snapshot.defs IDFromUUID_def)
qed

lemma find_row_id:
  assumes "r \<in> set rows" "row_id r = aid"
  shows "\<exists>q \<in> set rows. find_first (\<lambda>r. row_id r = aid) rows = Some q \<and> row_id q = aid"
  using assms find_first_is_Some [of r rows "\<lambda>r. row_id r = aid"] find_first_Some by fastforce

text \<open>A key that a committed transaction settled is answered from the table from then on.\<close>

lemma replay_settled:
  assumes wf: "wf_db db2" and k: "db_keys db2 (id_value u, key) = Some kr" "key_appointment kr = Some (id_value (ap_id s))"
    and row: "r \<in> set (db_rows db2)" "same_row (appointment_row_of s) r"
    and items: "items_of db2 (id_value (ap_id s)) = item_rows s"
    and ok: "\<forall>it \<in> set (ap_items s). clean_item it" "\<forall>i \<in> set (item_rows s). item_ok i"
  shows "\<exists>a. replay db2 u key (key_hash kr) = Inr (Some a) \<and> ap_id a = ap_id s \<and> ap_business a = ap_business s
    \<and> ap_branch a = ap_branch s \<and> ap_barber a = ap_barber s \<and> ap_customer a = ap_customer s
    \<and> ap_start a = db_time (ap_start s) \<and> ap_busyUntil a = db_time (ap_busyUntil s)
    \<and> ap_items a = map stored_item (ap_items s) \<and> ap_price a = ap_price s"
proof -
  have id: "row_id r = id_value (ap_id s)" using row(2) by (simp add: same_row_def)
  obtain q where q: "q \<in> set (db_rows db2)" "row_id q = id_value (ap_id s)"
    "find_first (\<lambda>r. row_id r = id_value (ap_id s)) (db_rows db2) = Some q"
    using find_row_id [OF row(1) id] by blast
  have "q = r" using wf q row id unfolding wf_db_def
    by (metis distinct_map inj_onD)
  have cur: "row_price_currency r = SAR" using wf row(1) by (simp add: wf_db_def row_ok_def)
  have pr: "ap_price s = \<lparr>m_amount = row_price_amount r, m_currency = SAR\<rparr>"
    using row(2) cur by (simp add: same_row_def appointment_row_of_def)
  have w: "withItems db2 r = hydrate r (item_rows s)"
    using items by (simp add: withItems_def items_of_def id item_rows_sorted)
  have e: "row_business r = id_value (ap_business s)" "row_branch r = id_value (ap_branch s)"
    "row_staff r = id_value (ap_barber s)" "row_customer r = optional (ap_customer s)"
    "row_starts_at r = db_time (ap_start s)" "row_busy_until r = db_time (ap_busyUntil s)"
    using row(2) by (simp_all add: same_row_def appointment_row_of_def)
  obtain a where a: "hydrate r (item_rows s) = Inr a" "ap_items a = map stored_item (ap_items s)"
    "ap_id a = ID (row_id r)" "ap_business a = ID (row_business r)" "ap_branch a = ID (row_branch r)"
    "ap_barber a = ID (row_staff r)" "ap_customer a = customerOf (row_customer r)"
    "ap_start a = row_starts_at r" "ap_busyUntil a = row_busy_until r"
    "ap_price a = \<lparr>m_amount = row_price_amount r, m_currency = SAR\<rparr>"
    using hydrate_item_rows [OF ok cur] by blast
  have "replay db2 u key (key_hash kr) = Inr (Some a)"
    using q(3) k \<open>q = r\<close> w a(1) by (simp add: replay_def)
  then show ?thesis using a(2-10) e id pr by simp
qed

lemma replay_other_hash:
  "db_keys db (id_value u, key) = Some kr \<Longrightarrow> hash \<noteq> key_hash kr \<Longrightarrow> replay db u key hash = Inl ErrIdempotencyReused"
  by (auto simp: replay_def split: option.splits)

section \<open>The lifecycle through the store\<close>

text \<open>
  In a well-formed database no constraint refuses a lifecycle change: a status change is accepted
  exactly when the aggregate accepts it.
\<close>

lemma withItems_fields:
  assumes "withItems db row = Inr a"
  shows "ap_status a = row_status row" "ap_pendingUntil a = row_pending_until row" "ap_version a = row_version row"
    "ap_cancellableUntil a = row_cancellable_until row" "ap_start a = row_starts_at row" "ap_events a = []"
    "ap_cancellation a = (case (row_cancelled_by row, row_cancelled_at row) of
        (Some b, Some t) \<Rightarrow> Some \<lparr>cn_by = b, cn_reason = row_cancel_reason row, cn_at = t\<rparr> | _ \<Rightarrow> None)"
    "ap_id a = ID (row_id row)" "ap_barber a = ID (row_staff row)" "ap_branch a = ID (row_branch row)"
  using assms
  by (auto simp: withItems_def hydrate_def Rehydrate_def Snapshot.defs IDFromUUID_def split: sum.splits)

lemma snapshot_more [simp]:
  "ap_pendingUntil (snapshot a) = ap_pendingUntil a" "ap_cancellation (snapshot a) = ap_cancellation a"
  "ap_updatedAt (snapshot a) = ap_updatedAt a"
  by (simp_all add: snapshot_def Snapshot.truncate_def)

lemma update_row_ok:
  assumes "row_ok row" "withItems db row = Inr a" "perform oper a now = Inr a'"
  shows "row_ok (update_row row (snapshot a'))"
proof -
  note f = withItems_fields [OF assms(2)] and s = perform_step [OF assms(3)]
  have act: "active (row_status row)" using lifecycle_step_active [OF s(1)] f(1) by simp
  then have "\<not> (row_cancelled_at row \<noteq> None \<and> row_cancelled_by row \<noteq> None)"
    using assms(1) by (auto simp: row_ok_def active_def)
  then have n: "ap_cancellation a = None" using f(7) by (auto split: option.splits)
  have c: "(ap_status a' = StatusCancelled) = (ap_cancellation a' \<noteq> None)" using s(7) n by blast
  have r: "rune_count (cn_reason cn) \<le> 300" if "ap_cancellation a' = Some cn" for cn
    using perform_cancellation [OF assms(3) n that] f(4,5) assms(1) by (simp add: row_ok_def)
  have "ap_status a' \<noteq> StatusPending" using s(1) lifecycle_no_return by blast
  moreover have "rune_count (case ap_cancellation a' of None \<Rightarrow> [] | Some c \<Rightarrow> cn_reason c) \<le> 300"
    using r by (auto simp: rune_count_def split: option.splits)
  moreover have "0 < ap_version a'" using s(3) f(3) assms(1) by (simp add: row_ok_def)
  ultimately show ?thesis
    using assms(1) c s(5) unfolding row_ok_def update_row_def by simp
qed

lemma distinct_singleton: "distinct xs \<Longrightarrow> set xs = {x} \<Longrightarrow> xs = [x]"
proof (cases xs)
  case (Cons y ys)
  assume "distinct xs" "set xs = {x}"
  then have "y = x" "ys = []" using Cons by (auto simp: subset_singleton_iff)
  then show ?thesis using Cons by simp
qed simp

lemma save_lifecycle:
  assumes "wf_db db" "row \<in> set (db_rows db)" "withItems db row = Inr a" "perform oper a now = Inr a'"
    "row_version row < 2147483647"
  shows "\<exists>db'. save db row a' = Inr db'"
proof -
  let ?hit = "\<lambda>r. row_id r = row_id row \<and> row_version r = row_version row"
  note f = withItems_fields [OF assms(3)] and s = perform_step [OF assms(4)]
  have uniq: "r = row" if "r \<in> set (db_rows db)" "row_id r = row_id row" for r
    using assms(1,2) that unfolding wf_db_def by (metis distinct_map inj_onD)
  have ok: "row_ok row" using assms(1,2) by (simp add: wf_db_def)
  have act: "active (row_status row)" using lifecycle_step_active [OF s(1)] f(1) by simp
  have noclash: "\<not> rows_clash (update_row row (snapshot a')) q"
    if "q \<in> set (db_rows db)" "row_id q \<noteq> row_id row" for q
  proof -
    have "\<not> rows_clash row q" using assms(1,2) that unfolding wf_db_def by metis
    then show ?thesis using act by (auto simp: rows_clash_def)
  qed
  have "filter ?hit (db_rows db) = [row]"
  proof -
    have "distinct (filter ?hit (db_rows db))"
      using assms(1) by (simp add: wf_db_def distinct_map)
    moreover have "set (filter ?hit (db_rows db)) = {row}" using uniq assms(2) by auto
    ultimately show ?thesis by (rule distinct_singleton)
  qed
  moreover have "is_ok (toInt32 (ap_version (snapshot a')))"
    using s(3) f(3) ok assms(5) by (simp add: toInt32_def row_ok_def)
  moreover have "row_ok (update_row r (snapshot a'))
      \<and> (\<forall>q \<in> set (db_rows db). row_id q \<noteq> row_id r \<longrightarrow> \<not> rows_clash (update_row r (snapshot a')) q)"
    if "r \<in> set (db_rows db)" "?hit r" for r
    using uniq [OF that(1)] that(2) update_row_ok [OF ok assms(3,4)] noclash by simp
  ultimately show ?thesis unfolding save_def Let_def list_ex_iff by auto
qed

lemma publish_lifecycle:
  assumes "perform oper a now = Inr a'" "ap_events a = []"
  shows "publish db (ap_events a') = Inr (db\<lparr>db_outbox := db_outbox db @ ap_events a'\<rparr>)"
  using perform_step(1,6) [OF assms(1)] lifecycle_no_return assms(2) by (auto simp: publish_def)

lemma change_tx_refines:
  assumes "wf_db db" "row \<in> set (db_rows db)" "withItems db row = Inr a" "lifecycle_change f"
    "row_version row < 2147483647"
  shows "fst (commit db (change_tx db (Some row) f)) = f a"
proof (cases "f a")
  case (Inl e)
  then show ?thesis by (simp add: change_tx_def assms(3) commit_def)
next
  case (Inr a')
  then obtain oper now where p: "perform oper a now = Inr a'" using assms(4) unfolding lifecycle_change_def by blast
  obtain db1 where "save db row a' = Inr db1" using save_lifecycle [OF assms(1,2,3) p assms(5)] by blast
  then show ?thesis
    using Inr publish_lifecycle [OF p withItems_fields(6) [OF assms(3)]]
    by (simp add: change_tx_def assms(3) commit_def)
qed

section \<open>Properties\<close>

text \<open>C1: However many booking, cancelling, confirming, completing and expiring transactions run,
  in any order, no barber ever holds two active appointments at the same instant (buffers
  included), and every idempotency key in the table points to an appointment of the table.\<close>

theorem no_double_booking:
  assumes "db_steps empty_db db"
  shows "(\<forall>r \<in> set (db_rows db). \<forall>q \<in> set (db_rows db).
      row_id r \<noteq> row_id q \<and> row_staff r = row_staff q \<and> active (row_status r) \<and> active (row_status q)
      \<longrightarrow> points (during r) \<inter> points (during q) = {})
    \<and> (\<forall>k kr. db_keys db k = Some kr \<longrightarrow> (\<exists>r \<in> set (db_rows db). key_appointment kr = Some (row_id r)))"
proof -
  have wf: "wf_db db" using db_steps_wf [OF assms wf_empty_db] .
  have "row_ok r \<Longrightarrow> proper (during r)" for r
    by (simp add: row_ok_def proper_def during_def)
  then have "proper (during r)" if "r \<in> set (db_rows db)" for r
    using wf that by (simp add: wf_db_def)
  note pr = this
  have "points (during r) \<inter> points (during q) = {}"
    if "r \<in> set (db_rows db)" "q \<in> set (db_rows db)" "row_id r \<noteq> row_id q" "row_staff r = row_staff q"
      "active (row_status r)" "active (row_status q)" for r q
  proof -
    have "\<not> rows_clash r q" using that(1-3) wf by (simp add: wf_db_def)
    then have "\<not> Overlaps (during r) (during q)" using that(4-6) by (simp add: rows_clash_def)
    then show ?thesis using Overlaps_iff_points [OF pr [OF that(1)] pr [OF that(2)]] by simp
  qed
  moreover have "\<exists>r \<in> set (db_rows db). key_appointment kr = Some (row_id r)" if k: "db_keys db k = Some kr" for k kr
  proof -
    obtain aid where "key_appointment kr = Some aid" "aid \<in> set (map row_id (db_rows db))"
      using wf k unfolding wf_db_def by blast
    then show ?thesis by auto
  qed
  ultimately show ?thesis by blast
qed

definition sample_attempt :: BookingAttempt where
  "sample_attempt = \<lparr>at_requester = ID 4, at_branch = ID 2, at_key = 77, at_hash = replicate 32 (CHR ''h''),
     at_now = 0, at_allow = Some (\<lambda>active. if 3 \<le> active then Some ErrTooManyBookings else None),
     at_drafts = [sample_appointment], at_stillWorking = (\<lambda>_. Inr True)\<rparr>"

lemma sample_Store_Book: "fst (Store_Book empty_db sample_attempt) = Inr (sample_appointment, False)"
  by code_simp

theorem no_double_booking_witness:
  "\<exists>db. db = snd (Store_Book empty_db sample_attempt)
     \<and> (\<forall>r \<in> set (db_rows db). \<forall>q \<in> set (db_rows db).
          row_id r \<noteq> row_id q \<and> row_staff r = row_staff q \<and> active (row_status r) \<and> active (row_status q)
          \<longrightarrow> points (during r) \<inter> points (during q) = {})"
  using no_double_booking [of "snd (Store_Book empty_db sample_attempt)"] db_step.book
  by (simp add: db_steps_def r_into_rtranclp)

text \<open>C5: After a booking committed, any later request of the same requester with the same
  Idempotency-Key changes nothing, whatever happened in between: asking for the same thing it is
  answered with the same appointment (same barber, branch, customer, start, price and items),
  asking for something else it is refused.\<close>

theorem retry_never_books_twice:
  assumes "wf_db db" "Store_Book db attempt = (Inr (a, False), db1)" "db_steps db1 db2"
    "\<forall>it \<in> set (ap_items a). clean_item it"
    "at_requester again = at_requester attempt" "at_key again = at_key attempt"
  shows "snd (Store_Book db2 again) = db2
    \<and> (if at_hash again = at_hash attempt
       then \<exists>a'. fst (Store_Book db2 again) = Inr (a', True)
          \<and> ap_id a' = ap_id a \<and> ap_business a' = ap_business a \<and> ap_branch a' = ap_branch a
          \<and> ap_barber a' = ap_barber a \<and> ap_customer a' = ap_customer a
          \<and> ap_start a' = db_time (ap_start a) \<and> ap_busyUntil a' = db_time (ap_busyUntil a)
          \<and> ap_items a' = map stored_item (ap_items a) \<and> ap_price a' = ap_price a
       else fst (Store_Book db2 again) = Inl ErrIdempotencyReused)"
proof -
  let ?k = "(id_value (at_requester attempt), at_key attempt)" and ?s = "snapshot a"
  have tx: "book_tx db attempt = Inr (a, False, db1)"
    using assms(2) by (auto simp: Store_Book_def split: sum.splits)
  have fresh: "db_keys db ?k = None" using book_tx_old(1) [OF tx] by blast
  note n = book_tx_new [OF tx fresh]
  define kr where "kr = \<lparr>key_hash = at_hash attempt, key_appointment = Some (id_value (ap_id a)),
     key_created_at = db_time (at_now attempt)\<rparr>"
  have kp: "keeps db1 db2" by (rule db_steps_keeps [OF assms(3)])
  have wf1: "wf_db db1" using Store_Book_wf [OF assms(1), of attempt] assms(2) by simp
  have wf2: "wf_db db2" by (rule db_steps_wf [OF assms(3) wf1])
  have k: "db_keys db2 ?k = Some kr" using kp n(4) by (auto simp: keeps_def kr_def)
  have row1: "appointment_row_of ?s \<in> set (db_rows db1)" using n(4) by simp
  obtain r where r: "r \<in> set (db_rows db2)" "same_row (appointment_row_of ?s) r"
    using kp row1 unfolding keeps_def by blast
  have "items_of db (id_value (ap_id a)) = []"
  proof -
    have "ir_appointment i \<noteq> id_value (ap_id a)" if "i \<in> set (db_items db)" for i
      using assms(1) n(6) that unfolding wf_db_def row_of_id snapshot_simps by metis
    then show ?thesis by (simp add: items_of_def filter_empty_conv)
  qed
  then have "items_of db1 (id_value (ap_id a)) = item_rows ?s"
    using item_rows_appointment [of _ ?s] n(4) by (simp add: items_of_def)
  then have its: "items_of db2 (id_value (ap_id ?s)) = item_rows ?s"
    using kp row1 unfolding keeps_def by fastforce
  have clean: "\<forall>it \<in> set (ap_items ?s). clean_item it"
    using assms(4) by (simp add: snapshot_def Snapshot.truncate_def)
  have f: "ap_business ?s = ap_business a" "ap_branch ?s = ap_branch a" "ap_barber ?s = ap_barber a"
    "ap_customer ?s = ap_customer a" "ap_start ?s = ap_start a" "ap_busyUntil ?s = ap_busyUntil a"
    "ap_items ?s = ap_items a" "ap_price ?s = ap_price a"
    by (simp_all add: snapshot_def Snapshot.truncate_def)
  show ?thesis
  proof (cases "at_hash again = at_hash attempt")
    case True
    obtain a' where "replay db2 (at_requester attempt) (at_key attempt) (key_hash kr) = Inr (Some a')"
      "ap_id a' = ap_id ?s" "ap_business a' = ap_business ?s" "ap_branch a' = ap_branch ?s"
      "ap_barber a' = ap_barber ?s" "ap_customer a' = ap_customer ?s" "ap_start a' = db_time (ap_start ?s)"
      "ap_busyUntil a' = db_time (ap_busyUntil ?s)" "ap_items a' = map stored_item (ap_items ?s)"
      "ap_price a' = ap_price ?s"
      using replay_settled [OF wf2 k _ r its clean n(8)] by (auto simp: kr_def)
    then show ?thesis
      using True k assms(5,6) by (simp add: Store_Book_def book_tx_def Let_def kr_def f)
  next
    case False
    then show ?thesis
      using replay_other_hash [OF k, of "at_hash again"] k assms(5,6)
      by (simp add: Store_Book_def book_tx_def Let_def kr_def)
  qed
qed

theorem retry_never_books_twice_witness:
  "fst (Store_Book (snd (Store_Book empty_db sample_attempt)) (sample_attempt\<lparr>at_hash := replicate 32 (CHR ''x'')\<rparr>))
     = Inl ErrIdempotencyReused"
proof -
  let ?db = "snd (Store_Book empty_db sample_attempt)"
  have "Store_Book empty_db sample_attempt = (Inr (sample_appointment, False), ?db)"
    using sample_Store_Book by (metis prod.collapse)
  moreover have "\<forall>it \<in> set (ap_items sample_appointment). clean_item it" by code_simp
  moreover have "db_steps ?db ?db" by (simp add: db_steps_def)
  ultimately show ?thesis
    using retry_never_books_twice [OF wf_empty_db, of sample_attempt sample_appointment ?db ?db
        "sample_attempt\<lparr>at_hash := replicate 32 (CHR ''x'')\<rparr>"]
    by (simp add: sample_attempt_def)
qed

text \<open>C15: In a reachable database the storage adds no refusals of its own to the lifecycle: a
  change of a stored appointment succeeds, or fails with the same error, exactly as the aggregate
  decides, and the exclusion constraint never gets in its way.\<close>

theorem store_refines_lifecycle:
  assumes "db_steps empty_db db" "ByBusiness_row db business i = Some row" "withItems db row = Inr a"
    "lifecycle_change f" "row_version row < 2147483647"
  shows "fst (ChangeAtBusiness db business i f) = f a"
proof -
  have "row \<in> set (db_rows db)" using assms(2) by (auto simp: ByBusiness_row_def dest: find_first_Some)
  then show ?thesis
    using change_tx_refines [OF db_steps_wf [OF assms(1) wf_empty_db] _ assms(3-5)] assms(2)
    by (simp add: ChangeAtBusiness_def)
qed

theorem store_refines_lifecycle_witness:
  "\<exists>row a. ByBusiness_row (snd (Store_Book empty_db sample_attempt)) (ID 1) (ID 10) = Some row
     \<and> withItems (snd (Store_Book empty_db sample_attempt)) row = Inr a
     \<and> fst (ChangeAtBusiness (snd (Store_Book empty_db sample_attempt)) (ID 1) (ID 10) (\<lambda>a. perform OpReject a 0))
       = perform OpReject a 0"
proof -
  let ?db = "snd (Store_Book empty_db sample_attempt)"
  have "ByBusiness_row ?db (ID 1) (ID 10) = Some (appointment_row_of sample_snapshot)" by code_simp
  moreover have "withItems ?db (appointment_row_of sample_snapshot) = Inr (Rehydrate sample_snapshot)" by code_simp
  moreover have "row_version (appointment_row_of sample_snapshot) < 2147483647" by code_simp
  moreover have "lifecycle_change (\<lambda>a. perform OpReject a 0)" unfolding lifecycle_change_def by blast
  moreover have "db_steps empty_db ?db" by (simp add: db_steps_def r_into_rtranclp db_step.book)
  ultimately show ?thesis using store_refines_lifecycle by blast
qed



end
