(* ===== verification/Expiry.thy ===== *)
theory Expiry
  imports BookingStore
begin



section \<open>Expiring a batch\<close>

definition expired_row :: "gotime \<Rightarrow> appointment_row \<Rightarrow> appointment_row" where
  "expired_row now r = r\<lparr>row_status := StatusExpired, row_pending_until := None, row_cancelled_by := None,
     row_cancel_reason := [], row_cancelled_at := None, row_version := row_version r + 1,
     row_updated_at := db_time (db_time now)\<rparr>"





lemma expired_row_simps [simp]:
  "row_id (expired_row now r) = row_id r" "row_status (expired_row now r) = StatusExpired"
  by (simp_all add: expired_row_def)





section \<open>The expiry job\<close>








end
