(* ===== verification/BookingApp.thy ===== *)
theory BookingApp
  imports Expiry "HOL-Library.Product_Lexorder"
begin

text \<open>
  \<open>internal/booking/app/availability.go\<close> and \<open>book.go\<close>: which barbers offer the chosen
  services, which start times a day has, and the two ways to book. What business, catalog and
  scheduling answer is the record \<open>ports\<close>, one function per method of the interfaces
  \<open>Branches\<close>, \<open>Menus\<close>, \<open>Schedules\<close> and \<open>Staff\<close>. A booking reads first and commits later:
  the handlers take the ports and the database as they are when the request is prepared, and again
  as they are when its transaction runs. The text form of ids, RFC 3339 times, quoting and
  SHA-256 are the record \<open>texts\<close>; both goroutines of \<open>candidates\<close> run, and when both fail the
  error of the windows is reported.
\<close>

section \<open>Ports\<close>

record Policy =
  pol_minLead :: duration
  pol_horizonDays :: int
  pol_slotInterval :: duration
  pol_buffer :: duration
  pol_autoConfirm :: bool
  pol_pendingExpiry :: duration
  pol_maxActiveBookings :: int
  pol_cancellationWindow :: duration

record BookableBranch =
  bb_business :: BusinessID
  bb_id :: BranchID
  bb_location :: location
  bb_policy :: Policy

record Barber =
  bar_id :: StaffID
  bar_name :: string

record Performer =
  pf_staff :: StaffID
  pf_duration :: duration
  pf_price :: Money

record MenuItem =
  mi_id :: ServiceID
  mi_name :: LocalizedText
  mi_performers :: "Performer list"

datatype Role = RoleOwner | RoleManager | RoleBarber

record Member =
  mb_staff :: StaffID
  mb_role :: Role
  mb_branches :: "BranchID list"

record ports =
  p_bookable :: "BranchID \<Rightarrow> (booking_error, BookableBranch) result"
  p_barbers :: "BusinessID \<Rightarrow> BranchID \<Rightarrow> StaffID list \<Rightarrow> (booking_error, Barber list) result"
  p_menu :: "BusinessID \<Rightarrow> BranchID \<Rightarrow> (booking_error, MenuItem list) result"
  p_windows :: "BusinessID \<Rightarrow> BranchID \<Rightarrow> StaffID list \<Rightarrow> gotime \<Rightarrow> gotime
     \<Rightarrow> (booking_error, StaffID \<Rightarrow> Interval list) result"
  p_memberOf :: "UserID \<Rightarrow> BusinessID \<Rightarrow> (booking_error, Member) result"
  p_branchLocation :: "BusinessID \<Rightarrow> BranchID \<Rightarrow> (booking_error, location) result"

record texts =
  tx_id :: "uuid \<Rightarrow> string"
  tx_time :: "gotime \<Rightarrow> string"
  tx_quote :: "string \<Rightarrow> string"
  tx_sha256 :: "string \<Rightarrow> string"

section \<open>Availability\<close>

record Offer =
  of_barber :: Barber
  of_duration :: duration
  of_price :: Money

abbreviation of_id :: "Offer \<Rightarrow> StaffID" where "of_id o' \<equiv> bar_id (of_barber o')"

record AvailabilityQuery =
  q_branch :: BranchID
  q_day :: Day
  q_services :: "ServiceID list"
  q_barber :: "StaffID option"


fun dup_loop :: "ServiceID set \<Rightarrow> ServiceID list \<Rightarrow> bool" where
  "dup_loop seen [] = False"
| "dup_loop seen (i # is) = (i \<in> seen \<or> dup_loop (Set.insert i seen) is)"

definition hasDuplicates :: "ServiceID list \<Rightarrow> bool" where
  "hasDuplicates ids = dup_loop {} ids"

text \<open>The inner loop of \<open>offersFor\<close> for every service after the first.\<close>

fun keep_offers ::
  "(StaffID \<Rightarrow> Performer option) \<Rightarrow> Offer list \<Rightarrow> (booking_error, Offer list) result" where
  "keep_offers byStaff [] = Inr []"
| "keep_offers byStaff (o' # os) =
     (case byStaff (of_id o') of None \<Rightarrow> keep_offers byStaff os
      | Some p \<Rightarrow>
          (case Money_Add (of_price o') (pf_price p) of Inl e \<Rightarrow> Inl (ErrMoney e)
           | Inr price \<Rightarrow>
               (case keep_offers byStaff os of Inl e \<Rightarrow> Inl e
                | Inr kept \<Rightarrow>
                    Inr (o'\<lparr>of_duration := wrap64 (of_duration o' + pf_duration p), of_price := price\<rparr> # kept))))"

fun offers_loop ::
  "MenuItem list \<Rightarrow> bool \<Rightarrow> Offer list \<Rightarrow> ServiceID list \<Rightarrow> (booking_error, Offer list) result" where
  "offers_loop menu is_first offers [] = Inr offers"
| "offers_loop menu is_first offers (s # ss) =
     (case find_first (\<lambda>m. mi_id m = s) menu of None \<Rightarrow> Inl ErrServiceUnavailable
      | Some m \<Rightarrow>
          if is_first then
            offers_loop menu False
              (map (\<lambda>p. \<lparr>of_barber = \<lparr>bar_id = pf_staff p, bar_name = []\<rparr>, of_duration = pf_duration p,
                         of_price = pf_price p\<rparr>) (mi_performers m)) ss
          else
            (case keep_offers (map_of_last (map (\<lambda>p. (pf_staff p, p)) (mi_performers m))) offers of
               Inl e \<Rightarrow> Inl e | Inr kept \<Rightarrow> offers_loop menu False kept ss))"

definition offersFor ::
  "texts \<Rightarrow> ServiceID list \<Rightarrow> MenuItem list \<Rightarrow> (booking_error, Offer list) result" where
  "offersFor tx services menu =
     (case offers_loop menu True [] services of Inl e \<Rightarrow> Inl e
      | Inr offers \<Rightarrow> Inr (sort_key (\<lambda>o'. tx_id tx (id_value (of_id o'))) offers))"

definition stillThere ::
  "ports \<Rightarrow> BookableBranch \<Rightarrow> Offer list \<Rightarrow> (booking_error, Offer list) result" where
  "stillThere p branch offers =
     (if offers = [] then Inr []
      else case p_barbers p (bb_business branch) (bb_id branch) (map of_id offers) of Inl e \<Rightarrow> Inl e
        | Inr barbers \<Rightarrow>
            let names = map_of_last (map (\<lambda>b. (bar_id b, bar_name b)) barbers) in
            Inr (List.map_filter (\<lambda>o'. case names (of_id o') of None \<Rightarrow> None
                   | Some n \<Rightarrow> Some (o'\<lparr>of_barber := (of_barber o')\<lparr>bar_name := n\<rparr>\<rparr>)) offers))"

definition candidates ::
  "ports \<Rightarrow> booking_db \<Rightarrow> BookableBranch \<Rightarrow> Day \<Rightarrow> Offer list \<Rightarrow> (booking_error, Candidate list) result" where
  "candidates p db branch day offers =
     (let ids = map of_id offers;
          len = (\<lambda>o'. wrap64 (of_duration o' + pol_buffer (bb_policy branch)));
          longest = foldl (\<lambda>m o'. max m (len o')) 0 offers;
          frm = Day_Start day (bb_location branch);
          till = time_add (Day_Start (Day_AddDays day 1) (bb_location branch)) longest
      in case p_windows p (bb_business branch) (bb_id branch) ids frm till of Inl e \<Rightarrow> Inl e
         | Inr windows \<Rightarrow>
             (case Store_Busy db ids frm till of Inl e \<Rightarrow> Inl e
              | Inr busy \<Rightarrow>
                  Inr (map (\<lambda>o'. \<lparr>c_staff = of_id o', c_length = len o', c_windows = windows (of_id o'),
                                  c_busy = busy (of_id o')\<rparr>) offers)))"

text \<open>Keep one barber's offer: the code of \<open>Query\<close> and \<open>Book\<close> when a barber is named.\<close>

definition only_barber :: "StaffID option \<Rightarrow> Offer list \<Rightarrow> (booking_error, Offer list) result" where
  "only_barber barber offers =
     (case barber of None \<Rightarrow> Inr offers
      | Some b \<Rightarrow>
          (case find_first (\<lambda>o'. of_id o' = b) offers of None \<Rightarrow> Inl ErrBarberUnavailable
           | Some o' \<Rightarrow> Inr [o']))"

definition bad_services :: "ServiceID list \<Rightarrow> bool" where
  "bad_services ss \<longleftrightarrow> ss = [] \<or> MaxServices < length ss \<or> hasDuplicates ss"

definition last_day :: "gotime \<Rightarrow> BookableBranch \<Rightarrow> Day" where
  "last_day now branch =
     Day_AddDays (DayOf (bb_location branch) now) (pol_horizonDays (bb_policy branch))"



section \<open>Booking\<close>

record BookAppointment =
  ba_customer :: UserID
  ba_key :: uuid
  ba_branch :: BranchID
  ba_start :: gotime
  ba_services :: "ServiceID list"
  ba_barber :: "StaffID option"
  ba_note :: string

definition join_commas :: "string list \<Rightarrow> string" where
  "join_commas xs = concat (case xs of [] \<Rightarrow> [] | y # ys \<Rightarrow> y # map (\<lambda>z. CHR '','' # z) ys)"

definition request_text :: "texts \<Rightarrow> BookAppointment \<Rightarrow> string" where
  "request_text tx cmd =
     tx_id tx (id_value (ba_branch cmd)) @ ''|'' @ tx_time tx (ba_start cmd) @ ''|''
     @ join_commas (map (\<lambda>s. tx_id tx (id_value s)) (ba_services cmd)) @ ''|''
     @ (case ba_barber cmd of None \<Rightarrow> ''any'' | Some b \<Rightarrow> tx_id tx (id_value b)) @ ''|''
     @ tx_quote tx (trim_space (ba_note cmd))"

definition requestHash :: "texts \<Rightarrow> BookAppointment \<Rightarrow> string" where
  "requestHash tx cmd = tx_sha256 tx (request_text tx cmd)"

definition checkStart :: "gotime \<Rightarrow> gotime \<Rightarrow> BookableBranch \<Rightarrow> booking_error option" where
  "checkStart start now b =
     (if \<not> OnGrid start (bb_location b) (pol_slotInterval (bb_policy b))
         \<or> start < time_add now (pol_minLead (bb_policy b))
         \<or> \<not> start < Day_Start (Day_AddDays (last_day now b) 1) (bb_location b)
      then Some ErrInvalidStart else None)"

definition app_later :: "gotime \<Rightarrow> gotime \<Rightarrow> gotime" where
  "app_later a b = (if b < a then a else b)"

definition app_earlier :: "gotime \<Rightarrow> gotime \<Rightarrow> gotime" where
  "app_earlier a b = (if a < b then a else b)"

definition booked_load :: "gotime \<Rightarrow> gotime \<Rightarrow> Interval list \<Rightarrow> duration" where
  "booked_load frm till busy =
     foldl (\<lambda>l b. let s = app_later (ivl_start b) frm; e = app_earlier (ivl_end b) till in
              if s < e then wrap64 (l + time_sub e s) else l) 0 busy"

definition freeAt ::
  "texts \<Rightarrow> gotime \<Rightarrow> Candidate list \<Rightarrow> Day \<Rightarrow> location \<Rightarrow> StaffID list" where
  "freeAt tx start cands day loc =
     (let frm = Day_Start day loc; till = Day_Start (Day_AddDays day 1) loc;
          free = map (\<lambda>c. (c_staff c, booked_load frm till (c_busy c))) (filter (\<lambda>c. CanTake c start) cands)
      in map fst (sort_key (\<lambda>(s, l). (l, tx_id tx (id_value s))) free))"

fun itemsFor ::
  "ServiceID list \<Rightarrow> MenuItem list \<Rightarrow> StaffID \<Rightarrow> Item list option" where
  "itemsFor [] menu staff = Some []"
| "itemsFor (s # ss) menu staff =
     do { m \<leftarrow> find_first (\<lambda>m. mi_id m = s) menu;
          p \<leftarrow> find_first (\<lambda>p. pf_staff p = staff) (mi_performers m);
          rest \<leftarrow> itemsFor ss menu staff;
          Some (\<lparr>it_service = s, it_name = mi_name m, it_duration = pf_duration p, it_price = pf_price p\<rparr> # rest) }"

definition stillWorking ::
  "ports \<Rightarrow> BookableBranch \<Rightarrow> Appointment \<Rightarrow> (booking_error, bool) result" where
  "stillWorking p branch a =
     (let busy = Busy a in
      case p_windows p (bb_business branch) (bb_id branch) [ap_barber a] (ivl_start busy) (ivl_end busy) of
        Inl e \<Rightarrow> Inl e
      | Inr windows \<Rightarrow> Inr (list_ex (\<lambda>w. Covers w busy) (windows (ap_barber a))))"

text \<open>The loop that drafts the booking for each free barber; \<open>fresh\<close> are the ids \<open>NewID\<close> returns.\<close>

fun draft_each ::
  "(nat \<Rightarrow> StaffID \<Rightarrow> (booking_error, Appointment) result) \<Rightarrow> nat \<Rightarrow> StaffID list
   \<Rightarrow> (booking_error, Appointment list) result" where
  "draft_each mk n [] = Inr []"
| "draft_each mk n (s # ss) =
     (case mk n s of Inl e \<Rightarrow> Inl e
      | Inr d \<Rightarrow> (case draft_each mk (n + 1) ss of Inl e \<Rightarrow> Inl e | Inr ds \<Rightarrow> Inr (d # ds)))"

definition customer_draft ::
  "(nat \<Rightarrow> AppointmentID) \<Rightarrow> BookableBranch \<Rightarrow> MenuItem list \<Rightarrow> BookAppointment \<Rightarrow> Assignment \<Rightarrow> gotime
   \<Rightarrow> nat \<Rightarrow> StaffID \<Rightarrow> (booking_error, Appointment) result" where
  "customer_draft fresh branch menu cmd assignment now n staff =
     (case itemsFor (ba_services cmd) menu staff of None \<Rightarrow> Inl Panic
      | Some items \<Rightarrow>
          Book \<lparr>b_id = fresh n, b_business = bb_business branch, b_branch = bb_id branch, b_barber = staff,
                b_customer = ba_customer cmd, b_customerName = [], b_source = None, b_start = ba_start cmd,
                b_items = items, b_buffer = pol_buffer (bb_policy branch), b_assignment = assignment,
                b_note = trim_space (ba_note cmd), b_autoConfirm = pol_autoConfirm (bb_policy branch),
                b_pendingExpiry = pol_pendingExpiry (bb_policy branch),
                b_cancellationWindow = pol_cancellationWindow (bb_policy branch)\<rparr> now)"

definition customer_limit :: "int \<Rightarrow> int \<Rightarrow> booking_error option" where
  "customer_limit limit n = (if limit \<le> n then Some ErrTooManyBookings else None)"

text \<open>
  \<open>Book\<close> up to its transaction: either an answer already (a replay), or what to try, with the
  \<open>stillWorking\<close> check against the ports at commit time.
\<close>

definition prepare_Book ::
  "texts \<Rightarrow> ports \<Rightarrow> ports \<Rightarrow> (nat \<Rightarrow> AppointmentID) \<Rightarrow> booking_db \<Rightarrow> gotime \<Rightarrow> BookAppointment
   \<Rightarrow> (booking_error, Appointment + BookingAttempt) result" where
  "prepare_Book tx p p' fresh db now cmd =
     (if bad_services (ba_services cmd) then Inl ErrNoServices
      else
        let hash = requestHash tx cmd in
        case BookingStore.replay db (ba_customer cmd) (ba_key cmd) hash of Inl e \<Rightarrow> Inl e
        | Inr (Some a) \<Rightarrow> Inr (Inl a)
        | Inr None \<Rightarrow>
        (case p_bookable p (ba_branch cmd) of Inl e \<Rightarrow> Inl e
        | Inr branch \<Rightarrow>
        (case checkStart (ba_start cmd) now branch of Some e \<Rightarrow> Inl e
        | None \<Rightarrow>
        (case p_menu p (bb_business branch) (bb_id branch) of Inl e \<Rightarrow> Inl e
        | Inr menu \<Rightarrow>
        (case offersFor tx (ba_services cmd) menu of Inl e \<Rightarrow> Inl e
        | Inr offers \<Rightarrow>
        (case stillThere p branch offers of Inl e \<Rightarrow> Inl e
        | Inr offers \<Rightarrow>
        (case only_barber (ba_barber cmd) offers of Inl e \<Rightarrow> Inl e
        | Inr offers \<Rightarrow>
            let assignment = (if ba_barber cmd = None then AnyBarber else RequestedBarber);
                day = DayOf (bb_location branch) (ba_start cmd)
            in case candidates p db branch day offers of Inl e \<Rightarrow> Inl e
            | Inr cands \<Rightarrow>
                (case draft_each (customer_draft fresh branch menu cmd assignment now) 0
                        (freeAt tx (ba_start cmd) cands day (bb_location branch)) of Inl e \<Rightarrow> Inl e
                 | Inr drafts \<Rightarrow>
                     Inr (Inr \<lparr>at_requester = ba_customer cmd, at_branch = bb_id branch, at_key = ba_key cmd,
                               at_hash = hash, at_now = now,
                               at_allow = Some (customer_limit (pol_maxActiveBookings (bb_policy branch))),
                               at_drafts = drafts, at_stillWorking = stillWorking p' branch\<rparr>)))))))))"

text \<open>The transaction runs later, on the database \<open>db'\<close> it finds.\<close>

definition run_attempt ::
  "booking_db \<Rightarrow> (booking_error, Appointment + BookingAttempt) result
   \<Rightarrow> (booking_error, Appointment \<times> bool) result \<times> booking_db" where
  "run_attempt db' r =
     (case r of Inl e \<Rightarrow> (Inl e, db') | Inr (Inl a) \<Rightarrow> (Inr (a, True), db')
      | Inr (Inr attempt) \<Rightarrow> Store_Book db' attempt)"

definition BookHandlers_Book ::
  "texts \<Rightarrow> ports \<Rightarrow> ports \<Rightarrow> (nat \<Rightarrow> AppointmentID) \<Rightarrow> booking_db \<Rightarrow> booking_db \<Rightarrow> gotime \<Rightarrow> BookAppointment
   \<Rightarrow> (booking_error, Appointment \<times> bool) result \<times> booking_db" where
  "BookHandlers_Book tx p p' fresh db db' now cmd = run_attempt db' (prepare_Book tx p p' fresh db now cmd)"

section \<open>Booking by the shop\<close>

record StaffBooking =
  sb_actor :: UserID
  sb_business :: BusinessID
  sb_branch :: BranchID
  sb_key :: uuid
  sb_start :: gotime
  sb_services :: "ServiceID list"
  sb_barber :: StaffID
  sb_customerName :: string
  sb_note :: string

definition WalkInGrace :: duration where "WalkInGrace = 15 * minute"

definition worksAt :: "Member \<Rightarrow> BranchID \<Rightarrow> bool" where
  "worksAt m branch \<longleftrightarrow> mb_role m = RoleOwner \<or> branch \<in> set (mb_branches m)"

definition checkStaffStart :: "gotime \<Rightarrow> gotime \<Rightarrow> BookableBranch \<Rightarrow> booking_error option" where
  "checkStaffStart start now b =
     (if start \<noteq> time_truncate start minute \<or> start < time_add now (- WalkInGrace)
         \<or> \<not> start < Day_Start (Day_AddDays (last_day now b) 1) (bb_location b)
      then Some ErrInvalidStart else None)"

definition staff_request_text :: "texts \<Rightarrow> StaffBooking \<Rightarrow> string" where
  "staff_request_text tx cmd =
     ''staff|'' @ tx_id tx (id_value (sb_branch cmd)) @ ''|'' @ tx_time tx (sb_start cmd) @ ''|''
     @ join_commas (map (\<lambda>s. tx_id tx (id_value s)) (sb_services cmd)) @ ''|''
     @ tx_id tx (id_value (sb_barber cmd)) @ ''|'' @ tx_quote tx (trim_space (sb_customerName cmd)) @ ''|''
     @ tx_quote tx (trim_space (sb_note cmd))"

definition staffRequestHash :: "texts \<Rightarrow> StaffBooking \<Rightarrow> string" where
  "staffRequestHash tx cmd = tx_sha256 tx (staff_request_text tx cmd)"

definition staff_draft ::
  "AppointmentID \<Rightarrow> BookableBranch \<Rightarrow> MenuItem list \<Rightarrow> StaffBooking \<Rightarrow> gotime \<Rightarrow> (booking_error, Appointment) result" where
  "staff_draft i branch menu cmd now =
     (case itemsFor (sb_services cmd) menu (sb_barber cmd) of None \<Rightarrow> Inl Panic
      | Some items \<Rightarrow>
          Book \<lparr>b_id = i, b_business = bb_business branch, b_branch = bb_id branch, b_barber = sb_barber cmd,
                b_customer = zero_user, b_customerName = sb_customerName cmd, b_source = Some SourceStaff,
                b_start = sb_start cmd, b_items = items, b_buffer = pol_buffer (bb_policy branch),
                b_assignment = RequestedBarber, b_note = trim_space (sb_note cmd), b_autoConfirm = True,
                b_pendingExpiry = 0, b_cancellationWindow = 0\<rparr> now)"

definition prepare_StaffBook ::
  "texts \<Rightarrow> ports \<Rightarrow> ports \<Rightarrow> AppointmentID \<Rightarrow> booking_db \<Rightarrow> gotime \<Rightarrow> StaffBooking
   \<Rightarrow> (booking_error, Appointment + BookingAttempt) result" where
  "prepare_StaffBook tx p p' i db now cmd =
     (if bad_services (sb_services cmd) then Inl ErrNoServices
      else case p_memberOf p (sb_actor cmd) (sb_business cmd) of Inl e \<Rightarrow> Inl e
      | Inr member \<Rightarrow>
      (case p_branchLocation p (sb_business cmd) (sb_branch cmd) of Inl e \<Rightarrow> Inl e
      | Inr _ \<Rightarrow>
        if \<not> worksAt member (sb_branch cmd) \<or> (mb_role member = RoleBarber \<and> sb_barber cmd \<noteq> mb_staff member)
        then Inl ErrForbidden
        else
          let hash = staffRequestHash tx cmd in
          case BookingStore.replay db (sb_actor cmd) (sb_key cmd) hash of Inl e \<Rightarrow> Inl e
          | Inr (Some a) \<Rightarrow> Inr (Inl a)
          | Inr None \<Rightarrow>
          (case p_bookable p (sb_branch cmd) of
             Inl e \<Rightarrow> Inl (if e = ErrNotFound then ErrBranchNotBookable else e)
           | Inr branch \<Rightarrow>
               if bb_business branch \<noteq> sb_business cmd then Inl ErrBranchNotBookable
               else case checkStaffStart (sb_start cmd) now branch of Some e \<Rightarrow> Inl e
               | None \<Rightarrow>
               (case p_menu p (bb_business branch) (bb_id branch) of Inl e \<Rightarrow> Inl e
               | Inr menu \<Rightarrow>
               (case offersFor tx (sb_services cmd) menu of Inl e \<Rightarrow> Inl e
               | Inr offers \<Rightarrow>
               (case stillThere p branch offers of Inl e \<Rightarrow> Inl e
               | Inr offers \<Rightarrow>
               (case only_barber (Some (sb_barber cmd)) offers of Inl e \<Rightarrow> Inl e
               | Inr offers \<Rightarrow>
                   let day = DayOf (bb_location branch) (sb_start cmd) in
                   case candidates p db branch day offers of Inl e \<Rightarrow> Inl e
                   | Inr cands \<Rightarrow>
                       (case (if length (freeAt tx (sb_start cmd) cands day (bb_location branch)) = 1
                              then (case staff_draft i branch menu cmd now of Inl e \<Rightarrow> Inl e | Inr d \<Rightarrow> Inr [d])
                              else Inr []) of Inl e \<Rightarrow> Inl e
                        | Inr drafts \<Rightarrow>
                            Inr (Inr \<lparr>at_requester = sb_actor cmd, at_branch = bb_id branch, at_key = sb_key cmd,
                                      at_hash = hash, at_now = now, at_allow = None, at_drafts = drafts,
                                      at_stillWorking = stillWorking p' branch\<rparr>))))))))) "

definition BookHandlers_StaffBook ::
  "texts \<Rightarrow> ports \<Rightarrow> ports \<Rightarrow> AppointmentID \<Rightarrow> booking_db \<Rightarrow> booking_db \<Rightarrow> gotime \<Rightarrow> StaffBooking
   \<Rightarrow> (booking_error, Appointment \<times> bool) result \<times> booking_db" where
  "BookHandlers_StaffBook tx p p' i db db' now cmd = run_attempt db' (prepare_StaffBook tx p p' i db now cmd)"

section \<open>Offers\<close>

lemma dup_loop_iff: "dup_loop seen ids \<longleftrightarrow> \<not> distinct ids \<or> set ids \<inter> seen \<noteq> {}"
  by (induction ids arbitrary: seen) auto

lemma hasDuplicates_iff: "hasDuplicates ids \<longleftrightarrow> \<not> distinct ids"
  by (simp add: hasDuplicates_def dup_loop_iff)

lemma keep_offers_Inr:
  assumes "keep_offers byStaff os = Inr kept" "o' \<in> set kept"
  shows "\<exists>o0 \<in> set os. \<exists>p. byStaff (of_id o0) = Some p \<and> of_barber o' = of_barber o0
    \<and> of_duration o' = wrap64 (of_duration o0 + pf_duration p) \<and> Money_Add (of_price o0) (pf_price p) = Inr (of_price o')"
  using assms
proof (induction os arbitrary: kept)
  case (Cons a os)
  show ?case
  proof (cases "byStaff (of_id a)")
    case None
    then show ?thesis using Cons by fastforce
  next
    case (Some p)
    then obtain price rest where "Money_Add (of_price a) (pf_price p) = Inr price" "keep_offers byStaff os = Inr rest"
      "kept = a\<lparr>of_duration := wrap64 (of_duration a + pf_duration p), of_price := price\<rparr> # rest"
      using Cons.prems(1) by (auto split: sum.splits)
    then show ?thesis using Some Cons.IH [of rest] Cons.prems(2) by fastforce
  qed
qed simp

text \<open>A performer found by the map of the loop is found by \<open>IndexFunc\<close> too, and is the same one
  when the menu lists each performer of a service once.\<close>

definition one_each :: "MenuItem list \<Rightarrow> bool" where
  "one_each menu \<longleftrightarrow> (\<forall>m \<in> set menu. distinct (map pf_staff (mi_performers m)))"

lemma performer_found:
  assumes "map_of_last (map (\<lambda>p. (pf_staff p, p)) ps) s = Some p"
  shows "\<exists>q. find_first (\<lambda>p. pf_staff p = s) ps = Some q \<and> (distinct (map pf_staff ps) \<longrightarrow> q = p)"
proof -
  have p: "p \<in> set ps" "pf_staff p = s" using map_of_last_Some_in [OF assms] by auto
  then obtain q where q: "find_first (\<lambda>p. pf_staff p = s) ps = Some q"
    using find_first_is_Some [of p ps "\<lambda>p. pf_staff p = s"] by blast
  moreover have "q = p" if "distinct (map pf_staff ps)"
    using that p find_first_Some [OF q] by (auto simp: distinct_map dest: inj_onD)
  ultimately show ?thesis by blast
qed

lemma first_performer:
  assumes "distinct (map pf_staff ps)" "p \<in> set ps"
  shows "find_first (\<lambda>q. pf_staff q = pf_staff p) ps = Some p"
  using performer_found [of ps "pf_staff p" p]
    map_of_last_distinct [of "map (\<lambda>p. (pf_staff p, p)) ps" "pf_staff p" p] assms
  by (auto simp: comp_def)

text \<open>
  What is left of the offers after the remaining services: the barber performs each of them, and
  when the menu lists each performer once the totals are those of the items the booking will have.
\<close>

lemma offers_loop_rest:
  assumes "offers_loop menu False offers ss = Inr kept" "o' \<in> set kept"
  shows "\<exists>o0 \<in> set offers. \<exists>its. of_id o0 = of_id o' \<and> itemsFor ss menu (of_id o') = Some its
    \<and> (one_each menu \<and> in_int64 (of_duration o0) \<longrightarrow>
        of_duration o' = wrap64 (of_duration o0 + total_duration its)
        \<and> fold_result add_item (of_duration o0, of_price o0) its = Inr (of_duration o', of_price o'))"
  using assms
proof (induction ss arbitrary: offers)
  case Nil
  then show ?case by (auto simp: wrap64_id)
next
  case (Cons s ss)
  obtain m kept1 where m: "find_first (\<lambda>m. mi_id m = s) menu = Some m"
    "keep_offers (map_of_last (map (\<lambda>p. (pf_staff p, p)) (mi_performers m))) offers = Inr kept1"
    "offers_loop menu False kept1 ss = Inr kept"
    using Cons.prems(1) by (auto split: option.splits sum.splits)
  obtain o1 its where o1: "o1 \<in> set kept1" "of_id o1 = of_id o'" "itemsFor ss menu (of_id o') = Some its"
    "one_each menu \<and> in_int64 (of_duration o1) \<longrightarrow> of_duration o' = wrap64 (of_duration o1 + total_duration its)
        \<and> fold_result add_item (of_duration o1, of_price o1) its = Inr (of_duration o', of_price o')"
    using Cons.IH [OF m(3) Cons.prems(2)] by blast
  obtain o0 p where o0: "o0 \<in> set offers" "map_of_last (map (\<lambda>p. (pf_staff p, p)) (mi_performers m)) (of_id o0) = Some p"
    "of_barber o1 = of_barber o0" "of_duration o1 = wrap64 (of_duration o0 + pf_duration p)"
    "Money_Add (of_price o0) (pf_price p) = Inr (of_price o1)"
    using keep_offers_Inr [OF m(2) o1(1)] by blast
  obtain q where q: "find_first (\<lambda>p. pf_staff p = of_id o0) (mi_performers m) = Some q"
    "distinct (map pf_staff (mi_performers m)) \<longrightarrow> q = p"
    using performer_found [OF o0(2)] by blast
  let ?it = "\<lparr>it_service = s, it_name = mi_name m, it_duration = pf_duration q, it_price = pf_price q\<rparr>"
  have its: "itemsFor (s # ss) menu (of_id o') = Some (?it # its)"
    using m(1) q(1) o1(2,3) o0(3) by simp
  have "of_duration o' = wrap64 (of_duration o0 + total_duration (?it # its))
      \<and> fold_result add_item (of_duration o0, of_price o0) (?it # its) = Inr (of_duration o', of_price o')"
    if "one_each menu" "in_int64 (of_duration o0)"
  proof -
    have "q = p" using q(2) that(1) find_first_Some [OF m(1)] by (simp add: one_each_def)
    then show ?thesis using o1(4) that(1) o0(4,5) by (simp add: add_item_def [of "(of_duration o0, of_price o0)"] add.assoc)
  qed
  then show ?case using o0(1,3) o1(2) its by force
qed

lemma offersFor_performs:
  assumes "offersFor tx ss menu = Inr offers" "o' \<in> set offers" "ss \<noteq> []"
  shows "itemsFor ss menu (of_id o') \<noteq> None"
proof -
  obtain s rest where ss: "ss = s # rest" using assms(3) by (cases ss) auto
  obtain os where os: "offers_loop menu True [] ss = Inr os" "o' \<in> set os"
    using assms(1,2) by (auto simp: offersFor_def split: sum.splits)
  obtain m where m: "find_first (\<lambda>m. mi_id m = s) menu = Some m"
    "offers_loop menu False (map (\<lambda>p. \<lparr>of_barber = \<lparr>bar_id = pf_staff p, bar_name = []\<rparr>, of_duration = pf_duration p,
         of_price = pf_price p\<rparr>) (mi_performers m)) rest = Inr os"
    using os(1) ss by (auto split: option.splits)
  obtain p where "p \<in> set (mi_performers m)" "pf_staff p = of_id o'" "itemsFor rest menu (of_id o') \<noteq> None"
    using offers_loop_rest [OF m(2) os(2)] by auto
  moreover then have "find_first (\<lambda>p. pf_staff p = of_id o') (mi_performers m) \<noteq> None"
    by (auto simp: find_first_None_iff)
  ultimately show ?thesis using m(1) ss by auto
qed

text \<open>The duration and price shown are those of the items the booking will have.\<close>

lemma offersFor_totals:
  assumes "offersFor tx ss menu = Inr offers" "o' \<in> set offers" "ss \<noteq> []" "one_each menu"
    "\<forall>m \<in> set menu. \<forall>p \<in> set (mi_performers m). in_int64 (pf_duration p) \<and> m_currency (pf_price p) = SAR"
    "itemsFor ss menu (of_id o') = Some its"
  shows "of_duration o' = wrap64 (total_duration its)
    \<and> fold_result add_item (0, Halalas 0) its = Inr (of_duration o', of_price o')"
proof -
  obtain s rest where ss: "ss = s # rest" using assms(3) by (cases ss) auto
  obtain os where os: "offers_loop menu True [] ss = Inr os" "o' \<in> set os"
    using assms(1,2) by (auto simp: offersFor_def split: sum.splits)
  obtain m where m: "find_first (\<lambda>m. mi_id m = s) menu = Some m"
    "offers_loop menu False (map (\<lambda>p. \<lparr>of_barber = \<lparr>bar_id = pf_staff p, bar_name = []\<rparr>, of_duration = pf_duration p,
         of_price = pf_price p\<rparr>) (mi_performers m)) rest = Inr os"
    using os(1) ss by (auto split: option.splits)
  have mm: "m \<in> set menu" using find_first_Some [OF m(1)] by simp
  obtain p its' where p: "p \<in> set (mi_performers m)" "pf_staff p = of_id o'" "itemsFor rest menu (of_id o') = Some its'"
    "of_duration o' = wrap64 (pf_duration p + total_duration its')"
    "fold_result add_item (pf_duration p, pf_price p) its' = Inr (of_duration o', of_price o')"
    using offers_loop_rest [OF m(2) os(2)] assms(4,5) mm by auto
  have f: "find_first (\<lambda>q. pf_staff q = of_id o') (mi_performers m) = Some p"
    using first_performer [OF _ p(1)] assms(4) mm p(2) by (simp add: one_each_def)
  have its: "its = \<lparr>it_service = s, it_name = mi_name m, it_duration = pf_duration p, it_price = pf_price p\<rparr> # its'"
    using assms(6) m(1) f p(3) ss by simp
  have d: "in_int64 (pf_duration p)" "m_currency (pf_price p) = SAR" using assms(5) mm p(1) by auto
  have "Money_Add (Halalas 0) (pf_price p) = Inr (pf_price p)"
    using d(2) by (simp add: Money_Add_exact Halalas_def)
  then show ?thesis using p(4,5) d(1) its by (simp add: add_item_def [of "(0, Halalas 0)"] wrap64_id)
qed

lemma stillThere_Inr:
  assumes "stillThere p branch os = Inr kept" "o' \<in> set kept"
  shows "\<exists>o0 \<in> set os. of_id o0 = of_id o' \<and> of_duration o0 = of_duration o' \<and> of_price o0 = of_price o'"
  using assms
  by (auto simp: stillThere_def Let_def map_filter_def split: if_splits sum.splits option.splits) blast

lemma only_barber_Inr:
  assumes "only_barber barber os = Inr kept"
  shows "set kept \<subseteq> set os" "\<And>b o'. barber = Some b \<Longrightarrow> o' \<in> set kept \<Longrightarrow> of_id o' = b"
    "barber = None \<Longrightarrow> kept = os" "barber = Some b \<Longrightarrow> length kept = 1"
  using assms by (auto simp: only_barber_def split: option.splits dest: find_first_Some)

text \<open>The offers a request works with, in \<open>Query\<close>, \<open>Book\<close> and \<open>StaffBook\<close> alike.\<close>

definition chosen_offers ::
  "texts \<Rightarrow> ports \<Rightarrow> BookableBranch \<Rightarrow> MenuItem list \<Rightarrow> ServiceID list \<Rightarrow> StaffID option \<Rightarrow> Offer list \<Rightarrow> bool" where
  "chosen_offers tx p branch menu ss barber offers \<longleftrightarrow>
     (\<exists>os os'. offersFor tx ss menu = Inr os \<and> stillThere p branch os = Inr os' \<and> only_barber barber os' = Inr offers)"

lemma chosen_offers_unique:
  "chosen_offers tx p branch menu ss barber a \<Longrightarrow> chosen_offers tx p branch menu ss barber b \<Longrightarrow> a = b"
  by (auto simp: chosen_offers_def)

lemma chosen_offers_items:
  assumes "chosen_offers tx p branch menu ss barber offers" "ss \<noteq> []" "o' \<in> set offers"
  shows "\<exists>its. itemsFor ss menu (of_id o') = Some its
    \<and> (one_each menu \<and> (\<forall>m \<in> set menu. \<forall>p \<in> set (mi_performers m). in_int64 (pf_duration p) \<and> m_currency (pf_price p) = SAR)
       \<longrightarrow> of_duration o' = wrap64 (total_duration its)
         \<and> fold_result add_item (0, Halalas 0) its = Inr (of_duration o', of_price o'))"
proof -
  obtain os os' where c: "offersFor tx ss menu = Inr os" "stillThere p branch os = Inr os'" "only_barber barber os' = Inr offers"
    using assms(1) by (auto simp: chosen_offers_def)
  obtain o0 where o0: "o0 \<in> set os" "of_id o0 = of_id o'" "of_duration o0 = of_duration o'" "of_price o0 = of_price o'"
    using stillThere_Inr [OF c(2)] only_barber_Inr(1) [OF c(3)] assms(3) by blast
  obtain its where "itemsFor ss menu (of_id o') = Some its" using offersFor_performs [OF c(1) o0(1) assms(2)] o0(2) by auto
  then show ?thesis using offersFor_totals [OF c(1) o0(1) assms(2)] o0(2-4) by auto
qed

lemma candidates_Inr:
  assumes "candidates p db branch day offers = Inr cands"
  shows "map c_staff cands = map of_id offers"
    "c \<in> set cands \<Longrightarrow> \<exists>o' \<in> set offers. c_staff c = of_id o'
       \<and> c_length c = wrap64 (of_duration o' + pol_buffer (bb_policy branch))"
  using assms by (auto simp: candidates_def Let_def comp_def split: sum.splits) blast

section \<open>Who is free\<close>

lemma set_freeAt: "set (freeAt tx start cands day loc) = c_staff ` {c \<in> set cands. CanTake c start}"
  by (force simp: freeAt_def Let_def image_iff)

lemma length_freeAt: "length (freeAt tx start cands day loc) = length (filter (\<lambda>c. CanTake c start) cands)"
  by (simp add: freeAt_def Let_def)

lemma draft_each_Inr:
  assumes "draft_each mk n ss = Inr ds"
  shows "length ds = length ss" "i < length ss \<Longrightarrow> mk (n + i) (ss ! i) = Inr (ds ! i)"
  using assms
proof (induction ss arbitrary: n ds i)
  case (Cons s ss)
  { case 1 then show ?case using Cons.IH(1) by (auto split: sum.splits) }
  { case 2
    then obtain d ds' where d: "mk n s = Inr d" "draft_each mk (n + 1) ss = Inr ds'" "ds = d # ds'"
      by (auto split: sum.splits)
    show ?case using d 2(1) Cons.IH(2) [of "i - 1" "n + 1" ds'] by (cases i) auto }
qed simp_all

lemma draft_each_mem:
  assumes "draft_each mk n ss = Inr ds" "d \<in> set ds"
  shows "\<exists>i s. s \<in> set ss \<and> mk i s = Inr d"
  using draft_each_Inr [OF assms(1)] assms(2) by (metis in_set_conv_nth)


section \<open>What a prepared booking holds\<close>

lemma prepare_Book_Inr:
  assumes "prepare_Book tx p p' fresh db now cmd = Inr (Inr attempt)"
  shows "\<exists>branch menu offers cands drafts.
    let day = DayOf (bb_location branch) (ba_start cmd);
        assignment = (if ba_barber cmd = None then AnyBarber else RequestedBarber) in
    \<not> bad_services (ba_services cmd) \<and> p_bookable p (ba_branch cmd) = Inr branch
    \<and> checkStart (ba_start cmd) now branch = None
    \<and> p_menu p (bb_business branch) (bb_id branch) = Inr menu
    \<and> chosen_offers tx p branch menu (ba_services cmd) (ba_barber cmd) offers
    \<and> candidates p db branch day offers = Inr cands
    \<and> draft_each (customer_draft fresh branch menu cmd assignment now) 0
        (freeAt tx (ba_start cmd) cands day (bb_location branch)) = Inr drafts
    \<and> attempt = \<lparr>at_requester = ba_customer cmd, at_branch = bb_id branch, at_key = ba_key cmd,
        at_hash = requestHash tx cmd, at_now = now,
        at_allow = Some (customer_limit (pol_maxActiveBookings (bb_policy branch))),
        at_drafts = drafts, at_stillWorking = stillWorking p' branch\<rparr>"
  using assms unfolding prepare_Book_def chosen_offers_def Let_def
  by (simp split: if_splits sum.splits option.splits)

lemma itemsFor_Some:
  assumes "itemsFor ss menu staff = Some its"
  shows "map it_service its = ss"
    "it \<in> set its \<Longrightarrow> \<exists>m \<in> set menu. \<exists>p \<in> set (mi_performers m). mi_id m = it_service it \<and> pf_staff p = staff
       \<and> it_name it = mi_name m \<and> it_duration it = pf_duration p \<and> it_price it = pf_price p"
  using assms
proof (induction ss arbitrary: its)
  case (Cons s ss)
  { case 1 then show ?case using Cons.IH(1) by (auto simp: bind_eq_Some_conv) }
  { case 2
    then obtain m p rest where d: "find_first (\<lambda>m. mi_id m = s) menu = Some m"
      "find_first (\<lambda>p. pf_staff p = staff) (mi_performers m) = Some p" "itemsFor ss menu staff = Some rest"
      "its = \<lparr>it_service = s, it_name = mi_name m, it_duration = pf_duration p, it_price = pf_price p\<rparr> # rest"
      by (auto simp: bind_eq_Some_conv)
    then show ?case using 2(1) Cons.IH(2) [OF _ d(3)] find_first_Some [OF d(1)] find_first_Some [OF d(2)]
      by (cases "it \<in> set rest") auto }
qed simp_all

lemma stillWorking_True:
  assumes "stillWorking p branch a = Inr True" "ap_start a < ap_busyUntil a"
  shows "\<exists>ws w. p_windows p (bb_business branch) (bb_id branch) [ap_barber a] (ap_start a) (ap_busyUntil a) = Inr ws
    \<and> w \<in> set (ws (ap_barber a)) \<and> Covers w (Busy a)"
  using assms by (auto simp: stillWorking_def Let_def Busy_def NewInterval_def list_ex_iff split: sum.splits)

text \<open>A committed attempt that was not a replay.\<close>

lemma Store_Book_new:
  assumes "Store_Book db attempt = (Inr (a, False), db')"
  shows "a \<in> set (at_drafts attempt)" "at_stillWorking attempt a = Inr True"
    "\<forall>q \<in> set (db_rows db). \<not> rows_clash (appointment_row_of (snapshot a)) q"
    "set (db_rows db') = Set.insert (appointment_row_of (snapshot a)) (set (db_rows db))"
    "ap_start a < ap_busyUntil a"
proof -
  have tx: "book_tx db attempt = Inr (a, False, db')" using assms by (auto simp: Store_Book_def split: sum.splits)
  have fresh: "db_keys db (id_value (at_requester attempt), at_key attempt) = None" using book_tx_old(1) [OF tx] by blast
  note n = book_tx_new [OF tx fresh]
  show "a \<in> set (at_drafts attempt)" "at_stillWorking attempt a = Inr True"
    "\<forall>q \<in> set (db_rows db). \<not> rows_clash (appointment_row_of (snapshot a)) q" by fact+
  show "set (db_rows db') = Set.insert (appointment_row_of (snapshot a)) (set (db_rows db))" using n(4) by simp
  have "db_time (ap_start a) < db_time (ap_busyUntil a)"
    using n(5) by (simp add: row_ok_def appointment_row_of_def snapshot_def Snapshot.truncate_def)
  then show "ap_start a < ap_busyUntil a" using db_time_mono linorder_not_le by blast
qed

lemma customer_draft_Inr:
  assumes "customer_draft fresh branch menu cmd assignment now n staff = Inr a"
  shows "ap_customer a = ba_customer cmd" "ap_business a = bb_business branch" "ap_branch a = bb_id branch"
    "ap_barber a = staff" "ap_start a = ba_start cmd" "ap_id a = fresh n"
    "itemsFor (ba_services cmd) menu staff = Some (ap_items a)"
    "ap_end a = ap_start a + wrap64 (total_duration (ap_items a))"
    "ap_busyUntil a = ap_end a + pol_buffer (bb_policy branch)"
    "sint (m_amount (ap_price a)) = total_price (ap_items a)"
    "ap_status a = (if pol_autoConfirm (bb_policy branch) then StatusConfirmed else StatusPending)"
    "ap_assignment a = assignment"
proof -
  obtain its b where b: "itemsFor (ba_services cmd) menu staff = Some its" "Book b now = Inr a"
    "b_customer b = ba_customer cmd" "b_business b = bb_business branch" "b_branch b = bb_id branch"
    "b_barber b = staff" "b_start b = ba_start cmd" "b_id b = fresh n" "b_items b = its"
    "b_buffer b = pol_buffer (bb_policy branch)" "b_autoConfirm b = pol_autoConfirm (bb_policy branch)"
    "b_source b = None" "b_assignment b = assignment"
    using assms unfolding customer_draft_def by (auto split: option.splits)
  have "ap_source a = SourceCustomerApp" "ap_assignment a = b_assignment b" using b(2,12)
    by (auto simp: Book_def Let_def Snapshot.defs split: if_splits sum.splits)
  note s = this
  show "ap_customer a = ba_customer cmd" "ap_business a = bb_business branch" "ap_branch a = bb_id branch"
    "ap_barber a = staff" "ap_start a = ba_start cmd" "ap_id a = fresh n"
    "itemsFor (ba_services cmd) menu staff = Some (ap_items a)"
    "ap_end a = ap_start a + wrap64 (total_duration (ap_items a))"
    "ap_busyUntil a = ap_end a + pol_buffer (bb_policy branch)"
    "sint (m_amount (ap_price a)) = total_price (ap_items a)"
    "ap_status a = (if pol_autoConfirm (bb_policy branch) then StatusConfirmed else StatusPending)"
    "ap_assignment a = assignment"
    using b Book_fields [OF b(2)] Book_totals [OF b(2)] s by simp_all
qed

text \<open>What a committed booking was made from.\<close>

lemma booked_parts:
  assumes "BookHandlers_Book tx p p' fresh db db' now cmd = (Inr (a, False), db'')"
  obtains branch menu offers assignment i where "p_bookable p (ba_branch cmd) = Inr branch"
    "checkStart (ba_start cmd) now branch = None" "p_menu p (bb_business branch) (bb_id branch) = Inr menu"
    "chosen_offers tx p branch menu (ba_services cmd) (ba_barber cmd) offers" "ap_barber a \<in> of_id ` set offers"
    "customer_draft fresh branch menu cmd assignment now i (ap_barber a) = Inr a" "stillWorking p' branch a = Inr True"
    "\<forall>q \<in> set (db_rows db'). \<not> rows_clash (appointment_row_of (snapshot a)) q"
    "set (db_rows db'') = Set.insert (appointment_row_of (snapshot a)) (set (db_rows db'))" "ap_start a < ap_busyUntil a"
proof -
  obtain attempt where att: "prepare_Book tx p p' fresh db now cmd = Inr (Inr attempt)"
    "Store_Book db' attempt = (Inr (a, False), db'')"
    using assms by (auto simp: BookHandlers_Book_def run_attempt_def split: sum.splits)
  note new = Store_Book_new [OF att(2)]
  obtain branch menu offers cands drafts assignment where p: "p_bookable p (ba_branch cmd) = Inr branch"
    "checkStart (ba_start cmd) now branch = None" "p_menu p (bb_business branch) (bb_id branch) = Inr menu"
    "chosen_offers tx p branch menu (ba_services cmd) (ba_barber cmd) offers"
    "candidates p db branch (DayOf (bb_location branch) (ba_start cmd)) offers = Inr cands"
    "draft_each (customer_draft fresh branch menu cmd assignment now) 0
        (freeAt tx (ba_start cmd) cands (DayOf (bb_location branch) (ba_start cmd)) (bb_location branch)) = Inr drafts"
    "at_drafts attempt = drafts" "at_stillWorking attempt = stillWorking p' branch"
    using prepare_Book_Inr [OF att(1)] unfolding Let_def by auto
  have "a \<in> set drafts" using new(1) p(7) by simp
  then obtain i s where d: "s \<in> set (freeAt tx (ba_start cmd) cands (DayOf (bb_location branch) (ba_start cmd)) (bb_location branch))"
    "customer_draft fresh branch menu cmd assignment now i s = Inr a"
    using draft_each_mem [OF p(6)] by blast
  have "s \<in> set (map of_id offers)" using d(1) unfolding set_freeAt candidates_Inr(1) [OF p(5), symmetric] by auto
  moreover have "ap_barber a = s" by (rule customer_draft_Inr(4) [OF d(2)])
  ultimately show thesis using that [OF p(1-4) _ _ _ new(3-5)] d(2) new(2) p(8) by auto
qed

section \<open>Properties\<close>

text \<open>C10: A booking that goes through is what was asked for and what the branch allows, at the moment it
  commits: it starts at the asked time, on the branch's clock grid, no sooner than the lead time
  and within the horizon; it is with the asked barber if one was named; it holds the asked services
  in order, each with the name, duration and price the menu gives this barber, and its price is
  their sum; when the transaction ran, one of the barber's working windows covered the whole
  booking, buffer included, and no active appointment of the barber overlapped it.\<close>

theorem booking_is_as_asked:
  assumes "BookHandlers_Book tx p p' fresh db db' now cmd = (Inr (a, False), db'')"
  shows "\<exists>branch menu. p_bookable p (ba_branch cmd) = Inr branch
    \<and> p_menu p (bb_business branch) (bb_id branch) = Inr menu
    \<and> ap_customer a = ba_customer cmd \<and> ap_branch a = bb_id branch \<and> ap_start a = ba_start cmd
    \<and> OnGrid (ap_start a) (bb_location branch) (pol_slotInterval (bb_policy branch))
    \<and> now + pol_minLead (bb_policy branch) \<le> ap_start a
    \<and> ap_start a < Day_Start (Day_AddDays (last_day now branch) 1) (bb_location branch)
    \<and> (\<forall>b. ba_barber cmd = Some b \<longrightarrow> ap_barber a = b)
    \<and> map it_service (ap_items a) = ba_services cmd
    \<and> (\<forall>it \<in> set (ap_items a). \<exists>m \<in> set menu. \<exists>p \<in> set (mi_performers m). mi_id m = it_service it
         \<and> pf_staff p = ap_barber a \<and> it_name it = mi_name m \<and> it_duration it = pf_duration p \<and> it_price it = pf_price p)
    \<and> sint (m_amount (ap_price a)) = total_price (ap_items a)
    \<and> (\<exists>ws w. p_windows p' (bb_business branch) (bb_id branch) [ap_barber a] (ap_start a) (ap_busyUntil a) = Inr ws
         \<and> w \<in> set (ws (ap_barber a)) \<and> Covers w (Busy a))
    \<and> (\<forall>q \<in> set (db_rows db'). \<not> rows_clash (appointment_row_of (snapshot a)) q)
    \<and> set (db_rows db'') = Set.insert (appointment_row_of (snapshot a)) (set (db_rows db'))"
proof -
  obtain branch menu offers assignment i where p: "p_bookable p (ba_branch cmd) = Inr branch"
    "checkStart (ba_start cmd) now branch = None" "p_menu p (bb_business branch) (bb_id branch) = Inr menu"
    "chosen_offers tx p branch menu (ba_services cmd) (ba_barber cmd) offers" "ap_barber a \<in> of_id ` set offers"
    "customer_draft fresh branch menu cmd assignment now i (ap_barber a) = Inr a" "stillWorking p' branch a = Inr True"
    and new: "\<forall>q \<in> set (db_rows db'). \<not> rows_clash (appointment_row_of (snapshot a)) q"
      "set (db_rows db'') = Set.insert (appointment_row_of (snapshot a)) (set (db_rows db'))" "ap_start a < ap_busyUntil a"
    by (rule booked_parts [OF assms])
  note c = customer_draft_Inr [OF p(6)]
  have barber: "ap_barber a = b" if "ba_barber cmd = Some b" for b
    using p(4,5) that only_barber_Inr(2) unfolding chosen_offers_def by fastforce
  have "OnGrid (ap_start a) (bb_location branch) (pol_slotInterval (bb_policy branch))"
    "now + pol_minLead (bb_policy branch) \<le> ap_start a"
    "ap_start a < Day_Start (Day_AddDays (last_day now branch) 1) (bb_location branch)"
    using p(2) c(5) by (auto simp: checkStart_def time_add_def split: if_splits)
  moreover have "map it_service (ap_items a) = ba_services cmd"
    "\<forall>it \<in> set (ap_items a). \<exists>m \<in> set menu. \<exists>p \<in> set (mi_performers m). mi_id m = it_service it
         \<and> pf_staff p = ap_barber a \<and> it_name it = mi_name m \<and> it_duration it = pf_duration p \<and> it_price it = pf_price p"
    using itemsFor_Some [OF c(7)] by auto
  ultimately show ?thesis
    using p(1,3) c(1,3,5,10) barber new(1,2) stillWorking_True [of p' branch a, OF _ new(3)] p(7) by auto
qed

section \<open>A shown slot can be booked\<close>











definition sample_policy :: Policy where
  "sample_policy = \<lparr>pol_minLead = hour, pol_horizonDays = 30, pol_slotInterval = 30 * minute, pol_buffer = 5 * minute,
     pol_autoConfirm = True, pol_pendingExpiry = hour, pol_maxActiveBookings = 3, pol_cancellationWindow = 2 * hour\<rparr>"

definition sample_branch :: BookableBranch where
  "sample_branch = \<lparr>bb_business = ID 1, bb_id = ID 2, bb_location = riyadh, bb_policy = sample_policy\<rparr>"

definition sample_menu :: "MenuItem list" where
  "sample_menu =
     [\<lparr>mi_id = ID 7, mi_name = \<lparr>lt_ar = ''qass'', lt_en = ''Haircut''\<rparr>, mi_performers =
         [\<lparr>pf_staff = ID 3, pf_duration = 30 * minute, pf_price = Halalas 6000\<rparr>,
          \<lparr>pf_staff = ID 5, pf_duration = 45 * minute, pf_price = Halalas 5000\<rparr>]\<rparr>,
      \<lparr>mi_id = ID 8, mi_name = \<lparr>lt_ar = ''lihya'', lt_en = ''Beard''\<rparr>, mi_performers =
         [\<lparr>pf_staff = ID 3, pf_duration = 15 * minute, pf_price = Halalas 3000\<rparr>]\<rparr>]"

definition sample_ports :: ports where
  "sample_ports = \<lparr>p_bookable = (\<lambda>b. if b = ID 2 then Inr sample_branch else Inl ErrNotFound),
     p_barbers = (\<lambda>_ _ ids. Inr (map (\<lambda>i. \<lparr>bar_id = i, bar_name = ''Sami''\<rparr>) ids)),
     p_menu = (\<lambda>_ _. Inr sample_menu),
     p_windows = (\<lambda>_ _ _ _ _. Inr (\<lambda>_. [\<lparr>ivl_start = 0, ivl_end = 18 * hour\<rparr>])),
     p_memberOf = (\<lambda>u _. if u = ID 6 then Inr \<lparr>mb_staff = ID 3, mb_role = RoleBarber, mb_branches = [ID 2]\<rparr> else Inl ErrNotFound),
     p_branchLocation = (\<lambda>_ b. if b = ID 2 then Inr riyadh else Inl ErrNotFound)\<rparr>"

definition sample_texts :: texts where
  "sample_texts = \<lparr>tx_id = (\<lambda>u. fmt_d 4 (uint u)), tx_time = (\<lambda>t. fmt_d 4 (t div hour)),
     tx_quote = (\<lambda>s. CHR 34 # s @ [CHR 34]), tx_sha256 = (\<lambda>s. take 32 (s @ replicate 32 (CHR ''0'')))\<rparr>"

definition sample_query :: AvailabilityQuery where
  "sample_query = \<lparr>q_branch = ID 2, q_day = \<lparr>day_year = 1970, day_month = 1, day_day = 1\<rparr>,
     q_services = [ID 7, ID 8], q_barber = None\<rparr>"

definition sample_cmd :: BookAppointment where
  "sample_cmd = \<lparr>ba_customer = ID 4, ba_key = 77, ba_branch = ID 2, ba_start = 3 * hour, ba_services = [ID 7, ID 8],
     ba_barber = None, ba_note = ''hi''\<rparr>"

definition sample_offer :: Offer where
  "sample_offer = \<lparr>of_barber = \<lparr>bar_id = ID 3, bar_name = ''Sami''\<rparr>, of_duration = 45 * minute, of_price = Halalas 9000\<rparr>"

definition sample_cands :: "Candidate list" where
  "sample_cands = [\<lparr>c_staff = ID 3, c_length = 50 * minute, c_windows = [\<lparr>ivl_start = 0, ivl_end = 18 * hour\<rparr>], c_busy = []\<rparr>]"

lemma sample_offers: "offersFor sample_texts [ID 7, ID 8] sample_menu = Inr [sample_offer\<lparr>of_barber := \<lparr>bar_id = ID 3, bar_name = []\<rparr>\<rparr>]"
  by code_simp

lemma sample_still: "stillThere sample_ports sample_branch [sample_offer\<lparr>of_barber := \<lparr>bar_id = ID 3, bar_name = []\<rparr>\<rparr>] = Inr [sample_offer]"
  by code_simp

lemma sample_candidates: "candidates sample_ports empty_db sample_branch (q_day sample_query) [sample_offer] = Inr sample_cands"
  by code_simp

lemma sample_day: "Day_Compare (q_day sample_query) (DayOf riyadh 0) = 0"
  "Day_Compare (q_day sample_query) (last_day 0 sample_branch) = - 1" "bad_services [ID 7, ID 8] = False"
  by code_simp+



definition sample_app_attempt :: "ports \<Rightarrow> BookingAttempt" where
  "sample_app_attempt p' = \<lparr>at_requester = ID 4, at_branch = ID 2, at_key = 77, at_hash = requestHash sample_texts sample_cmd,
     at_now = 0, at_allow = Some (customer_limit 3),
     at_drafts = (case customer_draft (\<lambda>n. ID 10) sample_branch sample_menu sample_cmd AnyBarber 0 0 (ID 3) of Inl _ \<Rightarrow> [] | Inr d \<Rightarrow> [d]),
     at_stillWorking = stillWorking p' sample_branch\<rparr>"

lemma sample_prepare_Book:
  "prepare_Book sample_texts sample_ports p' (\<lambda>n. ID 10) empty_db 0 sample_cmd = Inr (Inr (sample_app_attempt p'))"
proof -
  have p: "p_bookable sample_ports (ba_branch sample_cmd) = Inr sample_branch" "p_menu sample_ports b c = Inr sample_menu"
    "ba_services sample_cmd = [ID 7, ID 8]" "ba_barber sample_cmd = None" "bb_location sample_branch = riyadh"
    "DayOf riyadh (ba_start sample_cmd) = q_day sample_query" "ba_customer sample_cmd = ID 4" "ba_key sample_cmd = 77"
    "bb_id sample_branch = ID 2" "pol_maxActiveBookings (bb_policy sample_branch) = 3" for b c
    by (simp_all add: sample_ports_def sample_cmd_def sample_branch_def sample_policy_def, code_simp)
  have r: "BookingStore.replay empty_db u k h = Inr None" for u k h by (simp add: BookingStore.replay_def empty_db_def)
  have c: "checkStart (ba_start sample_cmd) 0 sample_branch = None"
    "freeAt sample_texts (ba_start sample_cmd) sample_cands (q_day sample_query) riyadh = [ID 3]"
    "is_ok (customer_draft (\<lambda>n. ID 10) sample_branch sample_menu sample_cmd AnyBarber 0 0 (ID 3))"
    by code_simp+
  show ?thesis unfolding prepare_Book_def p Let_def r
    using c(3) by (auto simp: p r c(1,2) sample_offers sample_still sample_candidates sample_day only_barber_def
      sample_app_attempt_def is_ok_iff)
qed


lemma sample_BookHandlers:
  "\<exists>a. fst (BookHandlers_Book sample_texts sample_ports sample_ports (\<lambda>n. ID 10) empty_db empty_db 0 sample_cmd) = Inr (a, False)"
proof -
  have "(case fst (Store_Book empty_db (sample_app_attempt sample_ports)) of Inl _ \<Rightarrow> True | Inr (a, r) \<Rightarrow> r) = False" by code_simp
  then show ?thesis
    by (auto simp: BookHandlers_Book_def run_attempt_def sample_prepare_Book split: sum.splits prod.splits)
qed



theorem booking_is_as_asked_witness:
  "\<exists>a db'. BookHandlers_Book sample_texts sample_ports sample_ports (\<lambda>n. ID 10) empty_db empty_db 0 sample_cmd = (Inr (a, False), db')
     \<and> (\<forall>it \<in> set (ap_items a). \<exists>m \<in> set sample_menu. mi_id m = it_service it \<and> it_name it = mi_name m)"
proof -
  let ?r = "BookHandlers_Book sample_texts sample_ports sample_ports (\<lambda>n. ID 10) empty_db empty_db 0 sample_cmd"
  obtain a where "fst ?r = Inr (a, False)" using sample_BookHandlers by blast
  then have r: "?r = (Inr (a, False), snd ?r)" by (metis prod.collapse)
  have "p_menu sample_ports b c = Inr sample_menu" for b c by (simp add: sample_ports_def)
  then show ?thesis using booking_is_as_asked [OF r] r by auto metis
qed

section \<open>Spreading the work\<close>

text \<open>How much of \<open>[frm, till)\<close> is booked: the number of its instants (nanoseconds) that are busy.\<close>

definition booked_time :: "gotime \<Rightarrow> gotime \<Rightarrow> Interval list \<Rightarrow> int" where
  "booked_time frm till busy = int (card (span_points busy \<inter> {frm ..< till}))"

definition apart :: "Interval list \<Rightarrow> bool" where
  "apart xs \<longleftrightarrow> (\<forall>i < length xs. \<forall>j < length xs. i \<noteq> j \<longrightarrow> points (xs ! i) \<inter> points (xs ! j) = {})"

lemma apart_Cons: "apart (b # bs) \<longleftrightarrow> apart bs \<and> points b \<inter> span_points bs = {}"
proof
  assume a: "apart (b # bs)"
  have "apart bs"
    unfolding apart_def
  proof (intro allI impI)
    fix i j assume "i < length bs" "j < length bs" "i \<noteq> j"
    then show "points (bs ! i) \<inter> points (bs ! j) = {}"
      using a [unfolded apart_def, rule_format, of "Suc i" "Suc j"] by simp
  qed
  moreover have "points b \<inter> points c = {}" if c: "c \<in> set bs" for c
  proof -
    obtain j where "j < length bs" "bs ! j = c" using c by (metis in_set_conv_nth)
    then show ?thesis using a [unfolded apart_def, rule_format, of 0 "Suc j"] by simp
  qed
  ultimately show "apart bs \<and> points b \<inter> span_points bs = {}" unfolding span_points_def by blast
next
  assume a: "apart bs \<and> points b \<inter> span_points bs = {}"
  have m: "points b \<inter> points (bs ! j) = {}" if "j < length bs" for j
    using a that unfolding span_points_def by (meson UN_I disjoint_iff nth_mem)
  show "apart (b # bs)" unfolding apart_def
  proof (intro allI impI)
    fix i j assume "i < length (b # bs)" "j < length (b # bs)" "i \<noteq> j"
    then show "points ((b # bs) ! i) \<inter> points ((b # bs) ! j) = {}"
      using a m [of "i - 1"] m [of "j - 1"] unfolding apart_def by (cases i; cases j) (auto simp: Int_commute)
  qed
qed

lemma booked_time_Cons:
  assumes "points b \<inter> span_points bs = {}"
  shows "booked_time frm till (b # bs)
    = max 0 (min (ivl_end b) till - max (ivl_start b) frm) + booked_time frm till bs"
proof -
  have "span_points (b # bs) \<inter> {frm ..< till} =
      {max (ivl_start b) frm ..< min (ivl_end b) till} \<union> (span_points bs \<inter> {frm ..< till})"
    by (auto simp: points_def)
  moreover have "card ({max (ivl_start b) frm ..< min (ivl_end b) till} \<union> (span_points bs \<inter> {frm ..< till}))
      = card {max (ivl_start b) frm ..< min (ivl_end b) till} + card (span_points bs \<inter> {frm ..< till})"
    using assms by (intro card_Un_disjoint) (auto simp: points_def)
  moreover have "int (card {s ..< e}) = max 0 (e - s)" for s e :: int by simp
  ultimately show ?thesis unfolding booked_time_def by (simp only: of_nat_add)
qed

lemma booked_load_exact:
  assumes "apart busy" "till - frm \<le> max_int64"
  shows "booked_load frm till busy = booked_time frm till busy"
proof -
  let ?step = "\<lambda>l b. let s = app_later (ivl_start b) frm; e = app_earlier (ivl_end b) till in
              if s < e then wrap64 (l + time_sub e s) else l"
  have bound: "0 \<le> booked_time frm till bs \<and> booked_time frm till bs \<le> max 0 (till - frm)" for bs
  proof -
    have "card (span_points bs \<inter> {frm ..< till}) \<le> card {frm ..< till}" by (intro card_mono) auto
    then show ?thesis by (simp add: booked_time_def)
  qed
  have "foldl ?step l bs = l + booked_time frm till bs"
    if "0 \<le> l" "l + booked_time frm till bs \<le> max 0 (till - frm)" "apart bs" for l bs
    using that
  proof (induction bs arbitrary: l)
    case Nil
    then show ?case by (simp add: booked_time_def)
  next
    case (Cons b bs)
    have ap: "apart bs" "points b \<inter> span_points bs = {}" using Cons.prems(3) by (auto simp: apart_Cons)
    let ?n = "max 0 (min (ivl_end b) till - max (ivl_start b) frm)"
    have e: "booked_time frm till (b # bs) = ?n + booked_time frm till bs" by (rule booked_time_Cons [OF ap(2)])
    have le: "l + ?n \<le> max 0 (till - frm)" using Cons.prems(2) e bound [of bs] by linarith
    have "?step l b = l + ?n"
    proof (cases "max (ivl_start b) frm < min (ivl_end b) till")
      case True
      have x: "app_later (ivl_start b) frm = max (ivl_start b) frm" "app_earlier (ivl_end b) till = min (ivl_end b) till"
        by (auto simp: app_later_def app_earlier_def)
      have n: "?n = min (ivl_end b) till - max (ivl_start b) frm" using True by simp
      have r: "in_int64 (l + ?n)" "in_int64 ?n"
        using le assms(2) Cons.prems(1) by (auto simp: in_int64_def min_int64_def max_int64_def)
      have "time_sub (min (ivl_end b) till) (max (ivl_start b) frm) = ?n"
        using time_sub_exact r(2) n by metis
      then show ?thesis using True x r(1) by (simp add: Let_def wrap64_id)
    qed (auto simp: app_later_def app_earlier_def Let_def)
    then show ?case using Cons.IH [of "l + ?n"] Cons.prems(1,2) e ap(1) by simp
  qed
  from this [of 0 busy] show ?thesis using bound [of busy] assms(1) by (simp add: booked_load_def)
qed

lemma freeAt_sorted:
  assumes "i < j" "j < length (freeAt tx start cands day loc)"
  shows "\<exists>c d. c \<in> set cands \<and> d \<in> set cands \<and> CanTake c start \<and> CanTake d start
    \<and> c_staff c = freeAt tx start cands day loc ! i \<and> c_staff d = freeAt tx start cands day loc ! j
    \<and> booked_load (Day_Start day loc) (Day_Start (Day_AddDays day 1) loc) (c_busy c)
      \<le> booked_load (Day_Start day loc) (Day_Start (Day_AddDays day 1) loc) (c_busy d)"
proof -
  let ?load = "\<lambda>c. booked_load (Day_Start day loc) (Day_Start (Day_AddDays day 1) loc) (c_busy c)"
  let ?free = "map (\<lambda>c. (c_staff c, ?load c)) (filter (\<lambda>c. CanTake c start) cands)"
  let ?key = "\<lambda>(s, l). (l, tx_id tx (id_value s))"
  define xs where "xs = sort_key ?key ?free"
  have f: "freeAt tx start cands day loc = map fst xs" by (simp add: freeAt_def Let_def xs_def)
  have "i < length xs" "j < length xs" using assms f by simp_all
  moreover have "sorted (map ?key xs)" unfolding xs_def by simp
  ultimately have le: "?key (xs ! i) \<le> ?key (xs ! j)" using assms(1) sorted_nth_mono [of "map ?key xs" i j] by simp
  have mem: "\<exists>c \<in> set cands. CanTake c start \<and> xs ! k = (c_staff c, ?load c)" if "k < length xs" for k
    using nth_mem [OF that] by (auto simp: xs_def)
  obtain c d where "c \<in> set cands" "CanTake c start" "xs ! i = (c_staff c, ?load c)"
    "d \<in> set cands" "CanTake d start" "xs ! j = (c_staff d, ?load d)"
    using mem [OF \<open>i < length xs\<close>] mem [OF \<open>j < length xs\<close>] by blast
  moreover then have "?load c \<le> ?load d" using le by (auto simp: less_eq_prod_def)
  ultimately show ?thesis using f \<open>i < length xs\<close> \<open>j < length xs\<close> by (intro exI [of _ c] exI [of _ d]) simp
qed

text \<open>With "any barber" the work is spread: \<open>freeAt\<close> lists exactly the barbers who can take the
  start, and a barber listed earlier has at most as much of the day booked as one listed later,
  where the booked time of a barber whose appointments do not overlap is the exact number of
  busy nanoseconds of the day.\<close>

theorem work_is_spread:
  assumes "\<forall>c \<in> set cands. apart (c_busy c)"
    "Day_Start (Day_AddDays day 1) loc - Day_Start day loc \<le> max_int64"
    "distinct (map c_staff cands)"
  shows "set (freeAt tx start cands day loc) = c_staff ` {c \<in> set cands. CanTake c start}
    \<and> (\<forall>j < length (freeAt tx start cands day loc). \<forall>i < j. \<forall>c \<in> set cands. \<forall>d \<in> set cands.
         c_staff c = freeAt tx start cands day loc ! i \<longrightarrow> c_staff d = freeAt tx start cands day loc ! j \<longrightarrow>
         booked_time (Day_Start day loc) (Day_Start (Day_AddDays day 1) loc) (c_busy c)
         \<le> booked_time (Day_Start day loc) (Day_Start (Day_AddDays day 1) loc) (c_busy d))"
proof (intro conjI allI impI ballI)
  show "set (freeAt tx start cands day loc) = c_staff ` {c \<in> set cands. CanTake c start}" by (rule set_freeAt)
next
  fix i j c d
  assume j: "j < length (freeAt tx start cands day loc)" and i: "i < j" and c: "c \<in> set cands" and d: "d \<in> set cands"
    and s: "c_staff c = freeAt tx start cands day loc ! i" "c_staff d = freeAt tx start cands day loc ! j"
  obtain c' d' where x: "c' \<in> set cands" "d' \<in> set cands" "c_staff c' = c_staff c" "c_staff d' = c_staff d"
    "booked_load (Day_Start day loc) (Day_Start (Day_AddDays day 1) loc) (c_busy c')
      \<le> booked_load (Day_Start day loc) (Day_Start (Day_AddDays day 1) loc) (c_busy d')"
    using freeAt_sorted [OF i j] s by metis
  have "c' = c" "d' = d" using x(1-4) c d assms(3) by (auto simp: distinct_map dest: inj_onD)
  then show "booked_time (Day_Start day loc) (Day_Start (Day_AddDays day 1) loc) (c_busy c)
      \<le> booked_time (Day_Start day loc) (Day_Start (Day_AddDays day 1) loc) (c_busy d)"
    using x(5) booked_load_exact [OF _ assms(2)] assms(1) c d by auto
qed

definition busy_candidate :: Candidate where
  "busy_candidate = \<lparr>c_staff = ID 5, c_length = hour, c_windows = [\<lparr>ivl_start = 0, ivl_end = 24 * hour\<rparr>], c_busy = []\<rparr>"

theorem work_is_spread_witness:
  "freeAt sample_texts (4 * hour) [sample_candidate, busy_candidate] (q_day sample_query) riyadh = [ID 5, ID 3]
   \<and> booked_time (Day_Start (q_day sample_query) riyadh) (Day_Start (Day_AddDays (q_day sample_query) 1) riyadh) (c_busy busy_candidate)
     \<le> booked_time (Day_Start (q_day sample_query) riyadh) (Day_Start (Day_AddDays (q_day sample_query) 1) riyadh) (c_busy sample_candidate)"
proof -
  let ?cs = "[sample_candidate, busy_candidate]" and ?d = "q_day sample_query"
  have f: "freeAt sample_texts (4 * hour) ?cs ?d riyadh = [ID 5, ID 3]" by code_simp
  have a: "\<forall>c \<in> set ?cs. apart (c_busy c)" by (simp add: sample_candidate_def busy_candidate_def apart_Cons) (simp add: apart_def)
  have b: "Day_Start (Day_AddDays ?d 1) riyadh - Day_Start ?d riyadh \<le> max_int64" by code_simp
  have c: "distinct (map c_staff ?cs)" by (simp add: sample_candidate_def busy_candidate_def)
  from work_is_spread [OF a b c, of sample_texts "4 * hour", THEN conjunct2, rule_format, of 1 0 busy_candidate sample_candidate]
  show ?thesis unfolding f by (simp add: sample_candidate_def busy_candidate_def)
qed

section \<open>Request fingerprints\<close>

text \<open>
  What the fingerprint relies on: ids and times print injectively, without the separators, an id
  never prints as \<open>any\<close> or \<open>staff\<close> (a UUID has 36 characters) and quoting is injective.
\<close>

definition clear_texts :: "texts \<Rightarrow> bool" where
  "clear_texts tx \<longleftrightarrow> inj (tx_id tx) \<and> inj (tx_time tx) \<and> inj (tx_quote tx)
     \<and> (\<forall>u. CHR ''|'' \<notin> set (tx_id tx u) \<and> CHR '','' \<notin> set (tx_id tx u) \<and> tx_id tx u \<notin> {[], ''any'', ''staff''})
     \<and> (\<forall>t. CHR ''|'' \<notin> set (tx_time tx t))"

lemma split_at:
  assumes "s \<notin> set a" "s \<notin> set b" "a @ s # x = b @ s # y"
  shows "a = b \<and> x = y"
  using assms
proof (induction a arbitrary: b)
  case Nil
  then show ?case by (cases b) auto
next
  case (Cons c a)
  then show ?case by (cases b) auto
qed

lemma join_commas_Cons: "join_commas (x # xs) = x @ concat (map (\<lambda>z. CHR '','' # z) xs)"
  by (simp add: join_commas_def)

lemma join_tail_inject:
  assumes "\<forall>x \<in> set xs \<union> set ys. CHR '','' \<notin> set x"
    "concat (map (\<lambda>z. CHR '','' # z) xs) = concat (map (\<lambda>z. CHR '','' # z) ys)"
  shows "xs = ys"
  using assms
proof (induction xs arbitrary: ys)
  case Nil
  then show ?case by (cases ys) auto
next
  case (Cons x xs)
  then obtain y ys' where ys: "ys = y # ys'" by (cases ys) auto
  have xy: "CHR '','' \<notin> set x" "CHR '','' \<notin> set y" using Cons.prems(1) ys by auto
  have eq: "x @ concat (map (\<lambda>z. CHR '','' # z) xs) = y @ concat (map (\<lambda>z. CHR '','' # z) ys')"
    using Cons.prems(2) ys by simp
  have "x = y \<and> concat (map (\<lambda>z. CHR '','' # z) xs) = concat (map (\<lambda>z. CHR '','' # z) ys')"
  proof (cases xs; cases ys')
    fix a as b bs assume "xs = a # as" "ys' = b # bs"
    then show ?thesis using split_at [OF xy, of "a @ concat (map (\<lambda>z. CHR '','' # z) as)" "b @ concat (map (\<lambda>z. CHR '','' # z) bs)"] eq by simp
  next
    fix b bs assume "xs = []" "ys' = b # bs"
    then show ?thesis using eq xy by auto
  next
    fix a as assume a: "xs = a # as" "ys' = []"
    then have "CHR '','' \<in> set (x @ concat (map (\<lambda>z. CHR '','' # z) xs))" by simp
    then show ?thesis using eq xy a by auto
  next
    assume "xs = []" "ys' = []"
    then show ?thesis using eq by simp
  qed
  then show ?case using Cons.IH [of ys'] Cons.prems(1) ys by auto
qed

lemma join_commas_inject:
  assumes "\<forall>x \<in> set xs \<union> set ys. CHR '','' \<notin> set x \<and> x \<noteq> []" "join_commas xs = join_commas ys"
  shows "xs = ys"
proof -
  have "join_commas zs = [] \<longleftrightarrow> zs = []" if "\<forall>x \<in> set zs. x \<noteq> []" for zs
    using that by (cases zs) (auto simp: join_commas_def)
  then have e: "xs = [] \<longleftrightarrow> ys = []" using assms by (metis UnCI)
  have "concat (map (\<lambda>z. CHR '','' # z) zs) = (if zs = [] then [] else CHR '','' # join_commas zs)" for zs
    by (cases zs) (auto simp: join_commas_def)
  then have "concat (map (\<lambda>z. CHR '','' # z) xs) = concat (map (\<lambda>z. CHR '','' # z) ys)" using assms(2) e by simp
  then show ?thesis using join_tail_inject assms(1) by metis
qed

lemma join_commas_no_bar: "\<forall>x \<in> set xs. CHR ''|'' \<notin> set x \<Longrightarrow> CHR ''|'' \<notin> set (join_commas xs)"
  by (cases xs) (auto simp: join_commas_def)

lemma services_text:
  fixes ss ts :: "ServiceID list"
  assumes "clear_texts tx"
  shows "CHR ''|'' \<notin> set (join_commas (map (\<lambda>s. tx_id tx (id_value s)) ss))"
    "join_commas (map (\<lambda>s. tx_id tx (id_value s)) ss) = join_commas (map (\<lambda>s. tx_id tx (id_value s)) ts) \<Longrightarrow> ss = ts"
proof -
  show "CHR ''|'' \<notin> set (join_commas (map (\<lambda>s. tx_id tx (id_value s)) ss))"
    using assms by (intro join_commas_no_bar) (auto simp: clear_texts_def)
  assume "join_commas (map (\<lambda>s. tx_id tx (id_value s)) ss) = join_commas (map (\<lambda>s. tx_id tx (id_value s)) ts)"
  then have "map (\<lambda>s. tx_id tx (id_value s)) ss = map (\<lambda>s. tx_id tx (id_value s)) ts"
    using assms by (intro join_commas_inject) (auto simp: clear_texts_def)
  moreover have "inj (\<lambda>s :: ServiceID. tx_id tx (id_value s))"
    using assms unfolding clear_texts_def by (intro injI) (auto dest!: injD)
  ultimately show "ss = ts" by (simp add: inj_map_eq_map)
qed

text \<open>A retry is told from a reused key exactly: two requests of a customer have the same text under
  the hash if and only if they ask for the same branch, instant, services in the same order, barber
  and trimmed note, and no walk-in request ever has the text of a customer's.\<close>

theorem fingerprint_exact:
  assumes "clear_texts tx"
  shows "(request_text tx c = request_text tx d \<longleftrightarrow> ba_branch c = ba_branch d \<and> ba_start c = ba_start d
      \<and> ba_services c = ba_services d \<and> ba_barber c = ba_barber d \<and> trim_space (ba_note c) = trim_space (ba_note d))
    \<and> request_text tx c \<noteq> staff_request_text tx s"
proof -
  note t = assms [unfolded clear_texts_def]
  let ?b = "\<lambda>c. case ba_barber c of None \<Rightarrow> ''any'' | Some b \<Rightarrow> tx_id tx (id_value b)"
  have bar: "CHR ''|'' \<notin> set (?b c)" for c using t by (cases "ba_barber c") auto
  have barber: "?b c = ?b d \<Longrightarrow> ba_barber c = ba_barber d"
    using t by (cases "ba_barber c"; cases "ba_barber d") (auto dest!: injD)
  have idn: "CHR ''|'' \<notin> set (tx_id tx u)" and tn: "CHR ''|'' \<notin> set (tx_time tx v)" for u v using t by auto
  have "ba_branch c = ba_branch d \<and> ba_start c = ba_start d
      \<and> ba_services c = ba_services d \<and> ba_barber c = ba_barber d \<and> trim_space (ba_note c) = trim_space (ba_note d)"
    if "request_text tx c = request_text tx d"
  proof -
    note e1 = split_at [OF idn idn that [unfolded request_text_def append_Cons append_Nil]]
    note e2 = split_at [OF tn tn e1 [THEN conjunct2]]
    note e3 = split_at [OF services_text(1) [OF assms] services_text(1) [OF assms] e2 [THEN conjunct2]]
    note e4 = split_at [OF bar bar e3 [THEN conjunct2]]
    show ?thesis
      using e1 e2 e3 e4 t services_text(2) [OF assms] barber by (auto dest!: injD)
  qed
  moreover have "request_text tx c \<noteq> staff_request_text tx s"
  proof
    assume "request_text tx c = staff_request_text tx s"
    then have e: "tx_id tx (id_value (ba_branch c)) @ CHR ''|'' # (tx_time tx (ba_start c) @ ''|''
        @ join_commas (map (\<lambda>s. tx_id tx (id_value s)) (ba_services c)) @ ''|'' @ ?b c @ ''|'' @ tx_quote tx (trim_space (ba_note c)))
      = ''staff'' @ CHR ''|'' # drop 6 (staff_request_text tx s)"
      by (simp add: request_text_def staff_request_text_def)
    have "tx_id tx (id_value (ba_branch c)) = ''staff''" using split_at [OF idn _ e] by simp
    then show False using t by auto
  qed
  ultimately show ?thesis by (auto simp: request_text_def)
qed

text \<open>A printing that satisfies the assumption: eight or more hexadecimal-like digits and a letter.\<close>

definition exact_texts :: texts where
  "exact_texts = sample_texts\<lparr>tx_id := (\<lambda>u. CHR ''u'' # dec_digits (nat (uint u))),
     tx_time := (\<lambda>t. (if t < 0 then CHR ''-'' else CHR ''+'') # dec_digits (nat \<bar>t\<bar>))\<rparr>"

lemma dec_digits_inject [simp]: "dec_digits m = dec_digits n \<longleftrightarrow> m = n"
  by (metis dec_value_digits)

lemma dec_digits_sep: "CHR ''|'' \<notin> set (dec_digits n)" "CHR '','' \<notin> set (dec_digits n)" "CHR ''n'' \<notin> set (dec_digits n)"
  using dec_digits_ascii [of _ n] by fastforce+

lemma clear_exact_texts: "clear_texts exact_texts"
  unfolding clear_texts_def exact_texts_def sample_texts_def
  using dec_digits_sep
  by (auto simp: inj_def split: if_splits intro: unsigned_word_eqI)

theorem fingerprint_exact_witness:
  "request_text exact_texts sample_cmd \<noteq> request_text exact_texts (sample_cmd\<lparr>ba_services := [ID 8, ID 7]\<rparr>)
   \<and> request_text exact_texts sample_cmd = request_text exact_texts (sample_cmd\<lparr>ba_note := ''hi ''\<rparr>)"
proof -
  have "trim_space ''hi'' = trim_space ''hi ''" by code_simp
  then show ?thesis
    using fingerprint_exact [OF clear_exact_texts, of sample_cmd "sample_cmd\<lparr>ba_services := [ID 8, ID 7]\<rparr>", THEN conjunct1]
      fingerprint_exact [OF clear_exact_texts, of sample_cmd "sample_cmd\<lparr>ba_note := ''hi ''\<rparr>", THEN conjunct1]
    by (simp add: sample_cmd_def)
qed

section \<open>What the shop books\<close>

lemma prepare_StaffBook_Inr:
  assumes "prepare_StaffBook tx p p' i db now cmd = Inr r"
  shows "\<exists>member. p_memberOf p (sb_actor cmd) (sb_business cmd) = Inr member
    \<and> worksAt member (sb_branch cmd) \<and> (mb_role member = RoleBarber \<longrightarrow> sb_barber cmd = mb_staff member)"
    and "r = Inr attempt \<Longrightarrow> \<exists>branch menu offers cands. p_bookable p (sb_branch cmd) = Inr branch
      \<and> bb_business branch = sb_business cmd \<and> checkStaffStart (sb_start cmd) now branch = None
      \<and> p_menu p (bb_business branch) (bb_id branch) = Inr menu
      \<and> chosen_offers tx p branch menu (sb_services cmd) (Some (sb_barber cmd)) offers
      \<and> candidates p db branch (DayOf (bb_location branch) (sb_start cmd)) offers = Inr cands
      \<and> (\<forall>d \<in> set (at_drafts attempt). staff_draft i branch menu cmd now = Inr d)
      \<and> at_stillWorking attempt = stillWorking p' branch \<and> at_allow attempt = None"
  using assms unfolding prepare_StaffBook_def Let_def chosen_offers_def
  by (auto split: if_splits sum.splits option.splits)

lemma staff_draft_Inr:
  assumes "staff_draft i branch menu cmd now = Inr a"
  shows "ap_business a = bb_business branch" "ap_branch a = bb_id branch" "ap_barber a = sb_barber cmd"
    "ap_start a = sb_start cmd" "itemsFor (sb_services cmd) menu (sb_barber cmd) = Some (ap_items a)"
    "ap_status a = StatusConfirmed" "ap_source a = SourceStaff" "ap_customerName a \<noteq> []"
proof -
  obtain its b where b: "itemsFor (sb_services cmd) menu (sb_barber cmd) = Some its" "Book b now = Inr a"
    "b_business b = bb_business branch" "b_branch b = bb_id branch" "b_barber b = sb_barber cmd"
    "b_start b = sb_start cmd" "b_items b = its" "b_autoConfirm b" "b_source b = Some SourceStaff" "b_customer b = zero_user"
    using assms unfolding staff_draft_def by (auto split: option.splits)
  have s: "ap_source a = SourceStaff" using b(2,9) by (auto simp: Book_def Let_def Snapshot.defs split: if_splits sum.splits)
  have n: "ap_customerName a \<noteq> []" using b(2,10)
    by (auto simp: Book_def Let_def Snapshot.defs zero_user_def ID_IsZero_def split: if_splits sum.splits)
  show "ap_business a = bb_business branch" "ap_branch a = bb_id branch" "ap_barber a = sb_barber cmd"
    "ap_start a = sb_start cmd" "itemsFor (sb_services cmd) menu (sb_barber cmd) = Some (ap_items a)"
    "ap_status a = StatusConfirmed" "ap_source a = SourceStaff" "ap_customerName a \<noteq> []"
    using b Book_fields [OF b(2)] Book_totals [OF b(2)] s n by simp_all
qed

lemma Store_Book_replayed:
  assumes "Store_Book db attempt = (Inr (a, True), db')"
  shows "db' = db"
proof -
  have tx: "book_tx db attempt = Inr (a, True, db')" using assms by (auto simp: Store_Book_def split: sum.splits)
  then show ?thesis using book_tx_old(2) [OF tx] book_tx_new(1) [OF tx] by blast
qed

text \<open>C19: Only the right staff book walk-ins, and only when it fits: a request that is answered comes
  from an active member who works at the branch (the owner works at all), and from a barber only for
  themselves; a new booking is at a bookable branch of that very business, with the named barber,
  confirmed at once and under the customer's name, at a whole minute no earlier than a quarter of an
  hour ago and within the horizon, inside a working window and free of clashes when it commits.\<close>

theorem walk_in_rules:
  assumes "BookHandlers_StaffBook tx p p' i db db' now cmd = (Inr (a, replayed), db'')"
  shows "(\<exists>m. p_memberOf p (sb_actor cmd) (sb_business cmd) = Inr m
      \<and> (mb_role m = RoleOwner \<or> sb_branch cmd \<in> set (mb_branches m))
      \<and> (mb_role m = RoleBarber \<longrightarrow> sb_barber cmd = mb_staff m))
    \<and> (if replayed then db'' = db'
       else \<exists>branch. p_bookable p (sb_branch cmd) = Inr branch \<and> bb_business branch = sb_business cmd
         \<and> ap_business a = sb_business cmd \<and> ap_branch a = bb_id branch \<and> ap_barber a = sb_barber cmd
         \<and> ap_start a = sb_start cmd \<and> map it_service (ap_items a) = sb_services cmd
         \<and> ap_status a = StatusConfirmed \<and> ap_customerName a \<noteq> []
         \<and> time_truncate (ap_start a) minute = ap_start a \<and> now - 15 * minute \<le> ap_start a
         \<and> ap_start a < Day_Start (Day_AddDays (last_day now branch) 1) (bb_location branch)
         \<and> (\<exists>ws w. p_windows p' (bb_business branch) (bb_id branch) [ap_barber a] (ap_start a) (ap_busyUntil a) = Inr ws
              \<and> w \<in> set (ws (ap_barber a)) \<and> Covers w (Busy a))
         \<and> (\<forall>q \<in> set (db_rows db'). \<not> rows_clash (appointment_row_of (snapshot a)) q))"
proof -
  obtain r where r: "prepare_StaffBook tx p p' i db now cmd = Inr r"
    using assms by (auto simp: BookHandlers_StaffBook_def run_attempt_def split: sum.splits)
  note access = prepare_StaffBook_Inr(1) [OF r]
  have "if replayed then db'' = db' else (\<exists>attempt. r = Inr attempt \<and> Store_Book db' attempt = (Inr (a, False), db''))"
    using assms r Store_Book_replayed
    by (auto simp: BookHandlers_StaffBook_def run_attempt_def split: sum.splits)
  moreover have ?thesis if "\<not> replayed" and att: "r = Inr attempt" "Store_Book db' attempt = (Inr (a, False), db'')" for attempt
  proof -
    note new = Store_Book_new [OF att(2)]
    obtain branch menu where p: "p_bookable p (sb_branch cmd) = Inr branch" "bb_business branch = sb_business cmd"
      "checkStaffStart (sb_start cmd) now branch = None" "staff_draft i branch menu cmd now = Inr a"
      "at_stillWorking attempt = stillWorking p' branch"
      using prepare_StaffBook_Inr(2) [OF r att(1)] new(1) by blast
    note d = staff_draft_Inr [OF p(4)]
    have "time_truncate (ap_start a) minute = ap_start a" "now - 15 * minute \<le> ap_start a"
      "ap_start a < Day_Start (Day_AddDays (last_day now branch) 1) (bb_location branch)"
      using p(3) d(4) by (auto simp: checkStaffStart_def time_add_def WalkInGrace_def split: if_splits)
    then show ?thesis
      using that(1) access p(1,2) d new(2,3) stillWorking_True [OF _ new(5), of p' branch] p(5) itemsFor_Some(1) [OF d(5)]
      by (auto simp: worksAt_def)
  qed
  ultimately show ?thesis using access by (cases replayed) (auto simp: worksAt_def)
qed

section \<open>No index out of range\<close>

definition quiet_ports :: "ports \<Rightarrow> bool" where
  "quiet_ports p \<longleftrightarrow> (\<forall>b. p_bookable p b \<noteq> Inl Panic) \<and> (\<forall>b c is. p_barbers p b c is \<noteq> Inl Panic)
     \<and> (\<forall>b c. p_menu p b c \<noteq> Inl Panic) \<and> (\<forall>b c is s e. p_windows p b c is s e \<noteq> Inl Panic)
     \<and> (\<forall>u b. p_memberOf p u b \<noteq> Inl Panic) \<and> (\<forall>b c. p_branchLocation p b c \<noteq> Inl Panic)"

lemma Book_quiet: "Book b now \<noteq> Inl Panic"
proof -
  have "fold_result add_item acc its \<noteq> Inl Panic" for acc its
    by (induction its arbitrary: acc) (auto simp: add_item_def split: sum.splits)
  then show ?thesis by (auto simp: Book_def Let_def split: sum.splits)
qed

lemma hydrate_quiet: "withItems db row \<noteq> Inl Panic"
proof -
  have "fold_result (\<lambda>acc it. case hydrate_item it of Inl e \<Rightarrow> Inl e | Inr i \<Rightarrow> Inr (acc @ [i])) acc its \<noteq> Inl Panic" for acc its
    by (induction its arbitrary: acc) (auto simp: hydrate_item_def split: sum.splits)
  then show ?thesis by (auto simp: withItems_def hydrate_def split: sum.splits)
qed

lemma replay_quiet: "BookingStore.replay db u k h \<noteq> Inl Panic"
  using hydrate_quiet by (auto simp: BookingStore.replay_def split: option.splits sum.splits)

lemma keep_offers_quiet: "keep_offers f os \<noteq> Inl Panic"
  by (induction os) (auto split: option.splits sum.splits)

lemma offersFor_quiet: "offersFor tx ss menu \<noteq> Inl Panic"
proof -
  have "offers_loop menu b os ss \<noteq> Inl Panic" for b os
    by (induction ss arbitrary: b os) (auto simp: keep_offers_quiet split: option.splits sum.splits)
  then show ?thesis by (auto simp: offersFor_def split: sum.splits)
qed

lemma draft_each_quiet:
  assumes "\<And>i s. s \<in> set ss \<Longrightarrow> mk i s \<noteq> Inl Panic"
  shows "draft_each mk n ss \<noteq> Inl Panic"
  using assms
proof (induction ss arbitrary: n)
  case (Cons s ss)
  have "draft_each mk (n + 1) ss \<noteq> Inl Panic" by (rule Cons.IH) (simp add: Cons.prems)
  then show ?case using Cons.prems [of s n] by (auto split: sum.splits)
qed simp

lemma book_drafts_quiet:
  assumes "\<And>d. at_stillWorking attempt d \<noteq> Inl Panic"
  shows "book_drafts db attempt ds \<noteq> Inl Panic"
  using assms
  by (induction ds) (auto simp: try_draft_def publish_def split: sum.splits option.splits if_splits insert_outcome.splits)

lemma Store_Book_quiet:
  assumes "\<And>d. at_stillWorking attempt d \<noteq> Inl Panic"
    "\<And>allow n. at_allow attempt = Some allow \<Longrightarrow> allow n \<noteq> Some Panic"
  shows "fst (Store_Book db attempt) \<noteq> Inl Panic"
proof -
  have "book_tx db attempt \<noteq> Inl Panic"
    unfolding book_tx_def Let_def using assms book_drafts_quiet [OF assms(1)] replay_quiet
    by (auto split: option.splits sum.splits)
  then show ?thesis by (auto simp: Store_Book_def split: sum.splits)
qed

lemma prepare_Book_quiet:
  assumes "quiet_ports p"
  shows "prepare_Book tx p p' fresh db now cmd \<noteq> Inl Panic"
proof
  assume panic: "prepare_Book tx p p' fresh db now cmd = Inl Panic"
  note q = assms [unfolded quiet_ports_def]
  have st: "stillThere p b os \<noteq> Inl Panic" for b os
    using q by (auto simp: stillThere_def Let_def split: if_splits sum.splits)
  have ob: "only_barber x os \<noteq> Inl Panic" for x os by (auto simp: only_barber_def split: option.splits)
  have ca: "candidates p db b d os \<noteq> Inl Panic" for b d os
    using q by (auto simp: candidates_def Store_Busy_def Let_def split: if_splits sum.splits)
  have cs: "checkStart s n b \<noteq> Some Panic" for s n b by (simp add: checkStart_def)
  let ?as = "if ba_barber cmd = None then AnyBarber else RequestedBarber"
  have "\<exists>branch menu offers cands. \<not> bad_services (ba_services cmd)
    \<and> chosen_offers tx p branch menu (ba_services cmd) (ba_barber cmd) offers
    \<and> candidates p db branch (DayOf (bb_location branch) (ba_start cmd)) offers = Inr cands
    \<and> draft_each (customer_draft fresh branch menu cmd ?as now) 0
       (freeAt tx (ba_start cmd) cands (DayOf (bb_location branch) (ba_start cmd)) (bb_location branch)) = Inl Panic"
    using panic q st ob ca cs replay_quiet offersFor_quiet unfolding prepare_Book_def Let_def chosen_offers_def
    by (simp split: if_splits sum.splits option.splits) blast+
  then obtain branch menu offers cands where o: "\<not> bad_services (ba_services cmd)"
    "chosen_offers tx p branch menu (ba_services cmd) (ba_barber cmd) offers"
    "candidates p db branch (DayOf (bb_location branch) (ba_start cmd)) offers = Inr cands"
    "draft_each (customer_draft fresh branch menu cmd ?as now) 0
       (freeAt tx (ba_start cmd) cands (DayOf (bb_location branch) (ba_start cmd)) (bb_location branch)) = Inl Panic"
    by blast
  have "customer_draft fresh branch menu cmd ?as now i s \<noteq> Inl Panic"
    if "s \<in> set (freeAt tx (ba_start cmd) cands (DayOf (bb_location branch) (ba_start cmd)) (bb_location branch))" for i s
  proof -
    have "s \<in> set (map c_staff cands)" using that by (auto simp: set_freeAt)
    then obtain o' where "o' \<in> set offers" "of_id o' = s" using candidates_Inr(1) [OF o(3)] by auto
    then obtain its where "itemsFor (ba_services cmd) menu s = Some its"
      using chosen_offers_items [OF o(2)] o(1) by (auto simp: bad_services_def)
    then show ?thesis by (simp add: customer_draft_def Book_quiet)
  qed
  then show False using draft_each_quiet o(4) by metis
qed

lemma stillWorking_quiet: "quiet_ports p \<Longrightarrow> stillWorking p branch a \<noteq> Inl Panic"
  by (auto simp: stillWorking_def quiet_ports_def Let_def split: sum.splits)

text \<open>The lookups of \<open>itemsFor\<close>, which index with the result of a search, never go out of range: as long
  as the other modules do not panic, booking an appointment does not.\<close>

theorem booking_never_panics:
  assumes "quiet_ports p" "quiet_ports p'"
  shows "fst (BookHandlers_Book tx p p' fresh db db' now cmd) \<noteq> Inl Panic"
proof -
  have "fst (Store_Book db' attempt) \<noteq> Inl Panic" if "prepare_Book tx p p' fresh db now cmd = Inr (Inr attempt)" for attempt
    using prepare_Book_Inr [OF that] stillWorking_quiet [OF assms(2)]
    by (intro Store_Book_quiet) (auto simp: Let_def customer_limit_def split: if_splits)
  then show ?thesis
    using prepare_Book_quiet [OF assms(1), of tx p' fresh db now cmd]
    by (auto simp: BookHandlers_Book_def run_attempt_def split: sum.splits)
qed

lemma quiet_sample_ports: "quiet_ports sample_ports"
  by (simp add: quiet_ports_def sample_ports_def)

theorem booking_never_panics_witness:
  "fst (BookHandlers_Book sample_texts sample_ports sample_ports (\<lambda>n. ID 10) empty_db empty_db 0 sample_cmd) \<noteq> Inl Panic"
  by (rule booking_never_panics [OF quiet_sample_ports quiet_sample_ports])

definition sample_walk_in :: StaffBooking where
  "sample_walk_in = \<lparr>sb_actor = ID 6, sb_business = ID 1, sb_branch = ID 2, sb_key = 78, sb_start = 3 * hour + minute,
     sb_services = [ID 7, ID 8], sb_barber = ID 3, sb_customerName = ''Omar'', sb_note = []\<rparr>"

definition sample_staff_attempt :: BookingAttempt where
  "sample_staff_attempt = \<lparr>at_requester = ID 6, at_branch = ID 2, at_key = 78, at_hash = staffRequestHash sample_texts sample_walk_in,
     at_now = 0, at_allow = None,
     at_drafts = (case staff_draft (ID 11) sample_branch sample_menu sample_walk_in 0 of Inl _ \<Rightarrow> [] | Inr d \<Rightarrow> [d]),
     at_stillWorking = stillWorking sample_ports sample_branch\<rparr>"

lemma sample_prepare_StaffBook:
  "prepare_StaffBook sample_texts sample_ports sample_ports (ID 11) empty_db 0 sample_walk_in = Inr (Inr sample_staff_attempt)"
proof -
  have p: "p_bookable sample_ports (ID 2) = Inr sample_branch" "p_menu sample_ports b c = Inr sample_menu"
    "p_memberOf sample_ports (ID 6) b = Inr \<lparr>mb_staff = ID 3, mb_role = RoleBarber, mb_branches = [ID 2]\<rparr>"
    "p_branchLocation sample_ports b (ID 2) = Inr riyadh" "sb_barber sample_walk_in = ID 3"
    "sb_services sample_walk_in = [ID 7, ID 8]" "bb_location sample_branch = riyadh" "sb_branch sample_walk_in = ID 2"
    "bb_business sample_branch = ID 1" "sb_business sample_walk_in = ID 1"
    "DayOf riyadh (sb_start sample_walk_in) = q_day sample_query" "sb_actor sample_walk_in = ID 6" "sb_key sample_walk_in = 78"
    "bb_id sample_branch = ID 2" for b c
    by (simp_all add: sample_ports_def sample_walk_in_def sample_branch_def, code_simp)
  have r: "BookingStore.replay empty_db u k h = Inr None" for u k h by (simp add: BookingStore.replay_def empty_db_def)
  have c: "checkStaffStart (sb_start sample_walk_in) 0 sample_branch = None"
    "freeAt sample_texts (sb_start sample_walk_in) sample_cands (q_day sample_query) riyadh = [ID 3]"
    "is_ok (staff_draft (ID 11) sample_branch sample_menu sample_walk_in 0)" "of_id sample_offer = ID 3"
    by code_simp+
  show ?thesis unfolding prepare_StaffBook_def p Let_def r
    using c(3) by (auto simp: p r c(1,2,4) sample_offers sample_still sample_candidates sample_day only_barber_def
      sample_staff_attempt_def is_ok_iff worksAt_def)
qed

theorem walk_in_rules_witness:
  "\<exists>a db'. BookHandlers_StaffBook sample_texts sample_ports sample_ports (ID 11) empty_db empty_db 0 sample_walk_in = (Inr (a, False), db')
     \<and> ap_barber a = ID 3 \<and> ap_status a = StatusConfirmed"
proof -
  let ?r = "BookHandlers_StaffBook sample_texts sample_ports sample_ports (ID 11) empty_db empty_db 0 sample_walk_in"
  have "(case fst (Store_Book empty_db sample_staff_attempt) of Inl _ \<Rightarrow> True | Inr (a, r) \<Rightarrow> r) = False" by code_simp
  then obtain a where "fst ?r = Inr (a, False)"
    by (auto simp: BookHandlers_StaffBook_def run_attempt_def sample_prepare_StaffBook split: sum.splits prod.splits)
  then have r: "?r = (Inr (a, False), snd ?r)" by (metis prod.collapse)
  have "sb_barber sample_walk_in = ID 3" by (simp add: sample_walk_in_def)
  then show ?thesis using walk_in_rules [OF r] r by auto
qed

end
