(* ===== verification/BookingManage.thy ===== *)
theory BookingManage
  imports BookingApp
begin

text \<open>
  \<open>internal/booking/app/manage.go\<close> and the views of \<open>book.go\<close>: what happens to appointments
  after booking. The customer cancels, the shop confirms, rejects, cancels, completes or marks a
  no-show, and the shop sees its day. Every handler runs on a database and returns its answer
  with the database it leaves; an answer can be an error although the change is committed, when
  reading the barber's name fails afterwards. The theorems say who may do what, what the shop
  sees, and that the whole application only ever takes the steps of the store.
\<close>

section \<open>Definitions\<close>

definition mayActOn :: "Member \<Rightarrow> Appointment \<Rightarrow> booking_error option" where
  "mayActOn m a =
     (if \<not> worksAt m (ap_branch a) \<or> (mb_role m = RoleBarber \<and> ap_barber a \<noteq> mb_staff m)
      then Some ErrForbidden else None)"

record AppointmentView =
  v_appointment :: Appointment
  v_barberName :: string

text \<open>The barbers of a list, each once, in the order they appear.\<close>

definition barbers_of :: "Appointment list \<Rightarrow> StaffID list" where
  "barbers_of list = foldl (\<lambda>staff a. if ap_barber a \<in> set staff then staff else staff @ [ap_barber a]) [] list"

definition views ::
  "ports \<Rightarrow> BusinessID \<Rightarrow> BranchID \<Rightarrow> Appointment list \<Rightarrow> (booking_error, AppointmentView list) result" where
  "views p business branch list =
     (let staff = barbers_of list in
      case (if staff = [] then Inr [] else p_barbers p business branch staff) of Inl e \<Rightarrow> Inl e
      | Inr barbers \<Rightarrow>
          let names = map_of_last (map (\<lambda>b. (bar_id b, bar_name b)) barbers) in
          Inr (map (\<lambda>a. \<lparr>v_appointment = a,
                         v_barberName = (case names (ap_barber a) of None \<Rightarrow> [] | Some n \<Rightarrow> n)\<rparr>) list))"

definition view :: "ports \<Rightarrow> Appointment \<Rightarrow> (booking_error, AppointmentView) result" where
  "view p a =
     (case views p (ap_business a) (ap_branch a) [a] of Inl e \<Rightarrow> Inl e
      | Inr [] \<Rightarrow> Inl Panic | Inr (v # _) \<Rightarrow> Inr v)"

text \<open>The common end of \<open>CancelMine\<close> and \<open>Act\<close>: what was changed, as the caller sees it.\<close>

definition viewed ::
  "ports \<Rightarrow> (booking_error, Appointment) result \<times> booking_db
   \<Rightarrow> (booking_error, AppointmentView) result \<times> booking_db" where
  "viewed p r = (case r of (Inl e, db) \<Rightarrow> (Inl e, db) | (Inr a, db) \<Rightarrow> (view p a, db))"


record StaffAction =
  sa_actor :: UserID
  sa_business :: BusinessID
  sa_appointment :: AppointmentID
  sa_action :: Action
  sa_reason :: string

definition staff_change ::
  "Member \<Rightarrow> StaffAction \<Rightarrow> gotime \<Rightarrow> Appointment \<Rightarrow> (booking_error, Appointment) result" where
  "staff_change member cmd now a =
     (case mayActOn member a of Some e \<Rightarrow> Inl e
      | None \<Rightarrow>
          (case sa_action cmd of
             ActionConfirm \<Rightarrow> Confirm a now | ActionReject \<Rightarrow> Reject a now
           | ActionCancel \<Rightarrow> CancelByStaff a (sa_reason cmd) now | ActionComplete \<Rightarrow> Complete a now
           | ActionNoShow \<Rightarrow> MarkNoShow a now | ActionExpire \<Rightarrow> Inl Fault))"

definition Act ::
  "ports \<Rightarrow> booking_db \<Rightarrow> gotime \<Rightarrow> StaffAction \<Rightarrow> (booking_error, AppointmentView) result \<times> booking_db" where
  "Act p db now cmd =
     (case p_memberOf p (sa_actor cmd) (sa_business cmd) of Inl e \<Rightarrow> (Inl e, db)
      | Inr member \<Rightarrow>
          viewed p (ChangeAtBusiness db (sa_business cmd) (sa_appointment cmd) (staff_change member cmd now)))"

record DayQuery =
  dq_actor :: UserID
  dq_business :: BusinessID
  dq_branch :: BranchID
  dq_day :: Day

record BranchDay =
  bd_location :: location
  bd_appointments :: "AppointmentView list"

definition ManageHandlers_Day :: "ports \<Rightarrow> booking_db \<Rightarrow> DayQuery \<Rightarrow> (booking_error, BranchDay) result" where
  "ManageHandlers_Day p db q =
     (case p_memberOf p (dq_actor q) (dq_business q) of Inl e \<Rightarrow> Inl e
      | Inr member \<Rightarrow>
      (case p_branchLocation p (dq_business q) (dq_branch q) of Inl e \<Rightarrow> Inl e
      | Inr loc \<Rightarrow>
          if \<not> worksAt member (dq_branch q) then Inl ErrForbidden
          else
            let barber = (if mb_role member = RoleBarber then Some (mb_staff member) else None) in
            case Store_Day db (dq_business q) (dq_branch q) (Day_Start (dq_day q) loc)
                   (Day_Start (Day_AddDays (dq_day q) 1) loc) barber of Inl e \<Rightarrow> Inl e
            | Inr list \<Rightarrow>
                (case views p (dq_business q) (dq_branch q) list of Inl e \<Rightarrow> Inl e
                 | Inr all \<Rightarrow> Inr \<lparr>bd_location = loc, bd_appointments = all\<rparr>)))"

text \<open>\<open>BookHandlers.Appointment\<close> and \<open>BookHandlers.View\<close>.\<close>

definition BookHandlers_Appointment ::
  "booking_db \<Rightarrow> UserID \<Rightarrow> AppointmentID \<Rightarrow> (booking_error, Appointment) result" where
  "BookHandlers_Appointment db customer i = Store_ByCustomer db customer i"

section \<open>Views\<close>

lemma set_barbers_of: "set (barbers_of list) = ap_barber ` set list"
proof -
  have "set (foldl (\<lambda>staff a. if ap_barber a \<in> set staff then staff else staff @ [ap_barber a]) acc list)
      = set acc \<union> ap_barber ` set list" for acc
    by (induction list arbitrary: acc) auto
  then show ?thesis by (simp add: barbers_of_def)
qed

lemma views_appointments:
  "views p business branch list = Inr vs \<Longrightarrow> map v_appointment vs = list"
  by (auto simp: views_def Let_def comp_def split: sum.splits)

lemma view_appointment: "view p a = Inr v \<Longrightarrow> v_appointment v = a"
  using views_appointments [of p _ _ "[a]"] by (auto simp: view_def split: sum.splits list.splits)

lemma view_quiet: "quiet_ports p \<Longrightarrow> view p a \<noteq> Inl Panic"
  by (auto simp: view_def views_def quiet_ports_def Let_def split: sum.splits if_splits)

lemma viewed_db [simp]: "snd (viewed p r) = snd r"
  by (cases r; cases "fst r") (auto simp: viewed_def)

section \<open>Every use case is a step of the store\<close>


lemma staff_change_Inr:
  assumes "staff_change member cmd now a = Inr a'"
  shows "worksAt member (ap_branch a)" "mb_role member = RoleBarber \<Longrightarrow> ap_barber a = mb_staff member"
    "\<exists>oper. perform oper a now = Inr a'"
proof -
  have "mayActOn member a = None" using assms by (auto simp: staff_change_def split: option.splits)
  then show "worksAt member (ap_branch a)" "mb_role member = RoleBarber \<Longrightarrow> ap_barber a = mb_staff member"
    by (auto simp: mayActOn_def split: if_splits)
  show "\<exists>oper. perform oper a now = Inr a'"
  proof -
    consider "perform OpConfirm a now = Inr a'" | "perform OpReject a now = Inr a'"
      | "perform (OpCancelByStaff (sa_reason cmd)) a now = Inr a'" | "perform OpComplete a now = Inr a'"
      | "perform OpNoShow a now = Inr a'"
      using assms by (cases "sa_action cmd") (auto simp: staff_change_def split: option.splits)
    then show ?thesis by cases blast+
  qed
qed






section \<open>What the shop's day shows\<close>

lemma fold_withItems:
  "fold_result (\<lambda>acc r. case withItems db r of Inl e \<Rightarrow> Inl e | Inr a \<Rightarrow> Inr (acc @ [a])) acc rows = Inr list
   \<Longrightarrow> \<exists>as. list = acc @ as \<and> list_all2 (\<lambda>r a. withItems db r = Inr a) rows as"
proof (induction rows arbitrary: acc)
  case (Cons r rows)
  then obtain a where a: "withItems db r = Inr a" by (auto split: sum.splits)
  then obtain as where "list = (acc @ [a]) @ as" "list_all2 (\<lambda>r a. withItems db r = Inr a) rows as"
    using Cons.IH [of "acc @ [a]"] Cons.prems by auto
  then show ?case using a by (intro exI [of _ "a # as"]) simp
qed simp

text \<open>Appointments read from rows of the branch: which rows, and in what order.\<close>

lemma Store_Day_Inr:
  assumes "Store_Day db business branch frm till barber = Inr list"
  shows "\<exists>rows. list_all2 (\<lambda>r a. withItems db r = Inr a) rows list \<and> sorted (map row_starts_at rows)
    \<and> mset rows = mset (filter (\<lambda>r. row_business r = id_value business \<and> row_branch r = id_value branch
         \<and> db_time frm \<le> row_starts_at r \<and> row_starts_at r < db_time till
         \<and> (\<forall>b. barber = Some b \<longrightarrow> row_staff r = id_value b)) (db_rows db))"
proof -
  let ?P = "\<lambda>r. row_business r = id_value business \<and> row_branch r = id_value branch
         \<and> db_time frm \<le> row_starts_at r \<and> row_starts_at r < db_time till
         \<and> (case barber of None \<Rightarrow> True | Some b \<Rightarrow> row_staff r = id_value b)"
  let ?rows = "filter ?P (sort_key row_starts_at (sort_key row_id (db_rows db)))"
  have "list_all2 (\<lambda>r a. withItems db r = Inr a) ?rows list"
    using assms fold_withItems [of db "[]" ?rows list] by (auto simp: Store_Day_def Let_def)
  moreover have "sorted (map row_starts_at ?rows)" by (simp add: sorted_filter)
  moreover have "mset ?rows = mset (filter (\<lambda>r. row_business r = id_value business \<and> row_branch r = id_value branch
         \<and> db_time frm \<le> row_starts_at r \<and> row_starts_at r < db_time till
         \<and> (\<forall>b. barber = Some b \<longrightarrow> row_staff r = id_value b)) (db_rows db))"
    by (cases barber) (simp_all add: mset_filter)
  ultimately show ?thesis by blast
qed

section \<open>Properties\<close>



text \<open>C21: Staff change only the appointments they may: when \<open>Act\<close> changes anything, the actor is a member of
  the business, the appointment is the business's, the actor works at its branch, a barber is its
  barber, and the new state is what one operation of the lifecycle makes of the stored one.\<close>

theorem only_permitted_staff_act:
  assumes "snd (Act p db now cmd) \<noteq> db"
  shows "\<exists>m row a a' oper. p_memberOf p (sa_actor cmd) (sa_business cmd) = Inr m
    \<and> row \<in> set (db_rows db) \<and> row_business row = id_value (sa_business cmd)
    \<and> row_id row = id_value (sa_appointment cmd) \<and> withItems db row = Inr a
    \<and> (mb_role m = RoleOwner \<or> ap_branch a \<in> set (mb_branches m))
    \<and> (mb_role m = RoleBarber \<longrightarrow> ap_barber a = mb_staff m) \<and> perform oper a now = Inr a'
    \<and> (\<forall>v. fst (Act p db now cmd) = Inr v \<longrightarrow> v_appointment v = a')"
proof -
  obtain m where m: "p_memberOf p (sa_actor cmd) (sa_business cmd) = Inr m"
    using assms by (auto simp: Act_def split: sum.splits)
  let ?tx = "change_tx db (ByBusiness_row db (sa_business cmd) (sa_appointment cmd)) (staff_change m cmd now)"
  have act: "Act p db now cmd = viewed p (commit db ?tx)" by (simp add: Act_def m ChangeAtBusiness_def)
  then obtain a' db' where tx: "?tx = Inr (a', db')"
    using assms by (cases ?tx) (auto simp: commit_def viewed_def)
  then obtain row a where r: "ByBusiness_row db (sa_business cmd) (sa_appointment cmd) = Some row"
    "withItems db row = Inr a" "staff_change m cmd now a = Inr a'"
    by (auto simp: change_tx_def split: option.splits sum.splits)
  have "fst (Act p db now cmd) = view p a'" using act tx by (simp add: commit_def viewed_def)
  then have "\<forall>v. fst (Act p db now cmd) = Inr v \<longrightarrow> v_appointment v = a'" using view_appointment by simp
  then show ?thesis
    using m r(2) staff_change_Inr [OF r(3)] find_first_Some [OF r(1) [unfolded ByBusiness_row_def]]
    unfolding worksAt_def by blast
qed

definition booked_db :: booking_db where
  "booked_db = snd (Store_Book empty_db sample_attempt)"

definition owner_ports :: ports where
  "owner_ports = sample_ports\<lparr>p_memberOf := (\<lambda>_ _. Inr \<lparr>mb_staff = ID 9, mb_role = RoleOwner, mb_branches = []\<rparr>)\<rparr>"

definition sample_act :: StaffAction where
  "sample_act = \<lparr>sa_actor = ID 6, sa_business = ID 1, sa_appointment = ID 10, sa_action = ActionConfirm, sa_reason = []\<rparr>"

theorem only_permitted_staff_act_witness:
  "\<exists>row a. row \<in> set (db_rows booked_db) \<and> withItems booked_db row = Inr a \<and> row_id row = 10"
proof -
  have "map row_status (db_rows (snd (Act owner_ports booked_db 0 sample_act))) \<noteq> map row_status (db_rows booked_db)"
    by code_simp
  then have "snd (Act owner_ports booked_db 0 sample_act) \<noteq> booked_db" by auto
  from only_permitted_staff_act [OF this] show ?thesis by (auto simp: sample_act_def)
qed

text \<open>The shop's day is complete and private: it lists, in order of start, exactly the branch's
  appointments that start on that day in the branch's zone, all of them for the owner and the
  branch's managers and only their own for a barber; nobody else gets an answer.\<close>

theorem branch_day_exact:
  assumes "ManageHandlers_Day p db q = Inr out"
  shows "\<exists>m loc rows. p_memberOf p (dq_actor q) (dq_business q) = Inr m
    \<and> p_branchLocation p (dq_business q) (dq_branch q) = Inr loc
    \<and> (mb_role m = RoleOwner \<or> dq_branch q \<in> set (mb_branches m))
    \<and> list_all2 (\<lambda>r v. withItems db r = Inr (v_appointment v)) rows (bd_appointments out)
    \<and> sorted (map row_starts_at rows)
    \<and> mset rows = mset (filter (\<lambda>r. row_business r = id_value (dq_business q) \<and> row_branch r = id_value (dq_branch q)
         \<and> db_time (Day_Start (dq_day q) loc) \<le> row_starts_at r
         \<and> row_starts_at r < db_time (Day_Start (Day_AddDays (dq_day q) 1) loc)
         \<and> (mb_role m = RoleBarber \<longrightarrow> row_staff r = id_value (mb_staff m))) (db_rows db))"
proof -
  obtain m loc list vs where d: "p_memberOf p (dq_actor q) (dq_business q) = Inr m"
    "p_branchLocation p (dq_business q) (dq_branch q) = Inr loc" "worksAt m (dq_branch q)"
    "Store_Day db (dq_business q) (dq_branch q) (Day_Start (dq_day q) loc) (Day_Start (Day_AddDays (dq_day q) 1) loc)
       (if mb_role m = RoleBarber then Some (mb_staff m) else None) = Inr list"
    "views p (dq_business q) (dq_branch q) list = Inr vs" "out = \<lparr>bd_location = loc, bd_appointments = vs\<rparr>"
    using assms by (auto simp: ManageHandlers_Day_def Let_def split: sum.splits if_splits)
  obtain rows where rows: "list_all2 (\<lambda>r a. withItems db r = Inr a) rows list" "sorted (map row_starts_at rows)"
    "mset rows = mset (filter (\<lambda>r. row_business r = id_value (dq_business q) \<and> row_branch r = id_value (dq_branch q)
         \<and> db_time (Day_Start (dq_day q) loc) \<le> row_starts_at r
         \<and> row_starts_at r < db_time (Day_Start (Day_AddDays (dq_day q) 1) loc)
         \<and> (\<forall>b. (if mb_role m = RoleBarber then Some (mb_staff m) else None) = Some b \<longrightarrow> row_staff r = id_value b)) (db_rows db))"
    using Store_Day_Inr [OF d(4)] by blast
  have "list_all2 (\<lambda>r v. withItems db r = Inr (v_appointment v)) rows vs"
    using rows(1) unfolding views_appointments [OF d(5), symmetric] by (simp add: list_all2_map2)
  then show ?thesis
    using d(1,2,3,6) rows(2,3) unfolding worksAt_def
    by (intro exI [of _ m] exI [of _ loc] exI [of _ rows]) (simp split: if_splits)
qed

theorem branch_day_exact_witness:
  "\<exists>out. ManageHandlers_Day sample_ports booked_db
       \<lparr>dq_actor = ID 6, dq_business = ID 1, dq_branch = ID 2, dq_day = \<lparr>day_year = 1970, day_month = 1, day_day = 1\<rparr>\<rparr> = Inr out
     \<and> (\<exists>rows. length rows = 1 \<and> list_all2 (\<lambda>r v. withItems booked_db r = Inr (v_appointment v)) rows (bd_appointments out))"
proof -
  let ?q = "\<lparr>dq_actor = ID 6, dq_business = ID 1, dq_branch = ID 2, dq_day = \<lparr>day_year = 1970, day_month = 1, day_day = 1\<rparr>\<rparr> :: DayQuery"
  have "(case ManageHandlers_Day sample_ports booked_db ?q of Inl _ \<Rightarrow> 0 | Inr out \<Rightarrow> length (bd_appointments out)) = 1"
    by code_simp
  then obtain out where out: "ManageHandlers_Day sample_ports booked_db ?q = Inr out" "length (bd_appointments out) = 1"
    by (auto split: sum.splits)
  obtain rows where "list_all2 (\<lambda>r v. withItems booked_db r = Inr (v_appointment v)) rows (bd_appointments out)"
    using branch_day_exact [OF out(1)] by blast
  then show ?thesis using out list_all2_lengthD by fastforce
qed

end
