(* ===== verification/Weekly.thy ===== *)
theory Weekly
  imports Prelude
begin

text \<open>
  \<open>internal/scheduling/domain/weekly.go\<close>: repeating weekly hours as branch-local wall-clock
  minutes. \<open>NewWeeklyHours\<close> sorts its input, checks each interval, counts the intervals
  starting on each weekday and then compares neighbours, the last one with the first of the
  next week. The specification reads the week as a circle of 10080 minutes:
  \<open>week_minutes\<close> is the set of minutes an interval occupies on it. The theorems show that
  the neighbour check accepts exactly the lists whose intervals are pairwise disjoint on the
  circle, and that \<open>Overlaps\<close> decides whether two weeks share a minute.
\<close>

section \<open>Errors, intervals and hours\<close>

text \<open>\<open>Fault\<close> is an error the domain has no name for (a constraint of the database), \<open>Panic\<close> a panic.\<close>

datatype scheduling_error =
    ErrNotFound | ErrForbidden | ErrVersionConflict
  | ErrInvalidWeekday | ErrInvalidInterval | ErrTooManyIntervals | ErrOverlappingIntervals
  | ErrInvalidDate | ErrTooManyOverrides | ErrScheduleClash | ErrInvalidTimeOff
  | ErrReasonTooLong | ErrTimeOffOverlaps | ErrInvalidRange | Fault | Panic

definition MinutesPerDay :: int where "MinutesPerDay = 1440"
definition MinutesPerWeek :: int where "MinutesPerWeek = 10080"
definition Step :: int where "Step = 5"
definition MaxPerDay :: int where "MaxPerDay = 4"

lemmas week_constants = MinutesPerDay_def MinutesPerWeek_def Step_def MaxPerDay_def

record WeeklyInterval =
  wi_day :: int
  wi_start :: int
  wi_minutes :: int

definition End :: "WeeklyInterval \<Rightarrow> int" where
  "End i = wrap64 (wi_start i + wi_minutes i)"

definition weekStart :: "WeeklyInterval \<Rightarrow> int" where
  "weekStart i = wrap64 (wi_day i * MinutesPerDay + wi_start i)"

record WeeklyHours =
  wh_intervals :: "WeeklyInterval list"

definition IsClosed :: "WeeklyHours \<Rightarrow> bool" where
  "IsClosed w \<longleftrightarrow> wh_intervals w = []"

text \<open>The first loop of \<open>NewWeeklyHours\<close>; \<open>n\<close> is its map \<open>perDay\<close>.\<close>

fun check_each :: "(int \<Rightarrow> int) \<Rightarrow> WeeklyInterval list \<Rightarrow> scheduling_error option" where
  "check_each n [] = None"
| "check_each n (i # is) =
     (if wi_day i < 0 \<or> 6 < wi_day i then Some ErrInvalidWeekday
      else if wi_start i < 0 \<or> MinutesPerDay \<le> wi_start i \<or> go_mod (wi_start i) Step \<noteq> 0
        \<or> wi_minutes i < Step \<or> MinutesPerDay < wi_minutes i \<or> go_mod (wi_minutes i) Step \<noteq> 0
      then Some ErrInvalidInterval
      else let n' = n(wi_day i := n (wi_day i) + 1) in
        if MaxPerDay < n' (wi_day i) then Some ErrTooManyIntervals else check_each n' is)"

text \<open>The body of its second loop, at index \<open>n\<close>: does the interval run into the next one?\<close>

definition runs_into_next :: "WeeklyInterval list \<Rightarrow> nat \<Rightarrow> bool" where
  "runs_into_next xs n =
     (let cur = xs ! n; nxt = xs ! ((n + 1) mod length xs);
          e = weekStart cur + wi_minutes cur;
          nextStart = weekStart nxt + (if n = length xs - 1 then MinutesPerWeek else 0)
      in 1 < length xs \<and> nextStart < e)"

definition NewWeeklyHours ::
  "WeeklyInterval list \<Rightarrow> (scheduling_error, WeeklyHours) result" where
  "NewWeeklyHours intervals =
     (let xs = sort_key weekStart intervals in
      case check_each (\<lambda>_. 0) xs of Some e \<Rightarrow> Inl e
      | None \<Rightarrow>
          (if list_ex (runs_into_next xs) [0 ..< length xs] then Inl ErrOverlappingIntervals
           else Inr \<lparr>wh_intervals = xs\<rparr>))"

definition IntervalFromClock :: "int \<Rightarrow> int \<Rightarrow> int \<Rightarrow> WeeklyInterval" where
  "IntervalFromClock day opens closes =
     (let m = go_mod (go_mod (closes - opens) MinutesPerDay + MinutesPerDay) MinutesPerDay
      in \<lparr>wi_day = day, wi_start = opens, wi_minutes = (if m = 0 then MinutesPerDay else m)\<rparr>)"

definition Clock :: "WeeklyInterval \<Rightarrow> int \<times> int" where
  "Clock i =
     (let e = End i in
      if e = MinutesPerDay then (wi_start i, MinutesPerDay)
      else (wi_start i, go_mod e MinutesPerDay))"

definition weekly_clash :: "WeeklyInterval \<Rightarrow> WeeklyInterval \<Rightarrow> bool" where
  "weekly_clash a b =
     (let as = weekStart a; bs = weekStart b in
      list_ex (\<lambda>shift. as < bs + shift + wi_minutes b \<and> bs + shift < as + wi_minutes a)
        [- MinutesPerWeek, 0, MinutesPerWeek])"

definition WeeklyOverlaps :: "WeeklyHours \<Rightarrow> WeeklyHours \<Rightarrow> bool" where
  "WeeklyOverlaps w v =
     list_ex (\<lambda>a. list_ex (\<lambda>b. weekly_clash a b) (wh_intervals v)) (wh_intervals w)"

section \<open>Specification: the week as a circle of minutes\<close>

definition valid_weekly :: "WeeklyInterval \<Rightarrow> bool" where
  "valid_weekly i \<longleftrightarrow> 0 \<le> wi_day i \<and> wi_day i \<le> 6
     \<and> 0 \<le> wi_start i \<and> wi_start i < 1440 \<and> 5 dvd wi_start i
     \<and> 5 \<le> wi_minutes i \<and> wi_minutes i \<le> 1440 \<and> 5 dvd wi_minutes i"

definition week_minutes :: "WeeklyInterval \<Rightarrow> int set" where
  "week_minutes i = (\<lambda>m. m mod 10080) ` {weekStart i ..< weekStart i + wi_minutes i}"

definition starts_on :: "WeeklyInterval list \<Rightarrow> int \<Rightarrow> int" where
  "starts_on xs d = int (length (filter (\<lambda>i. wi_day i = d) xs))"

definition pairwise_free :: "WeeklyInterval list \<Rightarrow> bool" where
  "pairwise_free xs \<longleftrightarrow> sorted_wrt (\<lambda>i j. week_minutes i \<inter> week_minutes j = {}) xs"

definition valid_hours :: "WeeklyInterval list \<Rightarrow> bool" where
  "valid_hours xs \<longleftrightarrow>
     (\<forall>i \<in> set xs. valid_weekly i) \<and> (\<forall>d. starts_on xs d \<le> 4) \<and> pairwise_free xs"

section \<open>Facts about single intervals\<close>

lemma weekStart_valid:
  assumes "valid_weekly i"
  shows "weekStart i = wi_day i * 1440 + wi_start i" "0 \<le> weekStart i" "weekStart i < 10080"
proof -
  show eq: "weekStart i = wi_day i * 1440 + wi_start i"
    using assms unfolding weekStart_def MinutesPerDay_def
    by (intro wrap64_small) (auto simp: valid_weekly_def)
  show "0 \<le> weekStart i" "weekStart i < 10080"
    using assms unfolding eq by (auto simp: valid_weekly_def)
qed

lemma week_minutes_meet_iff:
  assumes "valid_weekly a" "valid_weekly b"
  shows "week_minutes a \<inter> week_minutes b \<noteq> {} \<longleftrightarrow>
    (\<exists>k \<in> {-10080, 0, 10080}. weekStart a < weekStart b + k + wi_minutes b
      \<and> weekStart b + k < weekStart a + wi_minutes a)"
    (is "?L \<longleftrightarrow> ?R")
proof
  note ab = weekStart_valid [OF assms(1)] weekStart_valid [OF assms(2)]
  assume ?L
  then obtain x y where x: "weekStart a \<le> x" "x < weekStart a + wi_minutes a"
    and y: "weekStart b \<le> y" "y < weekStart b + wi_minutes b" and "x mod 10080 = y mod 10080"
    by (auto simp: week_minutes_def)
  then obtain q where q: "x = y + 10080 * q"
    by (metis mod_eqE)
  have "wi_minutes a \<le> 1440" "wi_minutes b \<le> 1440" using assms by (simp_all add: valid_weekly_def)
  then have "- 2 < q" "q < 2" using x y ab unfolding q by linarith+
  then have "q = -1 \<or> q = 0 \<or> q = 1" by linarith
  then show ?R using x y q by auto
next
  note ab = weekStart_valid [OF assms(1)] weekStart_valid [OF assms(2)]
  assume ?R
  then obtain k where k: "k \<in> {-10080, 0, 10080}" "weekStart a < weekStart b + k + wi_minutes b"
    "weekStart b + k < weekStart a + wi_minutes a" by blast
  let ?x = "max (weekStart a) (weekStart b + k)"
  have "?x \<in> {weekStart a ..< weekStart a + wi_minutes a}"
    "?x - k \<in> {weekStart b ..< weekStart b + wi_minutes b}"
    using k assms by (auto simp: valid_weekly_def)
  moreover have "z mod 10080 = (z - k) mod 10080" for z :: int
    using k(1) by auto
  ultimately show ?L unfolding week_minutes_def by blast
qed

lemma weekly_clash_iff:
  assumes "valid_weekly a" "valid_weekly b"
  shows "weekly_clash a b \<longleftrightarrow> week_minutes a \<inter> week_minutes b \<noteq> {}"
  unfolding week_minutes_meet_iff [OF assms] by (simp add: weekly_clash_def MinutesPerWeek_def Let_def)

text \<open>In order of their starts, two intervals are apart when neither reaches the other's next start.\<close>

lemma apart_iff:
  assumes "valid_weekly a" "valid_weekly b" "weekStart a \<le> weekStart b"
  shows "week_minutes a \<inter> week_minutes b = {} \<longleftrightarrow>
    weekStart a + wi_minutes a \<le> weekStart b \<and> weekStart b + wi_minutes b \<le> weekStart a + 10080"
  using week_minutes_meet_iff [OF assms(1,2)] assms weekStart_valid [OF assms(1)] weekStart_valid [OF assms(2)]
  by (auto simp: valid_weekly_def)

section \<open>\<open>NewWeeklyHours\<close> accepts exactly the valid weeks\<close>

lemma valid_weekly_check:
  "valid_weekly i \<longleftrightarrow> \<not> (wi_day i < 0 \<or> 6 < wi_day i)
     \<and> \<not> (wi_start i < 0 \<or> MinutesPerDay \<le> wi_start i \<or> go_mod (wi_start i) Step \<noteq> 0
        \<or> wi_minutes i < Step \<or> MinutesPerDay < wi_minutes i \<or> go_mod (wi_minutes i) Step \<noteq> 0)"
  by (auto simp: valid_weekly_def week_constants go_mod_eq_0_iff)

lemma starts_on_Cons: "starts_on (i # is) d = (if wi_day i = d then 1 else 0) + starts_on is d"
  by (simp add: starts_on_def)

lemma starts_on_nonneg: "0 \<le> starts_on xs d"
  by (simp add: starts_on_def)

lemma check_each_Cons:
  "check_each n (i # is) = None \<longleftrightarrow>
     valid_weekly i \<and> n (wi_day i) + 1 \<le> 4
     \<and> check_each (n(wi_day i := n (wi_day i) + 1)) is = None"
proof (cases "valid_weekly i")
  case True
  then show ?thesis
    unfolding valid_weekly_check
    by (simp only: check_each.simps if_False Let_def MaxPerDay_def fun_upd_same simp_thms)
      (simp add: not_less)
next
  case False
  then show ?thesis
    unfolding valid_weekly_check by (simp only: check_each.simps) auto
qed

lemma check_each_None_iff:
  assumes "\<forall>d. n d \<le> 4"
  shows "check_each n xs = None \<longleftrightarrow>
    (\<forall>i \<in> set xs. valid_weekly i) \<and> (\<forall>d. n d + starts_on xs d \<le> 4)"
  using assms
proof (induction xs arbitrary: n)
  case Nil
  then show ?case by (simp add: starts_on_def)
next
  case (Cons i "is")
  let ?n' = "n(wi_day i := n (wi_day i) + 1)"
  have sum: "(\<forall>d. n d + starts_on (i # is) d \<le> 4) \<longleftrightarrow> (\<forall>d. ?n' d + starts_on is d \<le> 4)"
    by (auto simp: starts_on_Cons)
  have "n (wi_day i) + 1 \<le> 4" if "\<forall>d. ?n' d + starts_on is d \<le> 4"
    using that [rule_format, of "wi_day i"] starts_on_nonneg [of "is" "wi_day i"] by simp
  moreover have "\<forall>d. ?n' d \<le> 4" if "n (wi_day i) + 1 \<le> 4"
    using that Cons.prems by simp
  ultimately show ?case
    unfolding check_each_Cons sum list.set ball_simps using Cons.IH [of ?n'] by blast
qed

text \<open>Neighbours in order are apart, and the last one ends before the first starts again.\<close>

definition chained :: "WeeklyInterval list \<Rightarrow> bool" where
  "chained xs \<longleftrightarrow>
     (\<forall>n. Suc n < length xs \<longrightarrow> weekStart (xs ! n) + wi_minutes (xs ! n) \<le> weekStart (xs ! Suc n))
     \<and> (1 < length xs \<longrightarrow> weekStart (last xs) + wi_minutes (last xs) \<le> weekStart (hd xs) + 10080)"

lemma runs_into_next_inner:
  "Suc n < length xs \<Longrightarrow>
     runs_into_next xs n \<longleftrightarrow> weekStart (xs ! Suc n) < weekStart (xs ! n) + wi_minutes (xs ! n)"
  by (auto simp: runs_into_next_def Let_def)

lemma runs_into_next_last:
  assumes "1 < length xs"
  shows "runs_into_next xs (length xs - 1) \<longleftrightarrow>
      weekStart (hd xs) + 10080 < weekStart (last xs) + wi_minutes (last xs)"
proof -
  have "xs \<noteq> []" "length xs - 1 + 1 = length xs" using assms by auto
  then have "xs ! ((length xs - 1 + 1) mod length xs) = hd xs" "xs ! (length xs - 1) = last xs"
    by (simp_all add: hd_conv_nth last_conv_nth)
  then show ?thesis using assms by (simp add: runs_into_next_def Let_def MinutesPerWeek_def)
qed

lemma runs_into_next_iff:
  "list_ex (runs_into_next xs) [0 ..< length xs] \<longleftrightarrow> \<not> chained xs"
proof (cases "1 < length xs")
  case False
  then show ?thesis by (auto simp: chained_def list_ex_iff runs_into_next_def)
next
  case True
  have "list_ex (runs_into_next xs) [0 ..< length xs] \<longleftrightarrow>
      (\<exists>n. Suc n < length xs \<and> runs_into_next xs n) \<or> runs_into_next xs (length xs - 1)"
    unfolding list_ex_iff set_upt
  proof safe
    fix n assume n: "n \<in> {0 ..< length xs}" "runs_into_next xs n" "\<not> runs_into_next xs (length xs - 1)"
    then have "n \<noteq> length xs - 1" by metis
    then show "\<exists>n. Suc n < length xs \<and> runs_into_next xs n" using n by (intro exI [of _ n]) auto
  qed (use True in \<open>auto intro: bexI [of _ "length xs - 1"]\<close>)
  also have "\<dots> \<longleftrightarrow> \<not> chained xs"
    using True runs_into_next_inner [of _ xs] runs_into_next_last [OF True]
    unfolding chained_def by (metis not_le)
  finally show ?thesis .
qed

lemma pairwise_free_iff_chained:
  assumes valid: "\<forall>i \<in> set xs. valid_weekly i" and sorted: "sorted (map weekStart xs)"
  shows "pairwise_free xs \<longleftrightarrow> chained xs"
proof
  have v: "valid_weekly (xs ! n)" if "n < length xs" for n using valid that by simp
  have mono: "weekStart (xs ! m) \<le> weekStart (xs ! n)" if "m \<le> n" "n < length xs" for m n
    using sorted_nth_mono [OF sorted, of m n] that by simp
  {
    assume free: "pairwise_free xs"
    have apart: "weekStart (xs ! m) + wi_minutes (xs ! m) \<le> weekStart (xs ! n)
        \<and> weekStart (xs ! n) + wi_minutes (xs ! n) \<le> weekStart (xs ! m) + 10080"
      if "m < n" "n < length xs" for m n
    proof -
      have "week_minutes (xs ! m) \<inter> week_minutes (xs ! n) = {}"
        using free that by (simp add: pairwise_free_def sorted_wrt_iff_nth_less)
      then show ?thesis using apart_iff [OF v v mono, of m n] that by simp
    qed
    show "chained xs"
      unfolding chained_def
      using apart [of _ "Suc _"] apart [of 0 "length xs - 1"]
      by (cases "xs = []") (auto simp: hd_conv_nth last_conv_nth)
  next
    assume ch: "chained xs"
    have before: "weekStart (xs ! m) + wi_minutes (xs ! m) \<le> weekStart (xs ! n)"
      if "m < n" "n < length xs" for m n
      using ch mono [of "Suc m" n] that unfolding chained_def by (metis Suc_leI Suc_lessI le_less_trans less_trans_Suc order_trans)
    have wrap: "weekStart (xs ! n) + wi_minutes (xs ! n) \<le> weekStart (xs ! m) + 10080"
      if "m < n" "n < length xs" for m n
    proof -
      have "xs \<noteq> []" using that by auto
      then have l: "last xs = xs ! (length xs - 1)" "hd xs = xs ! 0" "1 < length xs"
        using that by (simp_all add: last_conv_nth hd_conv_nth)
      have "weekStart (xs ! n) + wi_minutes (xs ! n) \<le> weekStart (last xs) + wi_minutes (last xs)"
      proof (cases "n = length xs - 1")
        case True
        then show ?thesis using l by simp
      next
        case False
        then have "weekStart (xs ! n) + wi_minutes (xs ! n) \<le> weekStart (last xs)"
          using before [of n "length xs - 1"] that l by simp
        moreover have "5 \<le> wi_minutes (last xs)"
          using v [of "length xs - 1"] l by (simp add: valid_weekly_def)
        ultimately show ?thesis by simp
      qed
      also have "\<dots> \<le> weekStart (hd xs) + 10080" using ch l by (simp add: chained_def)
      also have "\<dots> \<le> weekStart (xs ! m) + 10080" using mono [of 0 m] that l by simp
      finally show ?thesis .
    qed
    show "pairwise_free xs"
      unfolding pairwise_free_def sorted_wrt_iff_nth_less
    proof (intro allI impI)
      fix m n assume mn: "m < n" "n < length xs"
      then show "week_minutes (xs ! m) \<inter> week_minutes (xs ! n) = {}"
        using apart_iff [of "xs ! m" "xs ! n"] v [of m] v [of n] mono [of m n] before wrap by simp
    qed
  }
qed

lemma sorted_wrt_perm:
  assumes sym: "\<And>x y. P x y \<Longrightarrow> P y x" and "mset xs = mset ys" "sorted_wrt P xs"
  shows "sorted_wrt P ys"
  using assms(2,3)
proof (induction xs arbitrary: ys)
  case (Cons x xs)
  then have "x \<in> set ys" by (metis list.set_intros(1) mset_eq_setD)
  then obtain as bs where ys: "ys = as @ x # bs" by (meson split_list)
  then have "mset xs = mset (as @ bs)" using Cons.prems(1) by simp
  then have "sorted_wrt P (as @ bs)" "set xs = set (as @ bs)"
    using Cons.IH Cons.prems(2) mset_eq_setD [of xs "as @ bs"] by auto
  then show ?case
    using Cons.prems(2) unfolding ys by (auto simp: sorted_wrt_append intro: sym)
qed simp

lemma valid_hours_perm: "mset xs = mset ys \<Longrightarrow> valid_hours xs \<longleftrightarrow> valid_hours ys"
proof -
  assume perm: "mset xs = mset ys"
  have "pairwise_free xs \<longleftrightarrow> pairwise_free ys"
    unfolding pairwise_free_def
    by (rule iffI; rule sorted_wrt_perm) (use perm in auto)
  moreover have "starts_on xs d = starts_on ys d" for d
    unfolding starts_on_def using perm by (metis mset_filter size_mset)
  ultimately show ?thesis
    using mset_eq_setD [OF perm] by (simp add: valid_hours_def)
qed

lemma NewWeeklyHours_Inr_iff:
  "NewWeeklyHours xs = Inr w \<longleftrightarrow> valid_hours xs \<and> wh_intervals w = sort_key weekStart xs"
proof -
  let ?s = "sort_key weekStart xs"
  have "NewWeeklyHours xs = Inr w \<longleftrightarrow>
      check_each (\<lambda>_. 0) ?s = None \<and> chained ?s \<and> w = \<lparr>wh_intervals = ?s\<rparr>"
    using runs_into_next_iff [of ?s] by (auto simp: NewWeeklyHours_def Let_def split: option.splits)
  also have "\<dots> \<longleftrightarrow> valid_hours ?s \<and> w = \<lparr>wh_intervals = ?s\<rparr>"
    using check_each_None_iff [of "\<lambda>_. 0" ?s] pairwise_free_iff_chained [of ?s]
    by (auto simp: valid_hours_def)
  also have "\<dots> \<longleftrightarrow> valid_hours xs \<and> wh_intervals w = ?s"
    using valid_hours_perm [of ?s xs] by (auto intro: WeeklyHours.equality)
  finally show ?thesis .
qed

lemma valid_hours_NewWeeklyHours:
  "valid_hours xs \<Longrightarrow> NewWeeklyHours xs = Inr \<lparr>wh_intervals = sort_key weekStart xs\<rparr>"
  by (simp add: NewWeeklyHours_Inr_iff)

lemma NewWeeklyHours_valid: "NewWeeklyHours xs = Inr w \<Longrightarrow> valid_hours (wh_intervals w)"
  using valid_hours_perm [of "sort_key weekStart xs" xs] by (simp add: NewWeeklyHours_Inr_iff)

lemma WeeklyOverlaps_iff:
  assumes "\<forall>i \<in> set (wh_intervals w). valid_weekly i" "\<forall>i \<in> set (wh_intervals v). valid_weekly i"
  shows "WeeklyOverlaps w v \<longleftrightarrow>
    (\<Union>(week_minutes ` set (wh_intervals w))) \<inter> (\<Union>(week_minutes ` set (wh_intervals v))) \<noteq> {}"
proof -
  have "WeeklyOverlaps w v \<longleftrightarrow>
      (\<exists>a \<in> set (wh_intervals w). \<exists>b \<in> set (wh_intervals v). week_minutes a \<inter> week_minutes b \<noteq> {})"
    using assms weekly_clash_iff by (auto simp: WeeklyOverlaps_def list_ex_iff)
  then show ?thesis by blast
qed

section \<open>Opening and closing times\<close>

lemma go_mod_day:
  assumes "- 1440 < d"
  shows "d \<le> 1440 \<Longrightarrow> go_mod d 1440 = (if d = 1440 then 0 else d)"
    and "1440 \<le> d \<Longrightarrow> d < 2880 \<Longrightarrow> go_mod d 1440 = d - 1440"
proof -
  have "\<bar>d\<bar> < 1440 \<Longrightarrow> go_mod d 1440 = d" by (simp add: go_mod_def go_div_def)
  moreover have big: "go_mod d 1440 = d - 1440" if "1440 \<le> d" "d < 2880"
  proof -
    have "d div 1440 = 1" by (rule int_div_pos_eq [where r = "d - 1440"]) (use that in simp_all)
    then show ?thesis using that by (simp add: go_mod_def go_div_nonneg)
  qed
  ultimately show "d \<le> 1440 \<Longrightarrow> go_mod d 1440 = (if d = 1440 then 0 else d)"
    using assms by (cases "d = 1440") auto
  show "1440 \<le> d \<Longrightarrow> d < 2880 \<Longrightarrow> go_mod d 1440 = d - 1440" by (rule big)
qed

lemma IntervalFromClock_Clock:
  assumes "valid_weekly i"
  shows "IntervalFromClock (wi_day i) (fst (Clock i)) (snd (Clock i)) = i"
proof -
  have i: "0 \<le> wi_start i" "wi_start i < 1440" "5 \<le> wi_minutes i" "wi_minutes i \<le> 1440"
    using assms by (simp_all add: valid_weekly_def)
  have e: "End i = wi_start i + wi_minutes i"
    unfolding End_def using i by (intro wrap64_small) simp
  define c where "c = snd (Clock i)"
  have c: "c = (if wi_start i + wi_minutes i \<le> 1440 then wi_start i + wi_minutes i
      else wi_start i + wi_minutes i - 1440)"
    using i by (simp add: c_def Clock_def e Let_def MinutesPerDay_def go_mod_day)
  have d: "c - wi_start i = (if wi_start i + wi_minutes i \<le> 1440 then wi_minutes i
      else wi_minutes i - 1440)" by (simp add: c)
  have f: "fst (Clock i) = wi_start i" by (simp add: Clock_def Let_def)
  have "go_mod (go_mod (c - wi_start i) 1440 + 1440) 1440
      = (if wi_minutes i = 1440 then 0 else wi_minutes i)"
    using i unfolding d by (simp add: go_mod_day)
  then show ?thesis
    using i unfolding f c_def [symmetric] by (simp add: IntervalFromClock_def Let_def MinutesPerDay_def)
qed

section \<open>Properties\<close>

text \<open>C18: \<open>NewWeeklyHours\<close> compares only neighbours in the sorted list, yet accepts exactly the
  lists in which every interval is on the five-minute grid of its day, no weekday starts more than
  four and no two intervals share a minute of the week, across midnight and across the end of the
  week too; what it returns is the same intervals, sorted.\<close>

theorem weekly_hours_accepted_iff:
  "NewWeeklyHours xs = Inr w \<longleftrightarrow> valid_hours xs \<and> w = \<lparr>wh_intervals = sort_key weekStart xs\<rparr>"
  by (cases w) (simp add: NewWeeklyHours_Inr_iff)

text \<open>For two weeks that \<open>NewWeeklyHours\<close> accepted, \<open>Overlaps\<close> answers whether some minute of
  the repeating week belongs to both, which is what forbids one person two shops at once.\<close>

theorem weekly_overlap_exact:
  assumes "NewWeeklyHours xs = Inr w" "NewWeeklyHours ys = Inr v"
  shows "WeeklyOverlaps w v \<longleftrightarrow>
    (\<exists>m. (\<exists>a \<in> set (wh_intervals w). m \<in> week_minutes a) \<and> (\<exists>b \<in> set (wh_intervals v). m \<in> week_minutes b))"
  using WeeklyOverlaps_iff [of w v] NewWeeklyHours_valid [OF assms(1)] NewWeeklyHours_valid [OF assms(2)]
  by (auto simp: valid_hours_def)

theorem weekly_overlap_exact_witness:
  "\<not> WeeklyOverlaps \<lparr>wh_intervals = [\<lparr>wi_day = 6, wi_start = 1320, wi_minutes = 180\<rparr>]\<rparr>
        \<lparr>wh_intervals = [\<lparr>wi_day = 0, wi_start = 60, wi_minutes = 60\<rparr>]\<rparr>
   \<and> \<not> (\<exists>m. m \<in> week_minutes \<lparr>wi_day = 6, wi_start = 1320, wi_minutes = 180\<rparr>
          \<and> m \<in> week_minutes \<lparr>wi_day = 0, wi_start = 60, wi_minutes = 60\<rparr>)"
proof -
  let ?w = "\<lparr>wh_intervals = [\<lparr>wi_day = 6, wi_start = 1320, wi_minutes = 180\<rparr>]\<rparr>"
  let ?v = "\<lparr>wh_intervals = [\<lparr>wi_day = 0, wi_start = 60, wi_minutes = 60\<rparr>]\<rparr>"
  have "NewWeeklyHours (wh_intervals ?w) = Inr ?w" "NewWeeklyHours (wh_intervals ?v) = Inr ?v"
    "\<not> WeeklyOverlaps ?w ?v" by code_simp+
  then show ?thesis using weekly_overlap_exact by fastforce
qed

text \<open>The opening and closing times the API shows for an accepted interval
  (\<open>Clock\<close>) are read back by \<open>IntervalFromClock\<close> to the same interval, overnight hours and hours to
  midnight included.\<close>

theorem clock_roundtrip:
  assumes "NewWeeklyHours xs = Inr w" "i \<in> set (wh_intervals w)"
  shows "IntervalFromClock (wi_day i) (fst (Clock i)) (snd (Clock i)) = i"
  using NewWeeklyHours_valid [OF assms(1)] assms(2) IntervalFromClock_Clock by (simp add: valid_hours_def)

theorem clock_roundtrip_witness:
  "IntervalFromClock 4 1320 60 = \<lparr>wi_day = 4, wi_start = 1320, wi_minutes = 180\<rparr>"
proof -
  let ?i = "\<lparr>wi_day = 4, wi_start = 1320, wi_minutes = 180\<rparr>"
  have "NewWeeklyHours [?i] = Inr \<lparr>wh_intervals = [?i]\<rparr>" "Clock ?i = (1320, 60)" by code_simp+
  then show ?thesis using clock_roundtrip [of "[?i]" "\<lparr>wh_intervals = [?i]\<rparr>" ?i] by simp
qed

end
