(* ===== verification/Schedule.thy ===== *)
theory Schedule
  imports Weekly Spans Shared
begin

text \<open>
  \<open>internal/scheduling/domain\<close>: calendar dates (\<open>date.go\<close>), branch calendars
  (\<open>calendar.go\<close>), barber schedules with date overrides (\<open>schedule.go\<close>) and time off
  (\<open>timeoff.go\<close>). A Go map handed to \<open>Set\<close> is the list of its entries in the order the
  loop visits them; the map a schedule keeps is a HOL map.
\<close>

section \<open>Dates\<close>

record Date =
  d_year :: int
  d_month :: int
  d_day :: int

definition mk_Date :: "int \<times> int \<times> int \<Rightarrow> Date" where
  "mk_Date c = (case c of (y, m, d) \<Rightarrow> \<lparr>d_year = y, d_month = m, d_day = d\<rparr>)"

text \<open>\<open>DateOf(t.In(loc))\<close>.\<close>

definition DateOf :: "location \<Rightarrow> gotime \<Rightarrow> Date" where
  "DateOf loc t = mk_Date (civil_date loc t)"

definition Date_String :: "Date \<Rightarrow> string" where
  "Date_String d = fmt_d 4 (d_year d) @ ''-'' @ fmt_d 2 (d_month d) @ ''-'' @ fmt_d 2 (d_day d)"

definition midnightUTC :: "Date \<Rightarrow> gotime" where
  "midnightUTC d = go_date (d_year d) (d_month d) (d_day d) 0 0 0 utc"

definition Weekday :: "Date \<Rightarrow> int" where
  "Weekday d = weekday_of_days (local_days utc (midnightUTC d))"

definition AddDays :: "Date \<Rightarrow> int \<Rightarrow> Date" where
  "AddDays d n =
     (case civil_date utc (midnightUTC d) of (y, m, dd) \<Rightarrow> DateOf utc (go_date y m (dd + n) 0 0 0 utc))"

definition Date_Compare :: "Date \<Rightarrow> Date \<Rightarrow> int" where
  "Date_Compare d e =
     (if midnightUTC d < midnightUTC e then - 1 else if midnightUTC e < midnightUTC d then 1 else 0)"

definition At :: "Date \<Rightarrow> int \<Rightarrow> location \<Rightarrow> gotime" where
  "At d minutes loc = go_date (d_year d) (d_month d) (d_day d) 0 minutes 0 loc"

definition AsTime :: "Date \<Rightarrow> gotime" where "AsTime d = midnightUTC d"

section \<open>Day intervals and barber schedules\<close>

definition MaxOverrides :: nat where "MaxOverrides = 400"

record DayInterval =
  di_start :: int
  di_minutes :: int

definition CheckDayIntervals ::
  "DayInterval list \<Rightarrow> (scheduling_error, DayInterval list) result" where
  "CheckDayIntervals intervals =
     (let weekly = map (\<lambda>i. \<lparr>wi_day = 0, wi_start = di_start i, wi_minutes = di_minutes i\<rparr>) intervals
      in case NewWeeklyHours weekly of Inl e \<Rightarrow> Inl e
         | Inr _ \<Rightarrow> Inr (sort_key di_start intervals))"

record BarberSchedule =
  bs_business :: BusinessID
  bs_branch :: BranchID
  bs_staff :: StaffID
  bs_weekly :: WeeklyHours
  bs_overrides :: "Date \<rightharpoonup> DayInterval list"
  bs_version :: int
  bs_updatedAt :: gotime

definition NewBarberSchedule :: "BusinessID \<Rightarrow> BranchID \<Rightarrow> StaffID \<Rightarrow> BarberSchedule" where
  "NewBarberSchedule business branch staff =
     \<lparr>bs_business = business, bs_branch = branch, bs_staff = staff,
      bs_weekly = \<lparr>wh_intervals = []\<rparr>, bs_overrides = Map.empty, bs_version = 0,
      bs_updatedAt = zero_time\<rparr>"

definition RehydrateBarberSchedule ::
  "BusinessID \<Rightarrow> BranchID \<Rightarrow> StaffID \<Rightarrow> WeeklyHours \<Rightarrow> (Date \<rightharpoonup> DayInterval list) \<Rightarrow> int \<Rightarrow> gotime
   \<Rightarrow> BarberSchedule" where
  "RehydrateBarberSchedule business branch staff weekly overrides version updatedAt =
     \<lparr>bs_business = business, bs_branch = branch, bs_staff = staff, bs_weekly = weekly,
      bs_overrides = overrides, bs_version = version, bs_updatedAt = updatedAt\<rparr>"

text \<open>One pass of the loop over the overrides, collecting \<open>checked\<close>.\<close>

definition check_override ::
  "(Date \<rightharpoonup> DayInterval list) \<Rightarrow> Date \<times> DayInterval list
   \<Rightarrow> (scheduling_error, Date \<rightharpoonup> DayInterval list) result" where
  "check_override checked entry =
     (case entry of (date, intervals) \<Rightarrow>
        if Date_String date \<noteq> Date_String (DateOf utc (midnightUTC date)) then Inl ErrInvalidDate
        else case CheckDayIntervals intervals of Inl e \<Rightarrow> Inl e
          | Inr ivs \<Rightarrow> Inr (checked(date \<mapsto> ivs)))"

definition Set ::
  "BarberSchedule \<Rightarrow> WeeklyHours \<Rightarrow> (Date \<times> DayInterval list) list \<Rightarrow> WeeklyHours list \<Rightarrow> gotime
   \<Rightarrow> (scheduling_error, BarberSchedule) result" where
  "Set s weekly overrides elsewhere now =
     (if MaxOverrides < length overrides then Inl ErrTooManyOverrides
      else if list_ex (WeeklyOverlaps weekly) elsewhere then Inl ErrScheduleClash
      else case fold_result check_override Map.empty overrides of Inl e \<Rightarrow> Inl e
        | Inr checked \<Rightarrow>
            Inr (s\<lparr>bs_weekly := weekly, bs_overrides := checked,
                   bs_version := bs_version s + 1, bs_updatedAt := db_time now\<rparr>))"

definition startingOn :: "WeeklyHours \<Rightarrow> int \<Rightarrow> DayInterval list" where
  "startingOn w day =
     map (\<lambda>i. \<lparr>di_start = wi_start i, di_minutes = wi_minutes i\<rparr>)
       (filter (\<lambda>i. wi_day i = day) (wh_intervals w))"

definition IntervalsStarting :: "BarberSchedule \<Rightarrow> Date \<Rightarrow> DayInterval list" where
  "IntervalsStarting s date =
     (case bs_overrides s date of Some o' \<Rightarrow> o' | None \<Rightarrow> startingOn (bs_weekly s) (Weekday date))"

section \<open>Branch calendars\<close>

datatype scheduling_event =
  OpeningHoursChangedEvent (ev_business: BusinessID) (ev_branch: BranchID) (ev_at: gotime)
    (ev_version: int) (ev_hours: WeeklyHours)

record BranchCalendar =
  bc_business :: BusinessID
  bc_branch :: BranchID
  bc_hours :: WeeklyHours
  bc_version :: int
  bc_updatedAt :: gotime
  bc_events :: "scheduling_event list"

definition NewBranchCalendar :: "BusinessID \<Rightarrow> BranchID \<Rightarrow> BranchCalendar" where
  "NewBranchCalendar business branch =
     \<lparr>bc_business = business, bc_branch = branch, bc_hours = \<lparr>wh_intervals = []\<rparr>, bc_version = 0,
      bc_updatedAt = zero_time, bc_events = []\<rparr>"

definition RehydrateBranchCalendar ::
  "BusinessID \<Rightarrow> BranchID \<Rightarrow> WeeklyHours \<Rightarrow> int \<Rightarrow> gotime \<Rightarrow> BranchCalendar" where
  "RehydrateBranchCalendar business branch hours version updatedAt =
     \<lparr>bc_business = business, bc_branch = branch, bc_hours = hours, bc_version = version,
      bc_updatedAt = updatedAt, bc_events = []\<rparr>"

definition Calendar_SetOpeningHours :: "BranchCalendar \<Rightarrow> WeeklyHours \<Rightarrow> gotime \<Rightarrow> BranchCalendar" where
  "Calendar_SetOpeningHours c hours now =
     (let v = bc_version c + 1; when = db_time now in
      c\<lparr>bc_hours := hours, bc_version := v, bc_updatedAt := when,
        bc_events := bc_events c
          @ [OpeningHoursChangedEvent (bc_business c) (bc_branch c) when v hours]\<rparr>)"

section \<open>Time off\<close>

datatype TimeOffTag = TimeOffTag
type_synonym TimeOffID = "TimeOffTag id"

definition MaxTimeOff :: duration where "MaxTimeOff = 366 * 24 * hour"
definition MaxTimeOffReason :: int where "MaxTimeOffReason = 200"

record TimeOff =
  to_id :: TimeOffID
  to_business :: BusinessID
  to_staff :: StaffID
  to_span :: Interval
  to_reason :: string
  to_createdAt :: gotime

definition NewTimeOff ::
  "TimeOffID \<Rightarrow> BusinessID \<Rightarrow> StaffID \<Rightarrow> gotime \<Rightarrow> gotime \<Rightarrow> string \<Rightarrow> gotime
   \<Rightarrow> (scheduling_error, TimeOff) result" where
  "NewTimeOff i business staff frm till reason now =
     (case NewInterval (db_time frm) (db_time till) of Inl _ \<Rightarrow> Inl ErrInvalidTimeOff
      | Inr stretch \<Rightarrow>
          if MaxTimeOff < Duration stretch then Inl ErrInvalidTimeOff
          else let reason = trim_space reason in
            if MaxTimeOffReason < rune_count reason then Inl ErrReasonTooLong
            else Inr \<lparr>to_id = i, to_business = business, to_staff = staff, to_span = stretch,
                      to_reason = reason, to_createdAt = db_time now\<rparr>)"

section \<open>Dates and day numbers\<close>

definition valid_date :: "Date \<Rightarrow> bool" where
  "valid_date d \<longleftrightarrow> valid_civil (d_year d) (d_month d) (d_day d)"

definition date_days :: "Date \<Rightarrow> int" where
  "date_days d = local_days utc (midnightUTC d)"

definition date_of_days :: "int \<Rightarrow> Date" where
  "date_of_days n = mk_Date (civil_of_days n)"

lemma midnightUTC_days: "midnightUTC d = date_days d * 86400 * 1000000000"
  unfolding date_days_def midnightUTC_def go_date_def
  by (auto split: prod.splits simp: local_days_def utc_def unix_sec_def)

lemma date_days_valid: "valid_date d \<Longrightarrow> date_days d = days_of_civil (d_year d) (d_month d) (d_day d)"
proof -
  assume "valid_date d"
  then have "midnightUTC d = days_of_civil (d_year d) (d_month d) (d_day d) * 86400 * 1000000000"
    by (simp add: midnightUTC_def go_date_utc valid_date_def valid_civil_def)
  then show ?thesis by (simp only: date_days_def local_days_midnight_utc)
qed

lemma date_of_days_valid [simp]: "valid_date (date_of_days n)"
  using days_of_civil_of_days [of n]
  by (auto simp: date_of_days_def mk_Date_def valid_date_def split: prod.splits)

lemma date_days_of_days [simp]: "date_days (date_of_days n) = n"
  using days_of_civil_of_days [of n] date_days_valid [OF date_of_days_valid, of n]
  by (auto simp: date_of_days_def mk_Date_def split: prod.splits)

lemma date_of_days_days: "valid_date d \<Longrightarrow> date_of_days (date_days d) = d"
  by (simp add: date_days_valid date_of_days_def valid_date_def civil_of_days_of_civil mk_Date_def)

lemma date_of_days_inject [simp]: "date_of_days m = date_of_days n \<longleftrightarrow> m = n"
  by (metis date_days_of_days)

lemma DateOf_days: "DateOf loc t = date_of_days (local_days loc t)"
  by (simp add: DateOf_def civil_date_def date_of_days_def)

lemma normal_date: "DateOf utc (midnightUTC d) = date_of_days (date_days d)"
  by (simp add: DateOf_days date_days_def)

lemma AddDays_days: "AddDays d n = date_of_days (date_days d + n)"
proof -
  obtain y m dd where c: "civil_of_days (date_days d) = (y, m, dd)" by (metis prod_cases3)
  then have v: "valid_civil y m dd" "days_of_civil y m dd = date_days d"
    using days_of_civil_of_days [of "date_days d"] by auto
  have "go_date y m (dd + n) 0 0 0 utc = (date_days d + n) * 86400 * 1000000000"
    using v by (simp add: go_date_utc valid_civil_def days_of_civil_add)
  then have "DateOf utc (go_date y m (dd + n) 0 0 0 utc) = date_of_days (date_days d + n)"
    by (simp only: DateOf_days local_days_midnight_utc)
  then show ?thesis
    using c by (simp add: AddDays_def civil_date_def date_days_def [symmetric])
qed

lemma Date_Compare_le: "Date_Compare d e \<le> 0 \<longleftrightarrow> date_days d \<le> date_days e"
  by (auto simp: Date_Compare_def midnightUTC_days)

lemma Weekday_days: "Weekday d = (date_days d + 4) mod 7"
  by (simp add: Weekday_def weekday_of_days_def date_days_def)

lemma At_fixed:
  assumes "valid_date d"
  shows "At d k (fixed_zone off) = (date_days d * 86400 + k * 60 - off) * 1000000000"
  using assms by (simp add: At_def go_date_fixed valid_date_def valid_civil_def date_days_valid)

section \<open>The text form of dates\<close>

lemma pad_digits_no_dash: "CHR ''-'' \<notin> set (pad_left w (dec_digits n))"
  using dec_digits_ascii [of "CHR ''-''" n] by (auto simp: pad_left_def)

lemma pad_digits_nonempty: "pad_left w (dec_digits n) \<noteq> []"
  by (subst dec_digits.simps) (simp add: pad_left_def)

lemma split_at_dash:
  assumes "xs @ c # r = ys @ c # s" "c \<notin> set xs" "c \<notin> set ys"
  shows "xs = ys \<and> r = s"
  using assms
proof (induction xs arbitrary: ys)
  case Nil
  then show ?case by (cases ys) auto
next
  case (Cons x xs)
  then show ?case by (cases ys) auto
qed

lemma fmt_d_sep:
  assumes "fmt_d w a @ CHR ''-'' # r = fmt_d w b @ CHR ''-'' # s"
  shows "a = b \<and> r = s"
proof -
  have h: "hd (pad_left k (dec_digits n) @ x) \<noteq> CHR ''-''" for k n x
    using pad_digits_nonempty [of k n] pad_digits_no_dash [of k n]
    by (metis hd_append2 hd_in_set)
  have "a < 0 \<longleftrightarrow> b < 0"
    using arg_cong [OF assms, of hd] h by (auto simp: fmt_d_def split: if_splits) metis+
  then consider "0 \<le> a" "0 \<le> b" | "a < 0" "b < 0" by linarith
  then show ?thesis
  proof cases
    case 1
    then have "pad_left w (dec_digits (nat a)) = pad_left w (dec_digits (nat b)) \<and> r = s"
      using assms by (intro split_at_dash [OF _ pad_digits_no_dash pad_digits_no_dash]) (simp add: fmt_d_def)
    then show ?thesis using 1 pad_left_inject by (metis nat_eq_iff2)
  next
    case 2
    then have "pad_left (w - 1) (dec_digits (nat (- a))) = pad_left (w - 1) (dec_digits (nat (- b))) \<and> r = s"
      using assms by (intro split_at_dash [OF _ pad_digits_no_dash pad_digits_no_dash]) (simp add: fmt_d_def)
    then have "nat (- a) = nat (- b) \<and> r = s" using pad_left_inject by blast
    then show ?thesis using 2 by arith
  qed
qed

lemma fmt_d_inject: "fmt_d w a = fmt_d w b \<Longrightarrow> a = b"
  using fmt_d_sep [of w a "[]" b "[]"] by simp

lemma Date_String_inject: "Date_String d = Date_String e \<longleftrightarrow> d = e"
proof
  assume e: "Date_String d = Date_String e"
  then have y: "d_year d = d_year e \<and>
      fmt_d 2 (d_month d) @ CHR ''-'' # fmt_d 2 (d_day d) = fmt_d 2 (d_month e) @ CHR ''-'' # fmt_d 2 (d_day e)"
    unfolding Date_String_def by (intro fmt_d_sep) simp
  then have "d_month d = d_month e \<and> fmt_d 2 (d_day d) = fmt_d 2 (d_day e)" using fmt_d_sep by blast
  then show "d = e" using y fmt_d_inject by (intro Date.equality) auto
qed simp

lemma normal_date_iff: "d = DateOf utc (midnightUTC d) \<longleftrightarrow> valid_date d"
  by (metis date_of_days_days date_of_days_valid normal_date)

section \<open>Overrides and schedules\<close>

text \<open>A date's intervals are valid when they would be as one day of the week.\<close>

definition valid_day :: "DayInterval list \<Rightarrow> bool" where
  "valid_day xs \<longleftrightarrow>
     valid_hours (map (\<lambda>i. \<lparr>wi_day = 0, wi_start = di_start i, wi_minutes = di_minutes i\<rparr>) xs)"

definition valid_overrides :: "(Date \<rightharpoonup> DayInterval list) \<Rightarrow> bool" where
  "valid_overrides m \<longleftrightarrow> (\<forall>d ivs. m d = Some ivs \<longrightarrow> valid_date d \<and> valid_day ivs)"

definition valid_schedule :: "BarberSchedule \<Rightarrow> bool" where
  "valid_schedule s \<longleftrightarrow> valid_hours (wh_intervals (bs_weekly s)) \<and> valid_overrides (bs_overrides s)"

lemma valid_day_sort [simp]: "valid_day (sort_key f xs) = valid_day xs"
  unfolding valid_day_def by (rule valid_hours_perm) (simp only: mset_map mset_sort)

lemma CheckDayIntervals_Inr_iff:
  "CheckDayIntervals xs = Inr ys \<longleftrightarrow> valid_day xs \<and> ys = sort_key di_start xs"
  by (auto simp: CheckDayIntervals_def valid_day_def Let_def split: sum.splits
      dest: valid_hours_NewWeeklyHours simp: NewWeeklyHours_Inr_iff)

lemma check_override_Inr_iff:
  "check_override m (d, ivs) = Inr m' \<longleftrightarrow>
     valid_date d \<and> valid_day ivs \<and> m' = m(d \<mapsto> sort_key di_start ivs)"
proof (cases "CheckDayIntervals ivs")
  case (Inl e)
  then have "\<not> valid_day ivs" using CheckDayIntervals_Inr_iff [of ivs "sort_key di_start ivs"] by auto
  then show ?thesis using Inl
    unfolding check_override_def Date_String_inject normal_date_iff prod.case by simp
next
  case (Inr ys)
  then have "valid_day ivs \<and> ys = sort_key di_start ivs" by (simp add: CheckDayIntervals_Inr_iff)
  then show ?thesis using Inr
    unfolding check_override_def Date_String_inject normal_date_iff prod.case by auto
qed

lemma fold_overrides:
  "fold_result check_override m xs = Inr m' \<longleftrightarrow>
     (\<forall>(d, ivs) \<in> set xs. valid_date d \<and> valid_day ivs)
     \<and> m' = m ++ map_of_last (map (\<lambda>(d, ivs). (d, sort_key di_start ivs)) xs)"
proof (induction xs arbitrary: m)
  case Nil
  then show ?case by (auto simp: map_of_last_def)
next
  case (Cons x xs)
  obtain d ivs where x: "x = (d, ivs)" by fastforce
  have step: "map_of_last (map (\<lambda>(d, ivs). (d, sort_key di_start ivs)) (x # xs))
      = [d \<mapsto> sort_key di_start ivs] ++ map_of_last (map (\<lambda>(d, ivs). (d, sort_key di_start ivs)) xs)"
    by (simp add: map_of_last_def x)
  show ?case
  proof (cases "check_override m x")
    case (Inl e)
    then have "\<not> (valid_date d \<and> valid_day ivs)" using check_override_Inr_iff [of m d ivs] x by fastforce
    then show ?thesis using Inl x by auto
  next
    case (Inr m1)
    then have v: "valid_date d \<and> valid_day ivs" and m1: "m1 = m(d \<mapsto> sort_key di_start ivs)"
      using check_override_Inr_iff [of m d ivs m1] x by simp_all
    have "m ++ ([d \<mapsto> sort_key di_start ivs] ++ M) = m1 ++ M" for M unfolding m1 by simp
    then show ?thesis unfolding step using Inr Cons.IH [of m1] x v by simp
  qed
qed

lemma Set_Inr_iff:
  "Set s weekly ovs elsewhere now = Inr s' \<longleftrightarrow>
     length ovs \<le> 400 \<and> (\<forall>w \<in> set elsewhere. \<not> WeeklyOverlaps weekly w)
     \<and> (\<forall>(d, ivs) \<in> set ovs. valid_date d \<and> valid_day ivs)
     \<and> s' = s\<lparr>bs_weekly := weekly,
              bs_overrides := map_of_last (map (\<lambda>(d, ivs). (d, sort_key di_start ivs)) ovs),
              bs_version := bs_version s + 1, bs_updatedAt := db_time now\<rparr>"
proof (cases "fold_result check_override Map.empty ovs")
  case (Inl e)
  then have "\<not> (\<forall>(d, ivs) \<in> set ovs. valid_date d \<and> valid_day ivs)"
    using fold_overrides [of Map.empty ovs
        "map_of_last (map (\<lambda>(d, ivs). (d, sort_key di_start ivs)) ovs)"] by auto
  then show ?thesis using Inl by (auto simp: Set_def)
next
  case (Inr m)
  then have "(\<forall>(d, ivs) \<in> set ovs. valid_date d \<and> valid_day ivs)
      \<and> m = map_of_last (map (\<lambda>(d, ivs). (d, sort_key di_start ivs)) ovs)"
    using fold_overrides [of Map.empty ovs m] by simp
  then show ?thesis using Inr by (auto simp: Set_def MaxOverrides_def list_ex_iff)
qed

lemma Set_valid_schedule:
  assumes "Set s weekly ovs elsewhere now = Inr s'" "valid_hours (wh_intervals weekly)"
  shows "valid_schedule s'"
  using assms
  by (fastforce simp: Set_Inr_iff valid_schedule_def valid_overrides_def dest: map_of_last_Some_in)

lemma NewTimeOff_Inr_iff:
  "NewTimeOff i b s lo hi r now = Inr t \<longleftrightarrow>
     db_time lo < db_time hi \<and> db_time hi - db_time lo \<le> MaxTimeOff \<and> rune_count (trim_space r) \<le> 200
     \<and> t = \<lparr>to_id = i, to_business = b, to_staff = s,
            to_span = \<lparr>ivl_start = db_time lo, ivl_end = db_time hi\<rparr>,
            to_reason = trim_space r, to_createdAt = db_time now\<rparr>"
  using time_sub_gt_iff [of MaxTimeOff "db_time hi" "db_time lo"]
  by (auto simp: NewTimeOff_def NewInterval_def Duration_def Let_def MaxTimeOffReason_def
      MaxTimeOff_def hour_def max_int64_def)

end
