(* ===== verification/Windows.thy ===== *)
theory Windows
  imports Schedule
begin

text \<open>
  \<open>WorkingWindows\<close> of \<open>internal/scheduling/domain/windows.go\<close>: when a staff member can work
  at a branch within \<open>[from, to)\<close>. The model follows the code: a loop over the dates from the
  day before \<open>from\<close> to the date of \<open>to\<close> collects opening, working and closed stretches, and
  the interval algebra of theory Spans combines them. The specification says, instant by
  instant and over all dates, when the person works; in a zone without transitions the two
  agree, so starting one day early is enough.
\<close>

record WindowsInput =
  in_location :: location
  in_opening :: WeeklyHours
  in_closed :: "Date \<Rightarrow> bool"
  in_schedule :: BarberSchedule
  in_timeOff :: "Interval list"

definition append_day :: "location \<Rightarrow> Date \<Rightarrow> Interval list \<Rightarrow> DayInterval list \<Rightarrow> Interval list" where
  "append_day loc d spans ivs =
     foldl (\<lambda>acc i. appendSpan acc (At d (di_start i) loc) (At d (wrap64 (di_start i + di_minutes i)) loc))
       spans ivs"

text \<open>The loop over the dates; its state is the three slices.\<close>

function windows_loop ::
  "WindowsInput \<Rightarrow> Date \<Rightarrow> Date \<Rightarrow> Interval list \<times> Interval list \<times> Interval list
   \<Rightarrow> Interval list \<times> Interval list \<times> Interval list" where
  "windows_loop inp d lst acc =
     (if Date_Compare d lst \<le> 0 then
        (case acc of (opn, wrk, cls) \<Rightarrow>
           windows_loop inp (AddDays d 1) lst
             (append_day (in_location inp) d opn (startingOn (in_opening inp) (Weekday d)),
              append_day (in_location inp) d wrk (IntervalsStarting (in_schedule inp) d),
              (if in_closed inp d
               then appendSpan cls (At d 0 (in_location inp)) (At (AddDays d 1) 0 (in_location inp))
               else cls)))
      else acc)"
  by pat_completeness auto
termination
  by (relation "measure (\<lambda>(inp, d, lst, acc). nat (date_days lst - date_days d + 1))")
    (auto simp: Date_Compare_le AddDays_days)

declare windows_loop.simps [simp del]

definition WorkingWindows :: "WindowsInput \<Rightarrow> gotime \<Rightarrow> gotime \<Rightarrow> Interval list option" where
  "WorkingWindows inp frm till =
     (if \<not> frm < till then Some []
      else
        let loc = in_location inp;
            (opn, wrk, cls) =
              windows_loop inp (AddDays (DateOf loc frm) (- 1)) (DateOf loc till) ([], [], [])
        in do {
          o' \<leftarrow> normalize opn; w' \<leftarrow> normalize wrk; x \<leftarrow> intersect o' w';
          c \<leftarrow> normalize cls; y \<leftarrow> subtract x c;
          f \<leftarrow> normalize (in_timeOff inp); z \<leftarrow> subtract y f;
          clip z frm till })"

section \<open>Specification\<close>

text \<open>The instants of an interval that starts on a date, on the branch's wall clock.\<close>

definition day_points :: "location \<Rightarrow> Date \<Rightarrow> DayInterval list \<Rightarrow> gotime set" where
  "day_points loc d ivs =
     (\<Union>i \<in> set ivs. {At d (di_start i) loc ..< At d (wrap64 (di_start i + di_minutes i)) loc})"

definition open_on :: "WindowsInput \<Rightarrow> Date \<Rightarrow> gotime set" where
  "open_on inp d = day_points (in_location inp) d (startingOn (in_opening inp) (Weekday d))"

definition work_on :: "WindowsInput \<Rightarrow> Date \<Rightarrow> gotime set" where
  "work_on inp d = day_points (in_location inp) d (IntervalsStarting (in_schedule inp) d)"

definition closed_on :: "WindowsInput \<Rightarrow> Date \<Rightarrow> gotime set" where
  "closed_on inp d =
     (if in_closed inp d then {At d 0 (in_location inp) ..< At (AddDays d 1) 0 (in_location inp)} else {})"

text \<open>\<open>works_at inp t\<close>: open, scheduled, not closed and not off at instant \<open>t\<close>, over all dates.\<close>

definition works_at :: "WindowsInput \<Rightarrow> gotime \<Rightarrow> bool" where
  "works_at inp t \<longleftrightarrow>
     (\<exists>d. valid_date d \<and> t \<in> open_on inp d) \<and> (\<exists>d. valid_date d \<and> t \<in> work_on inp d)
     \<and> \<not> (\<exists>d. valid_date d \<and> t \<in> closed_on inp d) \<and> t \<notin> span_points (in_timeOff inp)"

section \<open>The loop collects exactly the dates it visits\<close>

lemma append_day_points:
  "span_points (append_day loc d spans ivs) = span_points spans \<union> day_points loc d ivs"
  by (induction ivs arbitrary: spans)
    (auto simp: append_day_def day_points_def appendSpan_points)

lemma append_day_proper:
  "\<forall>i \<in> set spans. proper i \<Longrightarrow> \<forall>i \<in> set (append_day loc d spans ivs). proper i"
proof (induction ivs arbitrary: spans)
  case (Cons x xs)
  show ?case using Cons.IH [OF appendSpan_proper [OF Cons.prems]] by (simp add: append_day_def)
qed (simp add: append_day_def)

definition all_proper :: "Interval list \<Rightarrow> bool" where
  "all_proper xs \<longleftrightarrow> (\<forall>i \<in> set xs. proper i)"

lemma windows_loop_correct:
  assumes "windows_loop inp d lst (opn, wrk, cls) = (opn', wrk', cls')" "valid_date d"
    "all_proper opn" "all_proper wrk" "all_proper cls"
  defines "D \<equiv> date_of_days ` {date_days d .. date_days lst}"
  shows "all_proper opn' \<and> all_proper wrk' \<and> all_proper cls'
    \<and> span_points opn' = span_points opn \<union> (\<Union>e \<in> D. open_on inp e)
    \<and> span_points wrk' = span_points wrk \<union> (\<Union>e \<in> D. work_on inp e)
    \<and> span_points cls' = span_points cls \<union> (\<Union>e \<in> D. closed_on inp e)"
  using assms(1-5) unfolding D_def
proof (induction inp d lst "(opn, wrk, cls)" arbitrary: opn wrk cls rule: windows_loop.induct)
  case (1 inp d lst opn wrk cls)
  show ?case
  proof (cases "date_days d \<le> date_days lst")
    case False
    then have "windows_loop inp d lst (opn, wrk, cls) = (opn, wrk, cls)"
      by (subst windows_loop.simps) (simp add: Date_Compare_le)
    then show ?thesis using False 1(2-6) by simp
  next
    case True
    let ?opn = "append_day (in_location inp) d opn (startingOn (in_opening inp) (Weekday d))"
    let ?wrk = "append_day (in_location inp) d wrk (IntervalsStarting (in_schedule inp) d)"
    let ?cls = "if in_closed inp d
      then appendSpan cls (At d 0 (in_location inp)) (At (AddDays d 1) 0 (in_location inp)) else cls"
    have step: "windows_loop inp (AddDays d 1) lst (?opn, ?wrk, ?cls) = (opn', wrk', cls')"
      using 1(2) True by (subst (asm) windows_loop.simps) (simp add: Date_Compare_le)
    have rng: "date_of_days ` {date_days d .. date_days lst}
        = insert d (date_of_days ` {date_days (AddDays d 1) .. date_days lst})"
    proof -
      have "{date_days d .. date_days lst} = insert (date_days d) {date_days d + 1 .. date_days lst}"
        using True by auto
      then show ?thesis by (simp only: image_insert AddDays_days date_days_of_days date_of_days_days [OF 1(3)])
    qed
    have p: "all_proper ?opn" "all_proper ?wrk" "all_proper ?cls"
      using append_day_proper [OF 1(4) [unfolded all_proper_def]]
        append_day_proper [OF 1(5) [unfolded all_proper_def]]
        appendSpan_proper [OF 1(6) [unfolded all_proper_def]] 1(6) [unfolded all_proper_def]
      unfolding all_proper_def by simp_all
    have s: "span_points ?opn = span_points opn \<union> open_on inp d"
      "span_points ?wrk = span_points wrk \<union> work_on inp d"
      "span_points ?cls = span_points cls \<union> closed_on inp d"
      by (simp_all add: append_day_points open_on_def work_on_def closed_on_def appendSpan_points)
    have cmp: "Date_Compare d lst \<le> 0" and v: "valid_date (AddDays d 1)"
      using True by (simp_all add: Date_Compare_le AddDays_days)
    show ?thesis
      using 1(1) [OF cmp refl refl step v p] unfolding rng s by (simp add: Un_assoc)
  qed
qed


section \<open>What \<open>WorkingWindows\<close> returns\<close>

lemma WorkingWindows_points:
  assumes "frm < till" "all_proper (in_timeOff inp)"
  defines "D \<equiv> date_of_days ` {local_days (in_location inp) frm - 1 .. local_days (in_location inp) till}"
  shows "\<exists>w. WorkingWindows inp frm till = Some w \<and> canonical w
    \<and> span_points w = ((\<Union>e \<in> D. open_on inp e) \<inter> (\<Union>e \<in> D. work_on inp e)
        - (\<Union>e \<in> D. closed_on inp e) - span_points (in_timeOff inp)) \<inter> {frm ..< till}"
proof -
  let ?loc = "in_location inp"
  obtain opn wrk cls where l: "windows_loop inp (AddDays (DateOf ?loc frm) (- 1)) (DateOf ?loc till) ([], [], [])
      = (opn, wrk, cls)" by (metis prod_cases3)
  have c: "all_proper opn \<and> all_proper wrk \<and> all_proper cls
    \<and> span_points opn = (\<Union>e \<in> D. open_on inp e) \<and> span_points wrk = (\<Union>e \<in> D. work_on inp e)
    \<and> span_points cls = (\<Union>e \<in> D. closed_on inp e)"
    using windows_loop_correct [OF l] unfolding D_def
    by (simp add: AddDays_days DateOf_days all_proper_def span_points_def)
  then show ?thesis
    using spans.windows_pipeline [of opn wrk cls "in_timeOff inp" frm till] assms(1,2) l
    by (simp add: WorkingWindows_def all_proper_def)
qed

text \<open>In a zone without transitions a date's stretches lie on that date and the next one.\<close>

definition short_day :: "DayInterval list \<Rightarrow> bool" where
  "short_day ivs \<longleftrightarrow> (\<forall>i \<in> set ivs. 0 \<le> di_start i \<and> di_start i < 1440 \<and> 0 \<le> di_minutes i \<and> di_minutes i \<le> 1440)"

lemma local_days_fixed_le:
  "n \<le> local_days (fixed_zone off) t \<longleftrightarrow> (n * 86400 - off) * 1000000000 \<le> t"
proof -
  have "n \<le> local_days (fixed_zone off) t \<longleftrightarrow> n * 86400 \<le> t div 1000000000 + off"
    using le_div_iff_int [of 86400 n "t div 1000000000 + off"]
    by (simp add: local_days_def unix_sec_def)
  also have "\<dots> \<longleftrightarrow> n * 86400 - off \<le> t div 1000000000" by linarith
  also have "\<dots> \<longleftrightarrow> (n * 86400 - off) * 1000000000 \<le> t"
    by (rule le_div_iff_int) simp
  finally show ?thesis .
qed

lemma local_days_fixed_mono: "s \<le> t \<Longrightarrow> local_days (fixed_zone off) s \<le> local_days (fixed_zone off) t"
  using local_days_fixed_le [of "local_days (fixed_zone off) s" off s]
    local_days_fixed_le [of "local_days (fixed_zone off) s" off t] by simp

lemma day_points_local:
  assumes "valid_date d" "short_day ivs" "t \<in> day_points (fixed_zone off) d ivs"
  shows "date_days d \<le> local_days (fixed_zone off) t \<and> local_days (fixed_zone off) t \<le> date_days d + 1"
proof -
  obtain i where i: "i \<in> set ivs" "At d (di_start i) (fixed_zone off) \<le> t"
    "t < At d (wrap64 (di_start i + di_minutes i)) (fixed_zone off)"
    using assms(3) by (auto simp: day_points_def)
  have b: "0 \<le> di_start i" "di_start i + di_minutes i < 2880" "0 \<le> di_minutes i"
    using assms(2) i(1) by (auto simp: short_day_def)
  then have "wrap64 (di_start i + di_minutes i) = di_start i + di_minutes i"
    by (intro wrap64_small) simp
  then have "(date_days d * 86400 - off) * 1000000000 \<le> t"
    "t < ((date_days d + 2) * 86400 - off) * 1000000000"
    using i(2,3) b by (simp_all add: At_fixed [OF assms(1)])
  then show ?thesis
    using local_days_fixed_le [of "date_days d" off t] local_days_fixed_le [of "date_days d + 2" off t]
    by linarith
qed

lemma closed_on_local:
  assumes "valid_date d" "in_location inp = fixed_zone off" "t \<in> closed_on inp d"
  shows "local_days (fixed_zone off) t = date_days d"
proof -
  have "At (AddDays d 1) 0 (fixed_zone off) = ((date_days d + 1) * 86400 - off) * 1000000000"
    using At_fixed [of "AddDays d 1" 0 off] by (simp add: AddDays_days)
  then have "(date_days d * 86400 - off) * 1000000000 \<le> t"
    "t < ((date_days d + 1) * 86400 - off) * 1000000000"
    using assms by (auto simp: closed_on_def At_fixed split: if_splits)
  then show ?thesis
    using local_days_fixed_le [of "date_days d" off t] local_days_fixed_le [of "date_days d + 1" off t]
    by linarith
qed

lemma dates_enough:
  assumes "\<And>d. valid_date d \<Longrightarrow> t \<in> P d \<Longrightarrow> lo \<le> date_days d \<and> date_days d \<le> hi"
  shows "t \<in> (\<Union>e \<in> date_of_days ` {lo .. hi}. P e) \<longleftrightarrow> (\<exists>d. valid_date d \<and> t \<in> P d)"
proof
  assume "\<exists>d. valid_date d \<and> t \<in> P d"
  then obtain d where d: "valid_date d" "t \<in> P d" by blast
  then have "date_days d \<in> {lo .. hi}" using assms by simp
  then show "t \<in> (\<Union>e \<in> date_of_days ` {lo .. hi}. P e)"
    using d date_of_days_days [OF d(1)] by (intro UN_I [of d]) (auto intro: rev_image_eqI)
qed (use date_of_days_valid in blast)

lemma WorkingWindows_fixed:
  assumes "frm < till" "all_proper (in_timeOff inp)" "in_location inp = fixed_zone off"
    "\<And>d. short_day (startingOn (in_opening inp) d)" "\<And>d. short_day (IntervalsStarting (in_schedule inp) d)"
  shows "\<exists>w. WorkingWindows inp frm till = Some w \<and> canonical w
    \<and> (\<forall>t. t \<in> span_points w \<longleftrightarrow> frm \<le> t \<and> t < till \<and> works_at inp t)"
proof -
  let ?L = "local_days (fixed_zone off)"
  obtain w where w: "WorkingWindows inp frm till = Some w" "canonical w"
    "span_points w = ((\<Union>e \<in> date_of_days ` {?L frm - 1 .. ?L till}. open_on inp e)
       \<inter> (\<Union>e \<in> date_of_days ` {?L frm - 1 .. ?L till}. work_on inp e)
        - (\<Union>e \<in> date_of_days ` {?L frm - 1 .. ?L till}. closed_on inp e)
        - span_points (in_timeOff inp)) \<inter> {frm ..< till}"
    using WorkingWindows_points [OF assms(1,2)] unfolding assms(3) by blast
  have "t \<in> span_points w \<longleftrightarrow> works_at inp t" if t: "frm \<le> t" "t < till" for t
  proof -
    have r: "?L frm \<le> ?L t" "?L t \<le> ?L till" using t by (simp_all add: local_days_fixed_mono)
    have o: "t \<in> (\<Union>e \<in> date_of_days ` {?L frm - 1 .. ?L till}. open_on inp e)
        \<longleftrightarrow> (\<exists>d. valid_date d \<and> t \<in> open_on inp d)"
      by (rule dates_enough)
        (use day_points_local [OF _ assms(4)] r in \<open>fastforce simp: open_on_def assms(3)\<close>)
    have k: "t \<in> (\<Union>e \<in> date_of_days ` {?L frm - 1 .. ?L till}. work_on inp e)
        \<longleftrightarrow> (\<exists>d. valid_date d \<and> t \<in> work_on inp d)"
      by (rule dates_enough)
        (use day_points_local [OF _ assms(5)] r in \<open>fastforce simp: work_on_def assms(3)\<close>)
    have c: "t \<in> (\<Union>e \<in> date_of_days ` {?L frm - 1 .. ?L till}. closed_on inp e)
        \<longleftrightarrow> (\<exists>d. valid_date d \<and> t \<in> closed_on inp d)"
      by (rule dates_enough) (use closed_on_local [OF _ assms(3)] r in fastforce)
    show ?thesis unfolding w(3) works_at_def using o k c t by simp
  qed
  moreover have "t \<in> span_points w \<Longrightarrow> frm \<le> t \<and> t < till" for t unfolding w(3) by simp
  ultimately show ?thesis using w(1,2) by blast
qed

lemma short_day_startingOn: "valid_hours (wh_intervals w) \<Longrightarrow> short_day (startingOn w d)"
  by (auto simp: short_day_def startingOn_def valid_hours_def valid_weekly_def)

lemma short_day_valid: "valid_day ivs \<Longrightarrow> short_day ivs"
  by (auto simp: short_day_def valid_day_def valid_hours_def valid_weekly_def)

lemma short_day_schedule: "valid_schedule s \<Longrightarrow> short_day (IntervalsStarting s d)"
  by (auto simp: IntervalsStarting_def valid_schedule_def valid_overrides_def
      short_day_startingOn short_day_valid split: option.splits)

section \<open>Properties\<close>

text \<open>C2: Whatever opening hours, weekly template and overrides the constructors accept, in a zone
  without transitions \<open>WorkingWindows\<close> never panics and returns a sorted list of
  non-empty, non-touching windows that contains an instant exactly when it lies in
  \<open>[from, to)\<close> and, over all calendar dates, the branch is open, the person is scheduled,
  the branch is not closed for the day and the person is not off.\<close>

theorem working_windows_exact:
  assumes "NewWeeklyHours xs = Inr opening" "NewWeeklyHours ys = Inr weekly"
    "Set s weekly ovs elsewhere now = Inr sched" "\<forall>i \<in> set off. proper i" "frm < till"
    "inp = \<lparr>in_location = fixed_zone z, in_opening = opening, in_closed = cls,
            in_schedule = sched, in_timeOff = off\<rparr>"
  shows "\<exists>w. WorkingWindows inp frm till = Some w \<and> canonical w
    \<and> (\<forall>t. t \<in> span_points w \<longleftrightarrow> frm \<le> t \<and> t < till \<and> works_at inp t)"
proof (rule WorkingWindows_fixed [OF assms(5)])
  show "all_proper (in_timeOff inp)" "in_location inp = fixed_zone z"
    using assms(4,6) by (simp_all add: all_proper_def)
  show "short_day (startingOn (in_opening inp) d)" for d
    using NewWeeklyHours_valid [OF assms(1)] assms(6) by (simp add: short_day_startingOn)
  show "short_day (IntervalsStarting (in_schedule inp) d)" for d
    using Set_valid_schedule [OF assms(3) NewWeeklyHours_valid [OF assms(2)]] assms(6)
    by (simp add: short_day_schedule)
qed

definition sample_hours :: WeeklyHours where
  "sample_hours = \<lparr>wh_intervals =
     [\<lparr>wi_day = 0, wi_start = 600, wi_minutes = 240\<rparr>, \<lparr>wi_day = 4, wi_start = 1320, wi_minutes = 180\<rparr>]\<rparr>"

lemma sample_hours_ok: "NewWeeklyHours (wh_intervals sample_hours) = Inr sample_hours"
  by code_simp

definition sample_schedule :: BarberSchedule where
  "sample_schedule = \<lparr>bs_business = ID 1, bs_branch = ID 2, bs_staff = ID 3, bs_weekly = sample_hours,
     bs_overrides = Map.empty, bs_version = 1, bs_updatedAt = 0\<rparr>"

lemma sample_schedule_ok:
  "Set (NewBarberSchedule (ID 1) (ID 2) (ID 3)) sample_hours [] [] 0 = Inr sample_schedule"
  by (simp add: Set_def NewBarberSchedule_def sample_schedule_def MaxOverrides_def
      db_time_def time_truncate_def)

theorem working_windows_exact_witness:
  "\<exists>w. WorkingWindows \<lparr>in_location = riyadh, in_opening = sample_hours, in_closed = (\<lambda>_. False),
       in_schedule = sample_schedule, in_timeOff = [\<lparr>ivl_start = 0, ivl_end = 5\<rparr>]\<rparr> 0 (24 * hour) = Some w
     \<and> canonical w"
  using working_windows_exact [OF sample_hours_ok sample_hours_ok sample_schedule_ok, of
      "[\<lparr>ivl_start = 0, ivl_end = 5\<rparr>]" 0 "24 * hour" _ 10800 "\<lambda>_. False", OF _ _ refl]
  by (auto simp: proper_def hour_def riyadh_def)

end
