(* ===== verification/ScheduleStore.thy ===== *)
theory ScheduleStore
  imports Windows "HOL-Library.Product_Lexorder"
begin

text \<open>
  \<open>internal/scheduling/adapters/postgres\<close>: calendars, schedules, overrides and time off in the
  database and the transactions over them (\<open>repository.go\<close>, \<open>schedules.go\<close>). The tables and
  their constraints are those of the migrations 00014 and 00015, the selections those of
  \<open>queries.sql\<close>. A transaction that fails leaves the database as it was. The person's advisory
  lock makes changes of one person's schedules take turns, so transactions run one after the
  other. Go visits the entries of a map in an order of its own: \<open>visit\<close> is that order, the dates
  of the overrides as the saving loop meets them.
\<close>

section \<open>Tables\<close>

type_synonym calendar_key = "uuid \<times> uuid"

record scheduleKey =
  k_business :: uuid
  k_branch :: uuid
  k_staff :: uuid

definition keyOf :: "BusinessID \<Rightarrow> BranchID \<Rightarrow> StaffID \<Rightarrow> scheduleKey" where
  "keyOf business branch staff =
     \<lparr>k_business = id_value business, k_branch = id_value branch, k_staff = id_value staff\<rparr>"

record version_row =
  vr_version :: int
  vr_updated_at :: gotime

record time_off_row =
  tr_id :: uuid
  tr_business :: uuid
  tr_staff :: uuid
  tr_starts_at :: gotime
  tr_ends_at :: gotime
  tr_reason :: string
  tr_created_at :: gotime

text \<open>An override's date is kept as its day number.\<close>

record scheduling_db =
  sd_calendars :: "calendar_key \<rightharpoonup> version_row"
  sd_opening :: "(calendar_key \<times> WeeklyInterval) list"
  sd_schedules :: "scheduleKey \<rightharpoonup> version_row"
  sd_hours :: "(scheduleKey \<times> WeeklyInterval) list"
  sd_overrides :: "(scheduleKey \<times> int) list"
  sd_override_hours :: "((scheduleKey \<times> int) \<times> DayInterval) list"
  sd_time_off :: "time_off_row list"
  sd_outbox :: "scheduling_event list"

definition empty_sd :: scheduling_db where
  "empty_sd = \<lparr>sd_calendars = Map.empty, sd_opening = [], sd_schedules = Map.empty, sd_hours = [],
     sd_overrides = [], sd_override_hours = [], sd_time_off = [], sd_outbox = []\<rparr>"

section \<open>Hours\<close>

definition sched_toInt16 :: "int \<Rightarrow> (scheduling_error, int) result" where
  "sched_toInt16 n = (if n < 0 \<or> 32767 < n then Inl Fault else Inr n)"

definition sched_toInt32 :: "int \<Rightarrow> (scheduling_error, int) result" where
  "sched_toInt32 n = (if n < 0 \<or> 2147483647 < n then Inl Fault else Inr n)"

definition weeklyRow :: "WeeklyInterval \<Rightarrow> (scheduling_error, WeeklyInterval) result" where
  "weeklyRow i =
     (case sched_toInt16 (wi_day i) of Inl e \<Rightarrow> Inl e | Inr d \<Rightarrow>
     (case sched_toInt16 (wi_start i) of Inl e \<Rightarrow> Inl e | Inr s \<Rightarrow>
     (case sched_toInt16 (wi_minutes i) of Inl e \<Rightarrow> Inl e | Inr m \<Rightarrow>
        Inr \<lparr>wi_day = d, wi_start = s, wi_minutes = m\<rparr>)))"

text \<open>The CHECK constraints on a start and a length.\<close>

definition hours_ok :: "int \<Rightarrow> int \<Rightarrow> bool" where
  "hours_ok start minutes \<longleftrightarrow> 0 \<le> start \<and> start \<le> 1435 \<and> start mod 5 = 0
     \<and> 5 \<le> minutes \<and> minutes \<le> 1440 \<and> minutes mod 5 = 0"

text \<open>Insert a row under a primary key of owner, weekday and start; the owner must exist.\<close>

definition insert_hour ::
  "('k \<Rightarrow> bool) \<Rightarrow> 'k \<Rightarrow> ('k \<times> WeeklyInterval) list \<Rightarrow> WeeklyInterval
   \<Rightarrow> (scheduling_error, ('k \<times> WeeklyInterval) list) result" where
  "insert_hour parent k table i =
     (case weeklyRow i of Inl e \<Rightarrow> Inl e
      | Inr r \<Rightarrow>
          if 0 \<le> wi_day r \<and> wi_day r \<le> 6 \<and> hours_ok (wi_start r) (wi_minutes r) \<and> parent k
             \<and> \<not> list_ex (\<lambda>(k', j). k' = k \<and> wi_day j = wi_day r \<and> wi_start j = wi_start r) table
          then Inr (table @ [(k, r)]) else Inl Fault)"

text \<open>Delete the owner's rows, then insert the new ones.\<close>

definition replace_hours ::
  "('k \<Rightarrow> bool) \<Rightarrow> 'k \<Rightarrow> WeeklyInterval list \<Rightarrow> ('k \<times> WeeklyInterval) list
   \<Rightarrow> (scheduling_error, ('k \<times> WeeklyInterval) list) result" where
  "replace_hours parent k is table =
     fold_result (insert_hour parent k) (filter (\<lambda>(k', _). k' \<noteq> k) table) is"

text \<open>\<open>SELECT ... ORDER BY weekday, start_minute\<close>.\<close>

definition hours_of :: "('k \<times> WeeklyInterval) list \<Rightarrow> 'k \<Rightarrow> WeeklyInterval list" where
  "hours_of table k =
     sort_key (\<lambda>i. (wi_day i, wi_start i)) (map snd (filter (\<lambda>(k', _). k' = k) table))"

section \<open>Calendars\<close>

definition loadCalendar ::
  "scheduling_db \<Rightarrow> calendar_key \<Rightarrow> version_row \<Rightarrow> (scheduling_error, BranchCalendar) result" where
  "loadCalendar db k row =
     (case NewWeeklyHours (hours_of (sd_opening db) k) of Inl e \<Rightarrow> Inl e
      | Inr hours \<Rightarrow>
          Inr (RehydrateBranchCalendar (IDFromUUID (fst k)) (IDFromUUID (snd k)) hours (vr_version row) (vr_updated_at row)))"

definition Calendars_Get ::
  "scheduling_db \<Rightarrow> BusinessID \<Rightarrow> BranchID \<Rightarrow> (scheduling_error, BranchCalendar) result" where
  "Calendars_Get db business branch =
     (let k = (id_value business, id_value branch) in
      case sd_calendars db k of None \<Rightarrow> Inr (NewBranchCalendar business branch)
      | Some row \<Rightarrow> loadCalendar db k row)"

definition saveHours ::
  "scheduling_db \<Rightarrow> BranchCalendar \<Rightarrow> (scheduling_error, scheduling_db) result" where
  "saveHours db cal =
     (case replace_hours (\<lambda>k. sd_calendars db k \<noteq> None) (id_value (bc_business cal), id_value (bc_branch cal))
             (wh_intervals (bc_hours cal)) (sd_opening db) of Inl e \<Rightarrow> Inl e
      | Inr table \<Rightarrow> Inr (db\<lparr>sd_opening := table\<rparr>))"

text \<open>Insert or update the row that carries the version. \<open>ErrVersionConflict\<close> is both the primary
  key's violation and an update that matches no row.\<close>

definition save_version ::
  "('k \<rightharpoonup> version_row) \<Rightarrow> 'k \<Rightarrow> int \<Rightarrow> int \<Rightarrow> int \<Rightarrow> gotime \<Rightarrow> (scheduling_error, 'k \<rightharpoonup> version_row) result" where
  "save_version table k expected matched version updatedAt =
     (if expected = 0 then
        (if version \<le> 0 then Inl Fault else if table k \<noteq> None then Inl ErrVersionConflict
         else Inr (table(k \<mapsto> \<lparr>vr_version = version, vr_updated_at = db_time updatedAt\<rparr>)))
      else
        (case table k of None \<Rightarrow> Inl ErrVersionConflict
         | Some row \<Rightarrow>
             if vr_version row \<noteq> matched then Inl ErrVersionConflict
             else if version \<le> 0 then Inl Fault
             else Inr (table(k \<mapsto> \<lparr>vr_version = version, vr_updated_at = db_time updatedAt\<rparr>))))"

definition update_calendar_tx ::
  "scheduling_db \<Rightarrow> BusinessID \<Rightarrow> BranchID \<Rightarrow> int
   \<Rightarrow> (BranchCalendar \<Rightarrow> (scheduling_error, BranchCalendar) result)
   \<Rightarrow> (scheduling_error, BranchCalendar \<times> scheduling_db) result" where
  "update_calendar_tx db business branch expectedVersion fn =
     (let k = (id_value business, id_value branch) in
      case (case sd_calendars db k of None \<Rightarrow> Inr (NewBranchCalendar business branch)
            | Some row \<Rightarrow> loadCalendar db k row) of Inl e \<Rightarrow> Inl e
      | Inr cal \<Rightarrow>
          if bc_version cal \<noteq> expectedVersion then Inl ErrVersionConflict
          else case fn cal of Inl e \<Rightarrow> Inl e
          | Inr cal' \<Rightarrow>
          (case sched_toInt32 (bc_version cal') of Inl e \<Rightarrow> Inl e
          | Inr version \<Rightarrow>
          (case save_version (sd_calendars db) k expectedVersion
                 (case sd_calendars db k of None \<Rightarrow> 0 | Some row \<Rightarrow> vr_version row) version (bc_updatedAt cal') of
             Inl e \<Rightarrow> Inl e
          | Inr table \<Rightarrow>
          (case saveHours (db\<lparr>sd_calendars := table\<rparr>) cal' of Inl e \<Rightarrow> Inl e
           | Inr db' \<Rightarrow> Inr (cal', db'\<lparr>sd_outbox := sd_outbox db' @ bc_events cal'\<rparr>)))))"

definition Calendars_Update ::
  "scheduling_db \<Rightarrow> BusinessID \<Rightarrow> BranchID \<Rightarrow> int
   \<Rightarrow> (BranchCalendar \<Rightarrow> (scheduling_error, BranchCalendar) result)
   \<Rightarrow> (scheduling_error, BranchCalendar) result \<times> scheduling_db" where
  "Calendars_Update db business branch expectedVersion fn =
     (if expectedVersion < 0 \<or> 2147483647 < expectedVersion then (Inl ErrVersionConflict, db)
      else commit db (update_calendar_tx db business branch expectedVersion fn))"

section \<open>Schedules\<close>

text \<open>The rows of the left join: every override date with its hours, or with none.\<close>

definition override_rows :: "scheduling_db \<Rightarrow> scheduleKey \<Rightarrow> (int \<times> DayInterval option) list" where
  "override_rows db k =
     concat (map (\<lambda>n. case sort_key di_start (map snd (filter (\<lambda>(kn, _). kn = (k, n)) (sd_override_hours db))) of
                        [] \<Rightarrow> [(n, None)] | hs \<Rightarrow> map (\<lambda>h. (n, Some h)) hs)
       (sort (map snd (filter (\<lambda>(k', _). k' = k) (sd_overrides db)))))"

text \<open>The calendar date of a stored day number: \<open>DateOf\<close> of midnight UTC.\<close>

definition stored_date :: "int \<Rightarrow> Date" where
  "stored_date n = DateOf utc (n * 86400 * 1000000000)"

definition add_override_row ::
  "(Date \<rightharpoonup> DayInterval list) \<Rightarrow> int \<times> DayInterval option \<Rightarrow> (Date \<rightharpoonup> DayInterval list)" where
  "add_override_row m row =
     (case row of (n, h) \<Rightarrow>
        let date = stored_date n;
            m = (if m date = None then m(date \<mapsto> []) else m)
        in case h of None \<Rightarrow> m | Some i \<Rightarrow> m(date \<mapsto> the (m date) @ [i]))"

definition loadSchedule ::
  "scheduling_db \<Rightarrow> scheduleKey \<Rightarrow> int \<Rightarrow> gotime \<Rightarrow> (scheduling_error, BarberSchedule) result" where
  "loadSchedule db k version updatedAt =
     (case NewWeeklyHours (hours_of (sd_hours db) k) of Inl e \<Rightarrow> Inl e
      | Inr weekly \<Rightarrow>
          Inr (RehydrateBarberSchedule (IDFromUUID (k_business k)) (IDFromUUID (k_branch k)) (IDFromUUID (k_staff k))
                 weekly (foldl add_override_row Map.empty (override_rows db k)) version updatedAt))"

definition Schedules_Get ::
  "scheduling_db \<Rightarrow> BusinessID \<Rightarrow> BranchID \<Rightarrow> StaffID \<Rightarrow> (scheduling_error, BarberSchedule) result" where
  "Schedules_Get db business branch staff =
     (let k = keyOf business branch staff in
      case sd_schedules db k of None \<Rightarrow> Inr (NewBarberSchedule business branch staff)
      | Some row \<Rightarrow> loadSchedule db k (vr_version row) (vr_updated_at row))"

text \<open>The branches of the rows in their order, each once, with their hours.\<close>

definition other_branches :: "scheduling_db \<Rightarrow> scheduleKey \<Rightarrow> (scheduleKey \<times> WeeklyInterval) list" where
  "other_branches db k =
     sort_key (\<lambda>(k', i). (k_branch k', wi_day i, wi_start i))
       (filter (\<lambda>(k', _). k_business k' = k_business k \<and> k_staff k' = k_staff k \<and> k_branch k' \<noteq> k_branch k)
          (sd_hours db))"

definition hoursElsewhere ::
  "scheduling_db \<Rightarrow> scheduleKey \<Rightarrow> (scheduling_error, WeeklyHours list) result" where
  "hoursElsewhere db k =
     (let rows = other_branches db k;
          order = foldl (\<lambda>acc (k', _). if k_branch k' \<in> set acc then acc else acc @ [k_branch k']) [] rows
      in fold_result (\<lambda>out b.
           case NewWeeklyHours (map snd (filter (\<lambda>(k', _). k_branch k' = b) rows)) of Inl e \<Rightarrow> Inl e
           | Inr w \<Rightarrow> Inr (out @ [w])) [] order)"

definition insert_override_hour ::
  "scheduleKey \<times> int \<Rightarrow> ((scheduleKey \<times> int) \<times> DayInterval) list \<Rightarrow> DayInterval
   \<Rightarrow> (scheduling_error, ((scheduleKey \<times> int) \<times> DayInterval) list) result" where
  "insert_override_hour kn table i =
     (if \<not> is_ok (sched_toInt16 (di_start i)) \<or> \<not> is_ok (sched_toInt16 (di_minutes i))
         \<or> \<not> hours_ok (di_start i) (di_minutes i)
         \<or> list_ex (\<lambda>(kn', j). kn' = kn \<and> di_start j = di_start i) table
      then Inl Fault else Inr (table @ [(kn, i)]))"

definition insert_override ::
  "scheduleKey \<Rightarrow> scheduling_db \<Rightarrow> Date \<times> DayInterval list \<Rightarrow> (scheduling_error, scheduling_db) result" where
  "insert_override k db entry =
     (case entry of (date, intervals) \<Rightarrow>
        let n = local_days utc (AsTime date) in
        if sd_schedules db k = None \<or> (k, n) \<in> set (sd_overrides db) then Inl Fault
        else
          case fold_result (insert_override_hour (k, n)) (sd_override_hours db) intervals of Inl e \<Rightarrow> Inl e
          | Inr table \<Rightarrow> Inr (db\<lparr>sd_overrides := sd_overrides db @ [(k, n)], sd_override_hours := table\<rparr>))"

definition saveSchedule ::
  "((Date \<rightharpoonup> DayInterval list) \<Rightarrow> Date list) \<Rightarrow> scheduling_db \<Rightarrow> scheduleKey \<Rightarrow> BarberSchedule \<Rightarrow> int
   \<Rightarrow> (scheduling_error, scheduling_db) result" where
  "saveSchedule visit db k s expectedVersion =
     (case sched_toInt32 (bs_version s) of Inl e \<Rightarrow> Inl e
      | Inr version \<Rightarrow>
      (case sched_toInt32 expectedVersion of Inl e \<Rightarrow> Inl e
      | Inr expected \<Rightarrow>
      (case save_version (sd_schedules db) k expectedVersion expected version (bs_updatedAt s) of Inl e \<Rightarrow> Inl e
      | Inr table \<Rightarrow>
      (case replace_hours (\<lambda>k. table k \<noteq> None) k (wh_intervals (bs_weekly s)) (sd_hours db) of Inl e \<Rightarrow> Inl e
       | Inr hours \<Rightarrow>
           fold_result (insert_override k)
             (db\<lparr>sd_schedules := table, sd_hours := hours,
                 sd_override_hours := filter (\<lambda>((k', _), _). k' \<noteq> k) (sd_override_hours db),
                 sd_overrides := filter (\<lambda>(k', _). k' \<noteq> k) (sd_overrides db)\<rparr>)
             (map (\<lambda>d. (d, the (bs_overrides s d))) (visit (bs_overrides s)))))))"

definition update_schedule_tx ::
  "((Date \<rightharpoonup> DayInterval list) \<Rightarrow> Date list) \<Rightarrow> scheduling_db \<Rightarrow> BusinessID \<Rightarrow> BranchID \<Rightarrow> StaffID \<Rightarrow> int
   \<Rightarrow> (BarberSchedule \<Rightarrow> WeeklyHours list \<Rightarrow> (scheduling_error, BarberSchedule) result)
   \<Rightarrow> (scheduling_error, BarberSchedule \<times> scheduling_db) result" where
  "update_schedule_tx visit db business branch staff expectedVersion fn =
     (let k = keyOf business branch staff in
      case (case sd_schedules db k of None \<Rightarrow> Inr (NewBarberSchedule business branch staff)
            | Some row \<Rightarrow> loadSchedule db k (vr_version row) (vr_updated_at row)) of Inl e \<Rightarrow> Inl e
      | Inr s \<Rightarrow>
          if bs_version s \<noteq> expectedVersion then Inl ErrVersionConflict
          else case hoursElsewhere db k of Inl e \<Rightarrow> Inl e
          | Inr elsewhere \<Rightarrow>
          (case fn s elsewhere of Inl e \<Rightarrow> Inl e
          | Inr s' \<Rightarrow>
          (case saveSchedule visit db k s' expectedVersion of Inl e \<Rightarrow> Inl e | Inr db' \<Rightarrow> Inr (s', db'))))"

definition Schedules_Update ::
  "((Date \<rightharpoonup> DayInterval list) \<Rightarrow> Date list) \<Rightarrow> scheduling_db \<Rightarrow> BusinessID \<Rightarrow> BranchID \<Rightarrow> StaffID \<Rightarrow> int
   \<Rightarrow> (BarberSchedule \<Rightarrow> WeeklyHours list \<Rightarrow> (scheduling_error, BarberSchedule) result)
   \<Rightarrow> (scheduling_error, BarberSchedule) result \<times> scheduling_db" where
  "Schedules_Update visit db business branch staff expectedVersion fn =
     (if expectedVersion < 0 \<or> 2147483647 < expectedVersion then (Inl ErrVersionConflict, db)
      else commit db (update_schedule_tx visit db business branch staff expectedVersion fn))"

section \<open>Time off\<close>

definition time_off_span :: "time_off_row \<Rightarrow> Interval" where
  "time_off_span r = \<lparr>ivl_start = tr_starts_at r, ivl_end = tr_ends_at r\<rparr>"

definition time_off_row_of :: "TimeOff \<Rightarrow> time_off_row" where
  "time_off_row_of t =
     \<lparr>tr_id = id_value (to_id t), tr_business = id_value (to_business t), tr_staff = id_value (to_staff t),
      tr_starts_at = db_time (ivl_start (to_span t)), tr_ends_at = db_time (ivl_end (to_span t)),
      tr_reason = to_reason t, tr_created_at = db_time (to_createdAt t)\<rparr>"

definition time_off_ok :: "time_off_row \<Rightarrow> bool" where
  "time_off_ok r \<longleftrightarrow> tr_starts_at r < tr_ends_at r \<and> tr_ends_at r - tr_starts_at r \<le> 366 * 24 * hour
     \<and> rune_count (tr_reason r) \<le> 200"

definition TimeOffs_Add ::
  "scheduling_db \<Rightarrow> TimeOff \<Rightarrow> (scheduling_error, unit) result \<times> scheduling_db" where
  "TimeOffs_Add db t =
     (let r = time_off_row_of t in
      if \<not> time_off_ok r \<or> tr_id r \<in> set (map tr_id (sd_time_off db)) then (Inl Fault, db)
      else if list_ex (\<lambda>q. tr_business q = tr_business r \<and> tr_staff q = tr_staff r
                \<and> Overlaps (time_off_span q) (time_off_span r)) (sd_time_off db)
      then (Inl ErrTimeOffOverlaps, db)
      else (Inr (), db\<lparr>sd_time_off := sd_time_off db @ [r]\<rparr>))"

definition TimeOffs_List ::
  "scheduling_db \<Rightarrow> BusinessID \<Rightarrow> StaffID \<Rightarrow> gotime \<Rightarrow> (scheduling_error, TimeOff list) result" where
  "TimeOffs_List db business staff since =
     fold_result (\<lambda>out r.
        case NewInterval (tr_starts_at r) (tr_ends_at r) of Inl _ \<Rightarrow> Inl Fault
        | Inr stretch \<Rightarrow>
            Inr (out @ [\<lparr>to_id = IDFromUUID (tr_id r), to_business = business, to_staff = staff,
                         to_span = stretch, to_reason = tr_reason r, to_createdAt = tr_created_at r\<rparr>])) []
       (sort_key tr_starts_at (filter (\<lambda>r. tr_business r = id_value business \<and> tr_staff r = id_value staff
          \<and> db_time since < tr_ends_at r) (sd_time_off db)))"

definition TimeOffs_Delete ::
  "scheduling_db \<Rightarrow> BusinessID \<Rightarrow> StaffID \<Rightarrow> TimeOffID \<Rightarrow> (scheduling_error, unit) result \<times> scheduling_db" where
  "TimeOffs_Delete db business staff i =
     (let hit = (\<lambda>r. tr_business r = id_value business \<and> tr_staff r = id_value staff \<and> tr_id r = id_value i) in
      if filter hit (sd_time_off db) = [] then (Inl ErrNotFound, db)
      else (Inr (), db\<lparr>sd_time_off := filter (\<lambda>r. \<not> hit r) (sd_time_off db)\<rparr>))"

section \<open>Replacing an owner's hours\<close>

lemma weeklyRow_Inr: "weeklyRow i = Inr r \<Longrightarrow> r = i"
  by (auto simp: weeklyRow_def sched_toInt16_def split: if_splits)

lemma replace_hours_Inr:
  assumes "replace_hours parent k is table = Inr table'"
  shows "table' = filter (\<lambda>(k', _). k' \<noteq> k) table @ map (Pair k) is"
proof -
  have "t' = t @ map (Pair k) is" if "fold_result (insert_hour parent k) t is = Inr t'" for t t'
    using that
  proof (induction "is" arbitrary: t)
    case (Cons i "is")
    then obtain t1 where t1: "insert_hour parent k t i = Inr t1" "fold_result (insert_hour parent k) t1 is = Inr t'"
      by (auto split: sum.splits)
    then have "t1 = t @ [(k, i)]" using weeklyRow_Inr by (auto simp: insert_hour_def split: sum.splits if_splits)
    then show ?case using Cons.IH [OF t1(2)] by simp
  qed simp
  then show ?thesis using assms by (simp add: replace_hours_def)
qed

lemma valid_hours_Cons:
  "valid_hours (i # is) \<Longrightarrow> valid_hours is \<and> valid_weekly i \<and> (\<forall>j \<in> set is. week_minutes i \<inter> week_minutes j = {})"
proof -
  assume v: "valid_hours (i # is)"
  have "starts_on is d \<le> 4" for d
    using v starts_on_Cons [of i "is" d] by (auto simp: valid_hours_def split: if_splits) (smt (verit) starts_on_nonneg)+
  then show ?thesis using v by (auto simp: valid_hours_def pairwise_free_def)
qed

lemma week_minutes_start: "valid_weekly i \<Longrightarrow> weekStart i \<in> week_minutes i"
  using weekStart_valid [of i] by (auto simp: week_minutes_def valid_weekly_def intro!: image_eqI [of _ _ "weekStart i"])

lemma free_starts_differ:
  assumes "valid_weekly i" "valid_weekly j" "week_minutes i \<inter> week_minutes j = {}"
  shows "weekStart i \<noteq> weekStart j" "\<not> (wi_day j = wi_day i \<and> wi_start j = wi_start i)"
  using assms week_minutes_start [of i] week_minutes_start [of j] by (auto simp: weekStart_def)

lemma inj_on_weekStart: "valid_hours is \<Longrightarrow> inj_on weekStart (set is)"
proof (induction "is")
  case (Cons i "is")
  note v = valid_hours_Cons [OF Cons.prems]
  have "weekStart i \<notin> weekStart ` set is"
  proof
    assume "weekStart i \<in> weekStart ` set is"
    then obtain j where j: "j \<in> set is" "weekStart i = weekStart j" by auto
    then have "valid_weekly j" "week_minutes i \<inter> week_minutes j = {}" using v by (auto simp: valid_hours_def)
    then show False using free_starts_differ(1) v j(2) by blast
  qed
  then show ?case using Cons.IH v by auto
qed simp

lemma replace_hours_ok:
  assumes "valid_hours is" "parent k"
  shows "replace_hours parent k is table = Inr (filter (\<lambda>(k', _). k' \<noteq> k) table @ map (Pair k) is)"
proof -
  have "\<exists>t'. fold_result (insert_hour parent k) t is = Inr t'"
    if "valid_hours is" "\<forall>i \<in> set is. \<not> list_ex (\<lambda>(k', j). k' = k \<and> wi_day j = wi_day i \<and> wi_start j = wi_start i) t" for t
    using that
  proof (induction "is" arbitrary: t)
    case (Cons i "is")
    note v = valid_hours_Cons [OF Cons.prems(1)]
    have w: "weeklyRow i = Inr i"
      using v by (auto simp: weeklyRow_def sched_toInt16_def valid_weekly_def)
    have "hours_ok (wi_start i) (wi_minutes i)" using v by (auto simp: hours_ok_def valid_weekly_def)
    then have "insert_hour parent k t i = Inr (t @ [(k, i)])"
      using Cons.prems(2) v assms(2) by (auto simp: insert_hour_def w valid_weekly_def)
    moreover have "\<exists>t'. fold_result (insert_hour parent k) (t @ [(k, i)]) is = Inr t'"
    proof (rule Cons.IH)
      show "valid_hours is" using v by simp
      show "\<forall>j \<in> set is. \<not> list_ex (\<lambda>(k', l). k' = k \<and> wi_day l = wi_day j \<and> wi_start l = wi_start j) (t @ [(k, i)])"
      proof
        fix j assume j: "j \<in> set is"
        then have "valid_weekly j" "week_minutes j \<inter> week_minutes i = {}" using v by (auto simp: valid_hours_def)
        then have "\<not> (wi_day i = wi_day j \<and> wi_start i = wi_start j)" using free_starts_differ(2) v by blast
        then show "\<not> list_ex (\<lambda>(k', l). k' = k \<and> wi_day l = wi_day j \<and> wi_start l = wi_start j) (t @ [(k, i)])"
          using Cons.prems(2) j by simp
      qed
    qed
    ultimately show ?case by simp
  qed simp
  note ok = this
  have "\<exists>t'. replace_hours parent k is table = Inr t'"
    unfolding replace_hours_def by (rule ok [OF assms(1)]) (auto simp: list_ex_iff)
  then obtain t' where "replace_hours parent k is table = Inr t'" by blast
  then show ?thesis using replace_hours_Inr [of parent k "is" table t'] by simp
qed

lemma hours_of_replaced:
  "hours_of (filter (\<lambda>(k', _). k' \<noteq> k) table @ map (Pair k) is) k' =
     (if k' = k then sort_key (\<lambda>i. (wi_day i, wi_start i)) is else hours_of table k')"
proof (cases "k' = k")
  case True
  have "filter (\<lambda>(k', _). k' = k) (filter (\<lambda>(k', _). k' \<noteq> k) table) = []" by (auto simp: filter_empty_conv)
  moreover have "map snd (filter (\<lambda>(k', _). k' = k) (map (Pair k) is)) = is" by (induction "is") auto
  ultimately show ?thesis using True by (simp add: hours_of_def)
next
  case False
  have "filter (\<lambda>(k'', _). k'' = k') (filter (\<lambda>(k', _). k' \<noteq> k) table) = filter (\<lambda>(k'', _). k'' = k') table"
    unfolding filter_filter using False by (intro filter_cong) auto
  moreover have "filter (\<lambda>(k'', _). k'' = k') (map (Pair k) is) = []" using False by (auto simp: filter_empty_conv)
  ultimately show ?thesis using False by (simp add: hours_of_def)
qed

text \<open>Hours that \<open>NewWeeklyHours\<close> made read back as themselves, whatever the order of the rows.\<close>

lemma NewWeeklyHours_reread:
  assumes "valid_hours (wh_intervals w)" "sorted (map weekStart (wh_intervals w))" "mset is = mset (wh_intervals w)"
  shows "NewWeeklyHours is = Inr w"
proof -
  have "inj_on weekStart (set is)" using inj_on_weekStart [OF assms(1)] mset_eq_setD [OF assms(3)] by simp
  then have "sort_key weekStart is = wh_intervals w" using sort_key_inj_key_eq assms(2,3) by blast
  then show ?thesis using valid_hours_perm [OF assms(3)] assms(1) by (simp add: NewWeeklyHours_Inr_iff)
qed

lemma NewWeeklyHours_sorted: "NewWeeklyHours is = Inr w \<Longrightarrow> sorted (map weekStart (wh_intervals w))"
  by (simp add: NewWeeklyHours_Inr_iff)

lemma mset_hours_of: "mset (hours_of table k) = mset (map snd (filter (\<lambda>(k', _). k' = k) table))"
  by (simp add: hours_of_def)

lemma set_hours_of: "i \<in> set (hours_of table k) \<longleftrightarrow> (k, i) \<in> set table"
  by (force simp: hours_of_def)

section \<open>The version check\<close>

lemma save_version_Inr:
  assumes "save_version table k expected matched version u = Inr table'"
  shows "table' = table(k \<mapsto> \<lparr>vr_version = version, vr_updated_at = db_time u\<rparr>)" "0 < version"
  using assms by (auto simp: save_version_def split: if_splits option.splits)

lemma save_version_ok:
  assumes "0 < version" "expected = (case table k of None \<Rightarrow> 0 | Some row \<Rightarrow> vr_version row)"
    "matched = (case table k of None \<Rightarrow> 0 | Some row \<Rightarrow> vr_version row)" "\<forall>row. table k = Some row \<longrightarrow> 0 < vr_version row"
  shows "save_version table k expected matched version u = Inr (table(k \<mapsto> \<lparr>vr_version = version, vr_updated_at = db_time u\<rparr>))"
  using assms by (auto simp: save_version_def split: option.splits)

section \<open>Hours at other branches\<close>

lemma list_all2_left: "list_all2 P xs ys \<Longrightarrow> x \<in> set xs \<Longrightarrow> \<exists>y \<in> set ys. P x y"
  by (induction rule: list_all2_induct) auto

lemma list_all2_right: "list_all2 P xs ys \<Longrightarrow> y \<in> set ys \<Longrightarrow> \<exists>x \<in> set xs. P x y"
  by (induction rule: list_all2_induct) auto

text \<open>The keys of one person at the branches of one business.\<close>

definition same_person :: "scheduleKey \<Rightarrow> scheduleKey \<Rightarrow> bool" where
  "same_person k k' \<longleftrightarrow> k_business k' = k_business k \<and> k_staff k' = k_staff k"

lemma branches_in_order:
  "set (foldl (\<lambda>acc (k', _). if k_branch k' \<in> set acc then acc else acc @ [k_branch k']) acc rows)
     = set acc \<union> (\<lambda>(k', _). k_branch k') ` set rows"
  by (induction rows arbitrary: acc) auto

lemma fold_collect:
  assumes "fold_result (\<lambda>out b. case f b of Inl e \<Rightarrow> Inl e | Inr w \<Rightarrow> Inr (out @ [w])) acc bs = Inr out"
  shows "\<exists>ws. out = acc @ ws \<and> list_all2 (\<lambda>b w. f b = Inr w) bs ws"
  using assms
proof (induction bs arbitrary: acc)
  case (Cons b bs)
  then obtain w where w: "f b = Inr w" by (auto split: sum.splits)
  then obtain ws where "out = (acc @ [w]) @ ws" "list_all2 (\<lambda>b w. f b = Inr w) bs ws"
    using Cons.IH [of "acc @ [w]"] Cons.prems by auto
  then show ?case using w by (intro exI [of _ "w # ws"]) simp
qed simp

lemma fold_collect_ok:
  assumes "\<forall>b \<in> set bs. \<exists>w. f b = Inr w"
  shows "\<exists>out. fold_result (\<lambda>out b. case f b of Inl e \<Rightarrow> Inl e | Inr w \<Rightarrow> Inr (out @ [w])) acc bs = Inr out"
  using assms by (induction bs arbitrary: acc) auto

lemma other_branch_rows:
  assumes "same_person k k'" "k_branch k' \<noteq> k_branch k"
  shows "mset (map snd (filter (\<lambda>(k'', _). k_branch k'' = k_branch k') (other_branches db k))) = mset (hours_of (sd_hours db) k')"
proof -
  have e: "k_business k'' = k_business k \<and> k_staff k'' = k_staff k \<and> k_branch k'' \<noteq> k_branch k \<and> k_branch k'' = k_branch k'
      \<longleftrightarrow> k'' = k'" for k''
    using assms by (auto simp: same_person_def intro: scheduleKey.equality)
  have "filter_mset (\<lambda>(k'', _). k_branch k'' = k_branch k') (mset (other_branches db k)) =
      filter_mset (\<lambda>(k'', _). k'' = k') (mset (sd_hours db))"
    unfolding other_branches_def mset_sort mset_filter filter_filter_mset using e
    by (intro filter_mset_cong) auto
  then show ?thesis by (simp add: mset_hours_of mset_filter)
qed

text \<open>Every other branch of the person is among the hours elsewhere, and nothing else is.\<close>

lemma hoursElsewhere_Inr:
  assumes "hoursElsewhere db k = Inr ws" "same_person k k'" "k_branch k' \<noteq> k_branch k" "hours_of (sd_hours db) k' \<noteq> []"
  shows "\<exists>w \<in> set ws. NewWeeklyHours (map snd (filter (\<lambda>(k'', _). k_branch k'' = k_branch k') (other_branches db k))) = Inr w"
proof -
  let ?f = "\<lambda>b. NewWeeklyHours (map snd (filter (\<lambda>(k'', _). k_branch k'' = b) (other_branches db k)))"
  let ?order = "foldl (\<lambda>acc (k', _). if k_branch k' \<in> set acc then acc else acc @ [k_branch k']) [] (other_branches db k)"
  have l: "list_all2 (\<lambda>b w. ?f b = Inr w) ?order ws"
    using fold_collect [of ?f "[]" ?order ws] assms(1) by (auto simp: hoursElsewhere_def Let_def)
  obtain i where "(k', i) \<in> set (sd_hours db)" using assms(4) set_hours_of by (metis list.set_intros(1) neq_Nil_conv)
  then have "(k', i) \<in> set (other_branches db k)" using assms(2,3) by (auto simp: other_branches_def same_person_def)
  then have "k_branch k' \<in> set ?order" by (force simp: branches_in_order)
  then show ?thesis using list_all2_left [OF l] by blast
qed

lemma hoursElsewhere_ok:
  assumes "\<And>k'. valid_hours (hours_of (sd_hours db) k')"
  shows "\<exists>ws. hoursElsewhere db k = Inr ws \<and> (\<forall>w \<in> set ws. valid_hours (wh_intervals w)
    \<and> (\<exists>k'. same_person k k' \<and> k_branch k' \<noteq> k_branch k \<and> mset (wh_intervals w) = mset (hours_of (sd_hours db) k')))"
proof -
  let ?f = "\<lambda>b. NewWeeklyHours (map snd (filter (\<lambda>(k'', _). k_branch k'' = b) (other_branches db k)))"
  let ?order = "foldl (\<lambda>acc (k', _). if k_branch k' \<in> set acc then acc else acc @ [k_branch k']) [] (other_branches db k)"
  have b: "\<exists>k'. same_person k k' \<and> k_branch k' \<noteq> k_branch k \<and> b = k_branch k'" if "b \<in> set ?order" for b
    using that by (force simp: branches_in_order other_branches_def same_person_def)
  have f: "\<exists>k' w. same_person k k' \<and> k_branch k' \<noteq> k_branch k \<and> ?f b = Inr w \<and> valid_hours (wh_intervals w)
      \<and> mset (wh_intervals w) = mset (hours_of (sd_hours db) k')" if "b \<in> set ?order" for b
  proof -
    obtain k' where k': "same_person k k'" "k_branch k' \<noteq> k_branch k" "b = k_branch k'" using b [OF \<open>b \<in> set ?order\<close>] by blast
    note m = other_branch_rows [OF k'(1,2), of db]
    have v: "valid_hours (map snd (filter (\<lambda>(k'', _). k_branch k'' = b) (other_branches db k)))"
      using valid_hours_perm [OF m] assms k'(3) by simp
    then obtain w where w: "?f b = Inr w" using valid_hours_NewWeeklyHours by blast
    moreover have "mset (wh_intervals w) = mset (hours_of (sd_hours db) k')"
      using w m k'(3) by (auto simp: NewWeeklyHours_Inr_iff)
    ultimately show ?thesis using k'(1,2) NewWeeklyHours_valid by blast
  qed
  then obtain ws where ws: "fold_result (\<lambda>out b. case ?f b of Inl e \<Rightarrow> Inl e | Inr w \<Rightarrow> Inr (out @ [w])) [] ?order = Inr ws"
    using fold_collect_ok [of ?order ?f "[]"] by blast
  then have l: "list_all2 (\<lambda>b w. ?f b = Inr w) ?order ws" using fold_collect [of ?f "[]" ?order ws] by auto
  have "valid_hours (wh_intervals w) \<and> (\<exists>k'. same_person k k' \<and> k_branch k' \<noteq> k_branch k
      \<and> mset (wh_intervals w) = mset (hours_of (sd_hours db) k'))" if w: "w \<in> set ws" for w
  proof -
    obtain b where "b \<in> set ?order" "?f b = Inr w" using list_all2_right [OF l w] by blast
    then show ?thesis using f by fastforce
  qed
  then show ?thesis using ws by (auto simp: hoursElsewhere_def Let_def)
qed

section \<open>Overrides\<close>

lemma AsTime_days: "local_days utc (AsTime d) = date_days d"
  by (simp add: AsTime_def date_days_def)

lemma date_of_stored: "stored_date n = date_of_days n"
  by (simp only: stored_date_def DateOf_days local_days_midnight_utc)

text \<open>The rows that saving an override adds.\<close>

definition day_rows :: "scheduleKey \<Rightarrow> Date \<times> DayInterval list \<Rightarrow> ((scheduleKey \<times> int) \<times> DayInterval) list" where
  "day_rows k e = map (Pair (k, date_days (fst e))) (snd e)"

lemma insert_override_Inr:
  assumes "insert_override k db (d, is) = Inr db'"
  shows "db' = db\<lparr>sd_overrides := sd_overrides db @ [(k, date_days d)],
    sd_override_hours := sd_override_hours db @ day_rows k (d, is)\<rparr>"
proof -
  have "t' = t @ map (Pair kn) is" if "fold_result (insert_override_hour kn) t is = Inr t'" for kn t t'
    using that
  proof (induction "is" arbitrary: t)
    case (Cons i "is")
    have "fold_result (insert_override_hour kn) (t @ [(kn, i)]) is = Inr t'"
      using Cons.prems by (auto simp: insert_override_hour_def [of kn t i] split: if_splits)
    from Cons.IH [OF this] show ?case by simp
  qed simp
  then show ?thesis
    using assms by (auto simp: insert_override_def AsTime_days Let_def day_rows_def split: if_splits sum.splits)
qed

lemma fold_insert_override:
  assumes "fold_result (insert_override k) db es = Inr db'"
  shows "db' = db\<lparr>sd_overrides := sd_overrides db @ map (\<lambda>(d, _). (k, date_days d)) es,
    sd_override_hours := sd_override_hours db @ concat (map (day_rows k) es)\<rparr>"
  using assms
proof (induction es arbitrary: db)
  case (Cons e es)
  obtain d "is" where e: "e = (d, is)" by fastforce
  obtain db1 where db1: "insert_override k db e = Inr db1" "fold_result (insert_override k) db1 es = Inr db'"
    using Cons.prems by (auto split: sum.splits)
  show ?case using Cons.IH [OF db1(2)] insert_override_Inr [of k db d "is" db1] db1(1) e by simp
qed simp

lemma valid_day_Cons:
  assumes "valid_day (i # is)"
  shows "valid_day is" "hours_ok (di_start i) (di_minutes i)" "is_ok (sched_toInt16 (di_start i))"
    "is_ok (sched_toInt16 (di_minutes i))" "\<forall>j \<in> set is. di_start j \<noteq> di_start i"
proof -
  let ?w = "\<lambda>i. \<lparr>wi_day = 0, wi_start = di_start i, wi_minutes = di_minutes i\<rparr>"
  note v = valid_hours_Cons [of "?w i" "map ?w is"]
  have v: "valid_hours (map ?w is)" "valid_weekly (?w i)" "\<forall>j \<in> set is. week_minutes (?w i) \<inter> week_minutes (?w j) = {}"
    using v assms by (auto simp: valid_day_def)
  show "valid_day is" using v(1) by (simp add: valid_day_def)
  show "hours_ok (di_start i) (di_minutes i)" using v(2) by (auto simp: hours_ok_def valid_weekly_def)
  show "is_ok (sched_toInt16 (di_start i))" "is_ok (sched_toInt16 (di_minutes i))"
    using v(2) by (auto simp: sched_toInt16_def valid_weekly_def)
  show "\<forall>j \<in> set is. di_start j \<noteq> di_start i"
  proof
    fix j assume j: "j \<in> set is"
    then have "valid_weekly (?w j)" using v(1) by (auto simp: valid_hours_def)
    then show "di_start j \<noteq> di_start i" using free_starts_differ(2) [OF v(2), of "?w j"] v(3) j by simp
  qed
qed

lemma insert_override_ok:
  assumes "sd_schedules db k \<noteq> None" "(k, date_days d) \<notin> set (sd_overrides db)" "valid_day is"
    "\<forall>x \<in> set (sd_override_hours db). fst x \<noteq> (k, date_days d)"
  shows "\<exists>db'. insert_override k db (d, is) = Inr db'"
proof -
  have ok: "\<exists>t'. fold_result (insert_override_hour kn) t is = Inr t'"
    if "valid_day is" "\<forall>i \<in> set is. \<not> list_ex (\<lambda>(kn', j). kn' = kn \<and> di_start j = di_start i) t" for kn t
    using that
  proof (induction "is" arbitrary: t)
    case (Cons i "is")
    note v = valid_day_Cons [OF Cons.prems(1)]
    have "insert_override_hour kn t i = Inr (t @ [(kn, i)])" using v Cons.prems(2) by (simp add: insert_override_hour_def)
    moreover have "\<exists>t'. fold_result (insert_override_hour kn) (t @ [(kn, i)]) is = Inr t'"
    proof (rule Cons.IH [OF v(1)], rule ballI)
      fix j assume "j \<in> set is"
      then show "\<not> list_ex (\<lambda>(kn', l). kn' = kn \<and> di_start l = di_start j) (t @ [(kn, i)])"
        using v(5) Cons.prems(2) by fastforce
    qed
    ultimately show ?case by simp
  qed simp
  have "\<exists>t'. fold_result (insert_override_hour (k, date_days d)) (sd_override_hours db) is = Inr t'"
    by (rule ok [OF assms(3)]) (use assms(4) in \<open>auto simp: list_ex_iff\<close>)
  then show ?thesis using assms(1,2) by (auto simp: insert_override_def AsTime_days Let_def)
qed

lemma fold_insert_override_ok:
  assumes "sd_schedules db k \<noteq> None" "distinct (map (date_days \<circ> fst) es)" "\<forall>e \<in> set es. valid_day (snd e)"
    "\<forall>e \<in> set es. (k, date_days (fst e)) \<notin> set (sd_overrides db)"
    "\<forall>e \<in> set es. \<forall>x \<in> set (sd_override_hours db). fst x \<noteq> (k, date_days (fst e))"
  shows "\<exists>db'. fold_result (insert_override k) db es = Inr db'"
  using assms
proof (induction es arbitrary: db)
  case (Cons e es)
  obtain d "is" where e: "e = (d, is)" by fastforce
  obtain db1 where db1: "insert_override k db e = Inr db1"
    using insert_override_ok [of db k d "is"] Cons.prems e by auto
  have s: "db1 = db\<lparr>sd_overrides := sd_overrides db @ [(k, date_days d)],
    sd_override_hours := sd_override_hours db @ day_rows k (d, is)\<rparr>"
    using insert_override_Inr db1 e by simp
  have "\<exists>db'. fold_result (insert_override k) db1 es = Inr db'"
  proof (rule Cons.IH)
    show "\<forall>e \<in> set es. (k, date_days (fst e)) \<notin> set (sd_overrides db1)"
      using Cons.prems(2,4) e by (force simp: s)
    show "\<forall>e \<in> set es. \<forall>x \<in> set (sd_override_hours db1). fst x \<noteq> (k, date_days (fst e))"
      using Cons.prems(2,5) e by (force simp: s day_rows_def)
  qed (use Cons.prems in \<open>auto simp: s\<close>)
  then show ?case using db1 by simp
qed simp

text \<open>Reading the rows of distinct dates back builds the map again.\<close>

definition date_block :: "(int \<Rightarrow> DayInterval list) \<Rightarrow> int \<Rightarrow> (int \<times> DayInterval option) list" where
  "date_block hs n = (case hs n of [] \<Rightarrow> [(n, None)] | xs \<Rightarrow> map (\<lambda>h. (n, Some h)) xs)"

lemma add_hours:
  "m (date_of_days n) = Some ys \<Longrightarrow>
     foldl add_override_row m (map (\<lambda>h. (n, Some h)) xs) = m(date_of_days n \<mapsto> ys @ xs)"
proof (induction xs arbitrary: m ys)
  case (Cons x xs)
  have "add_override_row m (n, Some x) = m(date_of_days n \<mapsto> ys @ [x])"
    using Cons.prems by (simp add: add_override_row_def date_of_stored Let_def)
  then show ?case
    using Cons.IH [of "m(date_of_days n \<mapsto> ys @ [x])" "ys @ [x]", OF fun_upd_same]
    by (simp only: list.map foldl_Cons fun_upd_upd append.assoc append_Cons append_Nil)
qed (auto simp: fun_upd_idem)

lemma add_block:
  assumes "m (date_of_days n) = None"
  shows "foldl add_override_row m (date_block hs n) = m(date_of_days n \<mapsto> hs n)"
proof (cases "hs n")
  case Nil
  then show ?thesis using assms by (simp add: date_block_def add_override_row_def date_of_stored Let_def)
next
  case (Cons x xs)
  have "add_override_row m (n, Some x) = m(date_of_days n \<mapsto> [x])"
    using assms by (simp add: add_override_row_def date_of_stored Let_def)
  then show ?thesis using Cons add_hours [of "m(date_of_days n \<mapsto> [x])" n "[x]" xs] by (simp add: date_block_def)
qed

lemma add_blocks:
  assumes "distinct ns" "\<forall>n \<in> set ns. m (date_of_days n) = None"
  shows "foldl add_override_row m (concat (map (date_block hs) ns)) =
    (\<lambda>d. if d \<in> date_of_days ` set ns then Some (hs (date_days d)) else m d)"
  using assms
proof (induction ns arbitrary: m)
  case (Cons n ns)
  have "foldl add_override_row m (concat (map (date_block hs) (n # ns)))
      = foldl add_override_row (m(date_of_days n \<mapsto> hs n)) (concat (map (date_block hs) ns))"
    using add_block [of m n hs] Cons.prems(2) by simp
  also have "\<dots> = (\<lambda>d. if d \<in> date_of_days ` set ns then Some (hs (date_days d)) else (m(date_of_days n \<mapsto> hs n)) d)"
    using Cons.prems by (intro Cons.IH) auto
  finally show ?case by (auto simp: fun_eq_iff)
qed simp

lemma override_rows_blocks:
  "override_rows db k = concat (map (date_block (\<lambda>n. sort_key di_start (map snd (filter (\<lambda>(kn, _). kn = (k, n)) (sd_override_hours db)))))
     (sort (map snd (filter (\<lambda>(k', _). k' = k) (sd_overrides db)))))"
  unfolding override_rows_def by (intro arg_cong [of _ _ concat] map_cong refl) (simp only: date_block_def)

section \<open>Saving and reading a schedule\<close>

text \<open>\<open>visit\<close> meets every entry of the map once.\<close>

definition visits :: "((Date \<rightharpoonup> DayInterval list) \<Rightarrow> Date list) \<Rightarrow> (Date \<rightharpoonup> DayInterval list) \<Rightarrow> bool" where
  "visits visit m \<longleftrightarrow> distinct (visit m) \<and> set (visit m) = dom m"

definition storable :: "BarberSchedule \<Rightarrow> bool" where
  "storable s \<longleftrightarrow> valid_schedule s \<and> sorted (map weekStart (wh_intervals (bs_weekly s)))
     \<and> (\<forall>d ivs. bs_overrides s d = Some ivs \<longrightarrow> sorted (map di_start ivs))"

definition override_entries ::
  "((Date \<rightharpoonup> DayInterval list) \<Rightarrow> Date list) \<Rightarrow> BarberSchedule \<Rightarrow> (Date \<times> DayInterval list) list" where
  "override_entries visit s = map (\<lambda>d. (d, the (bs_overrides s d))) (visit (bs_overrides s))"

text \<open>The database after a schedule was saved.\<close>

definition saved_db ::
  "((Date \<rightharpoonup> DayInterval list) \<Rightarrow> Date list) \<Rightarrow> scheduling_db \<Rightarrow> scheduleKey \<Rightarrow> BarberSchedule \<Rightarrow> scheduling_db" where
  "saved_db visit db k s =
     db\<lparr>sd_schedules := (sd_schedules db)(k \<mapsto> \<lparr>vr_version = bs_version s, vr_updated_at = db_time (bs_updatedAt s)\<rparr>),
        sd_hours := filter (\<lambda>(k', _). k' \<noteq> k) (sd_hours db) @ map (Pair k) (wh_intervals (bs_weekly s)),
        sd_overrides := filter (\<lambda>(k', _). k' \<noteq> k) (sd_overrides db)
          @ map (\<lambda>(d, _). (k, date_days d)) (override_entries visit s),
        sd_override_hours := filter (\<lambda>((k', _), _). k' \<noteq> k) (sd_override_hours db)
          @ concat (map (day_rows k) (override_entries visit s))\<rparr>"

lemma saveSchedule_Inr:
  assumes "saveSchedule visit db k s expected = Inr db'"
  shows "db' = saved_db visit db k s" "0 < bs_version s"
proof -
  obtain table hours where t: "save_version (sd_schedules db) k expected expected (bs_version s) (bs_updatedAt s) = Inr table"
    "replace_hours (\<lambda>k. table k \<noteq> None) k (wh_intervals (bs_weekly s)) (sd_hours db) = Inr hours"
    "fold_result (insert_override k)
       (db\<lparr>sd_schedules := table, sd_hours := hours,
           sd_override_hours := filter (\<lambda>((k', _), _). k' \<noteq> k) (sd_override_hours db),
           sd_overrides := filter (\<lambda>(k', _). k' \<noteq> k) (sd_overrides db)\<rparr>) (override_entries visit s) = Inr db'"
    using assms by (auto simp: saveSchedule_def override_entries_def sched_toInt32_def split: sum.splits if_splits)
  show "0 < bs_version s" by (rule save_version_Inr(2) [OF t(1)])
  show "db' = saved_db visit db k s"
    unfolding fold_insert_override [OF t(3)] saved_db_def replace_hours_Inr [OF t(2)] save_version_Inr(1) [OF t(1)]
    by simp
qed

lemma entries_distinct:
  assumes "visits visit (bs_overrides s)" "valid_overrides (bs_overrides s)"
  shows "distinct (map (date_days \<circ> fst) (override_entries visit s))"
proof -
  have "inj_on date_days (set (visit (bs_overrides s)))"
    using assms date_of_days_days by (intro inj_on_inverseI [of _ date_of_days]) (auto simp: visits_def valid_overrides_def)
  then show ?thesis using assms(1) by (simp add: override_entries_def comp_def distinct_map visits_def)
qed

lemma saveSchedule_ok:
  assumes "storable s" "visits visit (bs_overrides s)" "0 < bs_version s" "bs_version s \<le> 2147483647"
    "expected = (case sd_schedules db k of None \<Rightarrow> 0 | Some row \<Rightarrow> vr_version row)"
    "\<forall>row. sd_schedules db k = Some row \<longrightarrow> 0 < vr_version row \<and> vr_version row \<le> 2147483647"
  shows "saveSchedule visit db k s expected = Inr (saved_db visit db k s)"
proof -
  let ?t = "(sd_schedules db)(k \<mapsto> \<lparr>vr_version = bs_version s, vr_updated_at = db_time (bs_updatedAt s)\<rparr>)"
  have e: "0 \<le> expected" "expected \<le> 2147483647" using assms(5,6) by (auto split: option.splits)
  have sv: "save_version (sd_schedules db) k expected expected (bs_version s) (bs_updatedAt s) = Inr ?t"
    using assms(3,5,6) by (intro save_version_ok) auto
  have v: "valid_hours (wh_intervals (bs_weekly s))" "valid_overrides (bs_overrides s)"
    using assms(1) by (auto simp: storable_def valid_schedule_def)
  have ov: "valid_day (snd x)" if "x \<in> set (override_entries visit s)" for x
    using that assms(2) v(2) by (auto simp: override_entries_def visits_def valid_overrides_def)
  let ?db = "db\<lparr>sd_schedules := ?t,
      sd_hours := filter (\<lambda>(k', _). k' \<noteq> k) (sd_hours db) @ map (Pair k) (wh_intervals (bs_weekly s)),
      sd_override_hours := filter (\<lambda>((k', _), _). k' \<noteq> k) (sd_override_hours db),
      sd_overrides := filter (\<lambda>(k', _). k' \<noteq> k) (sd_overrides db)\<rparr>"
  obtain db' where "fold_result (insert_override k) ?db (override_entries visit s) = Inr db'"
    using fold_insert_override_ok [of ?db k "override_entries visit s"] entries_distinct [OF assms(2) v(2)] ov by force
  then have "saveSchedule visit db k s expected = Inr db'"
    using assms(3,4) e replace_hours_ok [OF v(1), of "\<lambda>k. ?t k \<noteq> None" k]
    by (simp add: saveSchedule_def sched_toInt32_def sv override_entries_def)
  then show ?thesis using saveSchedule_Inr(1) by blast
qed

lemma saved_db_simps:
  "sd_hours (saved_db visit db k s) = filter (\<lambda>(k', _). k' \<noteq> k) (sd_hours db) @ map (Pair k) (wh_intervals (bs_weekly s))"
  "sd_schedules (saved_db visit db k s) =
     (sd_schedules db)(k \<mapsto> \<lparr>vr_version = bs_version s, vr_updated_at = db_time (bs_updatedAt s)\<rparr>)"
  "sd_calendars (saved_db visit db k s) = sd_calendars db" "sd_opening (saved_db visit db k s) = sd_opening db"
  "sd_time_off (saved_db visit db k s) = sd_time_off db" "sd_outbox (saved_db visit db k s) = sd_outbox db"
  by (simp_all add: saved_db_def)

lemma hours_saved:
  "hours_of (sd_hours (saved_db visit db k s)) k' =
     (if k' = k then sort_key (\<lambda>i. (wi_day i, wi_start i)) (wh_intervals (bs_weekly s)) else hours_of (sd_hours db) k')"
  by (simp only: saved_db_simps hours_of_replaced)

lemma filter_other:
  assumes "\<And>x. Q x \<Longrightarrow> P x" "\<forall>y \<in> set ys. \<not> Q y"
  shows "filter Q (filter P xs @ ys) = filter Q xs"
proof -
  have "filter Q (filter P xs) = filter Q xs" unfolding filter_filter using assms(1) by (intro filter_cong) auto
  moreover have "filter Q ys = []" using assms(2) by (simp add: filter_empty_conv)
  ultimately show ?thesis by simp
qed

lemma override_rows_other:
  assumes "k' \<noteq> k"
  shows "override_rows (saved_db visit db k s) k' = override_rows db k'"
proof -
  have a: "filter (\<lambda>(k'', _). k'' = k') (sd_overrides (saved_db visit db k s)) = filter (\<lambda>(k'', _). k'' = k') (sd_overrides db)"
    using assms by (simp add: saved_db_def del: filter_append) (rule filter_other, auto)
  have b: "filter (\<lambda>(kn, _). kn = (k', n)) (sd_override_hours (saved_db visit db k s))
      = filter (\<lambda>(kn, _). kn = (k', n)) (sd_override_hours db)" for n
    using assms by (simp add: saved_db_def del: filter_append) (rule filter_other, auto simp: day_rows_def)
  show ?thesis by (simp only: override_rows_def a b)
qed

lemma filter_day_rows:
  assumes "distinct (map (date_days \<circ> fst) es)" "e \<in> set es"
  shows "map snd (filter (\<lambda>(kn, _). kn = (k, date_days (fst e))) (concat (map (day_rows k) es))) = snd e"
  using assms
proof (induction es)
  case (Cons x es)
  have same: "map snd (filter (\<lambda>(kn, _). kn = (k, date_days (fst x))) (day_rows k x)) = snd x" for x :: "Date \<times> DayInterval list"
    by (simp add: day_rows_def filter_map comp_def)
  have none: "filter (\<lambda>(kn, _). kn = (k, n)) (day_rows k y) = []" if "date_days (fst y) \<noteq> n" for y n
    using that by (auto simp: day_rows_def filter_empty_conv)
  show ?case
  proof (cases "e = x")
    case True
    have "filter (\<lambda>(kn, _). kn = (k, date_days (fst e))) (concat (map (day_rows k) es)) = []"
      unfolding filter_empty_conv
    proof
      fix r assume "r \<in> set (concat (map (day_rows k) es))"
      then obtain y where "y \<in> set es" "fst r = (k, date_days (fst y))" by (auto simp: day_rows_def)
      moreover then have "date_days (fst y) \<noteq> date_days (fst e)" using Cons.prems(1) True by (auto simp: image_iff)
      ultimately show "\<not> (case r of (kn, _) \<Rightarrow> kn = (k, date_days (fst e)))" by (cases r) simp
    qed
    then show ?thesis using same [of x] True by simp
  next
    case False
    then have "e \<in> set es" "date_days (fst x) \<noteq> date_days (fst e)" using Cons.prems by auto
    then show ?thesis using Cons none [of x "date_days (fst e)"] by simp
  qed
qed simp

lemma overrides_saved:
  assumes "storable s" "visits visit (bs_overrides s)"
  shows "foldl add_override_row Map.empty (override_rows (saved_db visit db k s) k) = bs_overrides s"
proof -
  let ?db = "saved_db visit db k s" and ?es = "override_entries visit s"
  let ?hs = "\<lambda>n. sort_key di_start (map snd (filter (\<lambda>(kn, _). kn = (k, n)) (sd_override_hours ?db)))"
  let ?ns = "sort (map snd (filter (\<lambda>(k', _). k' = k) (sd_overrides ?db)))"
  have v: "valid_overrides (bs_overrides s)" using assms(1) by (simp add: storable_def valid_schedule_def)
  have dist: "distinct (map (date_days \<circ> fst) ?es)" by (rule entries_distinct [OF assms(2) v])
  have ns: "?ns = sort (map (date_days \<circ> fst) ?es)"
  proof -
    have "filter (\<lambda>(k', _). k' = k) (filter (\<lambda>(k', _). k' \<noteq> k) (sd_overrides db)) = []" by (auto simp: filter_empty_conv)
    then show ?thesis by (simp add: saved_db_def filter_map comp_def case_prod_beta)
  qed
  have hs: "?hs (date_days d) = ivs" if "bs_overrides s d = Some ivs" for d ivs
  proof -
    have e: "(d, ivs) \<in> set ?es" using that assms(2) by (force simp: override_entries_def visits_def)
    have "filter (\<lambda>(kn, _). kn = (k, n)) (filter (\<lambda>((k', _), _). k' \<noteq> k) (sd_override_hours db)) = []" for n
      by (auto simp: filter_empty_conv)
    then have "map snd (filter (\<lambda>(kn, _). kn = (k, date_days d)) (sd_override_hours ?db)) = ivs"
      using filter_day_rows [OF dist e, of k] by (simp add: saved_db_def)
    then show ?thesis using assms(1) that by (simp add: storable_def sort_key_id_if_sorted)
  qed
  have "foldl add_override_row Map.empty (override_rows ?db k)
      = (\<lambda>d. if d \<in> date_of_days ` set ?ns then Some (?hs (date_days d)) else None)"
    unfolding override_rows_blocks using add_blocks [of ?ns Map.empty ?hs] dist ns by simp
  also have "\<dots> = bs_overrides s"
  proof
    fix d
    have "date_of_days ` set ?ns = dom (bs_overrides s)"
    proof -
      have "date_of_days ` set ?ns = (\<lambda>d. date_of_days (date_days d)) ` dom (bs_overrides s)"
        using assms(2) ns by (simp add: override_entries_def visits_def image_image)
      also have "\<dots> = dom (bs_overrides s)"
        using v date_of_days_days by (force simp: valid_overrides_def)
      finally show ?thesis .
    qed
    then show "(if d \<in> date_of_days ` set ?ns then Some (?hs (date_days d)) else None) = bs_overrides s d"
      using hs by (cases "bs_overrides s d") auto
  qed
  finally show ?thesis .
qed

lemma loadSchedule_saved:
  assumes "storable s" "visits visit (bs_overrides s)" "k = keyOf (bs_business s) (bs_branch s) (bs_staff s)"
  shows "loadSchedule (saved_db visit db k s) k v u = Inr (s\<lparr>bs_version := v, bs_updatedAt := u\<rparr>)"
proof -
  have "NewWeeklyHours (hours_of (sd_hours (saved_db visit db k s)) k) = Inr (bs_weekly s)"
    using assms(1) by (intro NewWeeklyHours_reread) (auto simp: hours_saved storable_def valid_schedule_def)
  then show ?thesis
    using overrides_saved [OF assms(1,2), of db k]
    by (simp add: loadSchedule_def RehydrateBarberSchedule_def assms(3) keyOf_def IDFromUUID_def)
qed

section \<open>The invariant of the tables\<close>

definition time_off_apart :: "time_off_row list \<Rightarrow> bool" where
  "time_off_apart rows \<longleftrightarrow> distinct (map tr_id rows) \<and> (\<forall>r \<in> set rows. time_off_ok r)
     \<and> (\<forall>r \<in> set rows. \<forall>q \<in> set rows. tr_id r \<noteq> tr_id q \<and> tr_business r = tr_business q \<and> tr_staff r = tr_staff q
          \<longrightarrow> \<not> Overlaps (time_off_span r) (time_off_span q))"

definition no_clash :: "scheduling_db \<Rightarrow> bool" where
  "no_clash db \<longleftrightarrow> (\<forall>k k'. same_person k k' \<and> k_branch k' \<noteq> k_branch k \<longrightarrow>
     (\<forall>i \<in> set (hours_of (sd_hours db) k). \<forall>j \<in> set (hours_of (sd_hours db) k'). week_minutes i \<inter> week_minutes j = {}))"

definition versions_ok :: "('k \<rightharpoonup> version_row) \<Rightarrow> bool" where
  "versions_ok t \<longleftrightarrow> (\<forall>k row. t k = Some row \<longrightarrow> 0 < vr_version row \<and> vr_version row \<le> 2147483647)"

definition stored_overrides :: "scheduling_db \<Rightarrow> scheduleKey \<Rightarrow> Date \<rightharpoonup> DayInterval list" where
  "stored_overrides db k = foldl add_override_row Map.empty (override_rows db k)"

definition wf_sd :: "scheduling_db \<Rightarrow> bool" where
  "wf_sd db \<longleftrightarrow> versions_ok (sd_calendars db) \<and> (\<forall>k. valid_hours (hours_of (sd_opening db) k))
     \<and> versions_ok (sd_schedules db) \<and> (\<forall>k. valid_hours (hours_of (sd_hours db) k))
     \<and> (\<forall>k. valid_overrides (stored_overrides db k)) \<and> (\<forall>(k, i) \<in> set (sd_hours db). sd_schedules db k \<noteq> None)
     \<and> no_clash db \<and> time_off_apart (sd_time_off db)"

lemma valid_hours_Nil [simp]: "valid_hours []"
  by (simp add: valid_hours_def starts_on_def pairwise_free_def)

lemma wf_empty_sd: "wf_sd empty_sd"
  by (simp add: wf_sd_def empty_sd_def versions_ok_def hours_of_def stored_overrides_def override_rows_def
      valid_overrides_def no_clash_def time_off_apart_def)

lemma Schedules_Get_ok:
  assumes "wf_sd db"
  shows "\<exists>s. Schedules_Get db business branch staff = Inr s \<and> valid_schedule s
    \<and> bs_business s = business \<and> bs_branch s = branch \<and> bs_staff s = staff
    \<and> mset (wh_intervals (bs_weekly s)) = mset (hours_of (sd_hours db) (keyOf business branch staff))
    \<and> bs_version s = (case sd_schedules db (keyOf business branch staff) of None \<Rightarrow> 0 | Some row \<Rightarrow> vr_version row)"
proof (cases "sd_schedules db (keyOf business branch staff)")
  case None
  have "hours_of (sd_hours db) (keyOf business branch staff) = []"
  proof -
    have "(keyOf business branch staff, i) \<notin> set (sd_hours db)" for i using assms None by (auto simp: wf_sd_def)
    then have "i \<notin> set (hours_of (sd_hours db) (keyOf business branch staff))" for i by (simp add: set_hours_of)
    then show ?thesis by (metis list.set_sel(1))
  qed
  then show ?thesis
    using None by (simp add: Schedules_Get_def NewBarberSchedule_def Let_def valid_schedule_def valid_overrides_def)
next
  case (Some row)
  let ?k = "keyOf business branch staff"
  have v: "valid_hours (hours_of (sd_hours db) ?k)" "valid_overrides (stored_overrides db ?k)" using assms by (auto simp: wf_sd_def)
  obtain w where w: "NewWeeklyHours (hours_of (sd_hours db) ?k) = Inr w" using valid_hours_NewWeeklyHours [OF v(1)] by blast
  then have "valid_hours (wh_intervals w)" "mset (wh_intervals w) = mset (hours_of (sd_hours db) ?k)"
    using NewWeeklyHours_valid [OF w] by (simp_all add: NewWeeklyHours_Inr_iff)
  then show ?thesis
    using Some w v(2) by (simp add: Schedules_Get_def Let_def loadSchedule_def RehydrateBarberSchedule_def valid_schedule_def
        stored_overrides_def keyOf_def IDFromUUID_def)
qed

lemma Calendars_Get_ok:
  assumes "wf_sd db"
  shows "\<exists>c. Calendars_Get db business branch = Inr c \<and> valid_hours (wh_intervals (bc_hours c))
    \<and> bc_business c = business \<and> bc_branch c = branch \<and> bc_events c = []
    \<and> bc_version c = (case sd_calendars db (id_value business, id_value branch) of None \<Rightarrow> 0 | Some row \<Rightarrow> vr_version row)"
proof -
  have v: "valid_hours (hours_of (sd_opening db) (id_value business, id_value branch))" using assms by (auto simp: wf_sd_def)
  obtain w where w: "NewWeeklyHours (hours_of (sd_opening db) (id_value business, id_value branch)) = Inr w"
    using valid_hours_NewWeeklyHours [OF v] by blast
  then show ?thesis
    using NewWeeklyHours_valid [OF w]
    by (auto simp: Calendars_Get_def Let_def loadCalendar_def NewBranchCalendar_def RehydrateBranchCalendar_def IDFromUUID_def
        split: option.splits)
qed

text \<open>What an update that goes through did.\<close>

lemma update_schedule_Inr:
  assumes "update_schedule_tx visit db business branch staff v fn = Inr (s', db')"
  shows "\<exists>s ws. Schedules_Get db business branch staff = Inr s \<and> bs_version s = v
    \<and> hoursElsewhere db (keyOf business branch staff) = Inr ws \<and> fn s ws = Inr s'
    \<and> saveSchedule visit db (keyOf business branch staff) s' v = Inr db'"
  using assms by (auto simp: update_schedule_tx_def Schedules_Get_def Let_def split: sum.splits if_splits)

lemma WeeklyOverlaps_free:
  assumes "valid_hours (wh_intervals w)" "valid_hours (wh_intervals v)" "\<not> WeeklyOverlaps w v"
    "i \<in> set (wh_intervals w)" "j \<in> set (wh_intervals v)"
  shows "week_minutes i \<inter> week_minutes j = {}"
  using WeeklyOverlaps_iff [of w v] assms by (auto simp: valid_hours_def)

text \<open>A schedule that overlaps none of the hours elsewhere overlaps no other branch's rows.\<close>

lemma free_of_elsewhere:
  assumes "wf_sd db" "hoursElsewhere db k = Inr ws" "\<forall>w' \<in> set ws. \<not> WeeklyOverlaps w w'" "valid_hours (wh_intervals w)"
    "same_person k k'" "k_branch k' \<noteq> k_branch k" "i \<in> set (wh_intervals w)" "j \<in> set (hours_of (sd_hours db) k')"
  shows "week_minutes i \<inter> week_minutes j = {}"
proof -
  have "hours_of (sd_hours db) k' \<noteq> []" using assms(8) by auto
  then obtain v where v: "v \<in> set ws"
    "NewWeeklyHours (map snd (filter (\<lambda>(k'', _). k_branch k'' = k_branch k') (other_branches db k))) = Inr v"
    using hoursElsewhere_Inr [OF assms(2,5,6)] by blast
  have "mset (wh_intervals v) = mset (hours_of (sd_hours db) k')"
    using v(2) other_branch_rows [OF assms(5,6), of db] by (simp add: NewWeeklyHours_Inr_iff)
  then have "j \<in> set (wh_intervals v)" using assms(8) mset_eq_setD by blast
  then show ?thesis using WeeklyOverlaps_free [OF assms(4) NewWeeklyHours_valid [OF v(2)] _ assms(7)] assms(3) v(1) by blast
qed

lemma saved_wf:
  assumes "wf_sd db" "storable s" "visits visit (bs_overrides s)" "k = keyOf (bs_business s) (bs_branch s) (bs_staff s)"
    "0 < bs_version s" "bs_version s \<le> 2147483647"
    "hoursElsewhere db k = Inr ws" "\<forall>w \<in> set ws. \<not> WeeklyOverlaps (bs_weekly s) w"
  shows "wf_sd (saved_db visit db k s)"
proof -
  let ?db = "saved_db visit db k s"
  have vw: "valid_hours (wh_intervals (bs_weekly s))" "valid_overrides (bs_overrides s)"
    using assms(2) by (auto simp: storable_def valid_schedule_def)
  have hk: "set (hours_of (sd_hours ?db) k') = (if k' = k then set (wh_intervals (bs_weekly s)) else set (hours_of (sd_hours db) k'))" for k'
    by (simp add: hours_saved)
  have "valid_hours (hours_of (sd_hours ?db) k')" for k'
    using assms(1) vw(1) valid_hours_perm [of "sort_key (\<lambda>i. (wi_day i, wi_start i)) (wh_intervals (bs_weekly s))" "wh_intervals (bs_weekly s)"]
    by (auto simp: hours_saved wf_sd_def)
  moreover have "valid_overrides (stored_overrides ?db k')" for k'
    using overrides_saved [OF assms(2,3)] override_rows_other [of k' k] assms(1) vw(2)
    by (cases "k' = k") (auto simp: stored_overrides_def wf_sd_def)
  moreover have "no_clash ?db"
    unfolding no_clash_def hk
  proof (intro allI impI ballI)
    fix a b i j
    assume p: "same_person a b \<and> k_branch b \<noteq> k_branch a"
      and i: "i \<in> (if a = k then set (wh_intervals (bs_weekly s)) else set (hours_of (sd_hours db) a))"
      and j: "j \<in> (if b = k then set (wh_intervals (bs_weekly s)) else set (hours_of (sd_hours db) b))"
    note free = free_of_elsewhere [OF assms(1,7,8) vw(1)]
    consider "a = k" "b \<noteq> k" | "b = k" "a \<noteq> k" | "a \<noteq> k" "b \<noteq> k" using p by auto
    then show "week_minutes i \<inter> week_minutes j = {}"
    proof cases
      case 1
      then show ?thesis using free [of b i j] p i j by auto
    next
      case 2
      then have "same_person k a" "k_branch a \<noteq> k_branch k" using p by (auto simp: same_person_def)
      then show ?thesis using free [of a j i] 2 i j by auto
    next
      case 3
      then show ?thesis using assms(1) p i j by (auto simp: wf_sd_def no_clash_def)
    qed
  qed
  ultimately show ?thesis
    using assms(1,5,6) by (fastforce simp: wf_sd_def saved_db_simps versions_ok_def)
qed

section \<open>Saving and reading a calendar\<close>

definition saved_calendar :: "scheduling_db \<Rightarrow> BranchCalendar \<Rightarrow> scheduling_db" where
  "saved_calendar db c =
     (let k = (id_value (bc_business c), id_value (bc_branch c)) in
      db\<lparr>sd_calendars := (sd_calendars db)(k \<mapsto> \<lparr>vr_version = bc_version c, vr_updated_at = db_time (bc_updatedAt c)\<rparr>),
         sd_opening := filter (\<lambda>(k', _). k' \<noteq> k) (sd_opening db) @ map (Pair k) (wh_intervals (bc_hours c)),
         sd_outbox := sd_outbox db @ bc_events c\<rparr>)"

lemma update_calendar_Inr:
  assumes "update_calendar_tx db business branch v fn = Inr (c', db')"
    "\<And>c c'. fn c = Inr c' \<Longrightarrow> bc_business c' = bc_business c \<and> bc_branch c' = bc_branch c"
    "\<exists>c. Calendars_Get db business branch = Inr c \<and> bc_business c = business \<and> bc_branch c = branch"
  shows "\<exists>c. Calendars_Get db business branch = Inr c \<and> bc_version c = v \<and> fn c = Inr c' \<and> 0 < bc_version c'
    \<and> bc_version c' \<le> 2147483647 \<and> db' = saved_calendar db c'"
proof -
  let ?k = "(id_value business, id_value branch)"
  obtain c table db1 where c: "Calendars_Get db business branch = Inr c" "bc_version c = v" "fn c = Inr c'"
    "sched_toInt32 (bc_version c') = Inr (bc_version c')"
    "save_version (sd_calendars db) ?k v (case sd_calendars db ?k of None \<Rightarrow> 0 | Some row \<Rightarrow> vr_version row)
       (bc_version c') (bc_updatedAt c') = Inr table"
    "saveHours (db\<lparr>sd_calendars := table\<rparr>) c' = Inr db1" "db' = db1\<lparr>sd_outbox := sd_outbox db1 @ bc_events c'\<rparr>"
    using assms(1) by (auto simp: update_calendar_tx_def Calendars_Get_def Let_def sched_toInt32_def split: sum.splits if_splits)
  have k: "id_value (bc_business c') = id_value business" "id_value (bc_branch c') = id_value branch"
    using assms(2) [OF c(3)] assms(3) c(1) by auto
  obtain t where t: "replace_hours (\<lambda>k. table k \<noteq> None) ?k (wh_intervals (bc_hours c')) (sd_opening db) = Inr t"
    "db1 = db\<lparr>sd_calendars := table, sd_opening := t\<rparr>"
    using c(6) k by (auto simp: saveHours_def split: sum.splits)
  have "db' = saved_calendar db c'"
    unfolding c(7) t(2) saved_calendar_def Let_def k replace_hours_Inr [OF t(1)] save_version_Inr(1) [OF c(5)] by simp
  then show ?thesis using c(1-4) save_version_Inr(2) [OF c(5)] by (auto simp: sched_toInt32_def split: if_splits)
qed

lemma saved_calendar_simps:
  "sd_schedules (saved_calendar db c) = sd_schedules db" "sd_hours (saved_calendar db c) = sd_hours db"
  "sd_overrides (saved_calendar db c) = sd_overrides db" "sd_override_hours (saved_calendar db c) = sd_override_hours db"
  "sd_time_off (saved_calendar db c) = sd_time_off db" "sd_outbox (saved_calendar db c) = sd_outbox db @ bc_events c"
  "sd_calendars (saved_calendar db c) = (sd_calendars db)((id_value (bc_business c), id_value (bc_branch c)) \<mapsto>
     \<lparr>vr_version = bc_version c, vr_updated_at = db_time (bc_updatedAt c)\<rparr>)"
  "hours_of (sd_opening (saved_calendar db c)) k =
     (if k = (id_value (bc_business c), id_value (bc_branch c))
      then sort_key (\<lambda>i. (wi_day i, wi_start i)) (wh_intervals (bc_hours c)) else hours_of (sd_opening db) k)"
  by (simp_all add: saved_calendar_def Let_def hours_of_replaced)

lemma saved_calendar_wf:
  assumes "wf_sd db" "valid_hours (wh_intervals (bc_hours c))" "0 < bc_version c" "bc_version c \<le> 2147483647"
  shows "wf_sd (saved_calendar db c)"
proof -
  have "valid_hours (hours_of (sd_opening (saved_calendar db c)) k)" for k
    using assms(1,2) valid_hours_perm [of "sort_key (\<lambda>i. (wi_day i, wi_start i)) (wh_intervals (bc_hours c))" "wh_intervals (bc_hours c)"]
    by (cases k) (auto simp: saved_calendar_simps wf_sd_def)
  moreover have "stored_overrides (saved_calendar db c) = stored_overrides db"
    by (simp add: fun_eq_iff stored_overrides_def override_rows_def saved_calendar_simps)
  moreover have "no_clash (saved_calendar db c) = no_clash db" by (simp add: no_clash_def saved_calendar_simps)
  ultimately show ?thesis using assms(1,3,4) by (simp add: wf_sd_def saved_calendar_simps versions_ok_def)
qed

lemma Calendars_Get_saved:
  assumes "valid_hours (wh_intervals (bc_hours c))" "sorted (map weekStart (wh_intervals (bc_hours c)))"
  shows "Calendars_Get (saved_calendar db c) business branch =
    (if business = bc_business c \<and> branch = bc_branch c
     then Inr (c\<lparr>bc_updatedAt := db_time (bc_updatedAt c), bc_events := []\<rparr>)
     else Calendars_Get db business branch)"
proof (cases "business = bc_business c \<and> branch = bc_branch c")
  case True
  have "NewWeeklyHours (sort_key (\<lambda>i. (wi_day i, wi_start i)) (wh_intervals (bc_hours c))) = Inr (bc_hours c)"
    using assms by (intro NewWeeklyHours_reread) auto
  then show ?thesis
    using True by (simp add: Calendars_Get_def Let_def loadCalendar_def saved_calendar_simps RehydrateBranchCalendar_def IDFromUUID_def)
next
  case False
  then have "(id_value business, id_value branch) \<noteq> (id_value (bc_business c), id_value (bc_branch c))" by auto
  then have "sd_calendars (saved_calendar db c) (id_value business, id_value branch) = sd_calendars db (id_value business, id_value branch)"
    "hours_of (sd_opening (saved_calendar db c)) (id_value business, id_value branch) = hours_of (sd_opening db) (id_value business, id_value branch)"
    by (simp_all only: saved_calendar_simps fun_upd_apply if_False)
  then show ?thesis unfolding Calendars_Get_def Let_def loadCalendar_def using False by (simp only: if_False)
qed

section \<open>Time off\<close>

lemma TimeOffs_Add_wf:
  assumes "wf_sd db"
  shows "wf_sd (snd (TimeOffs_Add db t))"
proof -
  let ?r = "time_off_row_of t"
  have sym: "Overlaps (time_off_span ?r) (time_off_span q) \<Longrightarrow> Overlaps (time_off_span q) (time_off_span ?r)" for q
    using Overlaps_sym by blast
  have "time_off_apart (sd_time_off db @ [?r])" if "time_off_ok ?r" "tr_id ?r \<notin> set (map tr_id (sd_time_off db))"
    "\<not> list_ex (\<lambda>q. tr_business q = tr_business ?r \<and> tr_staff q = tr_staff ?r
        \<and> Overlaps (time_off_span q) (time_off_span ?r)) (sd_time_off db)"
    using that assms by (auto simp: time_off_apart_def wf_sd_def list_ex_iff dest: sym)
  then show ?thesis
    using assms by (auto simp: TimeOffs_Add_def Let_def wf_sd_def no_clash_def stored_overrides_def override_rows_def)
qed

lemma TimeOffs_Delete_wf:
  assumes "wf_sd db"
  shows "wf_sd (snd (TimeOffs_Delete db business staff i))"
proof -
  have "time_off_apart (filter P (sd_time_off db))" for P
    using assms by (auto simp: wf_sd_def time_off_apart_def distinct_map_filter)
  then show ?thesis
    using assms by (auto simp: TimeOffs_Delete_def Let_def wf_sd_def no_clash_def stored_overrides_def override_rows_def)
qed

text \<open>The time off a person still has after \<open>since\<close>, read from the table.\<close>

lemma TimeOffs_List_ok:
  assumes "wf_sd db"
  shows "\<exists>offs. TimeOffs_List db business staff since = Inr offs
    \<and> map to_span offs = map time_off_span (sort_key tr_starts_at (filter (\<lambda>r. tr_business r = id_value business
        \<and> tr_staff r = id_value staff \<and> db_time since < tr_ends_at r) (sd_time_off db)))"
proof -
  let ?step = "\<lambda>out r. case NewInterval (tr_starts_at r) (tr_ends_at r) of Inl _ \<Rightarrow> Inl Fault
        | Inr stretch \<Rightarrow> Inr (out @ [\<lparr>to_id = IDFromUUID (tr_id r), to_business = business, to_staff = staff,
             to_span = stretch, to_reason = tr_reason r, to_createdAt = tr_created_at r\<rparr>])"
  let ?rows = "sort_key tr_starts_at (filter (\<lambda>r. tr_business r = id_value business
        \<and> tr_staff r = id_value staff \<and> db_time since < tr_ends_at r) (sd_time_off db))"
  have "\<exists>offs. fold_result ?step acc rows = Inr (acc @ offs) \<and> map to_span offs = map time_off_span rows"
    if "\<forall>r \<in> set rows. tr_starts_at r < tr_ends_at r" for acc :: "TimeOff list" and rows
    using that
  proof (induction rows arbitrary: acc)
    case (Cons r rows)
    let ?t = "\<lparr>to_id = IDFromUUID (tr_id r), to_business = business, to_staff = staff,
       to_span = time_off_span r, to_reason = tr_reason r, to_createdAt = tr_created_at r\<rparr>"
    have s: "?step acc r = Inr (acc @ [?t])" using Cons.prems by (simp add: NewInterval_def time_off_span_def)
    obtain offs where "fold_result ?step (acc @ [?t]) rows = Inr ((acc @ [?t]) @ offs)" "map to_span offs = map time_off_span rows"
      using Cons.IH [of "acc @ [?t]"] Cons.prems by auto
    then show ?case using s by (intro exI [of _ "?t # offs"]) simp
  qed simp
  moreover have "\<forall>r \<in> set ?rows. tr_starts_at r < tr_ends_at r"
    using assms by (auto simp: wf_sd_def time_off_apart_def time_off_ok_def)
  ultimately obtain offs where "fold_result ?step [] ?rows = Inr ([] @ offs)" "map to_span offs = map time_off_span ?rows" by blast
  then show ?thesis unfolding TimeOffs_List_def by auto
qed

section \<open>The contract of a versioned store\<close>

text \<open>
  What calendars and schedules share: a value per key with a version, changed only by an update
  that names the version it has read. \<open>good\<close> says which changes the laws are promised for.
\<close>

locale versioned_store =
  fixes wf :: "'db \<Rightarrow> bool"
    and get :: "'db \<Rightarrow> 'k \<Rightarrow> (scheduling_error, 'a) result"
    and update :: "'db \<Rightarrow> 'k \<Rightarrow> int \<Rightarrow> 'c \<Rightarrow> (scheduling_error, 'a) result \<times> 'db"
    and version :: "'a \<Rightarrow> int"
    and good :: "'c \<Rightarrow> bool"
  assumes readable: "wf db \<Longrightarrow> \<exists>a. get db k = Inr a"
    and stale: "wf db \<Longrightarrow> get db k = Inr a \<Longrightarrow> version a \<noteq> v \<Longrightarrow> \<exists>e. update db k v c = (Inl e, db)"
    and failed: "update db k v c = (Inl e, db') \<Longrightarrow> db' = db"
    and saved: "wf db \<Longrightarrow> good c \<Longrightarrow> update db k v c = (Inr a, db') \<Longrightarrow>
      wf db' \<and> version a = v + 1 \<and> (\<exists>b. get db' k = Inr b \<and> version b = version a)"
    and others: "wf db \<Longrightarrow> good c \<Longrightarrow> k' \<noteq> k \<Longrightarrow> update db k v c = (Inr a, db') \<Longrightarrow> get db' k' = get db k'"
begin

lemma update_wf: "wf db \<Longrightarrow> good c \<Longrightarrow> wf (snd (update db k v c))"
  using saved [of db c k v] failed [of db k v c] by (cases "update db k v c"; cases "fst (update db k v c)") auto

text \<open>Versions never go back, whatever updates run.\<close>

lemma update_version:
  assumes "wf db" "good c" "get db k' = Inr a"
  shows "\<exists>b. get (snd (update db k v c)) k' = Inr b \<and> version a \<le> version b"
proof (cases "fst (update db k v c)")
  case (Inl e)
  then have "snd (update db k v c) = db" using failed by (metis prod.collapse)
  then show ?thesis using assms(3) by auto
next
  case (Inr x)
  then have u: "update db k v c = (Inr x, snd (update db k v c))" by (metis prod.collapse)
  show ?thesis
  proof (cases "k' = k")
    case True
    have "version a = v"
    proof (rule ccontr)
      assume "version a \<noteq> v"
      then obtain e where "update db k v c = (Inl e, db)" using stale [OF assms(1)] assms(3) True by blast
      then show False using Inr by simp
    qed
    then show ?thesis using saved [OF assms(1,2) u] True by auto
  next
    case False
    then show ?thesis using others [OF assms(1,2) False u] assms(3) by auto
  qed
qed

lemma run_version:
  assumes "wf db" "get db k = Inr a" "\<forall>(k', v', c) \<in> set ops. good c"
  defines "db' \<equiv> foldl (\<lambda>db (k', v', c). snd (update db k' v' c)) db ops"
  shows "wf db' \<and> (\<exists>b. get db' k = Inr b \<and> version a \<le> version b)"
  using assms(1-3) unfolding db'_def
proof (induction ops arbitrary: db a)
  case (Cons o' ops)
  obtain k' v' c where o': "o' = (k', v', c)" by (cases o') auto
  have g: "good c" using Cons.prems(3) o' by auto
  obtain b where b: "get (snd (update db k' v' c)) k = Inr b" "version a \<le> version b"
    using update_version [OF Cons.prems(1) g Cons.prems(2)] by blast
  show ?case
    using Cons.IH [OF update_wf [OF Cons.prems(1) g] b(1)] Cons.prems(3) b(2) o' by fastforce
qed auto

text \<open>No lost update: once an update went through, whatever runs after it, every other update that
  read the same version is refused and changes nothing.\<close>

lemma no_lost_update:
  assumes "wf db" "good c" "update db k v c = (Inr a, db1)" "\<forall>(k', v', c) \<in> set ops. good c"
  defines "db2 \<equiv> foldl (\<lambda>db (k', v', c). snd (update db k' v' c)) db1 ops"
  shows "\<exists>e. update db2 k v d = (Inl e, db2)"
proof -
  obtain b where b: "wf db1" "get db1 k = Inr b" "version b = v + 1" using saved [OF assms(1-3)] by auto
  then obtain b' where "wf db2" "get db2 k = Inr b'" "v + 1 \<le> version b'"
    using run_version [OF b(1,2) assms(4)] unfolding db2_def by auto
  then show ?thesis using stale [of db2 k b' v] by auto
qed

end

end
