(* ===== verification/ScheduleApp.thy ===== *)
theory ScheduleApp
  imports ScheduleStore
begin

text \<open>
  \<open>internal/scheduling/app\<close>: the use cases of branch calendars (\<open>app.go\<close>), schedules and time
  off (\<open>schedules.go\<close>) and working windows (\<open>windows.go\<close>). What business answers is the record
  \<open>access\<close>, one function per method of the interface \<open>Access\<close>; a method that returns only an
  error returns it as an option. A handler that changes something returns its answer with the
  database it leaves.
\<close>

section \<open>Access\<close>

datatype Need = NeedManager | NeedBarber

record StaffMember =
  sm_id :: StaffID
  sm_owner :: bool
  sm_manager :: bool
  sm_branches :: "BranchID list"

record access =
  acc_branch :: "UserID \<Rightarrow> BusinessID \<Rightarrow> BranchID \<Rightarrow> Need \<Rightarrow> scheduling_error option"
  acc_memberOf :: "UserID \<Rightarrow> BusinessID \<Rightarrow> (scheduling_error, StaffMember) result"
  acc_staffMember :: "BusinessID \<Rightarrow> StaffID \<Rightarrow> (scheduling_error, StaffMember) result"
  acc_staffAtBranch :: "BusinessID \<Rightarrow> BranchID \<Rightarrow> StaffID list \<Rightarrow> scheduling_error option"
  acc_branchLocation :: "BusinessID \<Rightarrow> BranchID \<Rightarrow> (scheduling_error, location) result"

definition WorksAt :: "StaffMember \<Rightarrow> BranchID \<Rightarrow> bool" where
  "WorksAt m branch \<longleftrightarrow> sm_owner m \<or> branch \<in> set (sm_branches m)"

definition sharesBranchWith :: "StaffMember \<Rightarrow> StaffMember \<Rightarrow> bool" where
  "sharesBranchWith m o' \<longleftrightarrow> list_ex (WorksAt m) (sm_branches o')"

record BranchRef =
  br_actor :: UserID
  br_business :: BusinessID
  br_branch :: BranchID

record StaffRef = BranchRef +
  sf_staff :: StaffID

text \<open>\<open>canRead\<close>, \<open>canWrite\<close> and \<open>canManageTimeOff\<close> return \<open>nil\<close> or the refusal.\<close>

definition canRead :: "access \<Rightarrow> 'x StaffRef_scheme \<Rightarrow> scheduling_error option" where
  "canRead acc ref =
     (case acc_branch acc (br_actor ref) (br_business ref) (br_branch ref) NeedBarber of Some e \<Rightarrow> Some e
      | None \<Rightarrow>
          (case acc_staffMember acc (br_business ref) (sf_staff ref) of Inl e \<Rightarrow> Some e
           | Inr t \<Rightarrow> if \<not> WorksAt t (br_branch ref) then Some ErrNotFound else None))"

definition canWrite :: "access \<Rightarrow> 'x StaffRef_scheme \<Rightarrow> scheduling_error option" where
  "canWrite acc ref =
     (case canRead acc ref of Some e \<Rightarrow> Some e
      | None \<Rightarrow>
          (case acc_memberOf acc (br_actor ref) (br_business ref) of Inl e \<Rightarrow> Some e
           | Inr me \<Rightarrow>
               if sm_id me = sf_staff ref then None
               else acc_branch acc (br_actor ref) (br_business ref) (br_branch ref) NeedManager))"

definition canManageTimeOff :: "access \<Rightarrow> UserID \<Rightarrow> BusinessID \<Rightarrow> StaffID \<Rightarrow> scheduling_error option" where
  "canManageTimeOff acc actor business staff =
     (case acc_memberOf acc actor business of Inl e \<Rightarrow> Some e
      | Inr me \<Rightarrow>
          (case acc_staffMember acc business staff of Inl e \<Rightarrow> Some e
           | Inr t \<Rightarrow>
               if sm_id me = sm_id t \<or> sm_owner me \<or> sm_manager me \<and> sharesBranchWith me t then None
               else Some ErrForbidden))"

section \<open>Calendars\<close>

record SetOpeningHours_cmd = BranchRef +
  so_expectedVersion :: int
  so_intervals :: "WeeklyInterval list"

definition OpeningHours ::
  "access \<Rightarrow> scheduling_db \<Rightarrow> 'x BranchRef_scheme \<Rightarrow> (scheduling_error, BranchCalendar) result" where
  "OpeningHours acc db ref =
     (case acc_branch acc (br_actor ref) (br_business ref) (br_branch ref) NeedBarber of Some e \<Rightarrow> Inl e
      | None \<Rightarrow> Calendars_Get db (br_business ref) (br_branch ref))"

text \<open>The handler after its access check: the key, the version read, and the new hours.\<close>

definition put_hours ::
  "scheduling_db \<Rightarrow> BusinessID \<times> BranchID \<Rightarrow> int \<Rightarrow> WeeklyInterval list \<times> gotime
   \<Rightarrow> (scheduling_error, BranchCalendar) result \<times> scheduling_db" where
  "put_hours db k v c =
     (case NewWeeklyHours (fst c) of Inl e \<Rightarrow> (Inl e, db)
      | Inr hours \<Rightarrow>
          Calendars_Update db (fst k) (snd k) v (\<lambda>cal. Inr (Calendar_SetOpeningHours cal hours (snd c))))"

definition SetOpeningHours ::
  "access \<Rightarrow> scheduling_db \<Rightarrow> gotime \<Rightarrow> SetOpeningHours_cmd
   \<Rightarrow> (scheduling_error, BranchCalendar) result \<times> scheduling_db" where
  "SetOpeningHours acc db now cmd =
     (case acc_branch acc (br_actor cmd) (br_business cmd) (br_branch cmd) NeedManager of Some e \<Rightarrow> (Inl e, db)
      | None \<Rightarrow> put_hours db (br_business cmd, br_branch cmd) (so_expectedVersion cmd) (so_intervals cmd, now))"

section \<open>Schedules\<close>

type_synonym map_order = "(Date \<rightharpoonup> DayInterval list) \<Rightarrow> Date list"

record SetSchedule_cmd = StaffRef +
  ss_expectedVersion :: int
  ss_weekly :: "WeeklyInterval list"
  ss_overrides :: "(Date \<times> DayInterval list) list"

definition Schedule ::
  "access \<Rightarrow> scheduling_db \<Rightarrow> 'x StaffRef_scheme \<Rightarrow> (scheduling_error, BarberSchedule) result" where
  "Schedule acc db ref =
     (case canRead acc ref of Some e \<Rightarrow> Inl e
      | None \<Rightarrow> Schedules_Get db (br_business ref) (br_branch ref) (sf_staff ref))"

definition put_schedule ::
  "scheduling_db \<Rightarrow> BusinessID \<times> BranchID \<times> StaffID \<Rightarrow> int
   \<Rightarrow> map_order \<times> WeeklyInterval list \<times> (Date \<times> DayInterval list) list \<times> gotime
   \<Rightarrow> (scheduling_error, BarberSchedule) result \<times> scheduling_db" where
  "put_schedule db k v c =
     (case (k, c) of ((business, branch, staff), (visit, ws, ovs, now)) \<Rightarrow>
        case NewWeeklyHours ws of Inl e \<Rightarrow> (Inl e, db)
        | Inr weekly \<Rightarrow>
            Schedules_Update visit db business branch staff v (\<lambda>s elsewhere. Set s weekly ovs elsewhere now))"

definition SetSchedule ::
  "access \<Rightarrow> map_order \<Rightarrow> scheduling_db \<Rightarrow> gotime \<Rightarrow> SetSchedule_cmd
   \<Rightarrow> (scheduling_error, BarberSchedule) result \<times> scheduling_db" where
  "SetSchedule acc visit db now cmd =
     (case canWrite acc cmd of Some e \<Rightarrow> (Inl e, db)
      | None \<Rightarrow> put_schedule db (br_business cmd, br_branch cmd, sf_staff cmd) (ss_expectedVersion cmd)
          (visit, ss_weekly cmd, ss_overrides cmd, now))"

section \<open>Time off\<close>

record AddTimeOff_cmd =
  ao_actor :: UserID
  ao_business :: BusinessID
  ao_staff :: StaffID
  ao_from :: gotime
  ao_to :: gotime
  ao_reason :: string

record TimeOffRef =
  tf_actor :: UserID
  tf_business :: BusinessID
  tf_staff :: StaffID
  tf_id :: TimeOffID

definition list_TimeOff ::
  "access \<Rightarrow> scheduling_db \<Rightarrow> gotime \<Rightarrow> UserID \<Rightarrow> BusinessID \<Rightarrow> StaffID \<Rightarrow> (scheduling_error, TimeOff list) result" where
  "list_TimeOff acc db now actor business staff =
     (case canManageTimeOff acc actor business staff of Some e \<Rightarrow> Inl e
      | None \<Rightarrow> TimeOffs_List db business staff now)"

definition AddTimeOff ::
  "access \<Rightarrow> scheduling_db \<Rightarrow> TimeOffID \<Rightarrow> gotime \<Rightarrow> AddTimeOff_cmd
   \<Rightarrow> (scheduling_error, TimeOff) result \<times> scheduling_db" where
  "AddTimeOff acc db i now cmd =
     (case canManageTimeOff acc (ao_actor cmd) (ao_business cmd) (ao_staff cmd) of Some e \<Rightarrow> (Inl e, db)
      | None \<Rightarrow>
          (case NewTimeOff i (ao_business cmd) (ao_staff cmd) (ao_from cmd) (ao_to cmd) (ao_reason cmd) now of
             Inl e \<Rightarrow> (Inl e, db)
           | Inr t \<Rightarrow> (case TimeOffs_Add db t of (Inl e, db') \<Rightarrow> (Inl e, db') | (Inr _, db') \<Rightarrow> (Inr t, db'))))"

definition DeleteTimeOff ::
  "access \<Rightarrow> scheduling_db \<Rightarrow> TimeOffRef \<Rightarrow> (scheduling_error, unit) result \<times> scheduling_db" where
  "DeleteTimeOff acc db ref =
     (case canManageTimeOff acc (tf_actor ref) (tf_business ref) (tf_staff ref) of Some e \<Rightarrow> (Inl e, db)
      | None \<Rightarrow> TimeOffs_Delete db (tf_business ref) (tf_staff ref) (tf_id ref))"

section \<open>Working windows\<close>

definition MaxWindowsRange :: duration where "MaxWindowsRange = 62 * 24 * hour"

text \<open>One pass of the loop over the staff: the person's windows.\<close>

definition windows_of ::
  "scheduling_db \<Rightarrow> BusinessID \<Rightarrow> BranchID \<Rightarrow> location \<Rightarrow> BranchCalendar \<Rightarrow> gotime \<Rightarrow> gotime \<Rightarrow> StaffID
   \<Rightarrow> (scheduling_error, Interval list) result" where
  "windows_of db business branch loc cal frm till s =
     (case Schedules_Get db business branch s of Inl e \<Rightarrow> Inl e
      | Inr schedule \<Rightarrow>
      (case TimeOffs_List db business s frm of Inl e \<Rightarrow> Inl e
      | Inr offs \<Rightarrow>
          (case WorkingWindows \<lparr>in_location = loc, in_opening = bc_hours cal, in_closed = (\<lambda>_. False),
                  in_schedule = schedule, in_timeOff = map to_span offs\<rparr> frm till of
             None \<Rightarrow> Inl Panic | Some w \<Rightarrow> Inr w)))"

definition compute ::
  "access \<Rightarrow> scheduling_db \<Rightarrow> BusinessID \<Rightarrow> BranchID \<Rightarrow> StaffID list \<Rightarrow> gotime \<Rightarrow> gotime
   \<Rightarrow> (scheduling_error, (StaffID \<rightharpoonup> Interval list) \<times> location) result" where
  "compute acc db business branch staff frm till =
     (if \<not> frm < till \<or> MaxWindowsRange < time_sub till frm then Inl ErrInvalidRange
      else case acc_staffAtBranch acc business branch staff of Some e \<Rightarrow> Inl e
      | None \<Rightarrow>
      (case acc_branchLocation acc business branch of Inl e \<Rightarrow> Inl e
      | Inr loc \<Rightarrow>
      (case Calendars_Get db business branch of Inl e \<Rightarrow> Inl e
      | Inr cal \<Rightarrow>
      (case fold_result (\<lambda>out s. case windows_of db business branch loc cal frm till s of Inl e \<Rightarrow> Inl e
                | Inr w \<Rightarrow> Inr (out(s \<mapsto> w))) Map.empty staff of Inl e \<Rightarrow> Inl e
       | Inr out \<Rightarrow> Inr (out, loc)))))"

definition ForStaff ::
  "access \<Rightarrow> scheduling_db \<Rightarrow> 'x StaffRef_scheme \<Rightarrow> gotime \<Rightarrow> gotime
   \<Rightarrow> (scheduling_error, Interval list \<times> location) result" where
  "ForStaff acc db ref frm till =
     (case canRead acc ref of Some e \<Rightarrow> Inl e
      | None \<Rightarrow>
          (case compute acc db (br_business ref) (br_branch ref) [sf_staff ref] frm till of Inl e \<Rightarrow> Inl e
           | Inr (all, loc) \<Rightarrow> Inr ((case all (sf_staff ref) of None \<Rightarrow> [] | Some w \<Rightarrow> w), loc)))"

definition WindowsHandlers_Windows ::
  "access \<Rightarrow> scheduling_db \<Rightarrow> BusinessID \<Rightarrow> BranchID \<Rightarrow> StaffID list \<Rightarrow> gotime \<Rightarrow> gotime
   \<Rightarrow> (scheduling_error, StaffID \<rightharpoonup> Interval list) result" where
  "WindowsHandlers_Windows acc db business branch staff frm till =
     (case compute acc db business branch staff frm till of Inl e \<Rightarrow> Inl e | Inr (all, _) \<Rightarrow> Inr all)"

definition Readiness ::
  "scheduling_db \<Rightarrow> BusinessID \<Rightarrow> BranchID \<Rightarrow> StaffID list \<Rightarrow> (scheduling_error, bool \<times> StaffID list) result" where
  "Readiness db business branch staff =
     (case Calendars_Get db business branch of Inl e \<Rightarrow> Inl e
      | Inr cal \<Rightarrow>
      (case fold_result (\<lambda>out s. case Schedules_Get db business branch s of Inl e \<Rightarrow> Inl e
                | Inr schedule \<Rightarrow> Inr (if IsClosed (bs_weekly schedule) then out else out @ [s])) [] staff of
         Inl e \<Rightarrow> Inl e
       | Inr scheduled \<Rightarrow> Inr (\<not> IsClosed (bc_hours cal), scheduled)))"

section \<open>The handlers keep the contract of a versioned store\<close>

lemma put_hours_Inr:
  assumes "wf_sd db" "put_hours db (business, branch) v (is, now) = (Inr c', db')"
  shows "\<exists>c hours. NewWeeklyHours is = Inr hours \<and> Calendars_Get db business branch = Inr c \<and> bc_version c = v
    \<and> c' = Calendar_SetOpeningHours c hours now \<and> db' = saved_calendar db c'
    \<and> bc_business c' = business \<and> bc_branch c' = branch \<and> bc_version c' = v + 1 \<and> bc_hours c' = hours
    \<and> wf_sd db' \<and> Calendars_Get db' business branch = Inr (c'\<lparr>bc_events := []\<rparr>)"
proof -
  obtain hours where h: "NewWeeklyHours is = Inr hours"
    "update_calendar_tx db business branch v (\<lambda>cal. Inr (Calendar_SetOpeningHours cal hours now)) = Inr (c', db')"
    using assms(2) by (auto simp: put_hours_def Calendars_Update_def commit_def split: sum.splits if_splits)
  note get = Calendars_Get_ok [OF assms(1), of business branch]
  obtain c where c: "Calendars_Get db business branch = Inr c" "bc_version c = v"
    "c' = Calendar_SetOpeningHours c hours now" "0 < bc_version c'" "bc_version c' \<le> 2147483647" "db' = saved_calendar db c'"
    using update_calendar_Inr [OF h(2)] get by (auto simp: Calendar_SetOpeningHours_def Let_def)
  have f: "bc_business c' = business" "bc_branch c' = branch" "bc_version c' = v + 1" "bc_hours c' = hours"
    "bc_updatedAt c' = db_time now"
    using c(1-3) get by (auto simp: Calendar_SetOpeningHours_def Let_def)
  have v: "valid_hours (wh_intervals hours)" "sorted (map weekStart (wh_intervals hours))"
    using NewWeeklyHours_valid [OF h(1)] NewWeeklyHours_sorted [OF h(1)] by auto
  have "wf_sd db'" unfolding c(6) using saved_calendar_wf [OF assms(1)] v f c(4,5) by simp
  moreover have "Calendars_Get db' business branch = Inr (c'\<lparr>bc_events := []\<rparr>)"
    unfolding c(6) using Calendars_Get_saved [of c' db business branch] v f by simp
  ultimately show ?thesis using h(1) c f by blast
qed

lemma put_hours_stale:
  assumes "wf_sd db" "Calendars_Get db business branch = Inr c" "bc_version c \<noteq> v"
  shows "\<exists>e. put_hours db (business, branch) v x = (Inl e, db)"
  using assms(2,3)
  by (auto simp: put_hours_def Calendars_Update_def update_calendar_tx_def Calendars_Get_def commit_def Let_def split: sum.splits)

interpretation calendars: versioned_store wf_sd "\<lambda>db (business, branch). Calendars_Get db business branch"
    put_hours bc_version "\<lambda>_. True"
proof unfold_locales
  fix db :: scheduling_db and k k' :: "BusinessID \<times> BranchID" and v :: int and c e db' a
  obtain b br where k: "k = (b, br)" by fastforce
  obtain b' br' where k': "k' = (b', br')" by fastforce
  obtain "is" now where cc: "c = (is :: WeeklyInterval list, now :: gotime)" by fastforce
  show "\<exists>a. (case k of (business, branch) \<Rightarrow> Calendars_Get db business branch) = Inr a" if "wf_sd db"
    using Calendars_Get_ok [OF that] k by auto
  show "\<exists>e. put_hours db k v c = (Inl e, db)"
    if "wf_sd db" "(case k of (business, branch) \<Rightarrow> Calendars_Get db business branch) = Inr a" "bc_version a \<noteq> v"
    using put_hours_stale that k by simp
  show "db' = db" if "put_hours db k v c = (Inl e, db')"
    using that by (auto simp: put_hours_def Calendars_Update_def commit_def split: sum.splits if_splits)
  show "wf_sd db' \<and> bc_version a = v + 1
      \<and> (\<exists>b. (case k of (business, branch) \<Rightarrow> Calendars_Get db' business branch) = Inr b \<and> bc_version b = bc_version a)"
    if "wf_sd db" "put_hours db k v c = (Inr a, db')"
    using put_hours_Inr [OF that(1)] that(2) k cc by fastforce
  show "(case k' of (business, branch) \<Rightarrow> Calendars_Get db' business branch) = (case k' of (business, branch) \<Rightarrow> Calendars_Get db business branch)"
    if asm: "wf_sd db" "k' \<noteq> k" "put_hours db k v c = (Inr a, db')"
  proof -
    obtain hours where h: "NewWeeklyHours is = Inr hours" "db' = saved_calendar db a" "bc_business a = b" "bc_branch a = br" "bc_hours a = hours"
      using put_hours_Inr [OF asm(1)] asm(3) k cc by blast
    have "Calendars_Get (saved_calendar db a) b' br' = Calendars_Get db b' br'"
      using Calendars_Get_saved [of a db b' br'] NewWeeklyHours_valid [OF h(1)] NewWeeklyHours_sorted [OF h(1)] h(3-5) asm(2) k k' by auto
    then show ?thesis using h(2) k' by simp
  qed
qed

text \<open>The overrides a command asks for, as \<open>Set\<close> checks and keeps them.\<close>

definition wanted_overrides :: "(Date \<times> DayInterval list) list \<Rightarrow> Date \<rightharpoonup> DayInterval list" where
  "wanted_overrides ovs = map_of_last (map (\<lambda>(d, ivs). (d, sort_key di_start ivs)) ovs)"

definition good_order :: "map_order \<times> WeeklyInterval list \<times> (Date \<times> DayInterval list) list \<times> gotime \<Rightarrow> bool" where
  "good_order c \<longleftrightarrow> (case c of (visit, ws, ovs, now) \<Rightarrow> visits visit (wanted_overrides ovs))"

lemma Set_storable:
  assumes "Set s weekly ovs elsewhere now = Inr s'" "NewWeeklyHours ws = Inr weekly"
  shows "storable s'" "bs_overrides s' = wanted_overrides ovs" "bs_weekly s' = weekly" "bs_version s' = bs_version s + 1"
    "bs_business s' = bs_business s" "bs_branch s' = bs_branch s" "bs_staff s' = bs_staff s" "bs_updatedAt s' = db_time now"
    "\<forall>w \<in> set elsewhere. \<not> WeeklyOverlaps weekly w"
proof -
  note s = assms(1) [unfolded Set_Inr_iff]
  show f: "bs_overrides s' = wanted_overrides ovs" "bs_weekly s' = weekly" "bs_version s' = bs_version s + 1"
    "bs_business s' = bs_business s" "bs_branch s' = bs_branch s" "bs_staff s' = bs_staff s" "bs_updatedAt s' = db_time now"
    "\<forall>w \<in> set elsewhere. \<not> WeeklyOverlaps weekly w"
    using s by (auto simp: wanted_overrides_def)
  have "sorted (map di_start ivs)" if "wanted_overrides ovs d = Some ivs" for d ivs
    using map_of_last_Some_in [OF that [unfolded wanted_overrides_def]] by auto
  then show "storable s'"
    using Set_valid_schedule [OF assms(1) NewWeeklyHours_valid [OF assms(2)]] NewWeeklyHours_sorted [OF assms(2)] f(1,2)
    by (simp add: storable_def)
qed

lemma put_schedule_Inr:
  assumes "wf_sd db" "put_schedule db (business, branch, staff) v (visit, ws, ovs, now) = (Inr s', db')"
    "visits visit (wanted_overrides ovs)"
  shows "\<exists>s weekly elsewhere. NewWeeklyHours ws = Inr weekly \<and> Schedules_Get db business branch staff = Inr s
    \<and> bs_version s = v \<and> hoursElsewhere db (keyOf business branch staff) = Inr elsewhere
    \<and> Set s weekly ovs elsewhere now = Inr s' \<and> db' = saved_db visit db (keyOf business branch staff) s'
    \<and> wf_sd db' \<and> Schedules_Get db' business branch staff = Inr s'"
proof -
  let ?k = "keyOf business branch staff"
  obtain weekly where h: "NewWeeklyHours ws = Inr weekly"
    "update_schedule_tx visit db business branch staff v (\<lambda>s elsewhere. Set s weekly ovs elsewhere now) = Inr (s', db')"
    using assms(2) by (auto simp: put_schedule_def Schedules_Update_def commit_def split: sum.splits if_splits)
  obtain s elsewhere where s: "Schedules_Get db business branch staff = Inr s" "bs_version s = v"
    "hoursElsewhere db ?k = Inr elsewhere" "Set s weekly ovs elsewhere now = Inr s'" "saveSchedule visit db ?k s' v = Inr db'"
    using update_schedule_Inr [OF h(2)] by blast
  note set = Set_storable [OF s(4) h(1)]
  have k: "?k = keyOf (bs_business s') (bs_branch s') (bs_staff s')"
    using Schedules_Get_ok [OF assms(1), of business branch staff] s(1) set by auto
  note sv = saveSchedule_Inr [OF s(5)]
  have ver: "bs_version s' \<le> 2147483647" using s(5) by (auto simp: saveSchedule_def sched_toInt32_def split: if_splits)
  have vis: "visits visit (bs_overrides s')" using assms(3) set(2) by simp
  have "wf_sd db'"
    unfolding sv(1) using set(3,9) by (intro saved_wf [OF assms(1) set(1) vis k sv(2) ver s(3)]) simp
  moreover have "Schedules_Get db' business branch staff = Inr s'"
  proof -
    have "loadSchedule db' ?k (bs_version s') (db_time (bs_updatedAt s')) = Inr (s'\<lparr>bs_updatedAt := db_time (bs_updatedAt s')\<rparr>)"
      unfolding sv(1) using loadSchedule_saved [OF set(1) vis k] by simp
    then show ?thesis using set(8) by (simp add: Schedules_Get_def Let_def sv(1) saved_db_simps)
  qed
  ultimately show ?thesis using h(1) s sv(1) by blast
qed

lemma keyOf_inject [simp]: "keyOf a b c = keyOf a' b' c' \<longleftrightarrow> a = a' \<and> b = b' \<and> c = c'"
  by (auto simp: keyOf_def)

lemma Schedules_Get_other:
  assumes "(business, branch, staff) \<noteq> (b, br, st)"
  shows "Schedules_Get (saved_db visit db (keyOf b br st) s) business branch staff = Schedules_Get db business branch staff"
proof -
  have ne: "keyOf business branch staff \<noteq> keyOf b br st" using assms by auto
  have "loadSchedule (saved_db visit db (keyOf b br st) s) (keyOf business branch staff) v u
      = loadSchedule db (keyOf business branch staff) v u" for v u
    unfolding loadSchedule_def override_rows_other [OF ne] hours_saved using ne by (simp only: if_False)
  moreover have "sd_schedules (saved_db visit db (keyOf b br st) s) (keyOf business branch staff) = sd_schedules db (keyOf business branch staff)"
    using ne by (simp only: saved_db_simps fun_upd_apply if_False)
  ultimately show ?thesis by (simp only: Schedules_Get_def Let_def)
qed

interpretation schedules: versioned_store wf_sd "\<lambda>db (business, branch, staff). Schedules_Get db business branch staff"
    put_schedule bs_version good_order
proof unfold_locales
  fix db :: scheduling_db and k k' :: "BusinessID \<times> BranchID \<times> StaffID" and v :: int and c e db' a
  obtain b br st where k: "k = (b, br, st)" by (cases k) auto
  obtain b' br' st' where k': "k' = (b', br', st')" by (cases k') auto
  obtain visit ws ovs now where cc: "c = (visit :: map_order, ws :: WeeklyInterval list, ovs :: (Date \<times> DayInterval list) list, now :: gotime)"
    by (cases c) auto
  show "\<exists>a. (case k of (business, branch, staff) \<Rightarrow> Schedules_Get db business branch staff) = Inr a" if "wf_sd db"
    using Schedules_Get_ok [OF that] k by fastforce
  show "\<exists>e. put_schedule db k v c = (Inl e, db)"
    if "wf_sd db" "(case k of (business, branch, staff) \<Rightarrow> Schedules_Get db business branch staff) = Inr a" "bs_version a \<noteq> v"
    using that(2,3) k cc
    by (auto simp: put_schedule_def Schedules_Update_def update_schedule_tx_def Schedules_Get_def commit_def Let_def split: sum.splits)
  show "db' = db" if "put_schedule db k v c = (Inl e, db')"
    using that k cc by (auto simp: put_schedule_def Schedules_Update_def commit_def split: sum.splits if_splits)
  show "wf_sd db' \<and> bs_version a = v + 1
      \<and> (\<exists>b. (case k of (business, branch, staff) \<Rightarrow> Schedules_Get db' business branch staff) = Inr b \<and> bs_version b = bs_version a)"
    if asm: "wf_sd db" "good_order c" "put_schedule db k v c = (Inr a, db')"
  proof -
    obtain s weekly elsewhere where p: "bs_version s = v" "Set s weekly ovs elsewhere now = Inr a" "wf_sd db'"
      "NewWeeklyHours ws = Inr weekly" "Schedules_Get db' b br st = Inr a"
      using put_schedule_Inr [OF asm(1), of b br st v visit ws ovs now a db'] asm(2,3) k cc by (auto simp: good_order_def)
    then show ?thesis using Set_storable(4) [OF p(2,4)] k by simp
  qed
  show "(case k' of (business, branch, staff) \<Rightarrow> Schedules_Get db' business branch staff)
      = (case k' of (business, branch, staff) \<Rightarrow> Schedules_Get db business branch staff)"
    if asm: "wf_sd db" "good_order c" "k' \<noteq> k" "put_schedule db k v c = (Inr a, db')"
  proof -
    have "db' = saved_db visit db (keyOf b br st) a"
      using put_schedule_Inr [OF asm(1), of b br st v visit ws ovs now a db'] asm(2,4) k cc by (auto simp: good_order_def)
    then show ?thesis using Schedules_Get_other [of b' br' st' b br st visit db a] asm(3) k k' by simp
  qed
qed

section \<open>Runs of the application\<close>

text \<open>Every request that can change the tables; Go's map order visits each entry once.\<close>

inductive sd_step :: "scheduling_db \<Rightarrow> scheduling_db \<Rightarrow> bool" where
  hours: "sd_step db (snd (SetOpeningHours acc db now cmd))"
| schedule: "visits visit (wanted_overrides (ss_overrides cmd)) \<Longrightarrow> sd_step db (snd (SetSchedule acc visit db now cmd))"
| add: "sd_step db (snd (AddTimeOff acc db i now cmd))"
| delete: "sd_step db (snd (DeleteTimeOff acc db ref))"

lemma sd_step_wf: "sd_step db db' \<Longrightarrow> wf_sd db \<Longrightarrow> wf_sd db'"
proof (induction rule: sd_step.induct)
  case (hours db acc now cmd)
  then show ?case
    using calendars.update_wf by (auto simp: SetOpeningHours_def split: option.splits)
next
  case (schedule visit cmd db acc now)
  then show ?case
    using schedules.update_wf [of db "(visit, ss_weekly cmd, ss_overrides cmd, now)"]
    by (auto simp: SetSchedule_def good_order_def split: option.splits)
next
  case (add db acc i now cmd)
  have "snd (AddTimeOff acc db i now cmd) \<in> {db} \<union> range (\<lambda>t. snd (TimeOffs_Add db t))"
    by (auto simp: AddTimeOff_def split: option.splits sum.splits prod.splits) (metis rangeI snd_conv)+
  then show ?case using add TimeOffs_Add_wf by auto
next
  case (delete db acc ref)
  then show ?case using TimeOffs_Delete_wf by (auto simp: DeleteTimeOff_def split: option.splits)
qed

interpretation tables_kept: invariant_system sd_step wf_sd
  by unfold_locales (rule sd_step_wf)

lemmas sd_steps_wf = tables_kept.steps_inv

section \<open>Working windows\<close>

text \<open>The person's working time as the tables have it: all of their time off.\<close>

definition stored_time_off :: "scheduling_db \<Rightarrow> BusinessID \<Rightarrow> StaffID \<Rightarrow> Interval list" where
  "stored_time_off db business staff =
     map time_off_span (filter (\<lambda>r. tr_business r = id_value business \<and> tr_staff r = id_value staff) (sd_time_off db))"

lemma windows_of_exact:
  assumes "wf_sd db" "Calendars_Get db business branch = Inr cal" "frm < till"
  shows "\<exists>w s. windows_of db business branch (fixed_zone z) cal frm till staff = Inr w \<and> canonical w
    \<and> Schedules_Get db business branch staff = Inr s
    \<and> (\<forall>t. t \<in> span_points w \<longleftrightarrow> frm \<le> t \<and> t < till
         \<and> works_at \<lparr>in_location = fixed_zone z, in_opening = bc_hours cal, in_closed = (\<lambda>_. False), in_schedule = s,
              in_timeOff = stored_time_off db business staff\<rparr> t)"
proof -
  obtain s where s: "Schedules_Get db business branch staff = Inr s" "valid_schedule s"
    using Schedules_Get_ok [OF assms(1), of business branch staff] by blast
  let ?rows = "sort_key tr_starts_at (filter (\<lambda>r. tr_business r = id_value business
        \<and> tr_staff r = id_value staff \<and> db_time frm < tr_ends_at r) (sd_time_off db))"
  obtain offs where o: "TimeOffs_List db business staff frm = Inr offs" "map to_span offs = map time_off_span ?rows"
    using TimeOffs_List_ok [OF assms(1)] by blast
  let ?inp = "\<lambda>off. \<lparr>in_location = fixed_zone z, in_opening = bc_hours cal, in_closed = (\<lambda>_. False), in_schedule = s,
       in_timeOff = off\<rparr>"
  have v: "valid_hours (wh_intervals (bc_hours cal))"
    using Calendars_Get_ok [OF assms(1), of business branch] assms(2) by auto
  have "\<exists>w. WorkingWindows (?inp (map to_span offs)) frm till = Some w \<and> canonical w
      \<and> (\<forall>t. t \<in> span_points w \<longleftrightarrow> frm \<le> t \<and> t < till \<and> works_at (?inp (map to_span offs)) t)"
  proof (rule WorkingWindows_fixed [OF assms(3)])
    show "all_proper (in_timeOff (?inp (map to_span offs)))"
      using assms(1) by (auto simp: o(2) all_proper_def proper_def time_off_span_def wf_sd_def time_off_apart_def time_off_ok_def)
    show "in_location (?inp (map to_span offs)) = fixed_zone z" by simp
    show "short_day (startingOn (in_opening (?inp (map to_span offs))) d)" for d using short_day_startingOn [OF v] by simp
    show "short_day (IntervalsStarting (in_schedule (?inp (map to_span offs))) d)" for d using short_day_schedule [OF s(2)] by simp
  qed
  then obtain w where w: "WorkingWindows (?inp (map to_span offs)) frm till = Some w" "canonical w"
    "\<forall>t. t \<in> span_points w \<longleftrightarrow> frm \<le> t \<and> t < till \<and> works_at (?inp (map to_span offs)) t" by blast
  have "t \<in> span_points (map to_span offs) \<longleftrightarrow> t \<in> span_points (stored_time_off db business staff)" if "frm \<le> t" for t
    using that db_time_le [of frm] by (auto simp: o(2) span_points_def stored_time_off_def points_def time_off_span_def)
  then have "works_at (?inp (map to_span offs)) t \<longleftrightarrow> works_at (?inp (stored_time_off db business staff)) t" if "frm \<le> t" for t
    using that by (simp add: works_at_def open_on_def work_on_def closed_on_def)
  then show ?thesis using s(1) o(1) w by (auto simp: windows_of_def)
qed

lemma fold_windows:
  assumes "\<forall>s \<in> set staff. \<exists>w. f s = Inr w"
  shows "\<exists>out. fold_result (\<lambda>out s. case f s of Inl e \<Rightarrow> Inl e | Inr w \<Rightarrow> Inr (out(s \<mapsto> w))) m staff = Inr out
    \<and> (\<forall>s. s \<in> set staff \<longrightarrow> f s = Inr (the (out s)) \<and> out s \<noteq> None) \<and> (\<forall>s. s \<notin> set staff \<longrightarrow> out s = m s)"
  using assms
proof (induction staff arbitrary: m)
  case (Cons a staff)
  obtain w where w: "f a = Inr w" using Cons.prems by auto
  have "\<forall>s \<in> set staff. \<exists>w. f s = Inr w" using Cons.prems by simp
  from Cons.IH [OF this, of "m(a \<mapsto> w)"] obtain out where
    "fold_result (\<lambda>out s. case f s of Inl e \<Rightarrow> Inl e | Inr w \<Rightarrow> Inr (out(s \<mapsto> w))) (m(a \<mapsto> w)) staff = Inr out"
    "\<forall>s. s \<in> set staff \<longrightarrow> f s = Inr (the (out s)) \<and> out s \<noteq> None" "\<forall>s. s \<notin> set staff \<longrightarrow> out s = (m(a \<mapsto> w)) s"
    by blast
  moreover from this have "f a = Inr (the (out a)) \<and> out a \<noteq> None" using w by (cases "a \<in> set staff") auto
  ultimately show ?case using w by (intro exI [of _ out]) (auto split: if_splits)
qed simp

section \<open>Properties\<close>

text \<open>C22: One person is never scheduled at two places at once: after any sequence of requests (in any
  order, by anyone, whatever business answers), no minute of the repeating week belongs to the
  person's stored weekly hours at two branches of a business, and no two stretches of their time
  off share an instant.\<close>

theorem never_two_places_at_once:
  assumes "sd_step\<^sup>*\<^sup>* empty_sd db"
  shows "(\<forall>k k' i j. k_business k' = k_business k \<and> k_staff k' = k_staff k \<and> k_branch k' \<noteq> k_branch k
      \<and> (k, i) \<in> set (sd_hours db) \<and> (k', j) \<in> set (sd_hours db) \<longrightarrow> week_minutes i \<inter> week_minutes j = {})
    \<and> (\<forall>r \<in> set (sd_time_off db). \<forall>q \<in> set (sd_time_off db).
        tr_id r \<noteq> tr_id q \<and> tr_business r = tr_business q \<and> tr_staff r = tr_staff q
        \<longrightarrow> points (time_off_span r) \<inter> points (time_off_span q) = {})"
proof -
  have wf: "wf_sd db" by (rule sd_steps_wf [OF assms wf_empty_sd])
  have "points (time_off_span r) \<inter> points (time_off_span q) = {}"
    if "r \<in> set (sd_time_off db)" "q \<in> set (sd_time_off db)" "tr_id r \<noteq> tr_id q" "tr_business r = tr_business q"
      "tr_staff r = tr_staff q" for r q
  proof -
    have "proper (time_off_span r)" "proper (time_off_span q)"
      using wf that(1,2) by (auto simp: wf_sd_def time_off_apart_def time_off_ok_def proper_def time_off_span_def)
    moreover have "\<not> Overlaps (time_off_span r) (time_off_span q)"
      using wf that by (auto simp: wf_sd_def time_off_apart_def)
    ultimately show ?thesis using Overlaps_iff_points by blast
  qed
  moreover have "week_minutes i \<inter> week_minutes j = {}"
    if "k_business k' = k_business k" "k_staff k' = k_staff k" "k_branch k' \<noteq> k_branch k"
      "(k, i) \<in> set (sd_hours db)" "(k', j) \<in> set (sd_hours db)" for k k' i j
  proof -
    have "no_clash db" using wf by (simp add: wf_sd_def)
    moreover have "i \<in> set (hours_of (sd_hours db) k)" "j \<in> set (hours_of (sd_hours db) k')" using that(4,5) by (simp_all add: set_hours_of)
    ultimately show ?thesis using that(1-3) unfolding no_clash_def same_person_def by blast
  qed
  ultimately show ?thesis by blast
qed

text \<open>C23: No lost update: when a schedule was saved over version \<open>v\<close>, then after any further saves of any
  schedules every other save that read version \<open>v\<close> of it is refused and leaves the database as it is.\<close>

theorem schedule_no_lost_update:
  assumes "sd_step\<^sup>*\<^sup>* empty_sd db" "put_schedule db k v c = (Inr s, db1)" "good_order c"
    "\<forall>(k', v', c') \<in> set later_saves. good_order c'"
    "db2 = foldl (\<lambda>db (k', v', c'). snd (put_schedule db k' v' c')) db1 later_saves"
  shows "\<exists>e. put_schedule db2 k v d = (Inl e, db2)"
  unfolding assms(5)
  by (rule schedules.no_lost_update [OF sd_steps_wf [OF assms(1) wf_empty_sd] assms(3,2,4)])

text \<open>What was saved is what is read: when \<open>SetSchedule\<close> answers with a schedule, reading it returns that
  very schedule (its sorted weekly hours, every override, the next version), it says what was asked
  for, and the schedule of everybody else, the opening hours and all time off are what they were.\<close>

theorem schedule_roundtrip:
  assumes "sd_step\<^sup>*\<^sup>* empty_sd db" "visits visit (wanted_overrides (ss_overrides cmd))"
    "SetSchedule acc visit db now cmd = (Inr s, db')"
  shows "Schedules_Get db' (br_business cmd) (br_branch cmd) (sf_staff cmd) = Inr s
    \<and> wh_intervals (bs_weekly s) = sort_key weekStart (ss_weekly cmd)
    \<and> bs_overrides s = wanted_overrides (ss_overrides cmd) \<and> bs_version s = ss_expectedVersion cmd + 1
    \<and> (\<forall>business branch staff. (business, branch, staff) \<noteq> (br_business cmd, br_branch cmd, sf_staff cmd) \<longrightarrow>
         Schedules_Get db' business branch staff = Schedules_Get db business branch staff)
    \<and> (\<forall>business branch. Calendars_Get db' business branch = Calendars_Get db business branch)
    \<and> sd_time_off db' = sd_time_off db"
proof -
  have put: "put_schedule db (br_business cmd, br_branch cmd, sf_staff cmd) (ss_expectedVersion cmd)
      (visit, ss_weekly cmd, ss_overrides cmd, now) = (Inr s, db')"
    using assms(3) by (auto simp: SetSchedule_def split: option.splits)
  obtain s0 weekly elsewhere where p: "NewWeeklyHours (ss_weekly cmd) = Inr weekly" "bs_version s0 = ss_expectedVersion cmd"
    "Set s0 weekly (ss_overrides cmd) elsewhere now = Inr s"
    "db' = saved_db visit db (keyOf (br_business cmd) (br_branch cmd) (sf_staff cmd)) s"
    "Schedules_Get db' (br_business cmd) (br_branch cmd) (sf_staff cmd) = Inr s"
    using put_schedule_Inr [OF sd_steps_wf [OF assms(1) wf_empty_sd] put assms(2)] by blast
  note set = Set_storable [OF p(3,1)]
  have "Calendars_Get db' b br = Calendars_Get db b br" for b br
    by (auto simp: p(4) Calendars_Get_def Let_def loadCalendar_def saved_db_simps split: option.splits)
  then show ?thesis
    using p set Schedules_Get_other by (auto simp: NewWeeklyHours_Inr_iff saved_db_simps)
qed

text \<open>The working windows other modules ask for are exact: over the tables any sequence of requests
  leaves, in a zone without transitions, a question in range about staff of the branch is always
  answered, without a panic, and a person's windows contain an instant exactly when the branch's stored
  opening hours and the person's stored schedule cover it and none of their stored time off does.\<close>

theorem stored_windows_exact:
  assumes "sd_step\<^sup>*\<^sup>* empty_sd db" "acc_staffAtBranch acc business branch staff = None"
    "acc_branchLocation acc business branch = Inr (fixed_zone z)" "frm < till" "till - frm \<le> MaxWindowsRange"
  shows "\<exists>out cal. WindowsHandlers_Windows acc db business branch staff frm till = Inr out
    \<and> Calendars_Get db business branch = Inr cal
    \<and> (\<forall>s. if s \<in> set staff then \<exists>w sched. out s = Some w \<and> canonical w \<and> Schedules_Get db business branch s = Inr sched
           \<and> (\<forall>t. t \<in> span_points w \<longleftrightarrow> frm \<le> t \<and> t < till
                \<and> works_at \<lparr>in_location = fixed_zone z, in_opening = bc_hours cal, in_closed = (\<lambda>_. False),
                     in_schedule = sched, in_timeOff = stored_time_off db business s\<rparr> t)
         else out s = None)"
proof -
  have wf: "wf_sd db" by (rule sd_steps_wf [OF assms(1) wf_empty_sd])
  obtain cal where cal: "Calendars_Get db business branch = Inr cal" using Calendars_Get_ok [OF wf] by blast
  let ?f = "windows_of db business branch (fixed_zone z) cal frm till"
  note exact = windows_of_exact [OF wf cal assms(4), of z]
  obtain out where out: "fold_result (\<lambda>out s. case ?f s of Inl e \<Rightarrow> Inl e | Inr w \<Rightarrow> Inr (out(s \<mapsto> w))) Map.empty staff = Inr out"
    "\<forall>s. s \<in> set staff \<longrightarrow> ?f s = Inr (the (out s)) \<and> out s \<noteq> None" "\<forall>s. s \<notin> set staff \<longrightarrow> out s = None"
    using fold_windows [of staff ?f Map.empty] exact by blast
  have "\<not> MaxWindowsRange < time_sub till frm"
    using assms(5) time_sub_gt_iff [of MaxWindowsRange till frm] by (simp add: MaxWindowsRange_def hour_def max_int64_def)
  then have "WindowsHandlers_Windows acc db business branch staff frm till = Inr out"
    using assms(2-4) cal out(1) by (simp add: WindowsHandlers_Windows_def compute_def)
  moreover have "\<exists>w sched. out s = Some w \<and> canonical w \<and> Schedules_Get db business branch s = Inr sched
           \<and> (\<forall>t. t \<in> span_points w \<longleftrightarrow> frm \<le> t \<and> t < till
                \<and> works_at \<lparr>in_location = fixed_zone z, in_opening = bc_hours cal, in_closed = (\<lambda>_. False),
                     in_schedule = sched, in_timeOff = stored_time_off db business s\<rparr> t)" if s: "s \<in> set staff" for s
  proof -
    obtain w sched where "?f s = Inr w" "canonical w" "Schedules_Get db business branch s = Inr sched"
      "\<forall>t. t \<in> span_points w \<longleftrightarrow> frm \<le> t \<and> t < till
         \<and> works_at \<lparr>in_location = fixed_zone z, in_opening = bc_hours cal, in_closed = (\<lambda>_. False), in_schedule = sched,
              in_timeOff = stored_time_off db business s\<rparr> t"
      using exact [of s] by blast
    moreover have "out s = Some w" using out(2) s calculation(1) by auto
    ultimately show ?thesis by blast
  qed
  ultimately show ?thesis using cal out(3) by auto
qed

lemma put_schedule_accepts:
  assumes "wf_sd db" "Schedules_Get db business branch staff = Inr s0" "bs_version s0 = v" "v < 2147483647"
    "visits visit (wanted_overrides ovs)"
  shows "(\<exists>s db'. put_schedule db (business, branch, staff) v (visit, ws, ovs, now) = (Inr s, db')) \<longleftrightarrow>
    valid_hours ws \<and> length ovs \<le> 400 \<and> (\<forall>(d, ivs) \<in> set ovs. valid_date d \<and> valid_day ivs)
    \<and> (\<forall>i \<in> set ws. \<forall>(k', j) \<in> set (sd_hours db). k_business k' = id_value business \<and> k_staff k' = id_value staff
         \<and> k_branch k' \<noteq> id_value branch \<longrightarrow> week_minutes i \<inter> week_minutes j = {})"
    (is "?accepted \<longleftrightarrow> ?allowed")
proof
  let ?k = "keyOf business branch staff"
  assume ?accepted
  then obtain s db' where put: "put_schedule db (business, branch, staff) v (visit, ws, ovs, now) = (Inr s, db')" by blast
  obtain s0 weekly elsewhere where p: "NewWeeklyHours ws = Inr weekly" "hoursElsewhere db ?k = Inr elsewhere"
    "Set s0 weekly ovs elsewhere now = Inr s"
    using put_schedule_Inr [OF assms(1) put assms(5)] by blast
  have w: "valid_hours ws" "set (wh_intervals weekly) = set ws" "valid_hours (wh_intervals weekly)"
    using p(1) NewWeeklyHours_valid [OF p(1)] by (auto simp: NewWeeklyHours_Inr_iff)
  note free = free_of_elsewhere [OF assms(1) p(2) Set_storable(9) [OF p(3,1)] w(3)]
  have "week_minutes i \<inter> week_minutes j = {}"
    if "i \<in> set ws" "(k', j) \<in> set (sd_hours db)" "k_business k' = id_value business" "k_staff k' = id_value staff"
      "k_branch k' \<noteq> id_value branch" for i k' j
    using that w(2) by (intro free [of k']) (auto simp: same_person_def keyOf_def set_hours_of)
  then show ?allowed using p(3) w(1) by (auto simp: Set_Inr_iff)
next
  let ?k = "keyOf business branch staff"
  assume a: ?allowed
  obtain weekly where w: "NewWeeklyHours ws = Inr weekly" using a valid_hours_NewWeeklyHours by blast
  have ws: "set (wh_intervals weekly) = set ws" using w by (auto simp: NewWeeklyHours_Inr_iff)
  have vh: "\<And>k'. valid_hours (hours_of (sd_hours db) k')" using assms(1) by (simp add: wf_sd_def)
  obtain elsewhere where e: "hoursElsewhere db ?k = Inr elsewhere"
    "\<forall>w \<in> set elsewhere. valid_hours (wh_intervals w)
      \<and> (\<exists>k'. same_person ?k k' \<and> k_branch k' \<noteq> k_branch ?k \<and> mset (wh_intervals w) = mset (hours_of (sd_hours db) k'))"
    using hoursElsewhere_ok [of db ?k, OF vh] by blast
  have "\<not> WeeklyOverlaps weekly w'" if w': "w' \<in> set elsewhere" for w'
  proof -
    obtain k' where k': "same_person ?k k'" "k_branch k' \<noteq> k_branch ?k" "mset (wh_intervals w') = mset (hours_of (sd_hours db) k')"
      "valid_hours (wh_intervals w')"
      using e(2) w' by blast
    have rows: "(k', j) \<in> set (sd_hours db)" if "j \<in> set (wh_intervals w')" for j
      using that mset_eq_setD [OF k'(3)] by (simp add: set_hours_of)
    have "week_minutes i \<inter> week_minutes j = {}" if ij: "i \<in> set (wh_intervals weekly)" "j \<in> set (wh_intervals w')" for i j
    proof -
      have "i \<in> set ws" "(k', j) \<in> set (sd_hours db)" using ij ws rows by auto
      moreover have "k_business k' = id_value business" "k_staff k' = id_value staff" "k_branch k' \<noteq> id_value branch"
        using k'(1,2) by (auto simp: same_person_def keyOf_def)
      ultimately show ?thesis using a by blast
    qed
    then show ?thesis using WeeklyOverlaps_iff [of weekly w'] NewWeeklyHours_valid [OF w] k'(4) by (auto simp: valid_hours_def)
  qed
  then obtain s where s: "Set s0 weekly ovs elsewhere now = Inr s" using a by (simp add: Set_Inr_iff)
  note set = Set_storable [OF s w]
  have ver: "v = (case sd_schedules db ?k of None \<Rightarrow> 0 | Some row \<Rightarrow> vr_version row)"
    using Schedules_Get_ok [OF assms(1), of business branch staff] assms(2,3) by auto
  have vok: "\<forall>row. sd_schedules db ?k = Some row \<longrightarrow> 0 < vr_version row \<and> vr_version row \<le> 2147483647"
    using assms(1) by (simp add: wf_sd_def versions_ok_def)
  have v0: "0 \<le> v" using ver vok by (auto split: option.splits)
  have "saveSchedule visit db ?k s v = Inr (saved_db visit db ?k s)"
    using set assms(3-5) ver vok v0 by (intro saveSchedule_ok) auto
  then have "update_schedule_tx visit db business branch staff v (\<lambda>s elsewhere. Set s weekly ovs elsewhere now)
      = Inr (s, saved_db visit db ?k s)"
    using assms(2,3) e(1) s by (auto simp: update_schedule_tx_def Schedules_Get_def Let_def)
  then show ?accepted
    using w v0 assms(4) by (auto simp: put_schedule_def Schedules_Update_def commit_def)
qed

text \<open>\<open>SetSchedule\<close> accepts exactly what it should: for a permitted caller who read the current version, in
  any reachable database, a schedule is saved if and only if its weekly hours are valid and free of
  each other, it has at most 400 overrides, on real dates and with valid hours, and no minute of it
  belongs to the person's week at another branch; no constraint of the database ever gets in the way.\<close>

theorem set_schedule_accepts_iff:
  assumes "sd_step\<^sup>*\<^sup>* empty_sd db" "canWrite acc cmd = None" "visits visit (wanted_overrides (ss_overrides cmd))"
    "Schedules_Get db (br_business cmd) (br_branch cmd) (sf_staff cmd) = Inr s0" "bs_version s0 = ss_expectedVersion cmd"
    "ss_expectedVersion cmd < 2147483647"
  shows "(\<exists>s db'. SetSchedule acc visit db now cmd = (Inr s, db')) \<longleftrightarrow>
    valid_hours (ss_weekly cmd) \<and> length (ss_overrides cmd) \<le> 400
    \<and> (\<forall>(d, ivs) \<in> set (ss_overrides cmd). valid_date d \<and> valid_day ivs)
    \<and> (\<forall>i \<in> set (ss_weekly cmd). \<forall>(k', j) \<in> set (sd_hours db). k_business k' = id_value (br_business cmd)
         \<and> k_staff k' = id_value (sf_staff cmd) \<and> k_branch k' \<noteq> id_value (br_branch cmd)
         \<longrightarrow> week_minutes i \<inter> week_minutes j = {})"
  using put_schedule_accepts [OF sd_steps_wf [OF assms(1) wf_empty_sd] assms(4,5,6,3)] assms(2)
  by (simp add: SetSchedule_def)

text \<open>Only the right people change schedules: opening hours change only for a manager of the branch (or
  the owner), a schedule only at a branch where the person works and only for the person themselves or
  a manager there, and time off only for the person, the owner, or a manager of one of the person's branches.\<close>

theorem only_permitted_change_schedules:
  "(snd (SetOpeningHours acc db now hcmd) \<noteq> db \<longrightarrow>
      acc_branch acc (br_actor hcmd) (br_business hcmd) (br_branch hcmd) NeedManager = None)
   \<and> (snd (SetSchedule acc visit db now scmd) \<noteq> db \<longrightarrow>
      acc_branch acc (br_actor scmd) (br_business scmd) (br_branch scmd) NeedBarber = None
      \<and> (\<exists>t me. acc_staffMember acc (br_business scmd) (sf_staff scmd) = Inr t
           \<and> (sm_owner t \<or> br_branch scmd \<in> set (sm_branches t))
           \<and> acc_memberOf acc (br_actor scmd) (br_business scmd) = Inr me
           \<and> (sm_id me = sf_staff scmd
              \<or> acc_branch acc (br_actor scmd) (br_business scmd) (br_branch scmd) NeedManager = None)))
   \<and> (snd (AddTimeOff acc db i now acmd) \<noteq> db \<longrightarrow>
      (\<exists>me t. acc_memberOf acc (ao_actor acmd) (ao_business acmd) = Inr me
         \<and> acc_staffMember acc (ao_business acmd) (ao_staff acmd) = Inr t
         \<and> (sm_id me = sm_id t \<or> sm_owner me \<or> sm_manager me \<and> (\<exists>b \<in> set (sm_branches t). sm_owner me \<or> b \<in> set (sm_branches me)))))
   \<and> (snd (DeleteTimeOff acc db ref) \<noteq> db \<longrightarrow>
      (\<exists>me t. acc_memberOf acc (tf_actor ref) (tf_business ref) = Inr me
         \<and> acc_staffMember acc (tf_business ref) (tf_staff ref) = Inr t
         \<and> (sm_id me = sm_id t \<or> sm_owner me \<or> sm_manager me \<and> (\<exists>b \<in> set (sm_branches t). sm_owner me \<or> b \<in> set (sm_branches me)))))"
proof (intro conjI impI)
  assume "snd (SetOpeningHours acc db now hcmd) \<noteq> db"
  then show "acc_branch acc (br_actor hcmd) (br_business hcmd) (br_branch hcmd) NeedManager = None"
    by (auto simp: SetOpeningHours_def split: option.splits)
next
  assume "snd (SetSchedule acc visit db now scmd) \<noteq> db"
  then have w: "canWrite acc scmd = None" by (auto simp: SetSchedule_def split: option.splits)
  then show "acc_branch acc (br_actor scmd) (br_business scmd) (br_branch scmd) NeedBarber = None"
    by (auto simp: canWrite_def canRead_def split: option.splits)
  show "\<exists>t me. acc_staffMember acc (br_business scmd) (sf_staff scmd) = Inr t
      \<and> (sm_owner t \<or> br_branch scmd \<in> set (sm_branches t))
      \<and> acc_memberOf acc (br_actor scmd) (br_business scmd) = Inr me
      \<and> (sm_id me = sf_staff scmd \<or> acc_branch acc (br_actor scmd) (br_business scmd) (br_branch scmd) NeedManager = None)"
    using w by (auto simp: canWrite_def canRead_def WorksAt_def split: option.splits sum.splits if_splits)
next
  assume "snd (AddTimeOff acc db i now acmd) \<noteq> db"
  then have "canManageTimeOff acc (ao_actor acmd) (ao_business acmd) (ao_staff acmd) = None"
    by (auto simp: AddTimeOff_def split: option.splits)
  then show "\<exists>me t. acc_memberOf acc (ao_actor acmd) (ao_business acmd) = Inr me
         \<and> acc_staffMember acc (ao_business acmd) (ao_staff acmd) = Inr t
         \<and> (sm_id me = sm_id t \<or> sm_owner me \<or> sm_manager me \<and> (\<exists>b \<in> set (sm_branches t). sm_owner me \<or> b \<in> set (sm_branches me)))"
    by (auto simp: canManageTimeOff_def sharesBranchWith_def WorksAt_def list_ex_iff split: sum.splits if_splits)
next
  assume "snd (DeleteTimeOff acc db ref) \<noteq> db"
  then have "canManageTimeOff acc (tf_actor ref) (tf_business ref) (tf_staff ref) = None"
    by (auto simp: DeleteTimeOff_def split: option.splits)
  then show "\<exists>me t. acc_memberOf acc (tf_actor ref) (tf_business ref) = Inr me
         \<and> acc_staffMember acc (tf_business ref) (tf_staff ref) = Inr t
         \<and> (sm_id me = sm_id t \<or> sm_owner me \<or> sm_manager me \<and> (\<exists>b \<in> set (sm_branches t). sm_owner me \<or> b \<in> set (sm_branches me)))"
    by (auto simp: canManageTimeOff_def sharesBranchWith_def WorksAt_def list_ex_iff split: sum.splits if_splits)
qed

section \<open>Witnesses\<close>

definition sample_access :: access where
  "sample_access = \<lparr>acc_branch = (\<lambda>_ _ _ _. None),
     acc_memberOf = (\<lambda>_ _. Inr \<lparr>sm_id = ID 3, sm_owner = True, sm_manager = False, sm_branches = []\<rparr>),
     acc_staffMember = (\<lambda>_ s. Inr \<lparr>sm_id = s, sm_owner = False, sm_manager = False, sm_branches = [ID 2]\<rparr>),
     acc_staffAtBranch = (\<lambda>_ _ _. None), acc_branchLocation = (\<lambda>_ _. Inr riyadh)\<rparr>"

definition sample_day_off :: Date where
  "sample_day_off = \<lparr>d_year = 1970, d_month = 1, d_day = 2\<rparr>"

definition sample_visit :: map_order where
  "sample_visit m = filter (\<lambda>d. m d \<noteq> None) [sample_day_off]"

definition sample_set :: SetSchedule_cmd where
  "sample_set = \<lparr>br_actor = ID 6, br_business = ID 1, br_branch = ID 2, sf_staff = ID 3, ss_expectedVersion = 0,
     ss_weekly = wh_intervals sample_hours, ss_overrides = [(sample_day_off, [])]\<rparr>"

definition sample_sd :: scheduling_db where
  "sample_sd = snd (SetSchedule sample_access sample_visit empty_sd 0 sample_set)"

lemma sample_visits: "visits sample_visit (wanted_overrides (ss_overrides sample_set))"
  by (auto simp: visits_def sample_visit_def wanted_overrides_def sample_set_def map_of_last_def)

lemma sample_sd_reachable: "sd_step\<^sup>*\<^sup>* empty_sd sample_sd"
  unfolding sample_sd_def by (rule r_into_rtranclp, rule sd_step.schedule [OF sample_visits])

lemma sample_set_ok: "\<exists>s. SetSchedule sample_access sample_visit empty_sd 0 sample_set = (Inr s, sample_sd)"
proof -
  have "is_ok (fst (SetSchedule sample_access sample_visit empty_sd 0 sample_set))" by code_simp
  then show ?thesis unfolding sample_sd_def is_ok_iff by (metis prod.collapse)
qed

theorem never_two_places_at_once_witness:
  "\<nexists>i j m. (keyOf (ID 1) (ID 2) (ID 3), i) \<in> set (sd_hours sample_sd) \<and> (keyOf (ID 1) (ID 4) (ID 3), j) \<in> set (sd_hours sample_sd)
     \<and> m \<in> week_minutes i \<and> m \<in> week_minutes j"
  using never_two_places_at_once [OF sample_sd_reachable, THEN conjunct1, rule_format,
      of "keyOf (ID 1) (ID 4) (ID 3)" "keyOf (ID 1) (ID 2) (ID 3)"] by (auto simp: keyOf_def)

theorem schedule_no_lost_update_witness:
  "\<exists>e. put_schedule sample_sd (ID 1, ID 2, ID 3) 0 (sample_visit, [], [], 0) = (Inl e, sample_sd)"
proof -
  obtain s where "SetSchedule sample_access sample_visit empty_sd 0 sample_set = (Inr s, sample_sd)" using sample_set_ok by blast
  then have put: "put_schedule empty_sd (ID 1, ID 2, ID 3) 0 (sample_visit, wh_intervals sample_hours, [(sample_day_off, [])], 0) = (Inr s, sample_sd)"
    by (simp add: SetSchedule_def sample_set_def split: option.splits)
  have g: "good_order (sample_visit, wh_intervals sample_hours, [(sample_day_off, [])], 0)"
    using sample_visits by (simp add: good_order_def sample_set_def)
  have r: "sd_step\<^sup>*\<^sup>* empty_sd empty_sd" by simp
  from schedule_no_lost_update [OF r put g, of "[]" sample_sd] show ?thesis by simp
qed

theorem schedule_roundtrip_witness:
  "\<exists>s. Schedules_Get sample_sd (ID 1) (ID 2) (ID 3) = Inr s \<and> bs_version s = 1"
proof -
  obtain s where s: "SetSchedule sample_access sample_visit empty_sd 0 sample_set = (Inr s, sample_sd)" using sample_set_ok by blast
  have r: "sd_step\<^sup>*\<^sup>* empty_sd empty_sd" by simp
  show ?thesis using schedule_roundtrip [OF r sample_visits s] by (auto simp: sample_set_def)
qed

theorem stored_windows_exact_witness:
  "\<exists>out. WindowsHandlers_Windows sample_access sample_sd (ID 1) (ID 2) [ID 3] 0 (24 * hour) = Inr out \<and> out (ID 3) \<noteq> None"
proof -
  have a: "acc_staffAtBranch sample_access (ID 1) (ID 2) [ID 3] = None"
    "acc_branchLocation sample_access (ID 1) (ID 2) = Inr (fixed_zone 10800)"
    by (simp_all add: sample_access_def riyadh_def)
  have r: "(0 :: int) < 24 * hour" "24 * hour - 0 \<le> MaxWindowsRange" by (simp_all add: hour_def MaxWindowsRange_def)
  obtain out where "WindowsHandlers_Windows sample_access sample_sd (ID 1) (ID 2) [ID 3] 0 (24 * hour) = Inr out"
    "\<forall>s. if s \<in> set [ID 3] then out s \<noteq> None else out s = None"
    using stored_windows_exact [OF sample_sd_reachable a r] by (auto, metis option.distinct(1))
  then have "out (ID 3) \<noteq> None" by (metis list.set_intros(1))
  then show ?thesis using \<open>WindowsHandlers_Windows _ _ _ _ _ _ _ = _\<close> by blast
qed

theorem set_schedule_accepts_iff_witness:
  "\<nexists>s db'. SetSchedule sample_access sample_visit empty_sd 0
     (sample_set\<lparr>ss_weekly := [\<lparr>wi_day = 0, wi_start = 600, wi_minutes = 7\<rparr>]\<rparr>) = (Inr s, db')"
proof -
  let ?cmd = "sample_set\<lparr>ss_weekly := [\<lparr>wi_day = 0, wi_start = 600, wi_minutes = 7\<rparr>]\<rparr>"
  have r: "sd_step\<^sup>*\<^sup>* empty_sd empty_sd" by simp
  have c: "canWrite sample_access ?cmd = None" by code_simp
  have v: "visits sample_visit (wanted_overrides (ss_overrides ?cmd))" using sample_visits by simp
  have g: "Schedules_Get empty_sd (br_business ?cmd) (br_branch ?cmd) (sf_staff ?cmd) = Inr (NewBarberSchedule (ID 1) (ID 2) (ID 3))"
    by (simp add: Schedules_Get_def empty_sd_def Let_def sample_set_def)
  have e: "bs_version (NewBarberSchedule (ID 1) (ID 2) (ID 3)) = ss_expectedVersion ?cmd" "ss_expectedVersion ?cmd < 2147483647"
    by (simp_all add: NewBarberSchedule_def sample_set_def)
  have "\<not> valid_hours (ss_weekly ?cmd)" by (simp add: valid_hours_def valid_weekly_def)
  then show ?thesis using set_schedule_accepts_iff [OF r c v g e] by blast
qed

theorem only_permitted_change_schedules_witness:
  "acc_branch sample_access (ID 6) (ID 1) (ID 2) NeedBarber = None"
proof -
  have "length (sd_hours sample_sd) \<noteq> length (sd_hours empty_sd)" unfolding sample_sd_def by code_simp
  then have "snd (SetSchedule sample_access sample_visit empty_sd 0 sample_set) \<noteq> empty_sd" by (auto simp: sample_sd_def)
  then show ?thesis
    using only_permitted_change_schedules [of sample_access empty_sd 0 undefined sample_visit sample_set]
    by (simp add: sample_set_def)
qed

end
