(* ===== verification/Composition.thy ===== *)
theory Composition
  imports BookingManage ScheduleApp
begin

text \<open>
  Booking over scheduling: \<open>Schedules\<close> of \<open>internal/booking/adapters/acl/acl.go\<close> answers
  booking's port \<open>WorkingWindows\<close> from scheduling's module. The theorem follows a booking from
  the request to the scheduling tables: whatever happened before, a booking that commits lies
  in the barber's working time as those tables have it at that moment.
\<close>

definition Module_WorkingWindows ::
  "access \<Rightarrow> scheduling_db \<Rightarrow> BusinessID \<Rightarrow> BranchID \<Rightarrow> StaffID list \<Rightarrow> gotime \<Rightarrow> gotime
   \<Rightarrow> (scheduling_error, StaffID \<rightharpoonup> Interval list) result" where
  "Module_WorkingWindows acc sdb business branch staff frm till =
     WindowsHandlers_Windows acc sdb business branch staff frm till"

text \<open>A key the map does not have reads as the empty slice.\<close>

definition acl_WorkingWindows ::
  "access \<Rightarrow> scheduling_db \<Rightarrow> BusinessID \<Rightarrow> BranchID \<Rightarrow> StaffID list \<Rightarrow> gotime \<Rightarrow> gotime
   \<Rightarrow> (booking_error, StaffID \<Rightarrow> Interval list) result" where
  "acl_WorkingWindows acc sdb business branch staff frm till =
     (case Module_WorkingWindows acc sdb business branch staff frm till of
        Inl e \<Rightarrow> if e = Weekly.ErrNotFound then Inr (\<lambda>_. []) else Inl Availability.Fault
      | Inr w \<Rightarrow> Inr (\<lambda>s. case w s of None \<Rightarrow> [] | Some ws \<Rightarrow> ws))"

lemma acl_window_works:
  assumes "sd_step\<^sup>*\<^sup>* empty_sd sdb" "acc_branchLocation acc business branch = Inr (fixed_zone z)"
    "acl_WorkingWindows acc sdb business branch [barber] s e = Inr ws" "w \<in> set (ws barber)" "t \<in> points w"
  shows "\<exists>cal sched. Calendars_Get sdb business branch = Inr cal \<and> Schedules_Get sdb business branch barber = Inr sched
    \<and> works_at \<lparr>in_location = fixed_zone z, in_opening = bc_hours cal, in_closed = (\<lambda>_. False), in_schedule = sched,
         in_timeOff = stored_time_off sdb business barber\<rparr> t"
proof -
  have wf: "wf_sd sdb" by (rule sd_steps_wf [OF assms(1) wf_empty_sd])
  obtain out where out: "WindowsHandlers_Windows acc sdb business branch [barber] s e = Inr out" "w \<in> set (case out barber of None \<Rightarrow> [] | Some ws \<Rightarrow> ws)"
    using assms(3,4) by (auto simp: acl_WorkingWindows_def Module_WorkingWindows_def split: sum.splits if_splits)
  then obtain v where v: "out barber = Some v" "w \<in> set v" by (cases "out barber") auto
  obtain cal where cal: "s < e" "Calendars_Get sdb business branch = Inr cal"
    "windows_of sdb business branch (fixed_zone z) cal s e barber = Inr v"
    using out(1) v(1) assms(2)
    by (auto simp: WindowsHandlers_Windows_def compute_def split: sum.splits if_splits option.splits)
  obtain sched where "Schedules_Get sdb business branch barber = Inr sched"
    "\<forall>t. t \<in> span_points v \<longleftrightarrow> s \<le> t \<and> t < e
       \<and> works_at \<lparr>in_location = fixed_zone z, in_opening = bc_hours cal, in_closed = (\<lambda>_. False), in_schedule = sched,
            in_timeOff = stored_time_off sdb business barber\<rparr> t"
    using windows_of_exact [OF wf cal(2,1), of z barber] cal(3) by auto
  moreover have "t \<in> span_points v" using assms(5) v(2) by (auto simp: span_points_def)
  ultimately show ?thesis using cal(2) by blast
qed

section \<open>Properties\<close>

text \<open>C11: Booking and scheduling agree: when a customer's booking commits while the scheduling tables are
  \<open>sdb\<close> (reached by any requests, in a zone without transitions), then at every instant of the
  booking, its buffer included, the branch is open by its stored hours, the barber is scheduled there
  and is not on time off, however much hours, schedules and time off changed since the slot was shown.\<close>

theorem booked_inside_working_time:
  assumes "BookHandlers_Book tx p p' fresh db db' now cmd = (Inr (a, False), db'')"
    "p_windows p' = acl_WorkingWindows acc sdb" "sd_step\<^sup>*\<^sup>* empty_sd sdb"
    "acc_branchLocation acc (ap_business a) (ap_branch a) = Inr (fixed_zone z)"
  shows "\<exists>cal sched. Calendars_Get sdb (ap_business a) (ap_branch a) = Inr cal
    \<and> Schedules_Get sdb (ap_business a) (ap_branch a) (ap_barber a) = Inr sched
    \<and> (\<forall>t. ap_start a \<le> t \<and> t < ap_busyUntil a \<longrightarrow>
         works_at \<lparr>in_location = fixed_zone z, in_opening = bc_hours cal, in_closed = (\<lambda>_. False), in_schedule = sched,
            in_timeOff = stored_time_off sdb (ap_business a) (ap_barber a)\<rparr> t)"
proof -
  obtain branch menu offers assignment i where b: "customer_draft fresh branch menu cmd assignment now i (ap_barber a) = Inr a"
    "stillWorking p' branch a = Inr True" and new: "ap_start a < ap_busyUntil a"
    by (rule booked_parts [OF assms(1)])
  note br = customer_draft_Inr(2,3) [OF b(1)]
  obtain ws w where w: "acl_WorkingWindows acc sdb (ap_business a) (ap_branch a) [ap_barber a] (ap_start a) (ap_busyUntil a) = Inr ws"
    "w \<in> set (ws (ap_barber a))" "Covers w (Busy a)"
    using stillWorking_True [OF b(2) new] assms(2) br by auto
  have busy: "Busy a = \<lparr>ivl_start = ap_start a, ivl_end = ap_busyUntil a\<rparr>" "proper (Busy a)"
    using new by (simp_all add: Busy_def NewInterval_def proper_def)
  have "t \<in> points w" if "ap_start a \<le> t" "t < ap_busyUntil a" for t
    using w(3) that Covers_iff_points [OF busy(2), of w] busy(1) by (auto simp: points_def)
  note works = acl_window_works [OF assms(3,4) w(1,2) this]
  obtain cal sched where "Calendars_Get sdb (ap_business a) (ap_branch a) = Inr cal"
    "Schedules_Get sdb (ap_business a) (ap_branch a) (ap_barber a) = Inr sched"
    using works [of "ap_start a"] new by blast
  then show ?thesis using works by fastforce
qed

definition thursday :: "WeeklyInterval list" where
  "thursday = [\<lparr>wi_day = 4, wi_start = 300, wi_minutes = 240\<rparr>]"

definition open_sd :: scheduling_db where
  "open_sd = snd (SetOpeningHours sample_access empty_sd 0
     \<lparr>br_actor = ID 6, br_business = ID 1, br_branch = ID 2, so_expectedVersion = 0, so_intervals = thursday\<rparr>)"

definition staffed_sd :: scheduling_db where
  "staffed_sd = snd (SetSchedule sample_access sample_visit open_sd 0 (sample_set\<lparr>ss_weekly := thursday\<rparr>))"

definition composed_ports :: ports where
  "composed_ports = sample_ports\<lparr>p_windows := acl_WorkingWindows sample_access staffed_sd\<rparr>"

lemma staffed_sd_reachable: "sd_step\<^sup>*\<^sup>* empty_sd staffed_sd"
proof -
  have "sd_step empty_sd open_sd" unfolding open_sd_def by (rule sd_step.hours)
  moreover have "sd_step open_sd staffed_sd"
    unfolding staffed_sd_def by (rule sd_step.schedule) (use sample_visits in simp)
  ultimately show ?thesis by (meson rtranclp.rtrancl_into_rtrancl rtranclp.rtrancl_refl)
qed

lemma staffed_sd_reads:
  "\<exists>cal s. Calendars_Get staffed_sd (ID 1) (ID 2) = Inr cal \<and> Schedules_Get staffed_sd (ID 1) (ID 2) (ID 3) = Inr s
     \<and> startingOn (bc_hours cal) 4 = [\<lparr>di_start = 300, di_minutes = 240\<rparr>]
     \<and> IntervalsStarting s \<lparr>d_year = 1970, d_month = 1, d_day = 1\<rparr> = [\<lparr>di_start = 300, di_minutes = 240\<rparr>]"
proof -
  have "(case Calendars_Get staffed_sd (ID 1) (ID 2) of Inl _ \<Rightarrow> [] | Inr cal \<Rightarrow> startingOn (bc_hours cal) 4)
      = [\<lparr>di_start = 300, di_minutes = 240\<rparr>]"
    by code_simp
  moreover have "(case Schedules_Get staffed_sd (ID 1) (ID 2) (ID 3) of Inl _ \<Rightarrow> []
        | Inr s \<Rightarrow> IntervalsStarting s \<lparr>d_year = 1970, d_month = 1, d_day = 1\<rparr>)
      = [\<lparr>di_start = 300, di_minutes = 240\<rparr>]"
    by code_simp
  ultimately show ?thesis by (auto split: sum.splits)
qed

lemma staffed_sd_no_time_off: "stored_time_off staffed_sd (ID 1) (ID 3) = []"
  by code_simp

lemma Store_Book_same_answer:
  assumes "\<And>d. d \<in> set (at_drafts x) \<Longrightarrow> f d = at_stillWorking x d"
  shows "Store_Book db (x\<lparr>at_stillWorking := f\<rparr>) = Store_Book db x"
proof -
  have "book_drafts db (x\<lparr>at_stillWorking := f\<rparr>) ds = book_drafts db x ds" if "set ds \<subseteq> set (at_drafts x)" for db ds
    using that by (induction ds arbitrary: db) (auto simp: try_draft_def assms split: sum.splits option.splits)
  then show ?thesis by (simp add: Store_Book_def book_tx_def Let_def cong: option.case_cong if_cong)
qed

lemma staffed_sd_windows:
  assumes "2 * hour \<le> s" "s < e" "e \<le> 6 * hour"
  shows "\<exists>out. acl_WorkingWindows sample_access staffed_sd (ID 1) (ID 2) [ID 3] s e = Inr out
    \<and> out (ID 3) = [\<lparr>ivl_start = s, ivl_end = e\<rparr>]"
proof -
  have wf: "wf_sd staffed_sd" by (rule sd_steps_wf [OF staffed_sd_reachable wf_empty_sd])
  obtain cal sc where c: "Calendars_Get staffed_sd (ID 1) (ID 2) = Inr cal" "Schedules_Get staffed_sd (ID 1) (ID 2) (ID 3) = Inr sc"
    "startingOn (bc_hours cal) 4 = [\<lparr>di_start = 300, di_minutes = 240\<rparr>]"
    "IntervalsStarting sc \<lparr>d_year = 1970, d_month = 1, d_day = 1\<rparr> = [\<lparr>di_start = 300, di_minutes = 240\<rparr>]"
    using staffed_sd_reads by blast
  let ?d = "\<lparr>d_year = 1970, d_month = 1, d_day = 1\<rparr>"
  let ?inp = "\<lparr>in_location = fixed_zone 10800, in_opening = bc_hours cal, in_closed = (\<lambda>_. False), in_schedule = sc,
            in_timeOff = stored_time_off staffed_sd (ID 1) (ID 3)\<rparr>"
  have d: "valid_date ?d" "Weekday ?d = 4" "At ?d 300 (fixed_zone 10800) = 2 * hour" "At ?d (wrap64 540) (fixed_zone 10800) = 6 * hour"
    by code_simp+
  have "works_at ?inp t" if "s \<le> t" "t < e" for t
    unfolding works_at_def open_on_def work_on_def day_points_def closed_on_def
    using d c(3,4) that assms by (auto simp: staffed_sd_no_time_off intro!: exI [of _ ?d])
  then have "span_points w = span_points [\<lparr>ivl_start = s, ivl_end = e\<rparr>]"
    if "\<forall>t. t \<in> span_points w \<longleftrightarrow> s \<le> t \<and> t < e \<and> works_at ?inp t" for w
    using that by (intro set_eqI) (auto simp: span_points_def [of "[_]"] points_def)
  moreover have "canonical [\<lparr>ivl_start = s, ivl_end = e\<rparr>]" using assms by (simp add: canonical_Cons proper_def)
  ultimately have "windows_of staffed_sd (ID 1) (ID 2) (fixed_zone 10800) cal s e (ID 3) = Inr [\<lparr>ivl_start = s, ivl_end = e\<rparr>]"
    using windows_of_exact [OF wf c(1) assms(2), of 10800 "ID 3"] c(2) canonical_unique by fastforce
  moreover have "\<not> MaxWindowsRange < time_sub e s"
    using assms by (simp add: MaxWindowsRange_def time_sub_def hour_def min_int64_def max_int64_def)
  ultimately show ?thesis
    using assms(2) c(1)
    by (simp add: acl_WorkingWindows_def Module_WorkingWindows_def WindowsHandlers_Windows_def compute_def
        sample_access_def riyadh_def)
qed

lemma composed_Store_Book:
  "Store_Book empty_db (sample_app_attempt composed_ports) = Store_Book empty_db (sample_app_attempt sample_ports)"
proof -
  have d: "(case at_drafts (sample_app_attempt sample_ports) of [d] \<Rightarrow> ap_barber d = ID 3 \<and> 2 * hour \<le> ap_start d
      \<and> ap_start d < ap_busyUntil d \<and> ap_busyUntil d \<le> 6 * hour | _ \<Rightarrow> False)"
    by code_simp
  have s: "(case at_drafts (sample_app_attempt sample_ports) of [d] \<Rightarrow> stillWorking sample_ports sample_branch d | _ \<Rightarrow> Inr True) = Inr True"
    by code_simp
  have b: "bb_business sample_branch = ID 1" "bb_id sample_branch = ID 2" by (simp_all add: sample_branch_def)
  have "stillWorking composed_ports sample_branch d = stillWorking sample_ports sample_branch d"
    if "d \<in> set (at_drafts (sample_app_attempt sample_ports))" for d
  proof -
    have ds: "at_drafts (sample_app_attempt sample_ports) = [d]" using d that by (auto split: list.splits)
    with d have dd: "ap_barber d = ID 3" "2 * hour \<le> ap_start d" "ap_start d < ap_busyUntil d" "ap_busyUntil d \<le> 6 * hour" by auto
    obtain out where "acl_WorkingWindows sample_access staffed_sd (ID 1) (ID 2) [ID 3] (ap_start d) (ap_busyUntil d) = Inr out"
      "out (ID 3) = [\<lparr>ivl_start = ap_start d, ivl_end = ap_busyUntil d\<rparr>]"
      using staffed_sd_windows [OF dd(2-4)] by blast
    then have "stillWorking composed_ports sample_branch d = Inr True"
      using dd by (simp add: stillWorking_def Let_def composed_ports_def b Busy_def NewInterval_def Covers_def)
    then show ?thesis using s ds by simp
  qed
  then show ?thesis
    using Store_Book_same_answer [of "sample_app_attempt sample_ports" "stillWorking composed_ports sample_branch" empty_db]
    by (simp add: sample_app_attempt_def)
qed

theorem booked_inside_working_time_witness:
  "\<exists>(a :: Appointment) cal. ap_start a = 3 * hour \<and> Calendars_Get staffed_sd (ap_business a) (ap_branch a) = Inr cal"
proof -
  let ?r = "BookHandlers_Book sample_texts sample_ports composed_ports (\<lambda>n. ID 10) empty_db empty_db 0 sample_cmd"
  have "(case fst (Store_Book empty_db (sample_app_attempt sample_ports)) of Inl _ \<Rightarrow> True | Inr (a, r) \<Rightarrow> r \<or> ap_start a \<noteq> 3 * hour) = False"
    by code_simp
  then obtain a where a: "fst ?r = Inr (a, False)" "ap_start a = 3 * hour"
    by (auto simp: BookHandlers_Book_def run_attempt_def sample_prepare_Book composed_Store_Book split: sum.splits prod.splits)
  then have r: "?r = (Inr (a, False), snd ?r)" by (metis prod.collapse)
  have p: "p_windows composed_ports = acl_WorkingWindows sample_access staffed_sd" by (simp add: composed_ports_def)
  have l: "acc_branchLocation sample_access (ap_business a) (ap_branch a) = Inr (fixed_zone 10800)"
    by (simp add: sample_access_def riyadh_def)
  show ?thesis using booked_inside_working_time [OF r p staffed_sd_reachable l] a(2) by blast
qed

end
