(* ===== verification/Tenancy.thy ===== *)
theory Tenancy
  imports TenantFacts Composition
begin

text \<open>
  Scheduling and booking over business: the questions other modules may ask of business (\<open>module.go\<close>
  of \<open>internal/business\<close>), and the adapters that turn the answers into scheduling's and booking's own
  terms (\<open>internal/scheduling/adapters/acl/business.go\<close>, \<open>internal/booking/adapters/acl/acl.go\<close>). The
  theorems follow a change of a schedule and a customer's booking down to the rows of the business
  tables.
\<close>

section \<open>The public face of business\<close>

record StaffInfo =
  nf_id :: StaffID
  nf_role :: string
  nf_branches :: "BranchID list"

definition toStaffInfo :: "BusinessApp.Member \<Rightarrow> StaffInfo" where
  "toStaffInfo m = \<lparr>nf_id = me_id m, nf_role = role_text (me_role m), nf_branches = me_branches m\<rparr>"

definition Module_AuthorizeBranch ::
  "business_db \<Rightarrow> UserID \<Rightarrow> BusinessID \<Rightarrow> BranchID \<Rightarrow> string \<Rightarrow> business_error option" where
  "Module_AuthorizeBranch bdb actor business branch need =
     (case ParseRole need of Inl e \<Rightarrow> Some e | Inr role \<Rightarrow> Access_Branch actor business branch role bdb)"

definition Module_MemberOf :: "business_db \<Rightarrow> UserID \<Rightarrow> BusinessID \<Rightarrow> (business_error, StaffInfo) result" where
  "Module_MemberOf bdb actor business =
     (case MemberOf actor business bdb of Inl e \<Rightarrow> Inl e | Inr m \<Rightarrow> Inr (toStaffInfo m))"

definition Module_StaffMember :: "business_db \<Rightarrow> BusinessID \<Rightarrow> StaffID \<Rightarrow> (business_error, StaffInfo) result" where
  "Module_StaffMember bdb business staff =
     (case Access_StaffMember business staff bdb of Inl e \<Rightarrow> Inl e | Inr m \<Rightarrow> Inr (toStaffInfo m))"

record PublicBranch =
  pb_business :: BusinessID
  pb_branch :: BranchID
  pb_location :: location
  pb_policy :: PolicyRules

definition Module_BookableBranch :: "zones \<Rightarrow> business_db \<Rightarrow> BranchID \<Rightarrow> (business_error, PublicBranch) result" where
  "Module_BookableBranch load bdb branch =
     (case Access_BookableBranch branch bdb of Inl e \<Rightarrow> Inl e
      | Inr b \<Rightarrow>
          (case load (bp_timezone (bn_profile b)) of None \<Rightarrow> Inl Business.Fault
           | Some loc \<Rightarrow> Inr \<lparr>pb_business = bn_business b, pb_branch = bn_id b, pb_location = loc, pb_policy = bn_policy b\<rparr>))"

section \<open>Scheduling's adapter\<close>

definition translate :: "business_error \<Rightarrow> scheduling_error" where
  "translate e =
     (if e = Business.ErrNotFound then Weekly.ErrNotFound
      else if e = Business.ErrForbidden then Weekly.ErrForbidden else Weekly.Fault)"

definition toMember :: "StaffInfo \<Rightarrow> ScheduleApp.StaffMember" where
  "toMember s = \<lparr>sm_id = nf_id s, sm_owner = (nf_role s = ''owner''), sm_manager = (nf_role s = ''manager''), sm_branches = nf_branches s\<rparr>"

definition access_branch ::
  "business_db \<Rightarrow> UserID \<Rightarrow> BusinessID \<Rightarrow> BranchID \<Rightarrow> Need \<Rightarrow> scheduling_error option" where
  "access_branch bdb actor business branch need =
     map_option translate (Module_AuthorizeBranch bdb actor business branch
       (if need = NeedManager then role_text Business.RoleManager else role_text Business.RoleBarber))"

definition translated :: "(business_error, 'a) result \<Rightarrow> (scheduling_error, 'a) result" where
  "translated r = (case r of Inl e \<Rightarrow> Inl (translate e) | Inr x \<Rightarrow> Inr x)"

definition business_access :: "zones \<Rightarrow> business_db \<Rightarrow> access" where
  "business_access load bdb = \<lparr>
     acc_branch = access_branch bdb,
     acc_memberOf = (\<lambda>actor business. translated (map_sum id toMember (Module_MemberOf bdb actor business))),
     acc_staffMember = (\<lambda>business staff. translated (map_sum id toMember (Module_StaffMember bdb business staff))),
     acc_staffAtBranch = (\<lambda>business branch staff. map_option translate (StaffAtBranch business branch staff bdb)),
     acc_branchLocation = (\<lambda>business branch. translated (BranchLocation load business branch bdb))\<rparr>"

section \<open>Booking's adapter\<close>

definition booking_error_of :: "business_error \<Rightarrow> booking_error" where
  "booking_error_of e = (if e = Business.ErrNotFound then Availability.ErrNotFound else Availability.Fault)"

definition acl_Bookable :: "zones \<Rightarrow> business_db \<Rightarrow> BranchID \<Rightarrow> (booking_error, BookableBranch) result" where
  "acl_Bookable load bdb i =
     (case Module_BookableBranch load bdb i of Inl e \<Rightarrow> Inl (booking_error_of e)
      | Inr b \<Rightarrow>
          let r = pb_policy b in
          Inr \<lparr>bb_business = pb_business b, bb_id = pb_branch b, bb_location = pb_location b,
            bb_policy = \<lparr>pol_minLead = pr_minLead r, pol_horizonDays = pr_horizonDays r, pol_slotInterval = pr_slotInterval r,
              pol_buffer = pr_buffer r, pol_autoConfirm = pr_autoConfirm r, pol_pendingExpiry = pr_pendingExpiry r,
              pol_maxActiveBookings = pr_maxActiveBookings r, pol_cancellationWindow = pr_cancellationWindow r\<rparr>\<rparr>)"

definition acl_Barbers ::
  "business_db \<Rightarrow> BusinessID \<Rightarrow> BranchID \<Rightarrow> StaffID list \<Rightarrow> (booking_error, BookingApp.Barber list) result" where
  "acl_Barbers bdb business branch staff =
     (case BranchBarbers business branch staff bdb of Inl e \<Rightarrow> Inl Availability.Fault
      | Inr bs \<Rightarrow> Inr (map (\<lambda>(i, n). \<lparr>bar_id = i, bar_name = n\<rparr>) bs))"

text \<open>A role crosses the border as a text; only the three that business knows are ever sent.\<close>

definition booking_role :: "string \<Rightarrow> BookingApp.Role" where
  "booking_role r =
     (if r = role_text Business.RoleOwner then BookingApp.RoleOwner
      else if r = role_text Business.RoleManager then BookingApp.RoleManager else BookingApp.RoleBarber)"

definition acl_MemberOf :: "business_db \<Rightarrow> UserID \<Rightarrow> BusinessID \<Rightarrow> (booking_error, BookingApp.Member) result" where
  "acl_MemberOf bdb actor business =
     (case Module_MemberOf bdb actor business of Inl e \<Rightarrow> Inl (booking_error_of e)
      | Inr m \<Rightarrow> Inr \<lparr>mb_staff = nf_id m, mb_role = booking_role (nf_role m), mb_branches = nf_branches m\<rparr>)"

definition acl_BranchLocation :: "zones \<Rightarrow> business_db \<Rightarrow> BusinessID \<Rightarrow> BranchID \<Rightarrow> (booking_error, location) result" where
  "acl_BranchLocation load bdb business branch =
     (case BranchLocation load business branch bdb of Inl e \<Rightarrow> Inl (booking_error_of e) | Inr loc \<Rightarrow> Inr loc)"

section \<open>What the answers say about the tables\<close>

definition works_in :: "business_db \<Rightarrow> staff_row \<Rightarrow> BranchID \<Rightarrow> bool" where
  "works_in bdb s branch \<longleftrightarrow> f_role s = ''owner'' \<or> id_value branch \<in> set (branch_ids_of bdb s)"

definition staff_of :: "business_db \<Rightarrow> BusinessID \<Rightarrow> staff_row \<Rightarrow> bool" where
  "staff_of bdb business s \<longleftrightarrow> s \<in> set (bd_staff bdb) \<and> f_business s = id_value business \<and> f_active s"

lemma role_text_inject [simp]: "role_text a = role_text b \<longleftrightarrow> a = b"
  by (cases a; cases b) simp_all

lemma toStaffMember_Inr:
  assumes "toStaffMember row ids = Inr m"
  shows "st_id m = ID (f_id row)" "role_text (st_role m) = f_role row" "st_active m = f_active row" "st_branches m = map ID ids"
proof -
  obtain r where r: "ParseRole (f_role row) = Inr r" using assms by (cases "ParseRole (f_role row)") (simp_all add: toStaffMember_def)
  have i: "IDFromUUID = ID" by (simp add: fun_eq_iff IDFromUUID_def)
  show "st_id m = ID (f_id row)" "role_text (st_role m) = f_role row" "st_active m = f_active row" "st_branches m = map ID ids"
    using assms r ParseRole_Inr [OF r] by (auto simp: toStaffMember_def i)
qed

lemma WorksAt_row:
  assumes "toStaffMember row (branch_ids_of bdb row) = Inr m"
  shows "Business.WorksAt m branch \<longleftrightarrow> works_in bdb row branch"
proof -
  have "st_role m = Business.RoleOwner \<longleftrightarrow> f_role row = ''owner''"
    using toStaffMember_Inr(2) [OF assms] by (metis role_text.simps(1) role_text_inject)
  moreover have "branch \<in> set (map ID ids) \<longleftrightarrow> id_value branch \<in> set ids" for ids by (cases branch) auto
  ultimately show ?thesis by (simp add: Business.WorksAt_def works_in_def toStaffMember_Inr(4) [OF assms])
qed

lemma Staff_Membership_Inr:
  assumes "Staff_Membership bdb business user = Inr m"
  obtains s where "s \<in> set (bd_staff bdb)" "f_business s = id_value business" "f_user s = Some (id_value user)"
    "toStaffMember s (branch_ids_of bdb s) = Inr m"
  using assms that by (auto simp: Staff_Membership_def split: option.splits dest!: find_first_Some)

lemma Staff_List_Inr:
  assumes "Staff_List bdb business = Inr ms" "m \<in> set ms"
  obtains s where "s \<in> set (bd_staff bdb)" "f_business s = id_value business" "toStaffMember s (branch_ids_of bdb s) = Inr m"
proof -
  from each_Inr [OF assms(1) [unfolded Staff_List_def] assms(2)]
  obtain s where "s \<in> set (sort_key (\<lambda>s. (f_created_at s, f_id s)) (filter (\<lambda>s. f_business s = id_value business) (bd_staff bdb)))"
    "toStaffMember s (branch_ids_of bdb s) = Inr m" ..
  then show thesis using that [of s] by simp
qed

lemma MemberOf_row:
  assumes "MemberOf actor business bdb = Inr m"
  obtains s where "staff_of bdb business s" "f_user s = Some (id_value actor)" "me_id m = ID (f_id s)"
    "role_text (me_role m) = f_role s" "me_branches m = map ID (branch_ids_of bdb s)"
proof -
  obtain k where k: "Staff_Membership bdb business actor = Inr k" "st_active k" "m = member_of k"
    using assms by (auto simp: MemberOf_def split: sum.splits if_splits)
  obtain s where s: "s \<in> set (bd_staff bdb)" "f_business s = id_value business" "f_user s = Some (id_value actor)"
    "toStaffMember s (branch_ids_of bdb s) = Inr k" by (rule Staff_Membership_Inr [OF k(1)])
  then show thesis using that [of s] toStaffMember_Inr [OF s(4)] k(2,3) by (simp add: staff_of_def member_of_def)
qed

lemma StaffMember_row:
  assumes "Access_StaffMember business staff bdb = Inr m"
  obtains s where "staff_of bdb business s" "staff = ID (f_id s)" "me_id m = ID (f_id s)"
    "role_text (me_role m) = f_role s" "me_branches m = map ID (branch_ids_of bdb s)"
proof -
  obtain ms k where k: "Staff_List bdb business = Inr ms" "k \<in> set ms" "st_id k = staff" "st_active k" "m = member_of k"
    using assms by (auto simp: Access_StaffMember_def split: sum.splits option.splits dest!: find_first_Some)
  obtain s where s: "s \<in> set (bd_staff bdb)" "f_business s = id_value business" "toStaffMember s (branch_ids_of bdb s) = Inr k"
    by (rule Staff_List_Inr [OF k(1,2)])
  then show thesis using that [of s] toStaffMember_Inr [OF s(3)] k(3-5) by (simp add: staff_of_def member_of_def)
qed

text \<open>Access to a branch is access of an active member who works there and whose role is high enough.\<close>

lemma Access_Branch_row:
  assumes "Access_Branch actor business branch need bdb = None"
  obtains s h role where "staff_of bdb business s" "f_user s = Some (id_value actor)" "works_in bdb s branch"
    "role_text role = f_role s" "rank need \<le> rank role"
    "h \<in> set (bd_branches bdb)" "h_business h = id_value business" "h_id h = id_value branch"
proof -
  obtain k b where k: "authorize bdb actor business need = Inr k" "Branches_ByID bdb business branch = Inr b"
    "AuthorizeBranch k need branch = None" using assms by (auto simp: Access_Branch_def split: sum.splits)
  have m: "Staff_Membership bdb business actor = Inr k" "st_active k" "rank need \<le> rank (st_role k)"
    using k(1) by (auto simp: authorize_def Authorize_def split: sum.splits if_splits option.splits)
  obtain s where s: "s \<in> set (bd_staff bdb)" "f_business s = id_value business" "f_user s = Some (id_value actor)"
    "toStaffMember s (branch_ids_of bdb s) = Inr k" by (rule Staff_Membership_Inr [OF m(1)])
  obtain h where h: "h \<in> set (bd_branches bdb)" "h_business h = id_value business" "h_id h = id_value branch"
    using k(2) by (auto simp: Branches_ByID_def branch_by_id_def split: option.splits dest!: find_first_Some)
  have "works_in bdb s branch" using k(3) by (auto simp: AuthorizeBranch_def WorksAt_row [OF s(4)] split: option.splits if_splits)
  then show thesis using that [of s "st_role k" h] s h m toStaffMember_Inr(2,3) [OF s(4)] by (simp add: staff_of_def)
qed

section \<open>Schedules and the shop's staff\<close>

lemma business_access_branch:
  "acc_branch (business_access load bdb) actor business branch need = None \<longleftrightarrow>
     Access_Branch actor business branch (if need = NeedManager then Business.RoleManager else Business.RoleBarber) bdb = None"
  by (simp add: business_access_def access_branch_def Module_AuthorizeBranch_def del: role_text.simps)

lemma business_access_memberOf:
  assumes "acc_memberOf (business_access load bdb) actor business = Inr me"
  obtains m where "MemberOf actor business bdb = Inr m" "me = toMember (toStaffInfo m)"
  using assms that by (auto simp: business_access_def translated_def Module_MemberOf_def split: sum.splits)

lemma business_access_staffMember:
  assumes "acc_staffMember (business_access load bdb) business staff = Inr t"
  obtains m where "Access_StaffMember business staff bdb = Inr m" "t = toMember (toStaffInfo m)"
  using assms that by (auto simp: business_access_def translated_def Module_StaffMember_def split: sum.splits)

lemma toMember_fields:
  "sm_id (toMember (toStaffInfo m)) = me_id m" "sm_owner (toMember (toStaffInfo m)) \<longleftrightarrow> role_text (me_role m) = ''owner''"
  "sm_branches (toMember (toStaffInfo m)) = me_branches m"
  by (simp_all add: toMember_def toStaffInfo_def)

lemma one_membership:
  assumes "tenants_ok ports bdb" "staff_of bdb business s" "staff_of bdb business t" "f_user s = f_user t"
  shows "s = t"
  using owners_okD(1,5) [OF tenants_okD(2) [OF assms(1)]] assms(2-) row_by_id unfolding staff_of_def by metis

text \<open>C30: With business as scheduling's provider of access, over every run of business: a schedule is changed only by
  an active member of the shop who works at the branch, only for an active member who works there too, and
  only when they are the same person or the one who changes it is the owner or a manager at that branch.\<close>

theorem schedules_changed_only_by_their_shop:
  assumes "(any_step ports)\<^sup>*\<^sup>* empty_business_db bdb"
    and "snd (SetSchedule (business_access load bdb) visit sdb now cmd) \<noteq> sdb"
  shows "\<exists>a t h. staff_of bdb (br_business cmd) a \<and> f_user a = Some (id_value (br_actor cmd)) \<and> works_in bdb a (br_branch cmd)
    \<and> staff_of bdb (br_business cmd) t \<and> f_id t = id_value (sf_staff cmd) \<and> works_in bdb t (br_branch cmd)
    \<and> h \<in> set (bd_branches bdb) \<and> h_business h = id_value (br_business cmd) \<and> h_id h = id_value (br_branch cmd)
    \<and> (a = t \<or> f_role a = ''owner'' \<or> f_role a = ''manager'')"
proof -
  let ?acc = "business_access load bdb"
  have ok: "tenants_ok ports bdb" by (rule tenants_kept.steps_inv [OF assms(1) tenants_ok_empty])
  have w: "canWrite ?acc cmd = None" using assms(2) by (auto simp: SetSchedule_def split: option.splits)
  then have b: "acc_branch ?acc (br_actor cmd) (br_business cmd) (br_branch cmd) NeedBarber = None"
    by (auto simp: canWrite_def canRead_def split: option.splits)
  obtain t' where t': "acc_staffMember ?acc (br_business cmd) (sf_staff cmd) = Inr t'" "ScheduleApp.WorksAt t' (br_branch cmd)"
    using w by (auto simp: canWrite_def canRead_def split: option.splits sum.splits if_splits)
  obtain me where me: "acc_memberOf ?acc (br_actor cmd) (br_business cmd) = Inr me"
    "sm_id me = sf_staff cmd \<or> acc_branch ?acc (br_actor cmd) (br_business cmd) (br_branch cmd) NeedManager = None"
    using w by (auto simp: canWrite_def split: option.splits sum.splits if_splits)
  obtain m where m: "Access_StaffMember (br_business cmd) (sf_staff cmd) bdb = Inr m" "t' = toMember (toStaffInfo m)"
    by (rule business_access_staffMember [OF t'(1)])
  obtain t where t: "staff_of bdb (br_business cmd) t" "sf_staff cmd = ID (f_id t)" "me_id m = ID (f_id t)"
    "role_text (me_role m) = f_role t" "me_branches m = map ID (branch_ids_of bdb t)" by (rule StaffMember_row [OF m(1)])
  have wt: "works_in bdb t (br_branch cmd)" using t'(2) t(4,5) unfolding ScheduleApp.WorksAt_def m(2) toMember_fields works_in_def
    by (cases "br_branch cmd") auto
  obtain a h role where a: "staff_of bdb (br_business cmd) a" "f_user a = Some (id_value (br_actor cmd))" "works_in bdb a (br_branch cmd)"
    and h: "h \<in> set (bd_branches bdb)" "h_business h = id_value (br_business cmd)" "h_id h = id_value (br_branch cmd)"
    by (rule Access_Branch_row [OF b [unfolded business_access_branch]])
  from me(2) have "a = t \<or> f_role a = ''owner'' \<or> f_role a = ''manager''"
  proof (elim disjE)
    assume 1: "sm_id me = sf_staff cmd"
    obtain k where k: "MemberOf (br_actor cmd) (br_business cmd) bdb = Inr k" "me = toMember (toStaffInfo k)"
      by (rule business_access_memberOf [OF me(1)])
    obtain s where s: "staff_of bdb (br_business cmd) s" "f_user s = Some (id_value (br_actor cmd))" "me_id k = ID (f_id s)"
      by (rule MemberOf_row [OF k(1)])
    have "s = a" using one_membership [OF ok s(1) a(1)] s(2) a(2) by simp
    moreover have "f_id s = f_id t" using 1 k(2) s(3) t(2) by (simp add: toMember_fields)
    ultimately show ?thesis using row_by_id [OF owners_okD(1) [OF tenants_okD(2) [OF ok]]] a(1) t(1) unfolding staff_of_def by blast
  next
    assume 2: "acc_branch ?acc (br_actor cmd) (br_business cmd) (br_branch cmd) NeedManager = None"
    obtain s h' role' where s: "staff_of bdb (br_business cmd) s" "f_user s = Some (id_value (br_actor cmd))"
      "role_text role' = f_role s" "rank Business.RoleManager \<le> rank role'"
      by (rule Access_Branch_row [OF 2 [unfolded business_access_branch if_P [OF refl]]])
    have "s = a" using one_membership [OF ok s(1) a(1)] s(2) a(2) by simp
    then show ?thesis using s(3,4) by (cases role') auto
  qed
  then show ?thesis using a t(1,2) wt h by (metis id.sel)
qed

theorem schedules_changed_only_by_their_shop_witness:
  "\<exists>t. staff_of with_barber (ID 10) t \<and> f_id t = 60 \<and> works_in with_barber t (ID 30)"
proof -
  let ?cmd = "sample_set\<lparr>br_actor := ID 7, br_business := ID 10, br_branch := ID 30, sf_staff := ID 60\<rparr>"
  let ?r = "snd (SetSchedule (business_access (px_zones TenantFacts.sample_ports) with_barber) sample_visit empty_sd 0 ?cmd)"
  have "length (sd_hours ?r) \<noteq> length (sd_hours empty_sd)" by code_simp
  then have "?r \<noteq> empty_sd" by auto
  from schedules_changed_only_by_their_shop [OF sample_reached this] show ?thesis by auto
qed

end
