(* ===== verification/Catalog.thy ===== *)
theory Catalog
  imports Shared GoTime "HOL-Library.Product_Lexorder"
begin

text \<open>
  \<open>internal/catalog/domain\<close> and \<open>internal/catalog/adapters/postgres\<close>: the services a branch sells and who
  performs them, and the tables they are kept in (migrations 00012 and 00013, statements of
  \<open>queries.sql\<close>). A service and its offerings are one aggregate under one version; every change replaces
  the offerings and hands its event to the outbox in the same transaction. The text of an identifier,
  by which offerings are ordered, is a parameter: UUIDs come from a third-party package.
\<close>

section \<open>Errors\<close>

text \<open>\<open>Invalid\<close> carries an error of the shared values, \<open>Fault\<close> stands for an error of the database.\<close>

datatype catalog_error =
    ErrNotFound | ErrForbidden | ErrVersionConflict
  | ErrUnknownCategory | ErrNameTooLong | ErrTextTooLong | ErrInvalidDuration | ErrInvalidPrice | ErrInvalidSort
  | ErrUnknownStaff | ErrDuplicateOffering | ErrTooManyOfferings
  | Invalid shared_error | Fault

section \<open>Services\<close>

definition MaxNameLen :: int where "MaxNameLen = 80"
definition MaxDescriptionLen :: int where "MaxDescriptionLen = 500"
definition MinDuration :: duration where "MinDuration = 5 * minute"
definition MaxDuration :: duration where "MaxDuration = 8 * hour"
definition DurationStep :: duration where "DurationStep = 5 * minute"
definition MaxPriceHalalas :: int where "MaxPriceHalalas = 10000000"
definition MaxSortOrder :: int where "MaxSortOrder = 1000"
definition MaxOfferings :: nat where "MaxOfferings = 100"

definition ParseCategoryCode :: "string \<Rightarrow> (catalog_error, string) result" where
  "ParseCategoryCode code = (case ParseCategory code of Inl _ \<Rightarrow> Inl ErrUnknownCategory | Inr _ \<Rightarrow> Inr code)"

record Description =
  ds_ar :: string
  ds_en :: string

record ServiceDetails =
  dt_category :: string
  dt_name :: LocalizedText
  dt_description :: Description
  dt_duration :: duration
  dt_price :: Money
  dt_sortOrder :: int

definition validDuration :: "duration \<Rightarrow> bool" where
  "validDuration d \<longleftrightarrow> MinDuration \<le> d \<and> d \<le> MaxDuration \<and> go_mod d DurationStep = 0"

definition validPrice :: "Money \<Rightarrow> bool" where
  "validPrice p \<longleftrightarrow> m_currency p = SAR \<and> \<not> Money_IsNegative p \<and> sint (m_amount p) \<le> MaxPriceHalalas"

definition check_details :: "ServiceDetails \<Rightarrow> (catalog_error, ServiceDetails) result" where
  "check_details d =
     (case ParseCategoryCode (dt_category d) of Inl e \<Rightarrow> Inl e
      | Inr _ \<Rightarrow>
          if MaxNameLen < rune_count (lt_ar (dt_name d)) \<or> MaxNameLen < rune_count (lt_en (dt_name d)) then Inl ErrNameTooLong
          else
            let desc = \<lparr>ds_ar = trim_space (ds_ar (dt_description d)), ds_en = trim_space (ds_en (dt_description d))\<rparr> in
            if MaxDescriptionLen < rune_count (ds_ar desc) \<or> MaxDescriptionLen < rune_count (ds_en desc) then Inl ErrTextTooLong
            else if \<not> validDuration (dt_duration d) then Inl ErrInvalidDuration
            else if \<not> validPrice (dt_price d) then Inl ErrInvalidPrice
            else if dt_sortOrder d < 0 \<or> MaxSortOrder < dt_sortOrder d then Inl ErrInvalidSort
            else Inr (d\<lparr>dt_description := desc\<rparr>))"

section \<open>Offerings\<close>

record Offering =
  oo_staff :: StaffID
  oo_price :: "Money option"
  oo_duration :: "duration option"

definition PriceOr :: "Offering \<Rightarrow> Money \<Rightarrow> Money" where
  "PriceOr o' service = (case oo_price o' of Some p \<Rightarrow> p | None \<Rightarrow> service)"

definition DurationOr :: "Offering \<Rightarrow> duration \<Rightarrow> duration" where
  "DurationOr o' service = (case oo_duration o' of Some d \<Rightarrow> d | None \<Rightarrow> service)"

text \<open>The loop of \<open>checkOfferings\<close>; the first argument is the staff member listed just before.\<close>

fun check_each_offering :: "StaffID option \<Rightarrow> Offering list \<Rightarrow> catalog_error option" where
  "check_each_offering before [] = None"
| "check_each_offering before (o' # os) =
     (if ID_IsZero (oo_staff o') then Some ErrUnknownStaff
      else if before = Some (oo_staff o') then Some ErrDuplicateOffering
      else if (case oo_duration o' of None \<Rightarrow> False | Some d \<Rightarrow> \<not> validDuration d) then Some ErrInvalidDuration
      else if (case oo_price o' of None \<Rightarrow> False | Some p \<Rightarrow> \<not> validPrice p) then Some ErrInvalidPrice
      else check_each_offering (Some (oo_staff o')) os)"

definition checkOfferings :: "(uuid \<Rightarrow> string) \<Rightarrow> Offering list \<Rightarrow> (catalog_error, Offering list) result" where
  "checkOfferings idText offerings =
     (if MaxOfferings < length offerings then Inl ErrTooManyOfferings
      else
        let out = sort_key (\<lambda>o'. idText (id_value (oo_staff o'))) offerings in
        case check_each_offering None out of Some e \<Rightarrow> Inl e | None \<Rightarrow> Inr out)"

section \<open>The aggregate and its events\<close>

record ServiceSnapshot =
  sn_version :: int
  sn_active :: bool
  sn_details :: ServiceDetails
  sn_offerings :: "Offering list"

text \<open>The least of the performers' prices; \<open>None\<close> while nobody performs the service.\<close>

definition PriceFrom :: "ServiceSnapshot \<Rightarrow> Money option" where
  "PriceFrom s =
     (case sn_offerings s of [] \<Rightarrow> None
      | o' # os \<Rightarrow> Some (foldl (\<lambda>least o'. let p = PriceOr o' (dt_price (sn_details s)) in
                                  if sint (m_amount p) < sint (m_amount least) then p else least)
                         (PriceOr o' (dt_price (sn_details s))) os))"

datatype ServiceEvent =
    ServiceCreatedEvent BusinessID BranchID ServiceID gotime ServiceSnapshot
  | ServiceUpdatedEvent BusinessID BranchID ServiceID gotime ServiceSnapshot

record Service =
  sv_id :: ServiceID
  sv_business :: BusinessID
  sv_branch :: BranchID
  sv_details :: ServiceDetails
  sv_offerings :: "Offering list"
  sv_active :: bool
  sv_version :: int
  sv_createdAt :: gotime
  sv_updatedAt :: gotime
  sv_events :: "ServiceEvent list"

definition Service_snapshot :: "Service \<Rightarrow> ServiceSnapshot" where
  "Service_snapshot s = \<lparr>sn_version = sv_version s, sn_active = sv_active s, sn_details = sv_details s, sn_offerings = sv_offerings s\<rparr>"

definition NewService ::
  "ServiceID \<Rightarrow> BusinessID \<Rightarrow> BranchID \<Rightarrow> ServiceDetails \<Rightarrow> gotime \<Rightarrow> (catalog_error, Service) result" where
  "NewService i business branch d now =
     (case check_details d of Inl e \<Rightarrow> Inl e
      | Inr d \<Rightarrow>
          let now = db_time now;
              s = \<lparr>sv_id = i, sv_business = business, sv_branch = branch, sv_details = d, sv_offerings = [], sv_active = True,
                    sv_version = 1, sv_createdAt = now, sv_updatedAt = now, sv_events = []\<rparr>
          in Inr (s\<lparr>sv_events := [ServiceCreatedEvent business branch i now (Service_snapshot s)]\<rparr>))"

definition Service_touch :: "Service \<Rightarrow> gotime \<Rightarrow> Service" where
  "Service_touch s now =
     (let s = s\<lparr>sv_version := sv_version s + 1, sv_updatedAt := db_time now\<rparr> in
      s\<lparr>sv_events := sv_events s @ [ServiceUpdatedEvent (sv_business s) (sv_branch s) (sv_id s) (sv_updatedAt s) (Service_snapshot s)]\<rparr>)"

definition Service_Edit :: "Service \<Rightarrow> ServiceDetails \<Rightarrow> bool \<Rightarrow> gotime \<Rightarrow> (catalog_error, Service) result" where
  "Service_Edit s d active now =
     (case check_details d of Inl e \<Rightarrow> Inl e
      | Inr d \<Rightarrow> Inr (Service_touch (s\<lparr>sv_details := d, sv_active := active\<rparr>) now))"

definition Service_SetOfferings ::
  "(uuid \<Rightarrow> string) \<Rightarrow> Service \<Rightarrow> Offering list \<Rightarrow> gotime \<Rightarrow> (catalog_error, Service) result" where
  "Service_SetOfferings idText s offerings now =
     (case checkOfferings idText offerings of Inl e \<Rightarrow> Inl e
      | Inr checked \<Rightarrow> Inr (Service_touch (s\<lparr>sv_offerings := checked\<rparr>) now))"

definition RehydrateService ::
  "ServiceID \<Rightarrow> BusinessID \<Rightarrow> BranchID \<Rightarrow> ServiceDetails \<Rightarrow> Offering list \<Rightarrow> bool \<Rightarrow> int \<Rightarrow> gotime \<Rightarrow> gotime \<Rightarrow> Service" where
  "RehydrateService i business branch d offerings active version createdAt updatedAt =
     \<lparr>sv_id = i, sv_business = business, sv_branch = branch, sv_details = d, sv_offerings = offerings, sv_active = active,
       sv_version = version, sv_createdAt = createdAt, sv_updatedAt = updatedAt, sv_events = []\<rparr>"

section \<open>Tables\<close>

record service_row =
  x_id :: uuid
  x_business :: uuid
  x_branch :: uuid
  x_category :: string
  x_name_ar :: string
  x_name_en :: string
  x_description_ar :: string
  x_description_en :: string
  x_minutes :: int
  x_price_amount :: int64
  x_price_currency :: Currency
  x_active :: bool
  x_sort_order :: int
  x_version :: int
  x_created_at :: gotime
  x_updated_at :: gotime

record offering_row =
  y_business :: uuid
  y_service :: uuid
  y_staff :: uuid
  y_price_amount :: "int64 option"
  y_price_currency :: "Currency option"
  y_minutes :: "int option"

record catalog_db =
  cd_services :: "service_row list"
  cd_offerings :: "offering_row list"
  cd_outbox :: "ServiceEvent list"

definition empty_catalog :: catalog_db where
  "empty_catalog = \<lparr>cd_services = [], cd_offerings = [], cd_outbox = []\<rparr>"

definition minutes_ok :: "int \<Rightarrow> bool" where
  "minutes_ok m \<longleftrightarrow> 5 \<le> m \<and> m \<le> 480 \<and> m mod 5 = 0"

definition amount_ok :: "int64 \<Rightarrow> bool" where
  "amount_ok a \<longleftrightarrow> 0 \<le> sint a \<and> sint a \<le> 10000000"

text \<open>The CHECK constraints of the two tables.\<close>

definition service_ok :: "service_row \<Rightarrow> bool" where
  "service_ok r \<longleftrightarrow>
     x_category r \<in> set [''haircut'', ''beard'', ''shave'', ''kids'', ''skincare'', ''colour'', ''packages'']
     \<and> x_name_ar r \<noteq> [] \<and> rune_count (x_name_ar r) \<le> 80 \<and> rune_count (x_name_en r) \<le> 80
     \<and> rune_count (x_description_ar r) \<le> 500 \<and> rune_count (x_description_en r) \<le> 500
     \<and> minutes_ok (x_minutes r) \<and> amount_ok (x_price_amount r) \<and> x_price_currency r = ''SAR''
     \<and> 0 \<le> x_sort_order r \<and> x_sort_order r \<le> 1000 \<and> 0 < x_version r"

definition offering_ok :: "offering_row \<Rightarrow> bool" where
  "offering_ok r \<longleftrightarrow>
     (case y_price_amount r of None \<Rightarrow> True | Some a \<Rightarrow> amount_ok a)
     \<and> (case y_price_currency r of None \<Rightarrow> True | Some c \<Rightarrow> c = ''SAR'')
     \<and> (case y_minutes r of None \<Rightarrow> True | Some m \<Rightarrow> minutes_ok m)
     \<and> (y_price_amount r = None \<longleftrightarrow> y_price_currency r = None)"

section \<open>Conversions\<close>

definition cat_toInt32 :: "int \<Rightarrow> (catalog_error, int) result" where
  "cat_toInt32 n = (if n < 0 \<or> 2147483647 < n then Inl Fault else Inr n)"

definition cat_toInt16 :: "int \<Rightarrow> (catalog_error, int) result" where
  "cat_toInt16 n = (if n < 0 \<or> 32767 < n then Inl Fault else Inr n)"

definition toRow :: "Service \<Rightarrow> (catalog_error, service_row) result" where
  "toRow s =
     (let d = sv_details s in
      case cat_toInt16 (go_div (dt_duration d) minute) of Inl e \<Rightarrow> Inl e
      | Inr minutes \<Rightarrow>
      (case cat_toInt16 (dt_sortOrder d) of Inl e \<Rightarrow> Inl e
      | Inr order \<Rightarrow>
      (case cat_toInt32 (sv_version s) of Inl e \<Rightarrow> Inl e
      | Inr version \<Rightarrow>
          Inr \<lparr>x_id = id_value (sv_id s), x_business = id_value (sv_business s), x_branch = id_value (sv_branch s),
            x_category = dt_category d, x_name_ar = lt_ar (dt_name d), x_name_en = lt_en (dt_name d),
            x_description_ar = ds_ar (dt_description d), x_description_en = ds_en (dt_description d),
            x_minutes = minutes, x_price_amount = m_amount (dt_price d), x_price_currency = m_currency (dt_price d),
            x_active = sv_active s, x_sort_order = order, x_version = version,
            x_created_at = db_time (sv_createdAt s), x_updated_at = db_time (sv_updatedAt s)\<rparr>)))"

definition toOffering :: "offering_row \<Rightarrow> (catalog_error, Offering) result" where
  "toOffering row =
     (let o' = \<lparr>oo_staff = IDFromUUID (y_staff row), oo_price = None,
                 oo_duration = map_option (\<lambda>m. m * minute) (y_minutes row)\<rparr>
      in case y_price_amount row of None \<Rightarrow> Inr o'
      | Some a \<Rightarrow>
          (case NewMoney a (case y_price_currency row of None \<Rightarrow> [] | Some c \<Rightarrow> c) of Inl _ \<Rightarrow> Inl Fault
           | Inr p \<Rightarrow> Inr (o'\<lparr>oo_price := Some p\<rparr>)))"

definition toService :: "service_row \<Rightarrow> Offering list \<Rightarrow> (catalog_error, Service) result" where
  "toService row offerings =
     (case NewLocalizedText (x_name_ar row) (x_name_en row) of Inl _ \<Rightarrow> Inl Fault
      | Inr name \<Rightarrow>
      (case NewMoney (x_price_amount row) (x_price_currency row) of Inl _ \<Rightarrow> Inl Fault
      | Inr price \<Rightarrow>
          Inr (RehydrateService (IDFromUUID (x_id row)) (IDFromUUID (x_business row)) (IDFromUUID (x_branch row))
                 \<lparr>dt_category = x_category row, dt_name = name,
                   dt_description = \<lparr>ds_ar = x_description_ar row, ds_en = x_description_en row\<rparr>,
                   dt_duration = x_minutes row * minute, dt_price = price, dt_sortOrder = x_sort_order row\<rparr>
                 offerings (x_active row) (x_version row) (x_created_at row) (x_updated_at row))))"

section \<open>Statements and transactions\<close>

definition InsertService :: "catalog_db \<Rightarrow> service_row \<Rightarrow> (catalog_error, catalog_db) result" where
  "InsertService db row =
     (if \<not> service_ok row \<or> list_ex (\<lambda>r. x_id r = x_id row) (cd_services db) then Inl Fault
      else Inr (db\<lparr>cd_services := cd_services db @ [row]\<rparr>))"

definition Services_Add :: "catalog_db \<Rightarrow> Service \<Rightarrow> (catalog_error, unit) result \<times> catalog_db" where
  "Services_Add db s =
     (case toRow s of Inl e \<Rightarrow> (Inl e, db)
      | Inr row \<Rightarrow>
          commit db (case InsertService db row of Inl e \<Rightarrow> Inl e
            | Inr db' \<Rightarrow> Inr ((), db'\<lparr>cd_outbox := cd_outbox db' @ sv_events s\<rparr>)))"

text \<open>\<open>ServicesByBranch\<close> and \<open>OfferingsByBranch\<close>.\<close>

definition services_by_branch :: "catalog_db \<Rightarrow> BusinessID \<Rightarrow> BranchID \<Rightarrow> service_row list" where
  "services_by_branch db business branch =
     sort_key (\<lambda>r. (x_sort_order r, x_created_at r, x_id r))
       (filter (\<lambda>r. x_business r = id_value business \<and> x_branch r = id_value branch) (cd_services db))"

definition offerings_by_branch :: "catalog_db \<Rightarrow> BusinessID \<Rightarrow> BranchID \<Rightarrow> offering_row list" where
  "offerings_by_branch db business branch =
     sort_key (\<lambda>y. (y_service y, y_staff y))
       (filter (\<lambda>y. list_ex (\<lambda>r. x_business r = y_business y \<and> x_id r = y_service y \<and> x_business r = id_value business
            \<and> x_branch r = id_value branch) (cd_services db)) (cd_offerings db))"

definition Services_List :: "catalog_db \<Rightarrow> BusinessID \<Rightarrow> BranchID \<Rightarrow> (catalog_error, Service list) result" where
  "Services_List db business branch =
     (case each (\<lambda>y. case toOffering y of Inl e \<Rightarrow> Inl e | Inr o' \<Rightarrow> Inr (y_service y, o')) (offerings_by_branch db business branch) of
        Inl e \<Rightarrow> Inl e
      | Inr offs \<Rightarrow>
          each (\<lambda>row. toService row (map snd (filter (\<lambda>(i, _). i = x_id row) offs))) (services_by_branch db business branch))"

definition offerings_by_service :: "catalog_db \<Rightarrow> BusinessID \<Rightarrow> ServiceID \<Rightarrow> offering_row list" where
  "offerings_by_service db business i =
     sort_key y_staff (filter (\<lambda>y. y_business y = id_value business \<and> y_service y = id_value i) (cd_offerings db))"

text \<open>The columns \<open>UpdateService\<close> sets: all but the ids and the creation time.\<close>

definition updated_service :: "service_row \<Rightarrow> service_row \<Rightarrow> service_row" where
  "updated_service r next' =
     next'\<lparr>x_id := x_id r, x_business := x_business r, x_branch := x_branch r, x_created_at := x_created_at r\<rparr>"

definition UpdateService_stmt ::
  "catalog_db \<Rightarrow> BusinessID \<Rightarrow> BranchID \<Rightarrow> service_row \<Rightarrow> int \<Rightarrow> (catalog_error, nat \<times> catalog_db) result" where
  "UpdateService_stmt db business branch next' expected =
     (let hit = (\<lambda>r. x_business r = id_value business \<and> x_branch r = id_value branch \<and> x_id r = x_id next' \<and> x_version r = expected) in
      if list_ex hit (cd_services db) \<and> \<not> service_ok next' then Inl Fault
      else Inr (length (filter hit (cd_services db)),
             db\<lparr>cd_services := map (\<lambda>r. if hit r then updated_service r next' else r) (cd_services db)\<rparr>))"

definition InsertOffering :: "catalog_db \<Rightarrow> offering_row \<Rightarrow> (catalog_error, catalog_db) result" where
  "InsertOffering db row =
     (if \<not> offering_ok row \<or> list_ex (\<lambda>y. y_service y = y_service row \<and> y_staff y = y_staff row) (cd_offerings db)
         \<or> \<not> list_ex (\<lambda>r. x_business r = y_business row \<and> x_id r = y_service row) (cd_services db) then Inl Fault
      else Inr (db\<lparr>cd_offerings := cd_offerings db @ [row]\<rparr>))"

definition offering_row_of :: "uuid \<Rightarrow> uuid \<Rightarrow> Offering \<Rightarrow> (catalog_error, offering_row) result" where
  "offering_row_of business service o' =
     (let row = \<lparr>y_business = business, y_service = service, y_staff = id_value (oo_staff o'),
                  y_price_amount = map_option m_amount (oo_price o'), y_price_currency = map_option m_currency (oo_price o'), y_minutes = None\<rparr>
      in case oo_duration o' of None \<Rightarrow> Inr row
      | Some d \<Rightarrow> (case cat_toInt16 (go_div d minute) of Inl e \<Rightarrow> Inl e | Inr m \<Rightarrow> Inr (row\<lparr>y_minutes := Some m\<rparr>)))"

definition DeleteOfferings :: "catalog_db \<Rightarrow> uuid \<Rightarrow> uuid \<Rightarrow> catalog_db" where
  "DeleteOfferings db business service =
     db\<lparr>cd_offerings := filter (\<lambda>y. \<not> (y_business y = business \<and> y_service y = service)) (cd_offerings db)\<rparr>"

definition saveOfferings :: "catalog_db \<Rightarrow> Service \<Rightarrow> (catalog_error, catalog_db) result" where
  "saveOfferings db s =
     (let business = id_value (sv_business s); service = id_value (sv_id s) in
      fold_result (\<lambda>db o'. case offering_row_of business service o' of Inl e \<Rightarrow> Inl e | Inr row \<Rightarrow> InsertOffering db row)
        (DeleteOfferings db business service) (sv_offerings s))"

definition update_service_tx ::
  "catalog_db \<Rightarrow> BusinessID \<Rightarrow> BranchID \<Rightarrow> ServiceID \<Rightarrow> int \<Rightarrow> (Service \<Rightarrow> (catalog_error, Service) result)
   \<Rightarrow> (catalog_error, Service \<times> catalog_db) result" where
  "update_service_tx db business branch i expected fn =
     (case find_first (\<lambda>r. x_business r = id_value business \<and> x_branch r = id_value branch \<and> x_id r = id_value i) (cd_services db) of
        None \<Rightarrow> Inl ErrNotFound
      | Some row \<Rightarrow>
          if x_version row \<noteq> expected then Inl ErrVersionConflict
          else case each toOffering (offerings_by_service db business i) of Inl e \<Rightarrow> Inl e
          | Inr offerings \<Rightarrow>
          (case toService row offerings of Inl e \<Rightarrow> Inl e
          | Inr s \<Rightarrow>
          (case fn s of Inl e \<Rightarrow> Inl e
          | Inr s \<Rightarrow>
          (case toRow s of Inl e \<Rightarrow> Inl e
          | Inr next' \<Rightarrow>
          (case UpdateService_stmt db business branch next' (x_version row) of Inl e \<Rightarrow> Inl e
          | Inr (n, db1) \<Rightarrow>
              if n = 0 then Inl ErrVersionConflict
              else case saveOfferings db1 s of Inl e \<Rightarrow> Inl e
              | Inr db2 \<Rightarrow> Inr (s, db2\<lparr>cd_outbox := cd_outbox db2 @ sv_events s\<rparr>))))))"

definition Services_Update ::
  "catalog_db \<Rightarrow> BusinessID \<Rightarrow> BranchID \<Rightarrow> ServiceID \<Rightarrow> int \<Rightarrow> (Service \<Rightarrow> (catalog_error, Service) result)
   \<Rightarrow> (catalog_error, Service) result \<times> catalog_db" where
  "Services_Update db business branch i expected fn =
     (if expected < 1 \<or> 2147483647 < expected then (Inl ErrVersionConflict, db)
      else commit db (update_service_tx db business branch i expected fn))"

end
