(* ===== verification/CatalogApp.thy ===== *)
theory CatalogApp
  imports Catalog
begin

text \<open>
  \<open>internal/catalog/app/app.go\<close>, the contract of catalog's events (\<open>serviceContract\<close> of
  \<open>adapters/postgres/repository.go\<close>) and how other modules read them (\<open>decodeServiceChanged\<close> of
  \<open>module.go\<close>). Who may work on a branch, and who works there, is business's answer: a record of two
  functions here, given by business in theory Shop. A payload is the record it encodes.
\<close>

section \<open>Use cases\<close>

datatype Role = RoleManager | RoleBarber

record catalog_access =
  ca_branch :: "UserID \<Rightarrow> BusinessID \<Rightarrow> BranchID \<Rightarrow> Role \<Rightarrow> catalog_error option"
  ca_staffAtBranch :: "BusinessID \<Rightarrow> BranchID \<Rightarrow> StaffID list \<Rightarrow> catalog_error option"

record MoneyInput =
  mn_amount :: int64
  mn_currency :: string

record NameInput =
  nm_ar :: string
  nm_en :: string

record CreateService =
  cr_actor :: UserID
  cr_business :: BusinessID
  cr_branch :: BranchID
  cr_category :: string
  cr_name :: NameInput
  cr_description :: Description
  cr_duration :: duration
  cr_price :: MoneyInput
  cr_sortOrder :: int

record UpdateService =
  us_actor :: UserID
  us_business :: BusinessID
  us_branch :: BranchID
  us_service :: ServiceID
  us_expectedVersion :: int
  us_category :: "string option"
  us_name :: "NameInput option"
  us_description :: "Description option"
  us_duration :: "duration option"
  us_price :: "MoneyInput option"
  us_sortOrder :: "int option"
  us_active :: "bool option"

record OfferingInput =
  oi_staff :: StaffID
  oi_price :: "MoneyInput option"
  oi_duration :: "duration option"

record SetOfferings =
  op_actor :: UserID
  op_business :: BusinessID
  op_branch :: BranchID
  op_service :: ServiceID
  op_expectedVersion :: int
  op_offerings :: "OfferingInput list"

definition money :: "MoneyInput \<Rightarrow> (catalog_error, Money) result" where
  "money m = (case NewMoney (mn_amount m) (mn_currency m) of Inl _ \<Rightarrow> Inl ErrInvalidPrice | Inr p \<Rightarrow> Inr p)"

definition details ::
  "string \<Rightarrow> NameInput \<Rightarrow> Description \<Rightarrow> duration \<Rightarrow> MoneyInput \<Rightarrow> int \<Rightarrow> (catalog_error, ServiceDetails) result" where
  "details code name desc dur price order =
     (case NewLocalizedText (nm_ar name) (nm_en name) of Inl e \<Rightarrow> Inl (Invalid e)
      | Inr label \<Rightarrow>
      (case money price of Inl e \<Rightarrow> Inl e
      | Inr p \<Rightarrow> Inr \<lparr>dt_category = code, dt_name = label, dt_description = desc, dt_duration = dur,
                      dt_price = p, dt_sortOrder = order\<rparr>))"

definition ServiceHandlers_Create ::
  "catalog_access \<Rightarrow> ServiceID \<Rightarrow> gotime \<Rightarrow> CreateService \<Rightarrow> catalog_db \<Rightarrow> (catalog_error, Service) result \<times> catalog_db" where
  "ServiceHandlers_Create acc i now cmd db =
     (case ca_branch acc (cr_actor cmd) (cr_business cmd) (cr_branch cmd) RoleManager of Some e \<Rightarrow> (Inl e, db)
      | None \<Rightarrow>
      (case details (cr_category cmd) (cr_name cmd) (cr_description cmd) (cr_duration cmd) (cr_price cmd) (cr_sortOrder cmd) of
         Inl e \<Rightarrow> (Inl e, db)
       | Inr d \<Rightarrow>
      (case NewService i (cr_business cmd) (cr_branch cmd) d now of Inl e \<Rightarrow> (Inl e, db)
       | Inr s \<Rightarrow> (case Services_Add db s of (Inl e, db') \<Rightarrow> (Inl e, db') | (Inr _, db') \<Rightarrow> (Inr s, db')))))"

definition ServiceHandlers_List ::
  "catalog_access \<Rightarrow> UserID \<Rightarrow> BusinessID \<Rightarrow> BranchID \<Rightarrow> catalog_db \<Rightarrow> (catalog_error, Service list) result" where
  "ServiceHandlers_List acc actor business branch db =
     (case ca_branch acc actor business branch RoleBarber of Some e \<Rightarrow> Inl e | None \<Rightarrow> Services_List db business branch)"

definition apply_service :: "UpdateService \<Rightarrow> Service \<Rightarrow> (catalog_error, ServiceDetails \<times> bool) result" where
  "apply_service cmd s =
     (let d = sv_details s;
          d = (case us_category cmd of None \<Rightarrow> d | Some c \<Rightarrow> d\<lparr>dt_category := c\<rparr>)
      in case (case us_name cmd of None \<Rightarrow> Inr d
               | Some n \<Rightarrow> (case NewLocalizedText (nm_ar n) (nm_en n) of Inl e \<Rightarrow> Inl (Invalid e) | Inr label \<Rightarrow> Inr (d\<lparr>dt_name := label\<rparr>))) of
        Inl e \<Rightarrow> Inl e
      | Inr d \<Rightarrow>
          let d = (case us_description cmd of None \<Rightarrow> d | Some x \<Rightarrow> d\<lparr>dt_description := x\<rparr>);
              d = (case us_duration cmd of None \<Rightarrow> d | Some x \<Rightarrow> d\<lparr>dt_duration := x\<rparr>)
          in case (case us_price cmd of None \<Rightarrow> Inr d
                   | Some m \<Rightarrow> (case money m of Inl e \<Rightarrow> Inl e | Inr p \<Rightarrow> Inr (d\<lparr>dt_price := p\<rparr>))) of
            Inl e \<Rightarrow> Inl e
          | Inr d \<Rightarrow>
              Inr (case us_sortOrder cmd of None \<Rightarrow> d | Some x \<Rightarrow> d\<lparr>dt_sortOrder := x\<rparr>,
                   case us_active cmd of None \<Rightarrow> sv_active s | Some x \<Rightarrow> x))"

definition edit_service :: "UpdateService \<Rightarrow> gotime \<Rightarrow> Service \<Rightarrow> (catalog_error, Service) result" where
  "edit_service cmd now s =
     (case apply_service cmd s of Inl e \<Rightarrow> Inl e | Inr (d, active) \<Rightarrow> Service_Edit s d active now)"

definition ServiceHandlers_Update ::
  "catalog_access \<Rightarrow> gotime \<Rightarrow> UpdateService \<Rightarrow> catalog_db \<Rightarrow> (catalog_error, Service) result \<times> catalog_db" where
  "ServiceHandlers_Update acc now cmd db =
     (case ca_branch acc (us_actor cmd) (us_business cmd) (us_branch cmd) RoleManager of Some e \<Rightarrow> (Inl e, db)
      | None \<Rightarrow> Services_Update db (us_business cmd) (us_branch cmd) (us_service cmd) (us_expectedVersion cmd) (edit_service cmd now))"

definition offering_of :: "OfferingInput \<Rightarrow> (catalog_error, Offering) result" where
  "offering_of inp =
     (let o' = \<lparr>oo_staff = oi_staff inp, oo_price = None, oo_duration = oi_duration inp\<rparr>
      in case oi_price inp of None \<Rightarrow> Inr o'
      | Some m \<Rightarrow> (case money m of Inl e \<Rightarrow> Inl e | Inr p \<Rightarrow> Inr (o'\<lparr>oo_price := Some p\<rparr>)))"

definition ServiceHandlers_SetOfferings ::
  "(uuid \<Rightarrow> string) \<Rightarrow> catalog_access \<Rightarrow> gotime \<Rightarrow> SetOfferings \<Rightarrow> catalog_db \<Rightarrow> (catalog_error, Service) result \<times> catalog_db" where
  "ServiceHandlers_SetOfferings idText acc now cmd db =
     (case ca_branch acc (op_actor cmd) (op_business cmd) (op_branch cmd) RoleManager of Some e \<Rightarrow> (Inl e, db)
      | None \<Rightarrow>
      (case each offering_of (op_offerings cmd) of Inl e \<Rightarrow> (Inl e, db)
       | Inr offerings \<Rightarrow>
           if MaxOfferings < length offerings then (Inl ErrTooManyOfferings, db)
           else case ca_staffAtBranch acc (op_business cmd) (op_branch cmd) (map oi_staff (op_offerings cmd)) of Some e \<Rightarrow> (Inl e, db)
           | None \<Rightarrow> Services_Update db (op_business cmd) (op_branch cmd) (op_service cmd) (op_expectedVersion cmd)
                       (\<lambda>s. Service_SetOfferings idText s offerings now)))"

section \<open>What other modules ask\<close>

definition PerformingStaff ::
  "(uuid \<Rightarrow> string) \<Rightarrow> catalog_db \<Rightarrow> BusinessID \<Rightarrow> BranchID \<Rightarrow> (catalog_error, StaffID list) result" where
  "PerformingStaff idText db business branch =
     (case Services_List db business branch of Inl e \<Rightarrow> Inl e
      | Inr services \<Rightarrow>
          Inr (remdups_adj (sort_key (\<lambda>i. idText (id_value i))
                 (concat (map (\<lambda>s. map oo_staff (sv_offerings s)) (filter sv_active services))))))"

record Performer =
  cp_staff :: StaffID
  cp_duration :: duration
  cp_price :: Money

record MenuItem =
  ci_id :: ServiceID
  ci_name :: LocalizedText
  ci_performers :: "Performer list"

definition menu_item :: "Service \<Rightarrow> MenuItem" where
  "menu_item s =
     (let d = sv_details s in
      \<lparr>ci_id = sv_id s, ci_name = dt_name d,
        ci_performers = map (\<lambda>o'. \<lparr>cp_staff = oo_staff o', cp_duration = DurationOr o' (dt_duration d), cp_price = PriceOr o' (dt_price d)\<rparr>)
          (sv_offerings s)\<rparr>)"

definition Menu :: "catalog_db \<Rightarrow> BusinessID \<Rightarrow> BranchID \<Rightarrow> (catalog_error, MenuItem list) result" where
  "Menu db business branch =
     (case Services_List db business branch of Inl e \<Rightarrow> Inl e | Inr services \<Rightarrow> Inr (map menu_item (filter sv_active services)))"

section \<open>Events\<close>

record ServiceContract =
  sc_version :: int
  sc_isActive :: bool
  sc_category :: string
  sc_name :: NameInput
  sc_minutes :: int
  sc_price :: MoneyInput
  sc_priceFrom :: "MoneyInput option"
  sc_sortOrder :: int

definition moneyContract :: "Money \<Rightarrow> MoneyInput" where
  "moneyContract m = \<lparr>mn_amount = m_amount m, mn_currency = m_currency m\<rparr>"

definition serviceContract :: "ServiceSnapshot \<Rightarrow> ServiceContract" where
  "serviceContract s =
     (let d = sn_details s in
      \<lparr>sc_version = sn_version s, sc_isActive = sn_active s, sc_category = dt_category d,
        sc_name = \<lparr>nm_ar = lt_ar (dt_name d), nm_en = lt_en (dt_name d)\<rparr>, sc_minutes = go_div (dt_duration d) minute,
        sc_price = moneyContract (dt_price d), sc_priceFrom = map_option moneyContract (PriceFrom s),
        sc_sortOrder = dt_sortOrder d\<rparr>)"

record ServicePayload =
  pl_business :: uuid
  pl_branch :: uuid
  pl_service :: uuid
  pl_changedAt :: gotime
  pl_contract :: ServiceContract

fun event_payload :: "ServiceEvent \<Rightarrow> string \<times> ServicePayload" where
  "event_payload (ServiceCreatedEvent business branch i at' snap) =
     (''catalog.service_created'', \<lparr>pl_business = id_value business, pl_branch = id_value branch, pl_service = id_value i,
        pl_changedAt = at', pl_contract = serviceContract snap\<rparr>)"
| "event_payload (ServiceUpdatedEvent business branch i at' snap) =
     (''catalog.service_updated'', \<lparr>pl_business = id_value business, pl_branch = id_value branch, pl_service = id_value i,
        pl_changedAt = at', pl_contract = serviceContract snap\<rparr>)"

record ServiceChanged =
  ch_business :: BusinessID
  ch_branch :: BranchID
  ch_service :: ServiceID
  ch_version :: int
  ch_offered :: bool
  ch_category :: string
  ch_name :: LocalizedText
  ch_duration :: duration
  ch_priceFrom :: Money
  ch_sortOrder :: int
  ch_at :: gotime

definition decodeServiceChanged :: "gotime \<Rightarrow> ServicePayload \<Rightarrow> ServiceChanged option" where
  "decodeServiceChanged occurredAt p =
     (let s = pl_contract p in
      if sc_version s < 1 then None
      else
        let from = (case sc_priceFrom s of None \<Rightarrow> sc_price s | Some x \<Rightarrow> x) in
        case NewMoney (mn_amount from) (mn_currency from) of Inl _ \<Rightarrow> None
        | Inr price \<Rightarrow>
        (case NewLocalizedText (nm_ar (sc_name s)) (nm_en (sc_name s)) of Inl _ \<Rightarrow> None
        | Inr name \<Rightarrow>
            Some \<lparr>ch_business = IDFromUUID (pl_business p), ch_branch = IDFromUUID (pl_branch p), ch_service = IDFromUUID (pl_service p),
              ch_version = sc_version s, ch_offered = (sc_isActive s \<and> sc_priceFrom s \<noteq> None), ch_category = sc_category s,
              ch_name = name, ch_duration = sc_minutes s * minute, ch_priceFrom = price, ch_sortOrder = sc_sortOrder s,
              ch_at = occurredAt\<rparr>))"

end
