(* ===== verification/CatalogFacts.thy ===== *)
theory CatalogFacts
  imports CatalogApp
begin

text \<open>
  Properties of catalog: what the tables keep through every sequence of requests, what the menu is in
  terms of their rows, and what other modules are told when a service changes.
\<close>

section \<open>Requests\<close>

inductive catalog_step :: "(uuid \<Rightarrow> string) \<Rightarrow> catalog_db \<Rightarrow> catalog_db \<Rightarrow> bool" for idText where
  create: "catalog_step idText db (snd (ServiceHandlers_Create acc i now create db))"
| edit: "catalog_step idText db (snd (ServiceHandlers_Update acc now edit db))"
| offer: "catalog_step idText db (snd (ServiceHandlers_SetOfferings idText acc now offer db))"

inductive_cases catalog_stepE [elim!]: "catalog_step idText db db'"

section \<open>What the tables keep\<close>

definition readable_service :: "service_row \<Rightarrow> bool" where
  "readable_service r \<longleftrightarrow> service_ok r
     \<and> NewLocalizedText (x_name_ar r) (x_name_en r) = Inr \<lparr>lt_ar = x_name_ar r, lt_en = x_name_en r\<rparr>"

definition offerings_ok :: "(uuid \<times> uuid) set \<Rightarrow> offering_row list \<Rightarrow> bool" where
  "offerings_ok keys ys \<longleftrightarrow> distinct (map (\<lambda>y. (y_service y, y_staff y)) ys)
     \<and> (\<forall>y \<in> set ys. offering_ok y \<and> (y_business y, y_service y) \<in> keys \<and> y_staff y \<noteq> uuid_Nil)"

definition service_keys :: "catalog_db \<Rightarrow> (uuid \<times> uuid) set" where
  "service_keys db = (\<lambda>r. (x_business r, x_id r)) ` set (cd_services db)"

definition catalog_ok :: "catalog_db \<Rightarrow> bool" where
  "catalog_ok db \<longleftrightarrow> distinct (map x_id (cd_services db)) \<and> (\<forall>r \<in> set (cd_services db). readable_service r)
     \<and> offerings_ok (service_keys db) (cd_offerings db)"

lemma catalog_ok_empty: "catalog_ok empty_catalog"
  by (simp add: catalog_ok_def empty_catalog_def offerings_ok_def)

lemma catalog_ok_outbox [simp]: "catalog_ok (db\<lparr>cd_outbox := evs\<rparr>) = catalog_ok db"
  by (simp add: catalog_ok_def service_keys_def)

text \<open>An aggregate that can be stored and read again.\<close>

definition sound_service :: "Service \<Rightarrow> bool" where
  "sound_service s \<longleftrightarrow> NewLocalizedText (lt_ar (dt_name (sv_details s))) (lt_en (dt_name (sv_details s))) = Inr (dt_name (sv_details s))
     \<and> (\<forall>o' \<in> set (sv_offerings s). \<not> ID_IsZero (oo_staff o'))"

lemma toOffering_staff: "toOffering y = Inr o' \<Longrightarrow> oo_staff o' = ID (y_staff y)"
  by (auto simp: toOffering_def Let_def IDFromUUID_def split: option.splits sum.splits)

lemma toService_sound:
  assumes "toService r offs = Inr s" "\<forall>o' \<in> set offs. \<not> ID_IsZero (oo_staff o')"
  shows "sound_service s"
  using assms by (auto simp: toService_def sound_service_def RehydrateService_def dest: NewLocalizedText_reread split: sum.splits)

lemma check_details_name: "check_details d = Inr d' \<Longrightarrow> dt_name d' = dt_name d"
  by (auto simp: check_details_def Let_def split: sum.splits if_splits)

lemma check_each_offering_None:
  assumes "check_each_offering before os = None"
  shows "\<forall>o' \<in> set os. \<not> ID_IsZero (oo_staff o') \<and> (\<forall>d. oo_duration o' = Some d \<longrightarrow> validDuration d)
    \<and> (\<forall>p. oo_price o' = Some p \<longrightarrow> validPrice p)"
    "os \<noteq> [] \<Longrightarrow> before \<noteq> Some (oo_staff (hd os))" "\<forall>i. Suc i < length os \<longrightarrow> oo_staff (os ! i) \<noteq> oo_staff (os ! Suc i)"
proof -
  have "(\<forall>o' \<in> set os. \<not> ID_IsZero (oo_staff o') \<and> (\<forall>d. oo_duration o' = Some d \<longrightarrow> validDuration d)
      \<and> (\<forall>p. oo_price o' = Some p \<longrightarrow> validPrice p)) \<and> (os \<noteq> [] \<longrightarrow> before \<noteq> Some (oo_staff (hd os)))
      \<and> (\<forall>i. Suc i < length os \<longrightarrow> oo_staff (os ! i) \<noteq> oo_staff (os ! Suc i))"
    using assms
  proof (induction os arbitrary: before)
    case (Cons o' os)
    have "check_each_offering (Some (oo_staff o')) os = None" using Cons.prems by (simp split: if_splits)
    note IH = Cons.IH [OF this]
    have "oo_staff ((o' # os) ! i) \<noteq> oo_staff ((o' # os) ! Suc i)" if "Suc i < length (o' # os)" for i
      using IH that by (cases i) (auto simp: hd_conv_nth)
    then show ?case using Cons.prems IH by (auto split: if_splits option.splits)
  qed simp
  then show "\<forall>o' \<in> set os. \<not> ID_IsZero (oo_staff o') \<and> (\<forall>d. oo_duration o' = Some d \<longrightarrow> validDuration d)
    \<and> (\<forall>p. oo_price o' = Some p \<longrightarrow> validPrice p)"
    "os \<noteq> [] \<Longrightarrow> before \<noteq> Some (oo_staff (hd os))" "\<forall>i. Suc i < length os \<longrightarrow> oo_staff (os ! i) \<noteq> oo_staff (os ! Suc i)" by blast+
qed

lemma apply_service_name:
  assumes "apply_service cmd s = Inr (d, active)"
    "NewLocalizedText (lt_ar (dt_name (sv_details s))) (lt_en (dt_name (sv_details s))) = Inr (dt_name (sv_details s))"
  shows "NewLocalizedText (lt_ar (dt_name d)) (lt_en (dt_name d)) = Inr (dt_name d)"
proof -
  have "\<exists>n. dt_name d = n \<and> (n = dt_name (sv_details s) \<or> (\<exists>x. us_name cmd = Some x \<and> NewLocalizedText (nm_ar x) (nm_en x) = Inr n))"
    using assms(1) by (cases "us_name cmd"; cases "us_price cmd")
      (auto simp: apply_service_def Let_def split: option.splits sum.splits)
  then show ?thesis using assms(2) NewLocalizedText_reread by metis
qed

lemma edit_sound:
  assumes "edit_service cmd now s = Inr s'" "sound_service s"
  shows "sound_service s'"
proof -
  obtain d active d' where d: "apply_service cmd s = Inr (d, active)" "check_details d = Inr d'"
    "s' = Service_touch (s\<lparr>sv_details := d', sv_active := active\<rparr>) now"
    using assms(1) by (auto simp: edit_service_def Service_Edit_def split: sum.splits)
  have "NewLocalizedText (lt_ar (dt_name d)) (lt_en (dt_name d)) = Inr (dt_name d)"
    by (rule apply_service_name [OF d(1)]) (use assms(2) in \<open>simp add: sound_service_def\<close>)
  then show ?thesis using assms(2) check_details_name [OF d(2)] by (simp add: d(3) Service_touch_def Let_def sound_service_def)
qed

lemma offer_sound:
  assumes "Service_SetOfferings idText s offs now = Inr s'" "sound_service s"
  shows "sound_service s'"
  using assms
  by (auto simp: Service_SetOfferings_def checkOfferings_def Service_touch_def Let_def sound_service_def
      dest!: check_each_offering_None(1) split: sum.splits if_splits option.splits)

lemma catalog_okD:
  assumes "catalog_ok db"
  shows "distinct (map x_id (cd_services db))" "r \<in> set (cd_services db) \<Longrightarrow> readable_service r"
    "offerings_ok (service_keys db) (cd_offerings db)"
  using assms by (simp_all add: catalog_ok_def)

lemma toRow_Inr:
  assumes "toRow s = Inr row"
  shows "x_id row = id_value (sv_id s)" "x_business row = id_value (sv_business s)" "x_branch row = id_value (sv_branch s)"
    "x_name_ar row = lt_ar (dt_name (sv_details s))" "x_name_en row = lt_en (dt_name (sv_details s))" "x_version row = sv_version s"
  using assms by (auto simp: toRow_def Let_def cat_toInt32_def split: sum.splits if_splits)

lemma toRow_readable: "toRow s = Inr row \<Longrightarrow> sound_service s \<Longrightarrow> service_ok row \<Longrightarrow> readable_service row"
  by (simp add: readable_service_def sound_service_def toRow_Inr)

lemma catalog_ok_add:
  assumes "catalog_ok db" "sound_service s"
  shows "catalog_ok (snd (Services_Add db s))"
proof (cases "fst (Services_Add db s)")
  case (Inl e)
  then have "snd (Services_Add db s) = db" by (auto simp: Services_Add_def commit_def split: sum.splits)
  then show ?thesis using assms(1) by simp
next
  case (Inr u)
  then obtain row where row: "toRow s = Inr row" "service_ok row" "\<forall>r \<in> set (cd_services db). x_id r \<noteq> x_id row"
    "snd (Services_Add db s) = db\<lparr>cd_services := cd_services db @ [row], cd_outbox := cd_outbox db @ sv_events s\<rparr>"
    by (auto simp: Services_Add_def commit_def InsertService_def list_ex_iff split: sum.splits if_splits)
  then show ?thesis using assms toRow_readable [OF row(1) assms(2) row(2)]
    by (auto simp: catalog_ok_def service_keys_def offerings_ok_def)
qed

lemma offerings_ok_insert:
  assumes "offerings_ok (service_keys db) (cd_offerings db)" "InsertOffering db y = Inr db'" "y_staff y \<noteq> uuid_Nil"
  shows "offerings_ok (service_keys db') (cd_offerings db') \<and> cd_services db' = cd_services db"
proof -
  have "offering_ok y" "\<forall>z \<in> set (cd_offerings db). \<not> (y_service z = y_service y \<and> y_staff z = y_staff y)"
    "\<exists>r \<in> set (cd_services db). x_business r = y_business y \<and> x_id r = y_service y"
    "db' = db\<lparr>cd_offerings := cd_offerings db @ [y]\<rparr>"
    using assms(2) by (auto simp: InsertOffering_def list_ex_iff split: if_splits)
  moreover from this(3) have "(y_business y, y_service y) \<in> service_keys db" unfolding service_keys_def by force
  ultimately show ?thesis using assms(1,3) by (auto simp: offerings_ok_def service_keys_def)
qed

lemma offering_row_staff: "offering_row_of b i o' = Inr row \<Longrightarrow> y_staff row = id_value (oo_staff o')"
  by (auto simp: offering_row_of_def Let_def split: option.splits sum.splits)

lemma saveOfferings_ok:
  assumes "offerings_ok (service_keys db) (cd_offerings db)" "saveOfferings db s = Inr db'" "sound_service s"
  shows "offerings_ok (service_keys db') (cd_offerings db') \<and> cd_services db' = cd_services db"
proof -
  let ?d = "DeleteOfferings db (id_value (sv_business s)) (id_value (sv_id s))"
  have start: "offerings_ok (service_keys ?d) (cd_offerings ?d) \<and> cd_services ?d = cd_services db"
    using assms(1) by (auto simp: DeleteOfferings_def offerings_ok_def service_keys_def distinct_map_filter)
  have keep: "offerings_ok (service_keys t) (cd_offerings t) \<and> cd_services t = cd_services db"
    if h: "offerings_ok (service_keys c) (cd_offerings c) \<and> cd_services c = cd_services db" "o' \<in> set (sv_offerings s)"
      "(case offering_row_of (id_value (sv_business s)) (id_value (sv_id s)) o' of Inl e \<Rightarrow> Inl e | Inr row \<Rightarrow> InsertOffering c row) = Inr t" for c o' t
  proof -
    obtain row where row: "offering_row_of (id_value (sv_business s)) (id_value (sv_id s)) o' = Inr row" "InsertOffering c row = Inr t"
      using h(3) by (auto split: sum.splits)
    have "y_staff row \<noteq> uuid_Nil" using assms(3) h(2) offering_row_staff [OF row(1)] by (auto simp: sound_service_def ID_IsZero_def)
    then show ?thesis using offerings_ok_insert [OF _ row(2)] h(1) by auto
  qed
  show ?thesis
    by (rule fold_result_invariant [where P = "\<lambda>c. offerings_ok (service_keys c) (cd_offerings c) \<and> cd_services c = cd_services db",
        OF keep assms(2) [unfolded saveOfferings_def Let_def] start])
qed

lemma update_service_sound:
  assumes "catalog_ok db" "find_first P (cd_services db) = Some row" "each toOffering (offerings_by_service db business i) = Inr offs"
    "toService row offs = Inr s"
  shows "sound_service s"
proof (rule toService_sound [OF assms(4)], rule ballI)
  fix o' assume "o' \<in> set offs"
  then obtain y where "y \<in> set (cd_offerings db)" "toOffering y = Inr o'"
    using each_Inr [OF assms(3)] by (fastforce simp: offerings_by_service_def)
  then show "\<not> ID_IsZero (oo_staff o')"
    using catalog_okD(3) [OF assms(1)] toOffering_staff by (auto simp: offerings_ok_def ID_IsZero_def)
qed

lemma catalog_ok_update:
  assumes "catalog_ok db" "\<And>s s'. fn s = Inr s' \<Longrightarrow> sound_service s \<Longrightarrow> sound_service s'"
  shows "catalog_ok (snd (Services_Update db business branch i v fn))"
proof (cases "update_service_tx db business branch i v fn")
  case (Inl e)
  then show ?thesis using assms(1) by (simp add: Services_Update_def commit_def)
next
  case (Inr r)
  obtain t d where r: "r = (t, d)" by (cases r)
  let ?P = "\<lambda>r. x_business r = id_value business \<and> x_branch r = id_value branch \<and> x_id r = id_value i"
  obtain row offs s next' n db1 db2 where u: "find_first ?P (cd_services db) = Some row"
    "each toOffering (offerings_by_service db business i) = Inr offs" "toService row offs = Inr s" "fn s = Inr t" "toRow t = Inr next'"
    "UpdateService_stmt db business branch next' (x_version row) = Inr (n, db1)" "saveOfferings db1 t = Inr db2"
    "d = db2\<lparr>cd_outbox := cd_outbox db2 @ sv_events t\<rparr>"
    using Inr r by (auto simp: update_service_tx_def split: option.splits sum.splits if_splits)
  have t: "sound_service t" by (rule assms(2) [OF u(4) update_service_sound [OF assms(1) u(1-3)]])
  let ?hit = "\<lambda>r. x_business r = id_value business \<and> x_branch r = id_value branch \<and> x_id r = x_id next' \<and> x_version r = x_version row"
  have db1: "db1 = db\<lparr>cd_services := map (\<lambda>r. if ?hit r then updated_service r next' else r) (cd_services db)\<rparr>"
    "list_ex ?hit (cd_services db) \<longrightarrow> service_ok next'"
    using u(6) by (auto simp: UpdateService_stmt_def Let_def split: if_splits)
  have k: "x_id (if ?hit r then updated_service r next' else r) = x_id r" "x_business (if ?hit r then updated_service r next' else r) = x_business r" for r
    by (simp_all add: updated_service_def)
  have keys: "service_keys db1 = service_keys db" "map x_id (cd_services db1) = map x_id (cd_services db)"
    by (simp_all add: service_keys_def db1(1) image_image comp_def k del: if_image_distrib)
  have "readable_service q" if q: "q \<in> set (cd_services db1)" for q
  proof -
    obtain r where r: "r \<in> set (cd_services db)" "q = (if ?hit r then updated_service r next' else r)" using q by (auto simp: db1(1))
    have "readable_service (updated_service r next')" if "?hit r"
    proof -
      have "service_ok next'" using db1(2) r(1) that by (auto simp: list_ex_iff)
      then show ?thesis using toRow_readable [OF u(5) t] by (simp add: readable_service_def service_ok_def updated_service_def)
    qed
    then show ?thesis using r catalog_okD(2) [OF assms(1)] by auto
  qed
  moreover have "offerings_ok (service_keys db2) (cd_offerings db2) \<and> cd_services db2 = cd_services db1"
    by (rule saveOfferings_ok [OF _ u(7) t]) (use catalog_okD(3) [OF assms(1)] keys(1) in \<open>simp add: db1(1) service_keys_def\<close>)
  ultimately have "catalog_ok db2" using catalog_okD(1) [OF assms(1)] keys(2) by (simp add: catalog_ok_def)
  then show ?thesis using Inr r u(8) assms(1) by (simp add: Services_Update_def commit_def)
qed

lemma catalog_step_ok:
  assumes "catalog_step idText db db'" "catalog_ok db"
  shows "catalog_ok db'"
  using assms(1)
proof cases
  case (create acc i now cmd)
  show ?thesis
  proof (cases "fst (ServiceHandlers_Create acc i now cmd db)")
    case (Inl e)
    then show ?thesis using catalog_ok_add [OF assms(2)] assms(2) create
      by (auto simp: ServiceHandlers_Create_def Services_Add_def commit_def split: option.splits sum.splits prod.splits)
  next
    case (Inr s)
    then obtain d where d: "details (cr_category cmd) (cr_name cmd) (cr_description cmd) (cr_duration cmd) (cr_price cmd) (cr_sortOrder cmd) = Inr d"
      "NewService i (cr_business cmd) (cr_branch cmd) d now = Inr s" "db' = snd (Services_Add db s)"
      using create by (auto simp: ServiceHandlers_Create_def split: option.splits sum.splits prod.splits)
    have "NewLocalizedText (lt_ar (dt_name d)) (lt_en (dt_name d)) = Inr (dt_name d)"
      using d(1) by (auto simp: details_def dest: NewLocalizedText_reread split: sum.splits)
    then have "sound_service s" using d(2) check_details_name by (auto simp: NewService_def Let_def sound_service_def split: sum.splits)
    then show ?thesis using catalog_ok_add [OF assms(2)] d(3) by simp
  qed
next
  case (edit acc now cmd)
  then show ?thesis using catalog_ok_update [OF assms(2) edit_sound] assms(2)
    by (auto simp: ServiceHandlers_Update_def split: option.splits)
next
  case (offer acc now cmd)
  then show ?thesis using catalog_ok_update [OF assms(2) offer_sound] assms(2)
    by (auto simp: ServiceHandlers_SetOfferings_def split: option.splits sum.splits)
qed

interpretation catalog_kept: invariant_system "catalog_step idText" catalog_ok for idText
  by unfold_locales (rule catalog_step_ok)

section \<open>The menu as the tables have it\<close>

definition offers_of :: "catalog_db \<Rightarrow> service_row \<Rightarrow> offering_row list" where
  "offers_of db r = sort_key y_staff (filter (\<lambda>y. y_service y = x_id r) (cd_offerings db))"

definition performer_of :: "service_row \<Rightarrow> offering_row \<Rightarrow> Performer" where
  "performer_of r y = \<lparr>cp_staff = ID (y_staff y), cp_duration = (case y_minutes y of None \<Rightarrow> x_minutes r | Some m \<Rightarrow> m) * minute,
     cp_price = Halalas (case y_price_amount y of None \<Rightarrow> x_price_amount r | Some a \<Rightarrow> a)\<rparr>"

definition item_of_row :: "catalog_db \<Rightarrow> service_row \<Rightarrow> MenuItem" where
  "item_of_row db r = \<lparr>ci_id = ID (x_id r), ci_name = \<lparr>lt_ar = x_name_ar r, lt_en = x_name_en r\<rparr>,
     ci_performers = map (performer_of r) (offers_of db r)\<rparr>"

definition offering_of_row :: "offering_row \<Rightarrow> Offering" where
  "offering_of_row y = \<lparr>oo_staff = ID (y_staff y), oo_price = map_option Halalas (y_price_amount y),
     oo_duration = map_option (\<lambda>m. m * minute) (y_minutes y)\<rparr>"

lemma NewMoney_SAR [simp]: "NewMoney a SAR = Inr (Halalas a)"
  by (simp add: NewMoney_def minorPerMajor_def Halalas_def)

lemma toOffering_ok: "offering_ok y \<Longrightarrow> toOffering y = Inr (offering_of_row y)"
  unfolding SAR_def [symmetric]
  by (auto simp: toOffering_def offering_of_row_def offering_ok_def Let_def IDFromUUID_def SAR_def [symmetric] split: option.splits)

lemma sort_key_const: "(\<And>x. x \<in> set xs \<Longrightarrow> f x = (c, g x)) \<Longrightarrow> sort_key f xs = sort_key g (xs :: 'a list)"
proof (induction xs)
  case (Cons x xs)
  have i: "insort_key f x ys = insort_key g x ys" if "set ys \<subseteq> insert x (set xs)" for ys
    using that by (induction ys) (auto simp: Cons.prems)
  have "insort_key f x (sort_key g xs) = insort_key g x (sort_key g xs)" by (rule i) auto
  then show ?case using Cons by simp
qed simp

lemma service_row_eq:
  assumes "catalog_ok db" "r \<in> set (cd_services db)" "q \<in> set (cd_services db)" "x_id r = x_id q"
  shows "r = q"
  using catalog_okD(1) [OF assms(1)] assms(2-) by (metis distinct_map inj_onD)

lemma offers_by_branch:
  assumes "catalog_ok db" "r \<in> set (services_by_branch db business branch)"
  shows "filter (\<lambda>y. y_service y = x_id r) (offerings_by_branch db business branch) = offers_of db r"
proof -
  have r: "r \<in> set (cd_services db)" "x_business r = id_value business" "x_branch r = id_value branch"
    using assms(2) by (auto simp: services_by_branch_def)
  have "list_ex (\<lambda>q. x_business q = y_business y \<and> x_id q = y_service y \<and> x_business q = id_value business \<and> x_branch q = id_value branch) (cd_services db)"
    if y: "y \<in> set (cd_offerings db)" "y_service y = x_id r" for y
  proof -
    obtain q where q: "q \<in> set (cd_services db)" "x_business q = y_business y" "x_id q = y_service y"
      using catalog_okD(3) [OF assms(1)] y(1) by (auto simp: offerings_ok_def service_keys_def)
    have "r = q" by (rule service_row_eq [OF assms(1) r(1) q(1)]) (simp only: q(3) y(2))
    then have "x_business r = y_business y" using q(2) by (simp only:)
    then show ?thesis unfolding list_ex_iff by (intro bexI [OF _ r(1)] conjI y(2) [symmetric] r(2,3))
  qed
  then have "filter (\<lambda>y. y_service y = x_id r \<and> list_ex (\<lambda>q. x_business q = y_business y \<and> x_id q = y_service y
      \<and> x_business q = id_value business \<and> x_branch q = id_value branch) (cd_services db)) (cd_offerings db)
    = filter (\<lambda>y. y_service y = x_id r) (cd_offerings db)" by (intro filter_cong) auto
  then show ?thesis
    unfolding offerings_by_branch_def offers_of_def filter_sort filter_filter
    by (subst sort_key_const [where c = "x_id r" and g = y_staff]) (simp_all add: conj_commute)
qed

lemma toService_ok:
  assumes "readable_service r"
  shows "toService r offs = Inr (RehydrateService (ID (x_id r)) (ID (x_business r)) (ID (x_branch r))
     \<lparr>dt_category = x_category r, dt_name = \<lparr>lt_ar = x_name_ar r, lt_en = x_name_en r\<rparr>,
       dt_description = \<lparr>ds_ar = x_description_ar r, ds_en = x_description_en r\<rparr>, dt_duration = x_minutes r * minute,
       dt_price = Halalas (x_price_amount r), dt_sortOrder = x_sort_order r\<rparr> offs (x_active r) (x_version r) (x_created_at r) (x_updated_at r))"
proof -
  have "x_price_currency r = SAR" using assms by (simp add: readable_service_def service_ok_def SAR_def)
  then show ?thesis using assms by (simp add: toService_def readable_service_def IDFromUUID_def)
qed

definition service_of_row :: "catalog_db \<Rightarrow> service_row \<Rightarrow> Service" where
  "service_of_row db r = projr (toService r (map offering_of_row (offers_of db r)))"

lemma service_of_row_fields [simp]:
  assumes "readable_service r"
  shows "sv_id (service_of_row db r) = ID (x_id r)" "sv_active (service_of_row db r) = x_active r"
    "sv_offerings (service_of_row db r) = map offering_of_row (offers_of db r)"
    "dt_name (sv_details (service_of_row db r)) = \<lparr>lt_ar = x_name_ar r, lt_en = x_name_en r\<rparr>"
    "dt_duration (sv_details (service_of_row db r)) = x_minutes r * minute"
    "dt_price (sv_details (service_of_row db r)) = Halalas (x_price_amount r)"
  by (simp_all add: service_of_row_def toService_ok [OF assms] RehydrateService_def)

lemma services_list_exact:
  assumes ok: "catalog_ok db"
  shows "Services_List db business branch = Inr (map (service_of_row db) (services_by_branch db business branch))"
proof -
  have ys: "offering_ok y" if "y \<in> set (offerings_by_branch db business branch)" for y
    using catalog_okD(3) [OF ok] that by (auto simp: offerings_by_branch_def offerings_ok_def)
  have offs: "each (\<lambda>y. case toOffering y of Inl e \<Rightarrow> Inl e | Inr o' \<Rightarrow> Inr (y_service y, o')) (offerings_by_branch db business branch)
      = Inr (map (\<lambda>y. (y_service y, offering_of_row y)) (offerings_by_branch db business branch))"
    by (rule each_map) (simp add: toOffering_ok ys)
  have "toService r (map snd (filter (\<lambda>(i, _). i = x_id r) (map (\<lambda>y. (y_service y, offering_of_row y)) (offerings_by_branch db business branch))))
      = Inr (service_of_row db r)" if r: "r \<in> set (services_by_branch db business branch)" for r
  proof -
    have "readable_service r" using catalog_okD(2) [OF ok] r by (auto simp: services_by_branch_def)
    moreover have "map snd (filter (\<lambda>(i, _). i = x_id r) (map (\<lambda>y. (y_service y, offering_of_row y)) (offerings_by_branch db business branch)))
        = map offering_of_row (offers_of db r)"
      unfolding offers_by_branch [OF ok r, symmetric] by (simp add: filter_map comp_def)
    ultimately show ?thesis by (simp add: service_of_row_def toService_ok)
  qed
  then show ?thesis unfolding Services_List_def offs by (simp add: each_map)
qed

lemma menu_exact:
  assumes ok: "catalog_ok db"
  shows "Menu db business branch = Inr (map (item_of_row db) (filter x_active (services_by_branch db business branch)))"
proof -
  have r: "readable_service r" if "r \<in> set (services_by_branch db business branch)" for r
    using catalog_okD(2) [OF ok] that by (auto simp: services_by_branch_def)
  have "menu_item (service_of_row db r) = item_of_row db r" if "r \<in> set (services_by_branch db business branch)" for r
    using r [OF that]
    by (auto simp: menu_item_def item_of_row_def performer_of_def offering_of_row_def DurationOr_def PriceOr_def Let_def split: option.splits)
  moreover have "filter sv_active (map (service_of_row db) (services_by_branch db business branch))
      = map (service_of_row db) (filter x_active (services_by_branch db business branch))"
    using r by (auto simp: filter_map comp_def intro!: arg_cong [where f = "map _"] filter_cong)
  ultimately show ?thesis by (simp add: Menu_def services_list_exact [OF ok])
qed

section \<open>Which offerings are accepted\<close>

lemma check_each_offering_iff:
  "check_each_offering before os = None \<longleftrightarrow>
     (\<forall>o' \<in> set os. \<not> ID_IsZero (oo_staff o') \<and> (\<forall>d. oo_duration o' = Some d \<longrightarrow> validDuration d)
        \<and> (\<forall>p. oo_price o' = Some p \<longrightarrow> validPrice p))
     \<and> successively (\<noteq>) ((case before of None \<Rightarrow> [] | Some s \<Rightarrow> [s]) @ map oo_staff os)"
  by (induction os arbitrary: before) (auto split: option.splits)

lemma sorted_successively_distinct:
  fixes k :: "'a \<Rightarrow> 'b :: linorder"
  assumes "inj k" "sorted (map k xs)"
  shows "successively (\<noteq>) xs \<longleftrightarrow> distinct xs"
proof
  assume d: "distinct xs"
  then show "successively (\<noteq>) xs" by (induction xs rule: induct_list012) auto
next
  assume "successively (\<noteq>) xs"
  then show "distinct xs" using assms(2)
  proof (induction xs rule: induct_list012)
    case (3 x y zs)
    have "k x < k y" using 3(3,4) assms(1) by (auto simp: less_le dest: injD)
    moreover have "\<forall>z \<in> set (y # zs). k y \<le> k z" using 3(4) by auto
    ultimately have "x \<notin> set (y # zs)" by fastforce
    then show ?case using 3 by simp
  qed simp_all
qed

text \<open>A list of performers is accepted exactly when it is short enough, names real people, nobody twice, and every
  price and duration of its own is in range; what is stored is the same list, ordered.\<close>

theorem offerings_accepted_iff:
  assumes "inj idText"
  shows "((\<exists>out. checkOfferings idText offs = Inr out) \<longleftrightarrow>
      length offs \<le> 100 \<and> distinct (map oo_staff offs)
      \<and> (\<forall>o' \<in> set offs. \<not> ID_IsZero (oo_staff o') \<and> (\<forall>d. oo_duration o' = Some d \<longrightarrow> validDuration d)
           \<and> (\<forall>p. oo_price o' = Some p \<longrightarrow> validPrice p)))
    \<and> (\<forall>out. checkOfferings idText offs = Inr out \<longrightarrow>
         mset out = mset offs \<and> sorted (map (\<lambda>o'. idText (id_value (oo_staff o'))) out))"
proof -
  let ?k = "\<lambda>o'. idText (id_value (oo_staff o'))"
  let ?out = "sort_key ?k offs"
  have "sorted (map (\<lambda>i. idText (id_value i)) (map oo_staff ?out))" by (simp add: comp_def sorted_sort_key)
  moreover have "inj (\<lambda>i :: StaffID. idText (id_value i))" by (intro injI) (metis assms id_value_inject injD)
  ultimately have "successively (\<noteq>) (map oo_staff ?out) \<longleftrightarrow> distinct (map oo_staff ?out)" by (rule sorted_successively_distinct [rotated])
  also have "\<dots> \<longleftrightarrow> distinct (map oo_staff offs)" by (metis mset_map mset_sort mset_eq_imp_distinct_iff)
  finally show ?thesis
    using check_each_offering_iff [of None ?out]
    by (auto simp: checkOfferings_def MaxOfferings_def Let_def sorted_sort_key split: option.splits)
qed

definition unary :: "uuid \<Rightarrow> string" where
  "unary u = replicate (unat u) (CHR ''1'')"

lemma inj_unary: "inj unary"
  by (intro injI) (metis length_replicate unary_def word_unat_eq_iff)

theorem offerings_accepted_iff_witness:
  "inj unary \<and> (\<nexists>out. checkOfferings unary [\<lparr>oo_staff = ID 3, oo_price = None, oo_duration = None\<rparr>,
       \<lparr>oo_staff = ID 2, oo_price = None, oo_duration = None\<rparr>, \<lparr>oo_staff = ID 3, oo_price = None, oo_duration = None\<rparr>] = Inr out)
   \<and> (\<exists>out. checkOfferings unary [\<lparr>oo_staff = ID 3, oo_price = None, oo_duration = None\<rparr>,
       \<lparr>oo_staff = ID 2, oo_price = Some (Halalas 100), oo_duration = None\<rparr>] = Inr out)"
  using inj_unary offerings_accepted_iff [OF inj_unary, THEN conjunct1]
  by (simp add: ID_IsZero_def uuid_Nil_def validPrice_def Halalas_def Money_IsNegative_def MaxPriceHalalas_def)

section \<open>The menu\<close>

lemma offers_distinct:
  assumes "catalog_ok db"
  shows "distinct (map y_staff (offers_of db r))"
proof -
  have "inj_on (\<lambda>y. (y_service y, y_staff y)) (set (cd_offerings db))" "distinct (cd_offerings db)"
    using catalog_okD(3) [OF assms] by (auto simp: offerings_ok_def distinct_map)
  then have "inj_on y_staff (set (offers_of db r))" "distinct (offers_of db r)" by (auto simp: offers_of_def inj_on_def)
  then show ?thesis by (simp add: distinct_map)
qed

lemma performer_ok:
  assumes "catalog_ok db" "r \<in> set (cd_services db)" "y \<in> set (offers_of db r)"
  shows "validDuration (cp_duration (performer_of r y))" "validPrice (cp_price (performer_of r y))"
proof -
  have r: "service_ok r" and y: "offering_ok y"
    using catalog_okD(2,3) [OF assms(1)] assms(2,3) by (auto simp: readable_service_def offerings_ok_def offers_of_def)
  have "minutes_ok m \<Longrightarrow> validDuration (m * minute)" for m
    by (auto simp: minutes_ok_def validDuration_def MinDuration_def MaxDuration_def DurationStep_def hour_def minute_def go_mod_nonneg)
  moreover have "amount_ok a \<Longrightarrow> validPrice (Halalas a)" for a
    by (simp add: amount_ok_def validPrice_def Halalas_def Money_IsNegative_def MaxPriceHalalas_def)
  ultimately show "validDuration (cp_duration (performer_of r y))" "validPrice (cp_price (performer_of r y))"
    using r y by (auto simp: performer_of_def service_ok_def offering_ok_def split: option.splits)
qed

text \<open>C39: After any requests, the menu of a branch is read without an error and is exactly its active services in display
  order, each with the people assigned to it, once each, at their own price and duration or else the
  service's; every price is between 0 and 100,000 riyals and every duration a step of five minutes from 5
  minutes to 8 hours.\<close>

theorem menu_shows_the_stored_services:
  assumes "(catalog_step idText)\<^sup>*\<^sup>* empty_catalog db"
  shows "Menu db business branch = Inr (map (item_of_row db) (filter x_active (services_by_branch db business branch)))
    \<and> (\<forall>r \<in> set (services_by_branch db business branch). distinct (map y_staff (offers_of db r))
         \<and> (\<forall>y \<in> set (offers_of db r). validDuration (cp_duration (performer_of r y)) \<and> validPrice (cp_price (performer_of r y))))"
proof -
  have ok: "catalog_ok db" by (rule catalog_kept.steps_inv [OF assms catalog_ok_empty])
  then show ?thesis using menu_exact offers_distinct performer_ok by (auto simp: services_by_branch_def)
qed

section \<open>What other modules are told\<close>

definition valid_service :: "Service \<Rightarrow> bool" where
  "valid_service s \<longleftrightarrow> sound_service s \<and> validDuration (dt_duration (sv_details s)) \<and> validPrice (dt_price (sv_details s))
     \<and> (\<forall>o' \<in> set (sv_offerings s). \<forall>p. oo_price o' = Some p \<longrightarrow> validPrice p) \<and> 1 \<le> sv_version s"

lemma foldl_least:
  fixes f :: "'a \<Rightarrow> Money"
  defines "step \<equiv> (\<lambda>least x. let p = f x in if sint (m_amount p) < sint (m_amount least) then p else least)"
  shows "foldl step a xs \<in> insert a (f ` set xs) \<and> (\<forall>b \<in> insert a (f ` set xs). sint (m_amount (foldl step a xs)) \<le> sint (m_amount b))"
proof (induction xs arbitrary: a)
  case (Cons x xs)
  have "foldl step a (x # xs) = foldl step (step a x) xs" by simp
  moreover have "step a x \<in> {a, f x}" "sint (m_amount (step a x)) \<le> sint (m_amount a)" "sint (m_amount (step a x)) \<le> sint (m_amount (f x))"
    by (auto simp: step_def Let_def)
  ultimately show ?case using Cons.IH [of "step a x"] by (auto intro: order_trans)
qed simp

lemma PriceFrom_least:
  "case PriceFrom s of None \<Rightarrow> sn_offerings s = []
   | Some p \<Rightarrow> (\<exists>o' \<in> set (sn_offerings s). p = PriceOr o' (dt_price (sn_details s)))
        \<and> (\<forall>o' \<in> set (sn_offerings s). sint (m_amount p) \<le> sint (m_amount (PriceOr o' (dt_price (sn_details s)))))"
proof (cases "sn_offerings s")
  case (Cons o' os)
  then show ?thesis
    using foldl_least [where f = "\<lambda>o'. PriceOr o' (dt_price (sn_details s))" and a = "PriceOr o' (dt_price (sn_details s))" and xs = os]
    unfolding PriceFrom_def by auto
qed (simp add: PriceFrom_def)

lemma service_whole_minutes: "validDuration d \<Longrightarrow> go_div d minute * minute = d"
proof -
  assume v: "validDuration d"
  then have "0 \<le> d" "d mod (5 * minute) = 0"
    by (auto simp: validDuration_def MinDuration_def DurationStep_def minute_def go_mod_nonneg)
  then have "minute dvd d" by (auto simp: mod_eq_0_iff_dvd dest: dvd_mult_right)
  then show ?thesis using \<open>0 \<le> d\<close> by (simp add: go_div_nonneg minute_def)
qed

lemma decode_snapshot:
  assumes "valid_service s"
  shows "\<exists>c. decodeServiceChanged at' (snd (event_payload (ServiceUpdatedEvent (sv_business s) (sv_branch s) (sv_id s) t (Service_snapshot s)))) = Some c
    \<and> ch_business c = sv_business s \<and> ch_branch c = sv_branch s \<and> ch_service c = sv_id s \<and> ch_version c = sv_version s
    \<and> ch_name c = dt_name (sv_details s) \<and> ch_duration c = dt_duration (sv_details s) \<and> ch_category c = dt_category (sv_details s)
    \<and> ch_sortOrder c = dt_sortOrder (sv_details s) \<and> ch_at c = at'
    \<and> (ch_offered c \<longleftrightarrow> sv_active s \<and> sv_offerings s \<noteq> [])
    \<and> ch_priceFrom c = (case PriceFrom (Service_snapshot s) of None \<Rightarrow> dt_price (sv_details s) | Some p \<Rightarrow> p)"
proof -
  let ?p = "case PriceFrom (Service_snapshot s) of None \<Rightarrow> dt_price (sv_details s) | Some p \<Rightarrow> p"
  note least = PriceFrom_least [of "Service_snapshot s"]
  have "validPrice ?p"
    using least assms by (auto simp: valid_service_def Service_snapshot_def PriceOr_def split: option.splits)
  then have cur: "m_currency ?p = SAR" by (simp add: validPrice_def)
  have "NewMoney (m_amount ?p) SAR = Inr ?p" using cur by (cases ?p) (simp add: Halalas_def)
  moreover have "(PriceFrom (Service_snapshot s) = None) = (sv_offerings s = [])"
    using least by (auto simp: Service_snapshot_def split: option.splits)
  ultimately show ?thesis
    using assms service_whole_minutes cur
    by (cases "PriceFrom (Service_snapshot s)")
      (simp_all add: decodeServiceChanged_def serviceContract_def moneyContract_def Let_def valid_service_def sound_service_def
        Service_snapshot_def IDFromUUID_def)
qed

lemma loaded_valid:
  assumes "catalog_ok db" "find_first P (cd_services db) = Some row" "each toOffering (offerings_by_service db business i) = Inr offs"
    "toService row offs = Inr s"
  shows "valid_service s" "sv_events s = []"
proof -
  have row: "row \<in> set (cd_services db)" "readable_service row"
    using find_first_Some [OF assms(2)] catalog_okD(2) [OF assms(1)] by auto
  have s: "s = RehydrateService (ID (x_id row)) (ID (x_business row)) (ID (x_branch row))
     \<lparr>dt_category = x_category row, dt_name = \<lparr>lt_ar = x_name_ar row, lt_en = x_name_en row\<rparr>,
       dt_description = \<lparr>ds_ar = x_description_ar row, ds_en = x_description_en row\<rparr>, dt_duration = x_minutes row * minute,
       dt_price = Halalas (x_price_amount row), dt_sortOrder = x_sort_order row\<rparr> offs (x_active row) (x_version row) (x_created_at row) (x_updated_at row)"
    using assms(4) toService_ok [OF row(2)] by simp
  have "validPrice p" if h: "o' \<in> set offs" "oo_price o' = Some p" for o' p
  proof -
    obtain y where y: "y \<in> set (cd_offerings db)" "toOffering y = Inr o'"
      using each_Inr [OF assms(3) h(1)] by (auto simp: offerings_by_service_def)
    then have "offering_ok y" using catalog_okD(3) [OF assms(1)] by (auto simp: offerings_ok_def)
    then show ?thesis using y(2) h(2) toOffering_ok [of y]
      by (auto simp: offering_of_row_def offering_ok_def amount_ok_def validPrice_def Halalas_def Money_IsNegative_def MaxPriceHalalas_def split: option.splits)
  qed
  moreover have "sound_service s" by (rule update_service_sound [OF assms])
  moreover have "service_ok row" using row(2) by (simp add: readable_service_def)
  moreover from this have "validDuration (x_minutes row * minute)" "validPrice (Halalas (x_price_amount row))"
    by (auto simp: service_ok_def minutes_ok_def validDuration_def MinDuration_def MaxDuration_def DurationStep_def hour_def minute_def
        go_mod_nonneg amount_ok_def validPrice_def Halalas_def Money_IsNegative_def MaxPriceHalalas_def)
  ultimately show "valid_service s" "sv_events s = []" by (auto simp: valid_service_def s RehydrateService_def service_ok_def)
qed

text \<open>What both changes of a service do: keep it valid and record one event with the service as it then is.\<close>

definition touched :: "Service \<Rightarrow> Service \<Rightarrow> bool" where
  "touched s s' \<longleftrightarrow> valid_service s' \<and> sv_id s' = sv_id s \<and> sv_business s' = sv_business s \<and> sv_branch s' = sv_branch s
     \<and> sv_version s' = sv_version s + 1
     \<and> sv_events s' = sv_events s @ [ServiceUpdatedEvent (sv_business s') (sv_branch s') (sv_id s') (sv_updatedAt s') (Service_snapshot s')]"

lemma check_details_valid: "check_details d = Inr d' \<Longrightarrow> validDuration (dt_duration d') \<and> validPrice (dt_price d')"
  by (auto simp: check_details_def Let_def split: sum.splits if_splits)

lemma edit_touched:
  assumes "edit_service cmd now s = Inr s'" "valid_service s"
  shows "touched s s'"
proof -
  have "sound_service s'" using edit_sound assms by (auto simp: valid_service_def)
  then show ?thesis using assms check_details_valid
    by (auto simp: edit_service_def Service_Edit_def touched_def Service_touch_def Service_snapshot_def valid_service_def Let_def split: sum.splits)
qed

lemma offer_touched:
  assumes "Service_SetOfferings idText s offs now = Inr s'" "valid_service s"
  shows "touched s s'"
proof -
  have "sound_service s'" using offer_sound assms by (auto simp: valid_service_def)
  then show ?thesis using assms
    by (auto simp: Service_SetOfferings_def checkOfferings_def touched_def Service_touch_def Service_snapshot_def valid_service_def Let_def
        split: sum.splits if_splits option.splits dest!: check_each_offering_None(1))
qed

lemma saveOfferings_outbox:
  assumes "saveOfferings db s = Inr db'"
  shows "cd_outbox db' = cd_outbox db"
proof (rule fold_result_invariant [where P = "\<lambda>c. cd_outbox c = cd_outbox db", OF _ assms [unfolded saveOfferings_def Let_def]])
  show "cd_outbox (DeleteOfferings db (id_value (sv_business s)) (id_value (sv_id s))) = cd_outbox db" by (simp add: DeleteOfferings_def)
qed (auto simp: InsertOffering_def split: sum.splits if_splits)

lemma update_told:
  assumes "catalog_ok db" "Services_Update db business branch i v fn = (Inr t, db')"
    "\<And>s s'. fn s = Inr s' \<Longrightarrow> valid_service s \<Longrightarrow> touched s s'"
  shows "valid_service t" "sv_version t = v + 1"
    "cd_outbox db' = cd_outbox db @ [ServiceUpdatedEvent (sv_business t) (sv_branch t) (sv_id t) (sv_updatedAt t) (Service_snapshot t)]"
    "sv_id t = i" "sv_business t = business" "sv_branch t = branch"
proof -
  let ?P = "\<lambda>r. x_business r = id_value business \<and> x_branch r = id_value branch \<and> x_id r = id_value i"
  obtain row offs s next' n db1 db2 where u: "find_first ?P (cd_services db) = Some row" "x_version row = v"
    "each toOffering (offerings_by_service db business i) = Inr offs" "toService row offs = Inr s" "fn s = Inr t"
    "UpdateService_stmt db business branch next' (x_version row) = Inr (n, db1)" "saveOfferings db1 t = Inr db2"
    "db' = db2\<lparr>cd_outbox := cd_outbox db2 @ sv_events t\<rparr>"
    using assms(2) by (auto simp: Services_Update_def commit_def update_service_tx_def split: option.splits sum.splits if_splits)
  note l = loaded_valid [OF assms(1) u(1,3,4)]
  have t: "touched s t" by (rule assms(3) [OF u(5) l(1)])
  have "cd_outbox db2 = cd_outbox db1" by (rule saveOfferings_outbox [OF u(7)])
  moreover have "cd_outbox db1 = cd_outbox db" using u(6) by (auto simp: UpdateService_stmt_def Let_def split: if_splits)
  ultimately show "cd_outbox db' = cd_outbox db @ [ServiceUpdatedEvent (sv_business t) (sv_branch t) (sv_id t) (sv_updatedAt t) (Service_snapshot t)]"
    using t l(2) by (simp add: u(8) touched_def)
  have s: "sv_version s = x_version row" "sv_id s = ID (x_id row)" "sv_business s = ID (x_business row)" "sv_branch s = ID (x_branch row)"
    using u(4) by (auto simp: toService_def RehydrateService_def IDFromUUID_def split: sum.splits)
  show "valid_service t" "sv_version t = v + 1" using t u(2) s(1) by (simp_all add: touched_def)
  show "sv_id t = i" "sv_business t = business" "sv_branch t = branch"
    using t s(2-) find_first_Some [OF u(1)] by (cases i; cases business; cases branch; simp add: touched_def)+
qed

text \<open>C40: After any requests, a service that is edited or given performers is told to the other modules exactly once, in the
  same transaction: the event they decode names the service, its new version (one more than before), its
  name, duration and category, says it is offered exactly when it is active and somebody performs it, and
  gives as its price the least any performer takes (the service's own while nobody performs it).\<close>

theorem service_changes_are_told:
  assumes "(catalog_step idText)\<^sup>*\<^sup>* empty_catalog db"
    and "ServiceHandlers_Update acc now edit db = (Inr s, db') \<and> v = us_expectedVersion edit
       \<or> ServiceHandlers_SetOfferings idText acc now offer db = (Inr s, db') \<and> v = op_expectedVersion offer"
  shows "\<exists>ev c. cd_outbox db' = cd_outbox db @ [ev] \<and> decodeServiceChanged (sv_updatedAt s) (snd (event_payload ev)) = Some c
    \<and> ch_business c = sv_business s \<and> ch_branch c = sv_branch s \<and> ch_service c = sv_id s \<and> ch_version c = v + 1 \<and> sv_version s = v + 1
    \<and> ch_name c = dt_name (sv_details s) \<and> ch_duration c = dt_duration (sv_details s) \<and> ch_category c = dt_category (sv_details s)
    \<and> (ch_offered c \<longleftrightarrow> sv_active s \<and> sv_offerings s \<noteq> [])
    \<and> (if sv_offerings s = [] then ch_priceFrom c = dt_price (sv_details s)
       else (\<exists>o' \<in> set (sv_offerings s). ch_priceFrom c = PriceOr o' (dt_price (sv_details s)))
         \<and> (\<forall>o' \<in> set (sv_offerings s). sint (m_amount (ch_priceFrom c)) \<le> sint (m_amount (PriceOr o' (dt_price (sv_details s))))))"
proof -
  have ok: "catalog_ok db" by (rule catalog_kept.steps_inv [OF assms(1) catalog_ok_empty])
  obtain business branch i fn where u: "Services_Update db business branch i v fn = (Inr s, db')"
    "\<And>s s'. fn s = Inr s' \<Longrightarrow> valid_service s \<Longrightarrow> touched s s'"
    using assms(2) edit_touched offer_touched
    by (auto simp: ServiceHandlers_Update_def ServiceHandlers_SetOfferings_def split: option.splits sum.splits if_splits)
  note t = update_told [OF ok u]
  let ?ev = "ServiceUpdatedEvent (sv_business s) (sv_branch s) (sv_id s) (sv_updatedAt s) (Service_snapshot s)"
  obtain c where c: "decodeServiceChanged (sv_updatedAt s) (snd (event_payload ?ev)) = Some c"
    "ch_business c = sv_business s" "ch_branch c = sv_branch s" "ch_service c = sv_id s" "ch_version c = sv_version s"
    "ch_name c = dt_name (sv_details s)" "ch_duration c = dt_duration (sv_details s)" "ch_category c = dt_category (sv_details s)"
    "ch_offered c \<longleftrightarrow> sv_active s \<and> sv_offerings s \<noteq> []"
    "ch_priceFrom c = (case PriceFrom (Service_snapshot s) of None \<Rightarrow> dt_price (sv_details s) | Some p \<Rightarrow> p)"
    using decode_snapshot [OF t(1), of "sv_updatedAt s" "sv_updatedAt s"] by blast
  have "if sv_offerings s = [] then ch_priceFrom c = dt_price (sv_details s)
       else (\<exists>o' \<in> set (sv_offerings s). ch_priceFrom c = PriceOr o' (dt_price (sv_details s)))
         \<and> (\<forall>o' \<in> set (sv_offerings s). sint (m_amount (ch_priceFrom c)) \<le> sint (m_amount (PriceOr o' (dt_price (sv_details s)))))"
    using PriceFrom_least [of "Service_snapshot s"] c(10) by (cases "PriceFrom (Service_snapshot s)") (auto simp: Service_snapshot_def)
  then show ?thesis using t(2,3) c(1-9) by metis
qed

section \<open>A run\<close>

definition free_access :: catalog_access where
  "free_access = \<lparr>ca_branch = (\<lambda>_ _ _ _. None), ca_staffAtBranch = (\<lambda>_ _ _. None)\<rparr>"

definition haircut :: CreateService where
  "haircut = \<lparr>cr_actor = ID 1, cr_business = ID 10, cr_branch = ID 30, cr_category = ''haircut'', cr_name = \<lparr>nm_ar = '' Cut'', nm_en = []\<rparr>,
     cr_description = \<lparr>ds_ar = [], ds_en = []\<rparr>, cr_duration = 30 * minute, cr_price = \<lparr>mn_amount = 6000, mn_currency = ''SAR''\<rparr>, cr_sortOrder = 1\<rparr>"

definition performers :: SetOfferings where
  "performers = \<lparr>op_actor = ID 1, op_business = ID 10, op_branch = ID 30, op_service = ID 70, op_expectedVersion = 1,
     op_offerings = [\<lparr>oi_staff = ID 60, oi_price = Some \<lparr>mn_amount = 5000, mn_currency = ''SAR''\<rparr>, oi_duration = None\<rparr>,
                     \<lparr>oi_staff = ID 20, oi_price = None, oi_duration = Some (45 * minute)\<rparr>]\<rparr>"

definition sold :: catalog_db where
  "sold = snd (ServiceHandlers_Create free_access (ID 70) 0 haircut empty_catalog)"

definition staffed :: catalog_db where
  "staffed = snd (ServiceHandlers_SetOfferings unary free_access 0 performers sold)"

lemma sold_reached: "(catalog_step unary)\<^sup>*\<^sup>* empty_catalog sold"
  unfolding sold_def by (rule r_into_rtranclp) (rule catalog_step.create)

lemma staffed_reached: "(catalog_step unary)\<^sup>*\<^sup>* empty_catalog staffed"
  unfolding staffed_def by (rule rtranclp.rtrancl_into_rtrancl [OF sold_reached]) (rule catalog_step.offer)

theorem menu_shows_the_stored_services_witness:
  "\<exists>m. Menu staffed (ID 10) (ID 30) = Inr [m] \<and> ci_id m = ID 70 \<and> map cp_staff (ci_performers m) = [ID 20, ID 60]
     \<and> map (m_amount \<circ> cp_price) (ci_performers m) = [6000, 5000] \<and> map cp_duration (ci_performers m) = [45 * minute, 30 * minute]"
proof -
  let ?rows = "filter x_active (services_by_branch staffed (ID 10) (ID 30))"
  have "map (\<lambda>m. (ci_id m, map (\<lambda>p. (cp_staff p, m_amount (cp_price p), cp_duration p)) (ci_performers m))) (map (item_of_row staffed) ?rows)
      = [(ID 70, [(ID 20, 6000, 45 * minute), (ID 60, 5000, 30 * minute)])]" by code_simp
  then obtain m where "map (item_of_row staffed) ?rows = [m]" "ci_id m = ID 70"
    "map (\<lambda>p. (cp_staff p, m_amount (cp_price p), cp_duration p)) (ci_performers m) = [(ID 20, 6000, 45 * minute), (ID 60, 5000, 30 * minute)]"
    by (auto simp: map_eq_Cons_conv)
  then show ?thesis using menu_shows_the_stored_services [OF staffed_reached, of "ID 10" "ID 30"] by (auto simp: map_eq_Cons_conv)
qed

theorem service_changes_are_told_witness:
  "\<exists>ev c. cd_outbox staffed = cd_outbox sold @ [ev] \<and> decodeServiceChanged 0 (snd (event_payload ev)) = Some c
     \<and> ch_version c = 2 \<and> ch_offered c \<and> m_amount (ch_priceFrom c) = 5000"
proof -
  let ?r = "ServiceHandlers_SetOfferings unary free_access 0 performers sold"
  have e: "(case fst ?r of Inl _ \<Rightarrow> False | Inr s \<Rightarrow> sv_active s \<and> sv_updatedAt s = 0
      \<and> map (\<lambda>o'. m_amount (PriceOr o' (dt_price (sv_details s)))) (sv_offerings s) = [6000, 5000])" by code_simp
  then obtain s where s: "?r = (Inr s, staffed)" "sv_active s" "sv_updatedAt s = 0"
    "map (\<lambda>o'. m_amount (PriceOr o' (dt_price (sv_details s)))) (sv_offerings s) = [6000, 5000]"
    unfolding staffed_def by (cases "fst ?r") (auto simp: prod_eq_iff)
  then have "sv_offerings s \<noteq> []" by auto
  moreover have v: "op_expectedVersion performers = 1" by (simp add: performers_def)
  ultimately show ?thesis
    using service_changes_are_told [OF sold_reached, of free_access 0 undefined s staffed 1 performers] s by (auto simp: map_eq_Cons_conv)
qed

end
