(* ===== verification/Shop.thy ===== *)
theory Shop
  imports Tenancy CatalogFacts
begin

text \<open>
  The modules wired together, as \<open>cmd/server/main.go\<close> does it: booking's menu comes from catalog
  (\<open>internal/booking/adapters/acl/acl.go\<close>), catalog's access from business
  (\<open>internal/catalog/adapters/acl/business.go\<close>), and a branch's readiness
  from catalog and scheduling (\<open>branchReadiness\<close> of \<open>main.go\<close>). The properties follow an answer through
  the adapters down to the rows of the tables it comes from.
\<close>

section \<open>Adapters\<close>

definition menu_performer :: "CatalogApp.Performer \<Rightarrow> BookingApp.Performer" where
  "menu_performer p = \<lparr>pf_staff = cp_staff p, pf_duration = cp_duration p, pf_price = cp_price p\<rparr>"

definition acl_Menu :: "catalog_db \<Rightarrow> BusinessID \<Rightarrow> BranchID \<Rightarrow> (booking_error, BookingApp.MenuItem list) result" where
  "acl_Menu cdb business branch =
     (case Menu cdb business branch of Inl e \<Rightarrow> Inl Availability.Fault
      | Inr items \<Rightarrow>
          Inr (map (\<lambda>it. \<lparr>mi_id = ci_id it, mi_name = ci_name it, mi_performers = map menu_performer (ci_performers it)\<rparr>) items))"




text \<open>Whether a branch could take a booking, from catalog and scheduling; business passes their errors on as they are.\<close>

definition branchReadiness ::
  "(uuid \<Rightarrow> string) \<Rightarrow> catalog_db \<Rightarrow> scheduling_db \<Rightarrow> BusinessID \<Rightarrow> BranchID \<Rightarrow> (business_error, BranchReadiness) result" where
  "branchReadiness idText cdb sdb business branch =
     (case PerformingStaff idText cdb business branch of Inl e \<Rightarrow> Inl Business.Fault
      | Inr staff \<Rightarrow>
      (case ScheduleApp.Readiness sdb business branch staff of Inl e \<Rightarrow> Inl Business.Fault
      | Inr (hours, scheduled) \<Rightarrow>
          Inr \<lparr>bd_openingHours = hours, bd_offeredService = (0 < length staff), bd_bookableBarber = (0 < length scheduled)\<rparr>))"

text \<open>Booking's ports, over the tables of the other modules. The windows are an argument: with
  \<open>acl_WorkingWindows (business_access load bdb) sdb\<close> they are scheduling's.\<close>

definition wired_ports ::
  "zones \<Rightarrow> business_db \<Rightarrow> catalog_db
   \<Rightarrow> (BusinessID \<Rightarrow> BranchID \<Rightarrow> StaffID list \<Rightarrow> gotime \<Rightarrow> gotime \<Rightarrow> (booking_error, StaffID \<Rightarrow> Interval list) result) \<Rightarrow> ports" where
  "wired_ports load bdb cdb windows = \<lparr>p_bookable = acl_Bookable load bdb, p_barbers = acl_Barbers bdb, p_menu = acl_Menu cdb,
     p_windows = windows, p_memberOf = acl_MemberOf bdb, p_branchLocation = acl_BranchLocation load bdb\<rparr>"

section \<open>Menus\<close>

definition booking_item :: "catalog_db \<Rightarrow> service_row \<Rightarrow> BookingApp.MenuItem" where
  "booking_item cdb r = \<lparr>mi_id = ID (x_id r), mi_name = \<lparr>lt_ar = x_name_ar r, lt_en = x_name_en r\<rparr>,
     mi_performers = map (\<lambda>y. menu_performer (performer_of r y)) (offers_of cdb r)\<rparr>"

lemma acl_Menu_exact:
  assumes "catalog_ok cdb"
  shows "acl_Menu cdb business branch = Inr (map (booking_item cdb) (filter x_active (services_by_branch cdb business branch)))"
  by (simp add: acl_Menu_def menu_exact [OF assms] item_of_row_def booking_item_def comp_def)



section \<open>Bookings and the rows of the shop\<close>

lemma toBranch_ids: "toBranch row = Inr b \<Longrightarrow> bn_id b = ID (h_id row) \<and> bn_business b = ID (h_business row)"
  by (auto simp: toBranch_def RehydrateBranch_def Let_def IDFromUUID_def split: sum.splits if_splits option.splits)

lemma acl_Bookable_row:
  assumes "acl_Bookable load bdb i = Inr b"
  obtains h w where "h \<in> set (bd_branches bdb)" "h_status h = ''published''" "bb_id b = i" "i = ID (h_id h)"
    "bb_business b = ID (w_id w)" "w \<in> set (bd_businesses bdb)" "w_id w = h_business h" "w_status w = ''active''"
proof -
  obtain br where br: "Branches_Bookable bdb i = Inr br" "bb_id b = bn_id br" "bb_business b = bn_business br"
    using assms by (auto simp: acl_Bookable_def Module_BookableBranch_def Access_BookableBranch_def Let_def split: sum.splits option.splits)
  obtain h where h: "h \<in> set (bd_branches bdb)" "h_id h = id_value i" "h_status h = ''published''"
    "list_ex (\<lambda>w. w_id w = h_business h \<and> w_status w = ''active'') (bd_businesses bdb)" "toBranch h = Inr br"
    using br(1) by (auto simp: Branches_Bookable_def split: option.splits dest!: find_first_Some)
  obtain w where w: "w \<in> set (bd_businesses bdb)" "w_id w = h_business h" "w_status w = ''active''" using h(4) by (auto simp: list_ex_iff)
  have "i = ID (h_id h)" using h(2) by (cases i) simp
  moreover have "bb_id b = ID (h_id h)" "bb_business b = ID (w_id w)" using toBranch_ids [OF h(5)] br(2,3) w(2) by simp_all
  ultimately show thesis by (intro that [OF h(1,3) _ _ _ w]) simp_all
qed

lemma acl_Barbers_row:
  assumes "acl_Barbers bdb business branch staff = Inr bs" "b \<in> set bs"
  obtains s where "staff_of bdb business s" "bar_id b = ID (f_id s)" "works_in bdb s branch"
proof -
  obtain ms m where m: "Staff_List bdb business = Inr ms" "m \<in> set ms" "st_active m" "Business.WorksAt m branch" "st_id m = bar_id b"
    using assms by (auto simp: acl_Barbers_def BranchBarbers_def Let_def split: sum.splits option.splits dest!: map_of_last_Some_in [OF sym])
  obtain s where s: "s \<in> set (bd_staff bdb)" "f_business s = id_value business" "toStaffMember s (branch_ids_of bdb s) = Inr m"
    by (rule Staff_List_Inr [OF m(1,2)])
  then show thesis using that [of s] toStaffMember_Inr [OF s(3)] WorksAt_row [OF s(3)] m(3-5) by (simp add: staff_of_def)
qed

lemma stillThere_barber:
  assumes "stillThere p branch os = Inr kept" "o' \<in> set kept"
  obtains staff bs b where "p_barbers p (bb_business branch) (bb_id branch) staff = Inr bs" "b \<in> set bs" "bar_id b = of_id o'"
proof -
  have "os \<noteq> []" using assms by (auto simp: stillThere_def)
  then obtain bs where bs: "p_barbers p (bb_business branch) (bb_id branch) (map of_id os) = Inr bs"
    "kept = List.map_filter (\<lambda>o'. case map_of_last (map (\<lambda>b. (bar_id b, bar_name b)) bs) (of_id o') of None \<Rightarrow> None
                   | Some n \<Rightarrow> Some (o'\<lparr>of_barber := (of_barber o')\<lparr>bar_name := n\<rparr>\<rparr>)) os"
    using assms(1) by (auto simp: stillThere_def Let_def split: sum.splits)
  then obtain o0 n where "map_of_last (map (\<lambda>b. (bar_id b, bar_name b)) bs) (of_id o0) = Some n" "of_id o' = of_id o0"
    using assms(2) by (auto simp: map_filter_def split: option.splits)
  then obtain b where "b \<in> set bs" "bar_id b = of_id o'" by (auto dest!: map_of_last_Some_in)
  then show thesis using that bs(1) by blast
qed

text \<open>C4: A customer's booking that commits is at a live shop: with booking's ports wired to the tables of business and
  catalog, after any requests to either, the branch was published and its business active, approved by
  somebody other than its owner; the barber is an active member who works at the branch; and every item
  is an active service of that branch which this barber performs, under the stored name, for the barber's own price
  and duration or else the service's.\<close>

theorem booked_at_a_live_shop:
  assumes "(any_step ports)\<^sup>*\<^sup>* empty_business_db bdb" "(catalog_step idText)\<^sup>*\<^sup>* empty_catalog cdb"
    and "BookHandlers_Book tx (wired_ports load bdb cdb windows) p' fresh db db' now cmd = (Inr (a, False), db'')"
  shows "\<exists>h w s. h \<in> set (bd_branches bdb) \<and> h_status h = ''published'' \<and> ap_branch a = ID (h_id h) \<and> ba_branch cmd = ap_branch a
    \<and> w \<in> set (bd_businesses bdb) \<and> w_id w = h_business h \<and> w_status w = ''active'' \<and> ap_business a = ID (w_id w)
    \<and> (\<exists>u. w_reviewed_by w = Some u \<and> u \<noteq> w_owner w)
    \<and> staff_of bdb (ap_business a) s \<and> ap_barber a = ID (f_id s) \<and> works_in bdb s (ap_branch a)
    \<and> map it_service (ap_items a) = ba_services cmd
    \<and> (\<forall>it \<in> set (ap_items a). \<exists>r \<in> set (cd_services cdb). \<exists>y \<in> set (cd_offerings cdb).
         it_service it = ID (x_id r) \<and> x_business r = w_id w \<and> x_branch r = h_id h \<and> x_active r
         \<and> y_service y = x_id r \<and> y_staff y = f_id s \<and> it_name it = \<lparr>lt_ar = x_name_ar r, lt_en = x_name_en r\<rparr>
         \<and> it_duration it = (case y_minutes y of None \<Rightarrow> x_minutes r | Some m \<Rightarrow> m) * minute
         \<and> it_price it = Halalas (case y_price_amount y of None \<Rightarrow> x_price_amount r | Some amount \<Rightarrow> amount))"
proof -
  let ?p = "wired_ports load bdb cdb windows"
  note D = tenants_okD [OF tenants_kept.steps_inv [OF assms(1) tenants_ok_empty]]
  have cok: "catalog_ok cdb" by (rule catalog_kept.steps_inv [OF assms(2) catalog_ok_empty])
  obtain branch menu offers assignment i where p: "p_bookable ?p (ba_branch cmd) = Inr branch"
    "p_menu ?p (bb_business branch) (bb_id branch) = Inr menu"
    "chosen_offers tx ?p branch menu (ba_services cmd) (ba_barber cmd) offers" "ap_barber a \<in> of_id ` set offers"
    "customer_draft fresh branch menu cmd assignment now i (ap_barber a) = Inr a"
    by (rule booked_parts [OF assms(3)])
  note c = customer_draft_Inr [OF p(5)]
  obtain h w where h: "h \<in> set (bd_branches bdb)" "h_status h = ''published''" "bb_id branch = ba_branch cmd" "ba_branch cmd = ID (h_id h)"
    and w: "bb_business branch = ID (w_id w)" "w \<in> set (bd_businesses bdb)" "w_id w = h_business h" "w_status w = ''active''"
    by (rule acl_Bookable_row [OF p(1) [unfolded wired_ports_def ports.select_convs]])
  have review: "\<exists>u. w_reviewed_by w = Some u \<and> u \<noteq> w_owner w"
    using businesses_okD(2) [OF D(1) w(2)] w(4) by (auto simp: reviewed_ok_def)
  obtain os os' where o: "stillThere ?p branch os = Inr os'" "set offers \<subseteq> set os'"
    using p(3) only_barber_Inr(1) unfolding chosen_offers_def by blast
  obtain o' where o': "o' \<in> set os'" "of_id o' = ap_barber a" using p(4) o(2) by auto
  obtain staff bs b where b: "p_barbers ?p (bb_business branch) (bb_id branch) staff = Inr bs" "b \<in> set bs" "bar_id b = of_id o'"
    by (rule stillThere_barber [OF o(1) o'(1)])
  obtain s where s: "staff_of bdb (bb_business branch) s" "bar_id b = ID (f_id s)" "works_in bdb s (bb_id branch)"
    by (rule acl_Barbers_row [OF b(1) [unfolded wired_ports_def ports.select_convs] b(2)])
  have barber: "ap_barber a = ID (f_id s)" using o'(2) b(3) s(2) by simp
  have menu: "menu = map (booking_item cdb) (filter x_active (services_by_branch cdb (bb_business branch) (bb_id branch)))"
    using p(2) acl_Menu_exact [OF cok] by (simp add: wired_ports_def)
  have items: "\<exists>r \<in> set (cd_services cdb). \<exists>y \<in> set (cd_offerings cdb).
         it_service it = ID (x_id r) \<and> x_business r = w_id w \<and> x_branch r = h_id h \<and> x_active r
         \<and> y_service y = x_id r \<and> y_staff y = f_id s \<and> it_name it = \<lparr>lt_ar = x_name_ar r, lt_en = x_name_en r\<rparr>
         \<and> it_duration it = (case y_minutes y of None \<Rightarrow> x_minutes r | Some m \<Rightarrow> m) * minute
         \<and> it_price it = Halalas (case y_price_amount y of None \<Rightarrow> x_price_amount r | Some amount \<Rightarrow> amount)"
    if it: "it \<in> set (ap_items a)" for it
  proof -
    obtain m q where m: "m \<in> set menu" "q \<in> set (mi_performers m)" "mi_id m = it_service it" "pf_staff q = ap_barber a"
      "it_name it = mi_name m" "it_duration it = pf_duration q" "it_price it = pf_price q"
      using itemsFor_Some(2) [OF c(7) it] by auto
    obtain r y where r: "r \<in> set (services_by_branch cdb (bb_business branch) (bb_id branch))" "x_active r" "m = booking_item cdb r"
      "y \<in> set (offers_of cdb r)" "q = menu_performer (performer_of r y)"
      using m(1,2) by (auto simp: menu booking_item_def)
    have "r \<in> set (cd_services cdb)" "x_business r = w_id w" "x_branch r = h_id h"
      using r(1) w(1) h(3,4) by (auto simp: services_by_branch_def)
    moreover have "y \<in> set (cd_offerings cdb)" "y_service y = x_id r" using r(4) by (auto simp: offers_of_def)
    moreover have "it_service it = ID (x_id r)" "it_name it = \<lparr>lt_ar = x_name_ar r, lt_en = x_name_en r\<rparr>" "y_staff y = f_id s"
      "it_duration it = (case y_minutes y of None \<Rightarrow> x_minutes r | Some m \<Rightarrow> m) * minute"
      "it_price it = Halalas (case y_price_amount y of None \<Rightarrow> x_price_amount r | Some amount \<Rightarrow> amount)"
      using m(3-7) barber by (simp_all add: r(3,5) booking_item_def menu_performer_def performer_of_def)
    ultimately show ?thesis using r(2) by blast
  qed
  have "ap_branch a = ID (h_id h)" "ap_business a = ID (w_id w)" "ba_branch cmd = ap_branch a" using c(2,3) h(3,4) w(1) by simp_all
  moreover have "map it_service (ap_items a) = ba_services cmd" by (rule itemsFor_Some(1) [OF c(7)])
  ultimately show ?thesis using h(1,2) w(2-4) review s barber items c(2,3) by (intro exI [of _ h] exI [of _ w] exI [of _ s]) simp
qed

section \<open>Publishing a branch\<close>

definition scheduled :: "scheduling_db \<Rightarrow> BusinessID \<Rightarrow> BranchID \<Rightarrow> StaffID \<Rightarrow> bool" where
  "scheduled sdb business branch staff \<longleftrightarrow>
     (case Schedules_Get sdb business branch staff of Inl _ \<Rightarrow> False | Inr s \<Rightarrow> \<not> IsClosed (bs_weekly s))"

lemma Readiness_exact:
  assumes "wf_sd sdb"
  obtains cal where "Calendars_Get sdb business branch = Inr cal"
    "ScheduleApp.Readiness sdb business branch staff = Inr (\<not> IsClosed (bc_hours cal), filter (scheduled sdb business branch) staff)"
proof -
  let ?f = "\<lambda>out s. case Schedules_Get sdb business branch s of Inl e \<Rightarrow> Inl e
                | Inr schedule \<Rightarrow> Inr (if IsClosed (bs_weekly schedule) then out else out @ [s])"
  have "fold_result ?f out staff = Inr (out @ filter (scheduled sdb business branch) staff)" for out
  proof (induction staff arbitrary: out)
    case (Cons s staff)
    obtain sch where "Schedules_Get sdb business branch s = Inr sch" using Schedules_Get_ok [OF assms] by blast
    then show ?case using Cons by (simp add: scheduled_def)
  qed simp
  from this [of "[]"] show thesis using that Calendars_Get_ok [OF assms, of business branch] by (auto simp: ScheduleApp.Readiness_def)
qed

lemma PerformingStaff_exact:
  assumes "catalog_ok cdb"
  obtains staff where "PerformingStaff idText cdb business branch = Inr staff"
    "set staff = {ID (y_staff y) |r y. r \<in> set (services_by_branch cdb business branch) \<and> x_active r \<and> y \<in> set (offers_of cdb r)}"
proof -
  have r: "readable_service r" if "r \<in> set (services_by_branch cdb business branch)" for r
    using catalog_okD(2) [OF assms] that by (auto simp: services_by_branch_def)
  let ?rows = "services_by_branch cdb business branch"
  have active: "filter sv_active (map (service_of_row cdb) ?rows) = map (service_of_row cdb) (filter x_active ?rows)"
    using r by (auto simp: filter_map comp_def intro!: arg_cong [where f = "map _"] filter_cong)
  have "map oo_staff (sv_offerings (service_of_row cdb q)) = map (\<lambda>y. ID (y_staff y)) (offers_of cdb q)" if "q \<in> set ?rows" for q
    using r [OF that] by (simp add: offering_of_row_def)
  then have "map (\<lambda>s. map oo_staff (sv_offerings s)) (filter sv_active (map (service_of_row cdb) ?rows))
      = map (\<lambda>q. map (\<lambda>y. ID (y_staff y)) (offers_of cdb q)) (filter x_active ?rows)" unfolding active by simp
  moreover have "set (concat (map (\<lambda>q. map (\<lambda>y. ID (y_staff y)) (offers_of cdb q)) (filter x_active ?rows)))
      = {ID (y_staff y) |r y. r \<in> set ?rows \<and> x_active r \<and> y \<in> set (offers_of cdb r)}" by auto
  ultimately show thesis using that by (simp add: PerformingStaff_def services_list_exact [OF assms])
qed

lemma authorize_row:
  assumes "authorize bdb actor business need = Inr k"
  obtains s where "staff_of bdb business s" "f_user s = Some (id_value actor)" "role_text (st_role k) = f_role s" "rank need \<le> rank (st_role k)"
proof -
  have m: "Staff_Membership bdb business actor = Inr k" "st_active k" "rank need \<le> rank (st_role k)"
    using assms by (auto simp: authorize_def Authorize_def split: sum.splits if_splits option.splits)
  obtain s where s: "s \<in> set (bd_staff bdb)" "f_business s = id_value business" "f_user s = Some (id_value actor)"
    "toStaffMember s (branch_ids_of bdb s) = Inr k" by (rule Staff_Membership_Inr [OF m(1)])
  then show thesis using that [of s] m(2,3) toStaffMember_Inr(2,3) [OF s(4)] by (simp add: staff_of_def)
qed

text \<open>C27: Only the owner publishes a branch, and only one that could take a booking: with catalog and scheduling behind
  the readiness check, when publishing succeeds the branch has opening hours, and one of its active
  services is performed by somebody with a weekly schedule at that branch.\<close>

theorem published_branch_can_be_booked:
  assumes "(catalog_step idText)\<^sup>*\<^sup>* empty_catalog cdb" "sd_step\<^sup>*\<^sup>* empty_sd sdb" "px_readiness ports = branchReadiness idText cdb sdb"
    and "fst (BranchHandlers_Publish ports now others cmd bdb) = Inr b"
  shows "(\<exists>s. staff_of bdb (sc_business cmd) s \<and> f_user s = Some (id_value (sc_actor cmd)) \<and> f_role s = ''owner'')
    \<and> (\<exists>cal. Calendars_Get sdb (sc_business cmd) (sc_branch cmd) = Inr cal \<and> \<not> IsClosed (bc_hours cal))
    \<and> (\<exists>r \<in> set (cd_services cdb). \<exists>y \<in> set (cd_offerings cdb). x_business r = id_value (sc_business cmd)
         \<and> x_branch r = id_value (sc_branch cmd) \<and> x_active r \<and> y_service y = x_id r
         \<and> scheduled sdb (sc_business cmd) (sc_branch cmd) (ID (y_staff y)))"
proof -
  have cok: "catalog_ok cdb" by (rule catalog_kept.steps_inv [OF assms(1) catalog_ok_empty])
  have wf: "wf_sd sdb" by (rule sd_steps_wf [OF assms(2) wf_empty_sd])
  obtain k status ready where h: "authorize bdb (sc_actor cmd) (sc_business cmd) Business.RoleOwner = Inr k"
    "px_readiness ports (sc_business cmd) (sc_branch cmd) = Inr ready"
    "fst (change_status cmd (\<lambda>b. Publish b status ready now) (others 1 (others 0 bdb))) = Inr b"
    using assms(4) by (auto simp: BranchHandlers_Publish_def Let_def split: sum.splits)
  obtain b0 where "Publish b0 status ready now = Inr b"
    using h(3) by (auto simp: change_status_def Branches_Update_def commit_def split: sum.splits option.splits if_splits prod.splits)
  then have ready: "bd_openingHours ready" "bd_bookableBarber ready" by (auto simp: Publish_def missing_def split: if_splits)
  obtain staff where staff: "PerformingStaff idText cdb (sc_business cmd) (sc_branch cmd) = Inr staff"
    "set staff = {ID (y_staff y) |r y. r \<in> set (services_by_branch cdb (sc_business cmd) (sc_branch cmd)) \<and> x_active r \<and> y \<in> set (offers_of cdb r)}"
    by (rule PerformingStaff_exact [OF cok])
  obtain cal where cal: "Calendars_Get sdb (sc_business cmd) (sc_branch cmd) = Inr cal"
    "ScheduleApp.Readiness sdb (sc_business cmd) (sc_branch cmd) staff
      = Inr (\<not> IsClosed (bc_hours cal), filter (scheduled sdb (sc_business cmd) (sc_branch cmd)) staff)"
    by (rule Readiness_exact [OF wf])
  have r: "bd_openingHours ready = (\<not> IsClosed (bc_hours cal))"
    "bd_bookableBarber ready = (filter (scheduled sdb (sc_business cmd) (sc_branch cmd)) staff \<noteq> [])"
    using h(2) unfolding assms(3) branchReadiness_def staff(1) sum.case cal(2) by auto
  obtain t where "t \<in> set staff" "scheduled sdb (sc_business cmd) (sc_branch cmd) t" using ready(2) r(2) by (auto simp: filter_empty_conv)
  then obtain q y where "q \<in> set (services_by_branch cdb (sc_business cmd) (sc_branch cmd))" "x_active q" "y \<in> set (offers_of cdb q)"
    "scheduled sdb (sc_business cmd) (sc_branch cmd) (ID (y_staff y))" using staff(2) by auto
  moreover obtain s where s: "staff_of bdb (sc_business cmd) s" "f_user s = Some (id_value (sc_actor cmd))"
    "role_text (st_role k) = f_role s" "rank Business.RoleOwner \<le> rank (st_role k)" by (rule authorize_row [OF h(1)])
  moreover have "f_role s = ''owner''" using s(3,4) by (cases "st_role k") auto
  ultimately show ?thesis using cal(1) ready(1) r(1) by (auto simp: services_by_branch_def offers_of_def)
qed

section \<open>Who may change a menu\<close>




section \<open>A run\<close>

definition open_shop :: business_db where
  "open_shop = snd (Branches_Update with_barber (ID 10) (ID 30) 1
     (\<lambda>b. Publish b Business.StatusActive \<lparr>bd_openingHours = True, bd_offeredService = True, bd_bookableBarber = True\<rparr> hour))"

lemma open_shop_reached: "(any_step TenantFacts.sample_ports)\<^sup>*\<^sup>* empty_business_db open_shop"
  unfolding open_shop_def by (rule into_run [OF sample_reached business_step.publish])

definition shop_ports :: ports where
  "shop_ports = wired_ports (px_zones TenantFacts.sample_ports) open_shop staffed
     (\<lambda>_ _ _ _ _. Inr (\<lambda>_. [\<lparr>ivl_start = 0, ivl_end = 18 * hour\<rparr>]))"

definition shop_booking :: BookAppointment where
  "shop_booking = \<lparr>ba_customer = ID 4, ba_key = 77, ba_branch = ID 30, ba_start = 3 * hour, ba_services = [ID 70],
     ba_barber = Some (ID 60), ba_note = []\<rparr>"

definition shop_access :: access where
  "shop_access = business_access (px_zones TenantFacts.sample_ports) with_barber"

definition shop_sd :: scheduling_db where
  "shop_sd = snd (SetSchedule shop_access sample_visit
     (snd (SetOpeningHours shop_access empty_sd 0
       \<lparr>br_actor = ID 1, br_business = ID 10, br_branch = ID 30, so_expectedVersion = 0, so_intervals = thursday\<rparr>)) 0
     (sample_set\<lparr>br_actor := ID 7, br_business := ID 10, br_branch := ID 30, sf_staff := ID 60, ss_weekly := thursday\<rparr>))"

lemma shop_sd_reached: "sd_step\<^sup>*\<^sup>* empty_sd shop_sd"
proof -
  let ?open = "snd (SetOpeningHours shop_access empty_sd 0
       \<lparr>br_actor = ID 1, br_business = ID 10, br_branch = ID 30, so_expectedVersion = 0, so_intervals = thursday\<rparr>)"
  have "sd_step empty_sd ?open" by (rule sd_step.hours)
  moreover have "sd_step ?open shop_sd" unfolding shop_sd_def by (rule sd_step.schedule) (use sample_visits in simp)
  ultimately show ?thesis by (meson rtranclp.rtrancl_into_rtrancl rtranclp.rtrancl_refl)
qed

definition ready_ports :: business_ports where
  "ready_ports = TenantFacts.sample_ports\<lparr>px_readiness := branchReadiness unary staffed shop_sd\<rparr>"

definition publish_cmd :: BranchStatusChange where
  "publish_cmd = \<lparr>sc_actor = ID 1, sc_business = ID 10, sc_branch = ID 30, sc_expectedVersion = 1\<rparr>"


theorem published_branch_can_be_booked_witness:
  "\<exists>r y. r \<in> set (cd_services staffed) \<and> y \<in> set (cd_offerings staffed) \<and> x_branch r = 30 \<and> y_service y = x_id r
     \<and> scheduled shop_sd (ID 10) (ID 30) (ID (y_staff y))"
proof -
  have "is_ok (fst (BranchHandlers_Publish ready_ports hour (\<lambda>_ d. d) publish_cmd with_barber))" by code_simp
  then obtain b where b: "fst (BranchHandlers_Publish ready_ports hour (\<lambda>_ d. d) publish_cmd with_barber) = Inr b" by (auto simp: is_ok_iff)
  have p: "px_readiness ready_ports = branchReadiness unary staffed shop_sd" by (simp add: ready_ports_def)
  have c: "sc_branch publish_cmd = ID 30" "sc_business publish_cmd = ID 10" by (simp_all add: publish_cmd_def)
  show ?thesis using published_branch_can_be_booked [OF staffed_reached shop_sd_reached p b] unfolding c id.sel by blast
qed


lemma shop_booking_ok: "(case fst (BookHandlers_Book sample_texts shop_ports shop_ports (\<lambda>n. ID 80) empty_db empty_db 0 shop_booking) of
     Inl _ \<Rightarrow> True | Inr (a, r) \<Rightarrow> r) = False"
  by code_simp

theorem booked_at_a_live_shop_witness:
  "\<exists>a db' w s. BookHandlers_Book sample_texts shop_ports shop_ports (\<lambda>n. ID 80) empty_db empty_db 0 shop_booking = (Inr (a, False), db')
     \<and> w \<in> set (bd_businesses open_shop) \<and> w_status w = ''active'' \<and> staff_of open_shop (ap_business a) s \<and> ap_barber a = ID (f_id s)
     \<and> map it_service (ap_items a) = [ID 70]"
proof -
  let ?r = "BookHandlers_Book sample_texts shop_ports shop_ports (\<lambda>n. ID 80) empty_db empty_db 0 shop_booking"
  obtain a where "fst ?r = Inr (a, False)" using shop_booking_ok by (auto split: sum.splits)
  then have r: "?r = (Inr (a, False), snd ?r)" by (metis prod.collapse)
  have s: "ba_services shop_booking = [ID 70]" by (simp add: shop_booking_def)
  show ?thesis using booked_at_a_live_shop [OF open_shop_reached staffed_reached r [unfolded shop_ports_def]] r s
    unfolding shop_ports_def by metis
qed

end
