(* ===== verification/Discovery.thy ===== *)
theory Discovery
  imports GoTime Shared "HOL-Library.Product_Lexorder"
begin

text \<open>
  \<open>internal/discovery\<close>: the copies of branches, services and opening hours that customers browse
  (\<open>domain/listing.go\<close>, \<open>domain/normalize.go\<close>), their tables (migrations 00021 to 00026) and the
  statements over them (\<open>adapters/postgres\<close>), the use cases (\<open>app/app.go\<close>) and the module's face
  (\<open>module.go\<close>). Distances (PostGIS) and the similarity of names (\<open>pg_trgm\<close>) are not the program's own:
  the two searches that sort by them are arguments of \<open>Search\<close>. So are the character classes of
  Go's \<open>unicode\<close> tables and the time zones of the database, which knows every zone a branch can have.
\<close>

section \<open>Copies\<close>

record Listing =
  li_branch :: BranchID
  li_business :: BusinessID
  li_version :: int
  li_listed :: bool
  li_name :: LocalizedText
  li_city :: City
  li_district :: string
  li_address :: string
  li_location :: GeoPoint
  li_phone :: string
  li_timezone :: string
  li_updatedAt :: gotime

record ListedService =
  ls_service :: ServiceID
  ls_branch :: BranchID
  ls_business :: BusinessID
  ls_version :: int
  ls_offered :: bool
  ls_category :: Category
  ls_name :: LocalizedText
  ls_duration :: duration
  ls_priceFrom :: Money
  ls_sortOrder :: int
  ls_updatedAt :: gotime

record WeekCopy =
  oh_branch :: BranchID
  oh_business :: BusinessID
  oh_version :: int
  oh_open :: "(int \<times> int) list"
  oh_updatedAt :: gotime

definition WeekMinutes :: int where "WeekMinutes = 7 * 24 * 60"
definition PageSize :: nat where "PageSize = 20"
definition MaxRadiusKm :: rat where "MaxRadiusKm = 50"

datatype discovery_error =
    ErrNoPlace | ErrRadius | ErrQueryTooShort | ErrNotSAR | ErrBadHours | ErrNotFound
  | Invalid shared_error | Fault

section \<open>Searchable text\<close>

text \<open>What \<open>normalize.go\<close> asks of Go's \<open>unicode\<close> package, for a code point.\<close>

record unicode =
  un_mark :: "int \<Rightarrow> bool"
  un_letter :: "int \<Rightarrow> bool"
  un_digit :: "int \<Rightarrow> bool"
  un_lower :: "int \<Rightarrow> int"

text \<open>The UTF-8 encoding that \<open>WriteRune\<close> appends.\<close>

definition write_rune :: "int \<Rightarrow> string" where
  "write_rune r =
     map char_of
       (if 0 \<le> r \<and> r < 128 then [r]
        else if 0 \<le> r \<and> r < 2048 then [192 + r div 64, 128 + r mod 64]
        else if r < 0 \<or> 1114111 < r \<or> (55296 \<le> r \<and> r \<le> 57343) then [239, 191, 189]
        else if r < 65536 then [224 + r div 4096, 128 + r div 64 mod 64, 128 + r mod 64]
        else [240 + r div 262144, 128 + r div 4096 mod 64, 128 + r div 64 mod 64, 128 + r mod 64])"

definition MinQueryLen :: int where "MinQueryLen = 2"
definition tatweel :: int where "tatweel = 1600"

definition fold_letter :: "unicode \<Rightarrow> int \<Rightarrow> int" where
  "fold_letter u r =
     (if r \<in> set [1571, 1573, 1570, 1649] then 1575
      else if r = 1609 then 1610
      else if r = 1577 then 1607
      else un_lower u r)"

text \<open>The loop of \<open>Normalize\<close>: \<open>gap\<close> says that a separator is waiting for the next word.\<close>

fun normalize_runes :: "unicode \<Rightarrow> bool \<Rightarrow> string \<Rightarrow> (int \<times> string) list \<Rightarrow> string" where
  "normalize_runes u gap b [] = b"
| "normalize_runes u gap b ((r, _) # rs) =
     (if un_mark u r \<or> r = tatweel then normalize_runes u gap b rs
      else if un_letter u r \<or> un_digit u r
      then normalize_runes u False ((if gap \<and> b \<noteq> [] then b @ '' '' else b) @ write_rune (fold_letter u r)) rs
      else normalize_runes u True b rs)"

definition Normalize :: "unicode \<Rightarrow> string \<Rightarrow> string" where
  "Normalize u s = normalize_runes u False [] (runes s)"

definition SearchText :: "unicode \<Rightarrow> LocalizedText \<Rightarrow> string" where
  "SearchText u name = trim_space (Normalize u (lt_ar name) @ '' '' @ Normalize u (lt_en name))"

definition ParseQuery :: "unicode \<Rightarrow> string \<Rightarrow> (discovery_error, string) result" where
  "ParseQuery u q =
     (let n = Normalize u q in if rune_count n < MinQueryLen then Inl ErrQueryTooShort else Inr n)"

section \<open>Tables\<close>

record listing_row =
  g_branch :: uuid
  g_business :: uuid
  g_version :: int
  g_listed :: bool
  g_name_ar :: string
  g_name_en :: string
  g_city :: string
  g_district :: string
  g_address :: string
  g_lat :: float64
  g_lng :: float64
  g_phone :: string
  g_timezone :: string
  g_updated_at :: gotime
  g_search_text :: string

record listed_service_row =
  k_service :: uuid
  k_branch :: uuid
  k_business :: uuid
  k_version :: int
  k_offered :: bool
  k_category :: string
  k_price_from :: int
  k_updated_at :: gotime
  k_name_ar :: string
  k_name_en :: string
  k_minutes :: int
  k_sort_order :: int

record branch_hours_row =
  o_branch :: uuid
  o_business :: uuid
  o_version :: int
  o_open :: "(int \<times> int) list"
  o_updated_at :: gotime

record discovery_db =
  dd_listings :: "listing_row list"
  dd_services :: "listed_service_row list"
  dd_hours :: "branch_hours_row list"

definition empty_discovery :: discovery_db where
  "empty_discovery = \<lparr>dd_listings = [], dd_services = [], dd_hours = []\<rparr>"

definition coordinate_ok :: "rat \<Rightarrow> float64 \<Rightarrow> bool" where
  "coordinate_ok bound f = (case f of Fin x \<Rightarrow> - bound \<le> x \<and> x \<le> bound | _ \<Rightarrow> False)"

definition listing_ok :: "listing_row \<Rightarrow> bool" where
  "listing_ok r \<longleftrightarrow> 0 < g_version r \<and> g_name_ar r \<noteq> [] \<and> coordinate_ok 90 (g_lat r) \<and> coordinate_ok 180 (g_lng r)"

definition listed_service_ok :: "listed_service_row \<Rightarrow> bool" where
  "listed_service_ok r \<longleftrightarrow> 0 < k_version r \<and> 0 \<le> k_price_from r \<and> 0 \<le> k_minutes r"

text \<open>The multirange \<open>open\<close> is the union of the pairs in \<open>o_open\<close>, which is also the JSON of \<open>intervals\<close>.\<close>

definition branch_hours_ok :: "branch_hours_row \<Rightarrow> bool" where
  "branch_hours_ok r \<longleftrightarrow> 0 < o_version r \<and> list_all (\<lambda>(a, b). 0 \<le> a \<and> b \<le> 2 * 10080) (o_open r)"

text \<open>\<open>INSERT ... ON CONFLICT DO UPDATE ... WHERE version < excluded.version\<close>: the same in the three tables.
  The answer says whether a row was written.\<close>

definition keep_newest :: "('r \<Rightarrow> uuid) \<Rightarrow> ('r \<Rightarrow> int) \<Rightarrow> 'r \<Rightarrow> 'r list \<Rightarrow> bool \<times> 'r list" where
  "keep_newest key version row rows =
     (case find_first (\<lambda>r. key r = key row) rows of
        None \<Rightarrow> (True, rows @ [row])
      | Some old \<Rightarrow>
          if version old < version row then (True, map (\<lambda>r. if key r = key row then row else r) rows)
          else (False, rows))"

section \<open>Keeping the copies\<close>

definition disc_toInt32 :: "int \<Rightarrow> (discovery_error, int) result" where
  "disc_toInt32 n = (if n < - 2147483648 \<or> 2147483647 < n then Inl Fault else Inr n)"

definition Listings_Keep :: "unicode \<Rightarrow> Listing \<Rightarrow> discovery_db \<Rightarrow> (discovery_error, bool) result \<times> discovery_db" where
  "Listings_Keep u l db =
     (case disc_toInt32 (li_version l) of Inl e \<Rightarrow> (Inl e, db)
      | Inr version \<Rightarrow>
          let row = \<lparr>g_branch = id_value (li_branch l), g_business = id_value (li_business l), g_version = version,
                g_listed = li_listed l, g_name_ar = lt_ar (li_name l), g_name_en = lt_en (li_name l), g_city = city_code (li_city l),
                g_district = li_district l, g_address = li_address l, g_lat = geo_lat (li_location l), g_lng = geo_lng (li_location l),
                g_phone = li_phone l, g_timezone = li_timezone l, g_updated_at = db_time (li_updatedAt l),
                g_search_text = SearchText u (li_name l)\<rparr>
          in if \<not> listing_ok row then (Inl Fault, db)
          else case keep_newest g_branch g_version row (dd_listings db) of (saved, rows) \<Rightarrow> (Inr saved, db\<lparr>dd_listings := rows\<rparr>))"

definition Listings_KeepService :: "ListedService \<Rightarrow> discovery_db \<Rightarrow> (discovery_error, bool) result \<times> discovery_db" where
  "Listings_KeepService s db =
     (if m_currency (ls_priceFrom s) \<noteq> SAR then (Inl ErrNotSAR, db)
      else case disc_toInt32 (ls_version s) of Inl e \<Rightarrow> (Inl e, db)
      | Inr version \<Rightarrow>
      (case disc_toInt32 (go_div (ls_duration s) minute) of Inl e \<Rightarrow> (Inl e, db)
      | Inr minutes \<Rightarrow>
      (case disc_toInt32 (ls_sortOrder s) of Inl e \<Rightarrow> (Inl e, db)
      | Inr place \<Rightarrow>
          let row = \<lparr>k_service = id_value (ls_service s), k_branch = id_value (ls_branch s), k_business = id_value (ls_business s),
                k_version = version, k_offered = ls_offered s, k_category = cat_code (ls_category s),
                k_price_from = sint (m_amount (ls_priceFrom s)), k_updated_at = db_time (ls_updatedAt s),
                k_name_ar = lt_ar (ls_name s), k_name_en = lt_en (ls_name s), k_minutes = minutes, k_sort_order = place\<rparr>
          in if \<not> listed_service_ok row then (Inl Fault, db)
          else case keep_newest k_service k_version row (dd_services db) of (saved, rows) \<Rightarrow> (Inr saved, db\<lparr>dd_services := rows\<rparr>))))"

definition Listings_KeepHours :: "WeekCopy \<Rightarrow> discovery_db \<Rightarrow> (discovery_error, bool) result \<times> discovery_db" where
  "Listings_KeepHours h db =
     (if list_ex (\<lambda>(a, b). a < 0 \<or> b \<le> a \<or> 2 * WeekMinutes < b) (oh_open h) then (Inl ErrBadHours, db)
      else case disc_toInt32 (oh_version h) of Inl e \<Rightarrow> (Inl e, db)
      | Inr version \<Rightarrow>
          let row = \<lparr>o_branch = id_value (oh_branch h), o_business = id_value (oh_business h), o_version = version,
                o_open = oh_open h, o_updated_at = db_time (oh_updatedAt h)\<rparr>
          in if \<not> branch_hours_ok row then (Inl Fault, db)
          else case keep_newest o_branch o_version row (dd_hours db) of (saved, rows) \<Rightarrow> (Inr saved, db\<lparr>dd_hours := rows\<rparr>))"

text \<open>The use cases return only the error.\<close>

definition failed :: "(discovery_error, bool) result \<times> discovery_db \<Rightarrow> discovery_error option \<times> discovery_db" where
  "failed r = (case r of (Inl e, db) \<Rightarrow> (Some e, db) | (Inr _, db) \<Rightarrow> (None, db))"

definition Handlers_Keep :: "unicode \<Rightarrow> Listing \<Rightarrow> discovery_db \<Rightarrow> discovery_error option \<times> discovery_db" where
  "Handlers_Keep u l db = failed (Listings_Keep u l db)"

definition Handlers_KeepService :: "ListedService \<Rightarrow> discovery_db \<Rightarrow> discovery_error option \<times> discovery_db" where
  "Handlers_KeepService s db = failed (Listings_KeepService s db)"

definition Handlers_KeepHours :: "WeekCopy \<Rightarrow> discovery_db \<Rightarrow> discovery_error option \<times> discovery_db" where
  "Handlers_KeepHours h db = failed (Listings_KeepHours h db)"

text \<open>A branch as business's events describe it.\<close>

record BranchNews =
  bw_business :: BusinessID
  bw_branch :: BranchID
  bw_version :: int
  bw_published :: bool
  bw_name :: LocalizedText
  bw_city :: string
  bw_district :: string
  bw_address :: string
  bw_location :: GeoPoint
  bw_phone :: string
  bw_timezone :: string
  bw_at :: gotime

definition KeepBranch :: "unicode \<Rightarrow> BranchNews \<Rightarrow> discovery_db \<Rightarrow> discovery_error option \<times> discovery_db" where
  "KeepBranch u b db =
     (case ParseCity (bw_city b) of Inl e \<Rightarrow> (Some (Invalid e), db)
      | Inr c \<Rightarrow> Handlers_Keep u
          \<lparr>li_branch = bw_branch b, li_business = bw_business b, li_version = bw_version b, li_listed = bw_published b,
           li_name = bw_name b, li_city = c, li_district = bw_district b, li_address = bw_address b, li_location = bw_location b,
           li_phone = bw_phone b, li_timezone = bw_timezone b, li_updatedAt = bw_at b\<rparr> db)"

record ServiceNews =
  vw_business :: BusinessID
  vw_branch :: BranchID
  vw_service :: ServiceID
  vw_version :: int
  vw_offered :: bool
  vw_category :: string
  vw_name :: LocalizedText
  vw_duration :: duration
  vw_priceFrom :: Money
  vw_sortOrder :: int
  vw_at :: gotime

definition KeepService :: "ServiceNews \<Rightarrow> discovery_db \<Rightarrow> discovery_error option \<times> discovery_db" where
  "KeepService s db =
     (case ParseCategory (vw_category s) of Inl e \<Rightarrow> (Some (Invalid e), db)
      | Inr c \<Rightarrow> Handlers_KeepService
          \<lparr>ls_service = vw_service s, ls_branch = vw_branch s, ls_business = vw_business s, ls_version = vw_version s,
           ls_offered = vw_offered s, ls_category = c, ls_name = vw_name s, ls_duration = vw_duration s,
           ls_priceFrom = vw_priceFrom s, ls_sortOrder = vw_sortOrder s, ls_updatedAt = vw_at s\<rparr> db)"

section \<open>Browsing\<close>

text \<open>\<open>discovery.open_at\<close> of migration 00025.\<close>

definition open_at_minute :: "(int \<times> int) list \<Rightarrow> int \<Rightarrow> bool" where
  "open_at_minute week m \<longleftrightarrow> list_ex (\<lambda>(a, b). a \<le> m \<and> m < b) week \<or> list_ex (\<lambda>(a, b). a \<le> m + 10080 \<and> m + 10080 < b) week"

definition minute_of_week :: "location \<Rightarrow> gotime \<Rightarrow> int" where
  "minute_of_week loc t = weekday_of_days (local_days loc t) * 1440 + clock_hour loc t * 60 + clock_minute loc t"

definition open_now :: "(string \<Rightarrow> location) \<Rightarrow> discovery_db \<Rightarrow> gotime \<Rightarrow> listing_row \<Rightarrow> bool" where
  "open_now zone db now l =
     (case find_first (\<lambda>h. o_branch h = g_branch l) (dd_hours db) of None \<Rightarrow> False
      | Some h \<Rightarrow> open_at_minute (o_open h) (minute_of_week (zone (g_timezone l)) now))"

definition offered_at :: "discovery_db \<Rightarrow> string option \<Rightarrow> uuid \<Rightarrow> listed_service_row list" where
  "offered_at db code branch =
     filter (\<lambda>s. k_branch s = branch \<and> k_offered s \<and> (case code of None \<Rightarrow> True | Some c \<Rightarrow> k_category s = c)) (dd_services db)"

definition least_price :: "listed_service_row list \<Rightarrow> int" where
  "least_price ss = foldl (\<lambda>m s. min m (k_price_from s)) (k_price_from (hd ss)) (tl ss)"

record Found = Listing +
  fo_priceFrom :: Money
  fo_openNow :: bool
  fo_distanceM :: rat
  fo_score :: rat

record Position =
  po_nameAr :: string
  po_distanceM :: rat
  po_score :: rat
  po_branch :: BranchID

record Filter =
  fl_city :: "City option"
  fl_text :: string
  fl_category :: "Category option"
  fl_openNow :: bool
  fl_at :: gotime

definition ListingsInCity ::
  "(string \<Rightarrow> location) \<Rightarrow> discovery_db \<Rightarrow> string \<Rightarrow> string option \<Rightarrow> gotime \<Rightarrow> bool \<Rightarrow> (string \<times> uuid) option \<Rightarrow> nat
   \<Rightarrow> (listing_row \<times> int \<times> bool) list" where
  "ListingsInCity zone db place code now openOnly after limit =
     map (\<lambda>l. (l, least_price (offered_at db code (g_branch l)), open_now zone db now l))
      (take limit (sort_key (\<lambda>l. (g_name_ar l, g_branch l))
        (filter (\<lambda>l. g_listed l \<and> g_city l = place \<and> (\<not> openOnly \<or> open_now zone db now l)
             \<and> offered_at db code (g_branch l) \<noteq> [] \<and> (case after of None \<Rightarrow> True | Some p \<Rightarrow> p < (g_name_ar l, g_branch l)))
          (dd_listings db))))"

definition toListing :: "listing_row \<Rightarrow> (discovery_error, Listing) result" where
  "toListing r =
     (case NewLocalizedText (g_name_ar r) (g_name_en r) of Inl e \<Rightarrow> Inl (Invalid e)
      | Inr name \<Rightarrow>
      (case ParseCity (g_city r) of Inl e \<Rightarrow> Inl (Invalid e)
      | Inr c \<Rightarrow>
      (case NewGeoPoint (g_lat r) (g_lng r) of Inl e \<Rightarrow> Inl (Invalid e)
      | Inr loc \<Rightarrow>
          Inr \<lparr>li_branch = IDFromUUID (g_branch r), li_business = IDFromUUID (g_business r), li_version = g_version r,
            li_listed = g_listed r, li_name = name, li_city = c, li_district = g_district r, li_address = g_address r,
            li_location = loc, li_phone = g_phone r, li_timezone = g_timezone r, li_updatedAt = g_updated_at r\<rparr>)))"

definition toFound :: "listing_row \<times> int \<times> bool \<Rightarrow> (discovery_error, Found) result" where
  "toFound r =
     (case r of (row, price, open') \<Rightarrow>
      (case toListing row of Inl e \<Rightarrow> Inl e
       | Inr l \<Rightarrow> Inr (Listing.extend l \<lparr>fo_priceFrom = Halalas (of_int price), fo_openNow = open', fo_distanceM = 0, fo_score = 0\<rparr>)))"

definition InCity ::
  "(string \<Rightarrow> location) \<Rightarrow> discovery_db \<Rightarrow> Filter \<Rightarrow> Position option \<Rightarrow> nat \<Rightarrow> (discovery_error, Found list) result" where
  "InCity zone db f after limit =
     (case fl_city f of None \<Rightarrow> Inl Fault
      | Some c \<Rightarrow>
      (case disc_toInt32 (int limit) of Inl e \<Rightarrow> Inl e
      | Inr n \<Rightarrow>
          each toFound (ListingsInCity zone db (city_code c) (map_option cat_code (fl_category f)) (fl_at f) (fl_openNow f)
            (map_option (\<lambda>p. (po_nameAr p, id_value (po_branch p))) after) (nat n))))"

record MenuEntry =
  mt_service :: ServiceID
  mt_category :: Category
  mt_name :: LocalizedText
  mt_duration :: duration
  mt_priceFrom :: Money

definition toMenuItem :: "listed_service_row \<Rightarrow> (discovery_error, MenuEntry) result" where
  "toMenuItem r =
     (case ParseCategory (k_category r) of Inl e \<Rightarrow> Inl (Invalid e)
      | Inr c \<Rightarrow>
      (case NewLocalizedText (k_name_ar r) (k_name_en r) of Inl e \<Rightarrow> Inl (Invalid e)
      | Inr name \<Rightarrow> Inr \<lparr>mt_service = IDFromUUID (k_service r), mt_category = c, mt_name = name,
          mt_duration = k_minutes r * minute, mt_priceFrom = Halalas (of_int (k_price_from r))\<rparr>))"

record BranchPage =
  pg_found :: Found
  pg_hours :: "(int \<times> int) list"
  pg_menu :: "MenuEntry list"

definition Listings_Page :: "(string \<Rightarrow> location) \<Rightarrow> discovery_db \<Rightarrow> BranchID \<Rightarrow> gotime \<Rightarrow> (discovery_error, BranchPage) result" where
  "Listings_Page zone db branch now =
     (case find_first (\<lambda>l. g_branch l = id_value branch \<and> g_listed l \<and> offered_at db None (g_branch l) \<noteq> []) (dd_listings db) of
        None \<Rightarrow> Inl ErrNotFound
      | Some l \<Rightarrow>
          let menu = sort_key (\<lambda>s. (k_sort_order s, k_name_ar s, k_service s)) (offered_at db None (id_value branch)) in
          (case toFound (l, least_price (offered_at db None (g_branch l)), open_now zone db now l) of Inl e \<Rightarrow> Inl e
           | Inr f \<Rightarrow>
           (case each toMenuItem menu of Inl e \<Rightarrow> Inl e
            | Inr items \<Rightarrow>
                Inr \<lparr>pg_found = f,
                  pg_hours = (case find_first (\<lambda>h. o_branch h = g_branch l) (dd_hours db) of None \<Rightarrow> [] | Some h \<Rightarrow> o_open h),
                  pg_menu = items\<rparr>)))"

section \<open>Searching\<close>

record Near =
  nr_point :: GeoPoint
  nr_radiusM :: rat

record Search =
  se_city :: "City option"
  se_near :: "Near option"
  se_text :: string
  se_category :: "Category option"
  se_openNow :: bool

datatype Order = ByName | ByDistance | ByMatch

definition Search_Order :: "Search \<Rightarrow> Order" where
  "Search_Order s = (if se_near s \<noteq> None then ByDistance else if se_text s \<noteq> [] then ByMatch else ByName)"

record SearchPage =
  sp_found :: "Found list"
  sp_next :: "Position option"

text \<open>The two searches sorted by what PostGIS and \<open>pg_trgm\<close> compute.\<close>

record ranked =
  rk_near :: "discovery_db \<Rightarrow> Near \<Rightarrow> Filter \<Rightarrow> Position option \<Rightarrow> nat \<Rightarrow> (discovery_error, Found list) result"
  rk_matching :: "discovery_db \<Rightarrow> Filter \<Rightarrow> Position option \<Rightarrow> nat \<Rightarrow> (discovery_error, Found list) result"

definition next_position :: "Order \<Rightarrow> Found \<Rightarrow> Position" where
  "next_position ord last' =
     (let p = \<lparr>po_nameAr = [], po_distanceM = 0, po_score = 0, po_branch = li_branch last'\<rparr> in
      case ord of ByDistance \<Rightarrow> p\<lparr>po_distanceM := fo_distanceM last'\<rparr>
      | ByMatch \<Rightarrow> p\<lparr>po_score := fo_score last'\<rparr>
      | ByName \<Rightarrow> p\<lparr>po_nameAr := lt_ar (li_name last')\<rparr>)"

definition Handlers_Search ::
  "unicode \<Rightarrow> (string \<Rightarrow> location) \<Rightarrow> ranked \<Rightarrow> gotime \<Rightarrow> Search \<Rightarrow> Position option \<Rightarrow> discovery_db \<Rightarrow> (discovery_error, SearchPage) result" where
  "Handlers_Search u zone rank now s after db =
     (let f = \<lparr>fl_city = se_city s, fl_text = [], fl_category = se_category s, fl_openNow = se_openNow s, fl_at = now\<rparr> in
      case (if se_text s \<noteq> [] then case ParseQuery u (se_text s) of Inl e \<Rightarrow> Inl e | Inr t \<Rightarrow> Inr (f\<lparr>fl_text := t\<rparr>) else Inr f) of
        Inl e \<Rightarrow> Inl e
      | Inr f \<Rightarrow>
      (case (case (Search_Order s, se_near s) of
           (ByDistance, Some near) \<Rightarrow>
             if nr_radiusM near \<le> 0 \<or> MaxRadiusKm * 1000 < nr_radiusM near then Inl ErrRadius
             else rk_near rank db near f after (PageSize + 1)
         | (ByMatch, _) \<Rightarrow> rk_matching rank db f after (PageSize + 1)
         | _ \<Rightarrow> if se_city s = None then Inl ErrNoPlace else InCity zone db f after (PageSize + 1)) of
         Inl e \<Rightarrow> Inl e
       | Inr found \<Rightarrow>
           if length found \<le> PageSize then Inr \<lparr>sp_found = found, sp_next = None\<rparr>
           else let page = take PageSize found in
             Inr \<lparr>sp_found = page, sp_next = Some (next_position (Search_Order s) (last page))\<rparr>))"

definition Handlers_Branch ::
  "(string \<Rightarrow> location) \<Rightarrow> gotime \<Rightarrow> BranchID \<Rightarrow> discovery_db \<Rightarrow> (discovery_error, BranchPage) result" where
  "Handlers_Branch zone now branch db = Listings_Page zone db branch now"

end
