(* ===== verification/Copies.thy ===== *)
theory Copies
  imports Discovery
begin

text \<open>
  What discovery's copies promise. Events are delivered at least once and in any order; the locale
  \<open>newest_copies\<close> states what a table of copies relies on, and is interpreted on the three tables. The
  other properties are about browsing: pages show every branch of a city once, and a branch's page is
  there exactly when browsing shows the branch.
\<close>

section \<open>Keeping the newest\<close>

lemma find_first_map_keyed:
  assumes "\<And>x. key (f x) = key x"
  shows "find_first (\<lambda>r. key r = k) (map f rows) = map_option f (find_first (\<lambda>r. key r = k) rows)"
  using assms by (induction rows) auto

lemma keep_newest_lookup:
  "find_first (\<lambda>r. key r = k) (snd (keep_newest key version row rows)) =
     (if key row = k
      then case find_first (\<lambda>r. key r = k) rows of None \<Rightarrow> Some row | Some old \<Rightarrow> Some (if version old < version row then row else old)
      else find_first (\<lambda>r. key r = k) rows)"
proof (cases "find_first (\<lambda>r. key r = key row) rows")
  case None
  then show ?thesis by (auto simp: keep_newest_def find_first_append split: option.splits)
next
  case (Some old)
  have "key (if key r = key row then row else r) = key r" for r by simp
  note m = find_first_map_keyed [where f = "\<lambda>r. if key r = key row then row else r" and key = key, OF this]
  have "key r = k" if "find_first (\<lambda>r. key r = k) rows = Some r" for r using find_first_Some [OF that] by simp
  then show ?thesis using Some m [of k rows] by (auto simp: keep_newest_def split: option.splits)
qed

lemma keep_newest_distinct:
  assumes "distinct (map key rows)"
  shows "distinct (map key (snd (keep_newest key version row rows)))"
proof (cases "find_first (\<lambda>r. key r = key row) rows")
  case None
  then show ?thesis using assms None [unfolded find_first_None_iff] by (auto simp: keep_newest_def)
next
  case (Some old)
  have "key \<circ> (\<lambda>r. if key r = key row then row else r) = key" by auto
  then show ?thesis using Some assms by (simp add: keep_newest_def)
qed

lemma keep_newest_set: "set (snd (keep_newest key version row rows)) \<subseteq> insert row (set rows)"
  by (auto simp: keep_newest_def split: option.splits)

text \<open>A table of copies: delivering an event either leaves the table alone or offers it one row.\<close>

locale newest_copies =
  fixes deliver :: "'e \<Rightarrow> 'db \<Rightarrow> 'db"
    and table :: "'db \<Rightarrow> 'row list"
    and copy :: "'e \<Rightarrow> 'row option"
    and key :: "'row \<Rightarrow> uuid"
    and version :: "'row \<Rightarrow> int"
  assumes deliver_table: "table (deliver e db) = (case copy e of None \<Rightarrow> table db | Some r \<Rightarrow> snd (keep_newest key version r (table db)))"
begin

abbreviation after :: "'db \<Rightarrow> 'e list \<Rightarrow> 'db" where
  "after db es \<equiv> foldl (\<lambda>db e. deliver e db) db es"

abbreviation lookup :: "'db \<Rightarrow> uuid \<Rightarrow> 'row option" where
  "lookup db k \<equiv> find_first (\<lambda>r. key r = k) (table db)"

lemma distinct_keys: "distinct (map key (table db)) \<Longrightarrow> distinct (map key (table (after db es)))"
  by (induction es arbitrary: db) (auto simp: deliver_table keep_newest_distinct split: option.splits)

lemma rows_are_copies: "r \<in> set (table (after db es)) \<Longrightarrow> r \<in> set (table db) \<or> (\<exists>e \<in> set es. copy e = Some r)"
proof (induction es arbitrary: db)
  case (Cons e es)
  have "set (table (deliver e db)) \<subseteq> set (table db) \<union> {r. copy e = Some r}"
    using keep_newest_set [of key version] by (auto simp: deliver_table split: option.splits)
  then show ?case using Cons by auto
qed simp

lemma lookup_snoc:
  "lookup (after db (es @ [e])) k = (case copy e of None \<Rightarrow> lookup (after db es) k
     | Some row \<Rightarrow> if key row = k then (case lookup (after db es) k of None \<Rightarrow> Some row
         | Some old \<Rightarrow> Some (if version old < version row then row else old)) else lookup (after db es) k)"
  by (simp add: deliver_table keep_newest_lookup split: option.splits)

lemma lookup_none:
  assumes "table db = []"
  shows "lookup (after db es) k = None \<longleftrightarrow> (\<forall>e \<in> set es. \<forall>r. copy e = Some r \<longrightarrow> key r \<noteq> k)"
proof (induction es rule: rev_induct)
  case Nil
  then show ?case using assms by simp
next
  case (snoc e es)
  then show ?case unfolding lookup_snoc by (auto split: option.splits)
qed

text \<open>The copy of a key is the newest delivered, and there is one when there was anything to copy.\<close>

lemma lookup_newest:
  assumes "table db = []" "lookup (after db es) k = Some r"
  shows "\<exists>e \<in> set es. copy e = Some r \<and> key r = k
    \<and> (\<forall>e' \<in> set es. \<forall>r'. copy e' = Some r' \<and> key r' = k \<longrightarrow> version r' \<le> version r)"
  using assms(2)
proof (induction es arbitrary: r rule: rev_induct)
  case Nil
  then show ?case using assms(1) by simp
next
  case (snoc e es)
  show ?case
  proof (cases "lookup (after db es) k")
    case None
    then have "\<forall>e' \<in> set es. \<forall>r'. copy e' = Some r' \<longrightarrow> key r' \<noteq> k" by (simp only: lookup_none [OF assms(1)])
    then show ?thesis using None snoc.prems unfolding lookup_snoc by (auto split: option.splits if_splits)
  next
    case (Some old)
    from snoc.IH [OF Some] obtain e0 where "e0 \<in> set es" "copy e0 = Some old" "key old = k"
      "\<forall>e' \<in> set es. \<forall>r'. copy e' = Some r' \<and> key r' = k \<longrightarrow> version r' \<le> version old" by blast
    then show ?thesis using Some snoc.prems unfolding lookup_snoc by (fastforce split: option.splits if_splits)
  qed
qed

text \<open>Versions that identify copies make the order and the number of deliveries irrelevant.\<close>

lemma lookup_converges:
  assumes "table db = []" "table db' = []" "set es = set es'"
    and same: "\<And>e e' r r'. e \<in> set es \<Longrightarrow> e' \<in> set es \<Longrightarrow> copy e = Some r \<Longrightarrow> copy e' = Some r' \<Longrightarrow> key r = key r' \<Longrightarrow> version r = version r'
      \<Longrightarrow> r = r'"
  shows "lookup (after db es) k = lookup (after db' es') k"
proof (cases "lookup (after db es) k")
  case None
  then have "lookup (after db' es') k = None" using lookup_none [OF assms(1)] lookup_none [OF assms(2)] assms(3) by blast
  then show ?thesis using None by simp
next
  case (Some r)
  then have "lookup (after db' es') k \<noteq> None" using lookup_none [OF assms(1)] lookup_none [OF assms(2)] assms(3) by (metis option.distinct(1))
  then obtain r' where r': "lookup (after db' es') k = Some r'" by auto
  from lookup_newest [OF assms(1) Some] obtain e where e: "e \<in> set es" "copy e = Some r" "key r = k"
    "\<And>e' r'. e' \<in> set es \<Longrightarrow> copy e' = Some r' \<Longrightarrow> key r' = k \<Longrightarrow> version r' \<le> version r" by blast
  from lookup_newest [OF assms(2) r'] obtain e' where e': "e' \<in> set es" "copy e' = Some r'" "key r' = k"
    "\<And>d r. d \<in> set es \<Longrightarrow> copy d = Some r \<Longrightarrow> key r = k \<Longrightarrow> version r \<le> version r'" unfolding assms(3) [symmetric] by blast
  have "version r = version r'" using e(4) [OF e'(1-3)] e'(4) [OF e(1-3)] by simp
  then show ?thesis using same [OF e(1) e'(1) e(2) e'(2)] e(3) e'(3) Some r' by simp
qed

end

section \<open>The three tables\<close>

datatype news = AboutBranch BranchNews | AboutService ServiceNews | AboutHours WeekCopy

fun deliver :: "unicode \<Rightarrow> news \<Rightarrow> discovery_db \<Rightarrow> discovery_db" where
  "deliver u (AboutBranch b) db = snd (KeepBranch u b db)"
| "deliver u (AboutService s) db = snd (KeepService s db)"
| "deliver u (AboutHours h) db = snd (Handlers_KeepHours h db)"

definition delivered_all :: "unicode \<Rightarrow> news list \<Rightarrow> discovery_db" where
  "delivered_all u ns = foldl (\<lambda>db n. deliver u n db) empty_discovery ns"

text \<open>The row an event offers: what a first delivery would store.\<close>

definition offered_row :: "(discovery_db \<Rightarrow> 'row list) \<Rightarrow> unicode \<Rightarrow> news \<Rightarrow> 'row option" where
  "offered_row table u n = (case table (deliver u n empty_discovery) of [] \<Rightarrow> None | r # _ \<Rightarrow> Some r)"

lemma snd_failed [simp]: "snd (failed r) = snd r"
  by (cases r) (auto simp: failed_def split: sum.splits)

lemma deliver_listings:
  "dd_listings (deliver u n db) = (case offered_row dd_listings u n of None \<Rightarrow> dd_listings db
     | Some r \<Rightarrow> snd (keep_newest g_branch g_version r (dd_listings db)))"
  by (cases n) (auto simp: offered_row_def KeepBranch_def Handlers_Keep_def Listings_Keep_def KeepService_def Handlers_KeepService_def
      Listings_KeepService_def Handlers_KeepHours_def Listings_KeepHours_def empty_discovery_def keep_newest_def Let_def
      split: sum.splits prod.splits option.splits)

lemma deliver_services:
  "dd_services (deliver u n db) = (case offered_row dd_services u n of None \<Rightarrow> dd_services db
     | Some r \<Rightarrow> snd (keep_newest k_service k_version r (dd_services db)))"
  by (cases n) (auto simp: offered_row_def KeepBranch_def Handlers_Keep_def Listings_Keep_def KeepService_def Handlers_KeepService_def
      Listings_KeepService_def Handlers_KeepHours_def Listings_KeepHours_def empty_discovery_def keep_newest_def Let_def
      split: sum.splits prod.splits option.splits)

lemma deliver_hours:
  "dd_hours (deliver u n db) = (case offered_row dd_hours u n of None \<Rightarrow> dd_hours db
     | Some r \<Rightarrow> snd (keep_newest o_branch o_version r (dd_hours db)))"
  by (cases n) (auto simp: offered_row_def KeepBranch_def Handlers_Keep_def Listings_Keep_def KeepService_def Handlers_KeepService_def
      Listings_KeepService_def Handlers_KeepHours_def Listings_KeepHours_def empty_discovery_def keep_newest_def Let_def
      split: sum.splits prod.splits option.splits)

interpretation listings: newest_copies "deliver u" dd_listings "offered_row dd_listings u" g_branch g_version for u
  by unfold_locales (rule deliver_listings)

interpretation services: newest_copies "deliver u" dd_services "offered_row dd_services u" k_service k_version for u
  by unfold_locales (rule deliver_services)

interpretation hours: newest_copies "deliver u" dd_hours "offered_row dd_hours u" o_branch o_version for u
  by unfold_locales (rule deliver_hours)

definition same_copies :: "discovery_db \<Rightarrow> discovery_db \<Rightarrow> bool" where
  "same_copies db db' \<longleftrightarrow>
     (\<forall>k. find_first (\<lambda>r. g_branch r = k) (dd_listings db) = find_first (\<lambda>r. g_branch r = k) (dd_listings db'))
     \<and> (\<forall>k. find_first (\<lambda>r. k_service r = k) (dd_services db) = find_first (\<lambda>r. k_service r = k) (dd_services db'))
     \<and> (\<forall>k. find_first (\<lambda>r. o_branch r = k) (dd_hours db) = find_first (\<lambda>r. o_branch r = k) (dd_hours db'))"

text \<open>What the sources promise: two events about the same thing with the same version say the same.\<close>

definition versions_identify :: "unicode \<Rightarrow> news set \<Rightarrow> bool" where
  "versions_identify u ns \<longleftrightarrow>
     (\<forall>n \<in> ns. \<forall>n' \<in> ns. \<forall>r r'. offered_row dd_listings u n = Some r \<and> offered_row dd_listings u n' = Some r'
        \<and> g_branch r = g_branch r' \<and> g_version r = g_version r' \<longrightarrow> r = r')
     \<and> (\<forall>n \<in> ns. \<forall>n' \<in> ns. \<forall>r r'. offered_row dd_services u n = Some r \<and> offered_row dd_services u n' = Some r'
        \<and> k_service r = k_service r' \<and> k_version r = k_version r' \<longrightarrow> r = r')
     \<and> (\<forall>n \<in> ns. \<forall>n' \<in> ns. \<forall>r r'. offered_row dd_hours u n = Some r \<and> offered_row dd_hours u n' = Some r'
        \<and> o_branch r = o_branch r' \<and> o_version r = o_version r' \<longrightarrow> r = r')"

lemma empty_tables [simp]: "dd_listings empty_discovery = []" "dd_services empty_discovery = []" "dd_hours empty_discovery = []"
  by (simp_all add: empty_discovery_def)

text \<open>C37: However often and in whatever order the same events are delivered, discovery ends with the same copies of every
  branch, service and week, provided that the version of an event identifies what it says; and the copy of
  a service is the newest one delivered.\<close>

theorem copies_converge:
  assumes "set ns = set ns'" "versions_identify u (set ns)"
  shows "same_copies (delivered_all u ns) (delivered_all u ns')
    \<and> (\<forall>r \<in> set (dd_services (delivered_all u ns)). \<forall>n \<in> set ns. \<forall>q. offered_row dd_services u n = Some q \<and> k_service q = k_service r
         \<longrightarrow> k_version q \<le> k_version r)"
proof (intro conjI ballI allI impI)
  note V = assms(2) [unfolded versions_identify_def]
  show "same_copies (delivered_all u ns) (delivered_all u ns')"
    unfolding same_copies_def delivered_all_def
    by (intro conjI allI listings.lookup_converges services.lookup_converges hours.lookup_converges empty_tables assms(1)) (use V in meson)+
next
  fix r n q
  assume r: "r \<in> set (dd_services (delivered_all u ns))" and q: "n \<in> set ns" "offered_row dd_services u n = Some q \<and> k_service q = k_service r"
  have d: "distinct (map k_service (dd_services (delivered_all u ns)))"
    unfolding delivered_all_def by (rule services.distinct_keys) simp
  obtain x where x: "find_first (\<lambda>x. k_service x = k_service r) (dd_services (delivered_all u ns)) = Some x"
    using find_first_is_Some [of r "dd_services (delivered_all u ns)" "\<lambda>x. k_service x = k_service r"] r by auto
  have "x = r" using find_first_Some [OF x] d r by (metis distinct_map inj_onD)
  then show "k_version q \<le> k_version r"
    using services.lookup_newest [OF empty_tables(2) x [unfolded delivered_all_def]] q by blast
qed

section \<open>Browsing a city\<close>

text \<open>A name and a place as the shared constructors make them.\<close>

definition made_text :: "LocalizedText \<Rightarrow> bool" where
  "made_text n \<longleftrightarrow> NewLocalizedText (lt_ar n) (lt_en n) = Inr n"

definition well_made :: "news \<Rightarrow> bool" where
  "well_made n = (case n of AboutBranch b \<Rightarrow> made_text (bw_name b) | AboutService s \<Rightarrow> made_text (vw_name s) | AboutHours _ \<Rightarrow> True)"

definition readable_listing :: "listing_row \<Rightarrow> bool" where
  "readable_listing r \<longleftrightarrow> (\<exists>l. toListing r = Inr l \<and> lt_ar (li_name l) = g_name_ar r \<and> li_branch l = ID (g_branch r))"

lemma coordinates_made:
  assumes "coordinate_ok 90 a" "coordinate_ok 180 b"
  shows "\<exists>p. NewGeoPoint a b = Inr p"
  using assms by (auto simp: coordinate_ok_def NewGeoPoint_def isFinite_def split: float64.splits)

lemma offered_listing_readable:
  assumes "offered_row dd_listings u n = Some r" "well_made n"
  shows "readable_listing r"
proof (cases n)
  case (AboutBranch b)
  have n: "NewLocalizedText (lt_ar (bw_name b)) (lt_en (bw_name b)) = Inr (bw_name b)"
    using assms(2) AboutBranch by (simp add: well_made_def made_text_def)
  obtain c where c: "ParseCity (bw_city b) = Inr c" using assms(1) AboutBranch
    by (cases "ParseCity (bw_city b)") (auto simp: offered_row_def KeepBranch_def)
  have r: "listing_ok r" "g_branch r = id_value (bw_branch b)" "g_name_ar r = lt_ar (bw_name b)" "g_name_en r = lt_en (bw_name b)" "g_city r = city_code c"
    using assms(1) AboutBranch c
    by (auto simp: offered_row_def KeepBranch_def Handlers_Keep_def Listings_Keep_def keep_newest_def Let_def
        split: sum.splits if_splits option.splits)
  obtain p where "NewGeoPoint (g_lat r) (g_lng r) = Inr p" using coordinates_made r(1) by (auto simp: listing_ok_def)
  moreover have "ParseCity (city_code c) = Inr c" using ParseCity_Inr [OF c] c by simp
  ultimately show ?thesis using n r by (simp add: readable_listing_def toListing_def IDFromUUID_def)
qed (use assms in \<open>auto simp: offered_row_def KeepService_def Handlers_KeepService_def Listings_KeepService_def Handlers_KeepHours_def
      Listings_KeepHours_def Let_def split: sum.splits prod.splits if_splits\<close>)

lemma listings_readable:
  assumes "list_all well_made ns" "r \<in> set (dd_listings (delivered_all u ns))"
  shows "readable_listing r"
  using listings.rows_are_copies [OF assms(2) [unfolded delivered_all_def]] offered_listing_readable assms(1) by (auto simp: list_all_iff)

text \<open>The branches a customer should see, in the order they are shown.\<close>

definition shown :: "(string \<Rightarrow> location) \<Rightarrow> discovery_db \<Rightarrow> City \<Rightarrow> Category option \<Rightarrow> bool \<Rightarrow> gotime \<Rightarrow> listing_row list" where
  "shown zone db c cat openOnly now =
     sort_key (\<lambda>l. (g_name_ar l, g_branch l))
       (filter (\<lambda>l. g_listed l \<and> g_city l = city_code c \<and> (\<not> openOnly \<or> open_now zone db now l)
          \<and> offered_at db (map_option cat_code cat) (g_branch l) \<noteq> []) (dd_listings db))"

text \<open>Following the pages from one position to the last, within a number of requests.\<close>

fun pages :: "nat \<Rightarrow> (Position option \<Rightarrow> (discovery_error, SearchPage) result) \<Rightarrow> Position option \<Rightarrow> Found list option" where
  "pages 0 ask after = None"
| "pages (Suc n) ask after =
     (case ask after of Inl _ \<Rightarrow> None
      | Inr p \<Rightarrow> (case sp_next p of None \<Rightarrow> Some (sp_found p) | Some q \<Rightarrow> map_option ((@) (sp_found p)) (pages n ask (Some q))))"

definition row_key :: "listing_row \<Rightarrow> string \<times> uuid" where
  "row_key l = (g_name_ar l, g_branch l)"

definition found_of :: "(string \<Rightarrow> location) \<Rightarrow> discovery_db \<Rightarrow> Category option \<Rightarrow> gotime \<Rightarrow> listing_row \<Rightarrow> Found" where
  "found_of zone db cat now l = projr (toFound (l, least_price (offered_at db (map_option cat_code cat) (g_branch l)), open_now zone db now l))"

lemma found_of_fields:
  assumes "readable_listing l"
  shows "toFound (l, least_price (offered_at db (map_option cat_code cat) (g_branch l)), open_now zone db now l) = Inr (found_of zone db cat now l)"
    "li_branch (found_of zone db cat now l) = ID (g_branch l)" "lt_ar (li_name (found_of zone db cat now l)) = g_name_ar l"
  using assms by (auto simp: readable_listing_def toFound_def found_of_def Listing.defs)

lemma each_found:
  assumes "\<And>l. l \<in> set rows \<Longrightarrow> readable_listing l"
  shows "each toFound (map (\<lambda>l. (l, least_price (offered_at db (map_option cat_code cat) (g_branch l)), open_now zone db now l)) rows)
    = Inr (map (found_of zone db cat now) rows)"
  using assms by (induction rows) (simp_all add: found_of_fields)

lemma InCity_rows:
  assumes "\<And>l. l \<in> set (dd_listings db) \<Longrightarrow> readable_listing l" "fl_city f = Some c"
    "map_option (\<lambda>p. (po_nameAr p, id_value (po_branch p))) after = k"
  shows "InCity zone db f after 21 = Inr (map (found_of zone db (fl_category f) (fl_at f))
     (take 21 (filter (\<lambda>l. case k of None \<Rightarrow> True | Some p \<Rightarrow> p < row_key l) (shown zone db c (fl_category f) (fl_openNow f) (fl_at f)))))"
proof -
  let ?L = "shown zone db c (fl_category f) (fl_openNow f) (fl_at f)"
  let ?rows = "take 21 (filter (\<lambda>l. case k of None \<Rightarrow> True | Some p \<Rightarrow> p < row_key l) ?L)"
  have q: "ListingsInCity zone db (city_code c) (map_option cat_code (fl_category f)) (fl_at f) (fl_openNow f) k 21 =
    map (\<lambda>l. (l, least_price (offered_at db (map_option cat_code (fl_category f)) (g_branch l)), open_now zone db (fl_at f) l)) ?rows"
    unfolding ListingsInCity_def shown_def row_key_def filter_sort filter_filter by (simp add: conj_ac)
  have "readable_listing l" if "l \<in> set ?rows" for l using that assms(1) by (auto simp: shown_def dest: in_set_takeD)
  from each_found [OF this, of ?rows] show ?thesis using assms(2,3) q by (simp add: InCity_def disc_toInt32_def)
qed

lemma shown_strict:
  assumes "distinct (map g_branch (dd_listings db))"
  shows "sorted_wrt (<) (map row_key (shown zone db c cat openOnly now))"
proof -
  let ?L = "shown zone db c cat openOnly now"
  have "distinct (map g_branch ?L)"
    using assms by (auto simp: shown_def distinct_map intro: inj_on_subset)
  then have "distinct (map row_key ?L)" by (auto simp: row_key_def distinct_map inj_on_def)
  moreover have "sorted (map row_key ?L)" unfolding shown_def row_key_def by (rule sorted_sort_key)
  ultimately show ?thesis by (simp add: strict_sorted_iff)
qed

lemma filter_after_prefix:
  fixes k :: "'a \<Rightarrow> 'b :: linorder"
  assumes "sorted_wrt (<) (map k (xs @ ys))" "xs \<noteq> []"
  shows "filter (\<lambda>x. k (last xs) < k x) (xs @ ys) = ys"
proof -
  have "\<not> k (last xs) < k x" if x: "x \<in> set xs" for x
  proof -
    obtain i where i: "i < length xs" "xs ! i = x" using x by (metis in_set_conv_nth)
    have "sorted_wrt (<) (map k xs)" using assms(1) unfolding map_append sorted_wrt_append by blast
    then have "sorted (map k xs)" by (rule strict_sorted_imp_sorted)
    then have "map k xs ! i \<le> map k xs ! (length xs - 1)" using i by (intro sorted_nth_mono) auto
    then show ?thesis using i assms(2) by (simp add: last_conv_nth)
  qed
  moreover have "k (last xs) < k y" if "y \<in> set ys" for y using assms that by (auto simp: sorted_wrt_append)
  ultimately show ?thesis by (simp add: filter_empty_conv filter_id_conv)
qed

lemma last_page: "20 < length xs \<Longrightarrow> last (take 20 xs) = xs ! 19"
  by (subst last_conv_nth) auto

lemma browse_page:
  assumes "\<And>l. l \<in> set (dd_listings db) \<Longrightarrow> readable_listing l" "se_near s = None" "se_text s = []" "se_city s = Some c"
    "filter (\<lambda>l. case map_option (\<lambda>p. (po_nameAr p, id_value (po_branch p))) after of None \<Rightarrow> True | Some p \<Rightarrow> p < row_key l)
       (shown zone db c (se_category s) (se_openNow s) now) = rest"
  shows "Handlers_Search u zone rank now s after db =
    Inr (if length rest \<le> 20 then \<lparr>sp_found = map (found_of zone db (se_category s) now) rest, sp_next = None\<rparr>
      else \<lparr>sp_found = map (found_of zone db (se_category s) now) (take 20 rest),
             sp_next = Some \<lparr>po_nameAr = g_name_ar (rest ! 19), po_distanceM = 0, po_score = 0, po_branch = ID (g_branch (rest ! 19))\<rparr>\<rparr>)"
proof -
  let ?f = "\<lparr>fl_city = se_city s, fl_text = [], fl_category = se_category s, fl_openNow = se_openNow s, fl_at = now\<rparr>"
  have page: "InCity zone db ?f after 21 = Inr (map (found_of zone db (se_category s) now) (take 21 rest))"
    using InCity_rows [OF assms(1), of db ?f c after _ zone] assms(4,5) by simp
  have ord: "Search_Order s = ByName" using assms(2,3) by (simp add: Search_Order_def)
  have last: "last (map (found_of zone db (se_category s) now) (take 20 rest)) = found_of zone db (se_category s) now (rest ! 19)"
    if "\<not> length rest \<le> 20"
    using that last_page [of rest] by (subst last_map) auto
  have r: "readable_listing (rest ! 19)" if "\<not> length rest \<le> 20"
  proof -
    have "rest ! 19 \<in> set rest" using that by (intro nth_mem) simp
    then have "rest ! 19 \<in> set (dd_listings db)" unfolding assms(5) [symmetric] shown_def by auto
    then show ?thesis by (rule assms(1))
  qed
  show ?thesis
    using page last found_of_fields(2,3) [OF r] assms(2-4) ord
    by (auto simp: Handlers_Search_def Let_def PageSize_def next_position_def take_map min_def)
qed

lemma pages_rest:
  assumes readable: "\<And>l. l \<in> set (dd_listings db) \<Longrightarrow> readable_listing l" and s: "se_near s = None" "se_text s = []" "se_city s = Some c"
    and d: "distinct (map g_branch (dd_listings db))"
    and rest: "shown zone db c (se_category s) (se_openNow s) now = seen @ rest"
      "filter (\<lambda>l. case map_option (\<lambda>p. (po_nameAr p, id_value (po_branch p))) after of None \<Rightarrow> True | Some p \<Rightarrow> p < row_key l)
         (seen @ rest) = rest"
    and n: "length rest < n"
  shows "pages n (\<lambda>a. Handlers_Search u zone rank now s a db) after = Some (map (found_of zone db (se_category s) now) rest)"
  using rest n
proof (induction n arbitrary: after seen rest)
  case (Suc n)
  have page: "Handlers_Search u zone rank now s after db =
    Inr (if length rest \<le> 20 then \<lparr>sp_found = map (found_of zone db (se_category s) now) rest, sp_next = None\<rparr>
      else \<lparr>sp_found = map (found_of zone db (se_category s) now) (take 20 rest),
             sp_next = Some \<lparr>po_nameAr = g_name_ar (rest ! 19), po_distanceM = 0, po_score = 0, po_branch = ID (g_branch (rest ! 19))\<rparr>\<rparr>)"
    by (rule browse_page [OF readable s]) (use Suc.prems(1,2) in simp_all)
  show ?case
  proof (cases "length rest \<le> 20")
    case True
    then show ?thesis using page by simp
  next
    case False
    let ?after = "\<lparr>po_nameAr = g_name_ar (rest ! 19), po_distanceM = 0, po_score = 0, po_branch = ID (g_branch (rest ! 19))\<rparr>"
    have l: "last (seen @ take 20 rest) = rest ! 19" "seen @ take 20 rest \<noteq> []"
      using False last_page [of rest] by (auto simp: last_append)
    have k: "(g_name_ar (rest ! 19), g_branch (rest ! 19)) = row_key (last (seen @ take 20 rest))" by (simp add: l(1) row_key_def)
    have "sorted_wrt (<) (map row_key ((seen @ take 20 rest) @ drop 20 rest))"
      using shown_strict [OF d, of zone c "se_category s" "se_openNow s" now] Suc.prems(1) by simp
    note f = filter_after_prefix [OF this l(2)]
    have "pages n (\<lambda>a. Handlers_Search u zone rank now s a db) (Some ?after) = Some (map (found_of zone db (se_category s) now) (drop 20 rest))"
      using Suc.IH [of "seen @ take 20 rest" "drop 20 rest" "Some ?after"] Suc.prems(1,3) f k False by simp
    then show ?thesis using page False by (simp flip: map_append)
  qed
qed simp

text \<open>C38: While the copies do not change, a customer who browses a city and follows the pages to the end sees exactly the
  published branches of the city that offer a service (of the chosen kind, open now if asked), by Arabic
  name, each once, in at most one request more than there are branches.\<close>

theorem pages_show_every_branch_once:
  assumes "list_all well_made ns" "se_near s = None" "se_text s = []" "se_city s = Some c" and db_def: "db = delivered_all u ns"
  shows "\<exists>found. pages (length (dd_listings db) + 1) (\<lambda>a. Handlers_Search u zone rank now s a db) None = Some found
    \<and> map li_branch found = map (ID \<circ> g_branch) (shown zone db c (se_category s) (se_openNow s) now) \<and> distinct (map li_branch found)"
proof -
  let ?L = "shown zone db c (se_category s) (se_openNow s) now"
  have readable: "readable_listing l" if "l \<in> set (dd_listings db)" for l using listings_readable [OF assms(1)] that by (simp add: db_def)
  have d: "distinct (map g_branch (dd_listings db))" unfolding db_def delivered_all_def by (rule listings.distinct_keys) simp
  have "length ?L < length (dd_listings db) + 1" by (simp add: shown_def le_imp_less_Suc)
  then have p: "pages (length (dd_listings db) + 1) (\<lambda>a. Handlers_Search u zone rank now s a db) None
      = Some (map (found_of zone db (se_category s) now) ?L)"
    by (intro pages_rest [OF readable assms(2-4) d, where seen = "[]"]) simp_all
  have b: "map li_branch (map (found_of zone db (se_category s) now) ?L) = map (ID \<circ> g_branch) ?L"
    using readable by (auto simp: shown_def found_of_fields(2))
  have "distinct (map row_key ?L)" using shown_strict [OF d] by (simp add: strict_sorted_iff)
  then have "distinct (map (ID \<circ> g_branch) ?L)" using d by (auto simp: shown_def distinct_map inj_on_def)
  then show ?thesis using p b by (intro exI [of _ "map (found_of zone db (se_category s) now) ?L"]) (simp only: simp_thms)
qed

section \<open>A run\<close>

definition ascii :: unicode where
  "ascii = \<lparr>un_mark = (\<lambda>_. False), un_letter = (\<lambda>r. 97 \<le> r \<and> r \<le> 122 \<or> 65 \<le> r \<and> r \<le> 90), un_digit = (\<lambda>r. 48 \<le> r \<and> r \<le> 57),
     un_lower = (\<lambda>r. if 65 \<le> r \<and> r \<le> 90 then r + 32 else r)\<rparr>"

definition sample_news :: BranchNews where
  "sample_news = \<lparr>bw_business = ID 10, bw_branch = ID 30, bw_version = 2, bw_published = True, bw_name = \<lparr>lt_ar = ''Main'', lt_en = []\<rparr>,
     bw_city = ''riyadh'', bw_district = [], bw_address = ''King Rd'', bw_location = \<lparr>geo_lat = Fin 24, geo_lng = Fin 46\<rparr>, bw_phone = [],
     bw_timezone = ''Asia/Riyadh'', bw_at = 0\<rparr>"

definition sample_service_news :: ServiceNews where
  "sample_service_news = \<lparr>vw_business = ID 10, vw_branch = ID 30, vw_service = ID 70, vw_version = 2, vw_offered = True, vw_category = ''haircut'',
     vw_name = \<lparr>lt_ar = ''Cut'', lt_en = []\<rparr>, vw_duration = 30 * minute, vw_priceFrom = Halalas 5000, vw_sortOrder = 1, vw_at = 0\<rparr>"

definition moved_news :: BranchNews where
  "moved_news = sample_news\<lparr>bw_version := 3, bw_address := ''Olaya''\<rparr>"

definition sample_feed :: "news list" where
  "sample_feed = [AboutService sample_service_news, AboutBranch moved_news, AboutBranch sample_news]"

definition sample_row :: "int \<Rightarrow> string \<Rightarrow> listing_row" where
  "sample_row v address = \<lparr>g_branch = 30, g_business = 10, g_version = v, g_listed = True, g_name_ar = ''Main'', g_name_en = [], g_city = ''riyadh'',
     g_district = [], g_address = address, g_lat = Fin 24, g_lng = Fin 46, g_phone = [], g_timezone = ''Asia/Riyadh'', g_updated_at = 0,
     g_search_text = ''main''\<rparr>"

definition sample_service_row :: listed_service_row where
  "sample_service_row = \<lparr>k_service = 70, k_branch = 30, k_business = 10, k_version = 2, k_offered = True, k_category = ''haircut'',
     k_price_from = 5000, k_updated_at = 0, k_name_ar = ''Cut'', k_name_en = [], k_minutes = 30, k_sort_order = 1\<rparr>"

lemma sample_rows:
  "offered_row dd_listings ascii (AboutBranch moved_news) = Some (sample_row 3 ''Olaya'')"
  "offered_row dd_listings ascii (AboutBranch sample_news) = Some (sample_row 2 ''King Rd'')"
  "offered_row dd_listings ascii (AboutService sample_service_news) = None"
  "offered_row dd_services ascii (AboutBranch moved_news) = None" "offered_row dd_services ascii (AboutBranch sample_news) = None"
  "offered_row dd_services ascii (AboutService sample_service_news) = Some sample_service_row"
  "offered_row dd_hours ascii (AboutBranch moved_news) = None" "offered_row dd_hours ascii (AboutBranch sample_news) = None"
  "offered_row dd_hours ascii (AboutService sample_service_news) = None"
  by code_simp+

lemma sample_tables:
  "dd_listings (delivered_all ascii sample_feed) = [sample_row 3 ''Olaya'']" "dd_services (delivered_all ascii sample_feed) = [sample_service_row]"
  by (simp_all add: delivered_all_def sample_feed_def deliver_listings deliver_services sample_rows keep_newest_def sample_row_def del: deliver.simps)

theorem copies_converge_witness:
  "same_copies (delivered_all ascii sample_feed) (delivered_all ascii (rev sample_feed @ sample_feed))
   \<and> map g_address (dd_listings (delivered_all ascii sample_feed)) = [''Olaya'']"
proof -
  have "versions_identify ascii (set sample_feed)"
    unfolding versions_identify_def sample_feed_def by (simp add: sample_rows sample_row_def)
  moreover have "set sample_feed = set (rev sample_feed @ sample_feed)" by simp
  ultimately have "same_copies (delivered_all ascii sample_feed) (delivered_all ascii (rev sample_feed @ sample_feed))"
    using copies_converge [THEN conjunct1] by blast
  moreover have "map g_address (dd_listings (delivered_all ascii sample_feed)) = [''Olaya'']" by (simp add: sample_tables sample_row_def)
  ultimately show ?thesis ..
qed

definition browse_riyadh :: Search where
  "browse_riyadh = \<lparr>se_city = Some (city ''riyadh'' [] []), se_near = None, se_text = [], se_category = None, se_openNow = False\<rparr>"

definition no_rank :: ranked where
  "no_rank = \<lparr>rk_near = (\<lambda>_ _ _ _ _. Inl Fault), rk_matching = (\<lambda>_ _ _ _. Inl Fault)\<rparr>"

theorem pages_show_every_branch_once_witness:
  "\<exists>found. pages 2 (\<lambda>a. Handlers_Search ascii (\<lambda>_. utc) no_rank 0 browse_riyadh a (delivered_all ascii sample_feed)) None = Some found
     \<and> map li_branch found = [ID 30]"
proof -
  have "NewLocalizedText ''Main'' [] = Inr \<lparr>lt_ar = ''Main'', lt_en = []\<rparr>" "NewLocalizedText ''Cut'' [] = Inr \<lparr>lt_ar = ''Cut'', lt_en = []\<rparr>"
    by code_simp+
  then have made: "list_all well_made sample_feed"
    by (simp add: sample_feed_def well_made_def made_text_def moved_news_def sample_news_def sample_service_news_def)
  have s: "se_near browse_riyadh = None" "se_text browse_riyadh = []" "se_city browse_riyadh = Some (city ''riyadh'' [] [])"
    "se_category browse_riyadh = None" "se_openNow browse_riyadh = False"
    by (simp_all add: browse_riyadh_def)
  have n: "length (dd_listings (delivered_all ascii sample_feed)) + 1 = 2"
    "map (ID \<circ> g_branch) (shown (\<lambda>_. utc) (delivered_all ascii sample_feed) (city ''riyadh'' [] []) None False 0) = [ID 30]"
    by (simp_all add: sample_tables shown_def offered_at_def sample_row_def sample_service_row_def city_def)
  from pages_show_every_branch_once [OF made s(1-3) refl, of ascii "\<lambda>_. utc" no_rank 0]
  obtain found where f: "pages (length (dd_listings (delivered_all ascii sample_feed)) + 1)
      (\<lambda>a. Handlers_Search ascii (\<lambda>_. utc) no_rank 0 browse_riyadh a (delivered_all ascii sample_feed)) None = Some found"
    "map li_branch found = map (ID \<circ> g_branch) (shown (\<lambda>_. utc) (delivered_all ascii sample_feed) (city ''riyadh'' [] []) None False 0)"
    unfolding s(4,5) by (elim exE conjE)
  show ?thesis by (rule exI [of _ found], rule conjI [OF f(1) [unfolded n(1)] f(2) [unfolded n(2)]])
qed

end
