(* ===== verification/Spec2Isabelle.thy ===== *)
theory Spec2Isabelle
  imports TokenChain Plans Shop Copies
begin

text \<open>
  A model of the barbershop backend and what it keeps.

  \<^bold>\<open>The program.\<close> A Go server for barbershops in Saudi Arabia, one process over one PostgreSQL database, divided
  into modules under \<open>internal/\<close>: \<open>shared\<close> (values every module uses), \<open>iam\<close> (signing in with a code sent to a
  phone, sessions), \<open>business\<close> (companies, their review, branches, staff, invitations), \<open>billing\<close> (plans and trials),
  \<open>catalog\<close> (services and who performs them), \<open>scheduling\<close> (opening hours, schedules, time off, and the times at
  which a person can work), \<open>booking\<close> (free slots, appointments and what happens to them) and \<open>discovery\<close>
  (the copies of branches customers browse). A module is a domain package, use cases, a repository over its own tables
  and a public face; modules ask each other only through adapters, and tell each other of changes by
  events that are delivered at least once and in any order.

  \<^bold>\<open>How it is modelled.\<close> Structs are records, enumerations datatypes, typed ids \<open>'tag id\<close> over a 128-bit word, money
  a 64-bit word; Go's other integers are \<open>int\<close> with \<open>wrap64\<close> where the source can overflow. A Go function that can
  fail returns \<open>('e, 'a) result\<close>, the module's errors being a datatype whose \<open>Fault\<close> stands for every error without
  a name. A table is a list (or a map) of rows, its CHECK constraints a predicate on rows, its keys and exclusion
  constraints branches of the insert. A transaction is a function on the tables that leaves them as they
  were when it fails; locks and \<open>FOR UPDATE\<close> make transactions on the same rows take turns, so a run is a
  sequence of transactions. A use case with several transactions takes what other requests commit in between
  as an argument (\<open>others\<close>), and so do the clock, fresh identifiers, hashes, the time-zone database and the answers of
  other modules (the records \<open>ports\<close>, \<open>access\<close>, \<open>business_ports\<close>, \<open>catalog_access\<close>, \<open>iam_ports\<close>), until the
  theories that compose modules fill them in. An event's payload is the record its JSON encodes (texts are
  valid UTF-8 by then), and Go's sort of equal keys keeps their order.

  \<^bold>\<open>The theories\<close>, by module, in the order they build on each other.
  \<^item> Prelude, GoTime, GoText: results, 64-bit wrap-around, lists and lookups, runs with invariants (locales
    \<open>invariant_system\<close>, \<open>monotone_system\<close>); Go's \<open>time\<close> and text library as far as the program uses them.
  \<^item> Interval, Spans, Shared: \<open>internal/shared\<close>, and the interval algebra of \<open>scheduling/domain/windows.go\<close>
    with its contract as the locale \<open>span_algebra\<close>.
  \<^item> Weekly, Schedule, Windows, ScheduleStore, ScheduleApp: \<open>internal/scheduling\<close>. \<open>WorkingWindows\<close> is exactly the set
    of instants at which the branch is open and the person scheduled, minus closures and time off; nobody is
    scheduled at two branches at once; replacing a schedule never loses an update (locale \<open>versioned_store\<close>,
    interpreted for calendars and schedules).
  \<^item> Availability, Appointment, BookingStore, Expiry, BookingApp, BookingManage: \<open>internal/booking\<close>. \<open>Slots\<close> offers
    exactly the free starts; an appointment moves along its lifecycle; no barber is booked twice at one
    instant; an idempotency key books once; a shown slot can be booked; the expiry job returns and leaves
    nothing due; every interleaving of use cases is a run of store transactions.
  \<^item> Otp, Session, IamStore, IamApp, LoginCodes, TokenChain: \<open>internal/iam\<close>. Codes and guesses are bounded in every
    stretch of time; a login needs the code; a refresh token is exchanged once, and a copy that comes back
    ends the session.
  \<^item> Business, Branch, BusinessStore, BusinessApp, Tenants, Invites, TenantFacts: \<open>internal/business\<close>. Tenants has the
    step relation over all transactions and its invariant; TenantFacts shows that the use cases only take
    those steps, and what follows for owners, reviewers, staff, limits and strangers.
  \<^item> Catalog, CatalogApp, CatalogFacts: \<open>internal/catalog\<close>. The menu is exactly the stored active services; every change
    publishes an event from which others read the service back.
  \<^item> Billing, Plans: \<open>internal/billing\<close> and business over it. One trial per business; no business outgrows the largest plan.
  \<^item> Discovery, Copies: \<open>internal/discovery\<close>. Copies converge to the newest version however events are delivered
    (locale \<open>newest_copies\<close>, interpreted on the three tables); the pages of a city show every branch once.
  \<^item> Composition, Tenancy, Shop: modules over each other, through the adapters of the source. Booking over scheduling: a
    booking lies in the working time of that moment. Scheduling over business: schedules are changed only by
    their shop. Booking over business and catalog: a booking is at a published branch of a reviewed
    business, with an active barber, for active services at the stored price. Business over catalog and scheduling
    (\<open>branchReadiness\<close> of \<open>cmd/server/main.go\<close>): a published branch could be booked. Catalog over business: menus
    are changed only by managers.

  \<^bold>\<open>Fuel and bounds.\<close> \<open>Expirer_Run\<close> is a \<open>partial_function\<close> in the option monad, \<open>None\<close> meaning that it does not return,
  and it is proved to return. The slot grid and the windows loop are functions with a termination measure.
  \<open>pages\<close> follows search pages for a number of requests, and the number of branches plus one is enough. The
  exactness of working windows is for zones without transitions in the stretch considered (\<open>fixed_zone\<close>, as
  Saudi Arabia's); the definitions themselves follow \<open>time.Date\<close> in any zone.

  \<^bold>\<open>Not modelled.\<close> HTTP handlers, which only decode and encode; generated code (\<open>apigen\<close>, \<open>sqlcgen\<close>), whose statements
  are modelled from \<open>queries.sql\<close>; \<open>platform\<close> (configuration, logging, connections, the outbox over the River job
  library); \<open>media\<close> and \<open>notification\<close>, which store files and send messages through outside services; JWT access
  tokens, made and checked by a library; distances and name similarity in discovery's two ranked searches, which
  PostGIS and \<open>pg_trgm\<close> compute. Connection failures and cancelled contexts are left out everywhere: a
  transaction commits or fails.
\<close>

end
